(* ===== verification/Prelude.thy ===== *)
theory Prelude
  imports Main "HOL-Library.Word" "HOL-Library.Monad_Syntax"
begin

text \<open>
  Shared material of the development: the outcome type of operations that may block on a mutex or
  touch invalid memory, pointers and memory cells, and the list and option lemmas the component
  theories use. Named collections: \<open>outcome_simps\<close> (computing with outcomes), \<open>mem_simps\<close>
  (reading and writing memory cells).
\<close>

unbundle bit_operations_syntax

named_theorems outcome_simps
named_theorems mem_simps

section \<open>Pointers and threads\<close>

text \<open>
  An address is a natural number and a C pointer is an optional address: \<open>None\<close> is \<open>NULL\<close>.
  A thread is named by its thread-local storage pointer (\<open>TSRMLS_CACHE\<close>).
\<close>

type_synonym addr = nat
type_synonym ptr = "addr option"
type_synonym tid = nat

section \<open>Outcomes\<close>

text \<open>
  What calling a C function may lead to: it returns (\<open>Ret\<close>), it suspends the calling thread
  because a mutex is held by another thread (\<open>Block\<close>), or it dereferences a pointer that is
  \<open>NULL\<close> or freed (\<open>Fault\<close>).
\<close>

datatype 'a outcome = Ret 'a | Block | Fault

fun obind :: "'a outcome \<Rightarrow> ('a \<Rightarrow> 'b outcome) \<Rightarrow> 'b outcome" where
  "obind (Ret x) f = f x"
| "obind Block f = Block"
| "obind Fault f = Fault"

declare obind.simps [outcome_simps]

fun of_mem :: "'a option \<Rightarrow> 'a outcome" where
  "of_mem (Some x) = Ret x"
| "of_mem None = Fault"

declare of_mem.simps [outcome_simps]

lemma obind_Ret_iff [outcome_simps]: "obind m f = Ret y \<longleftrightarrow> (\<exists>x. m = Ret x \<and> f x = Ret y)"
  by (cases m) auto

lemma obind_assoc: "obind (obind m f) g = obind m (\<lambda>x. obind (f x) g)"
  by (cases m) auto

lemma of_mem_Ret_iff [outcome_simps]: "of_mem m = Ret x \<longleftrightarrow> m = Some x"
  by (cases m) auto

section \<open>Memory cells\<close>

text \<open>
  A heap is a partial map from addresses to structures. \<open>cell_upd\<close> writes a field of an allocated
  structure; on an address that is not allocated it has no result.
\<close>

type_synonym 'c heap = "addr \<Rightarrow> 'c option"

definition cell_upd :: "addr \<Rightarrow> ('c \<Rightarrow> 'c) \<Rightarrow> 'c heap \<Rightarrow> 'c heap option" where
  "cell_upd a f h = (case h a of None \<Rightarrow> None | Some c \<Rightarrow> Some (h(a \<mapsto> f c)))"

lemma cell_upd_alloc [mem_simps]: "h a = Some c \<Longrightarrow> cell_upd a f h = Some (h(a \<mapsto> f c))"
  by (simp add: cell_upd_def)

lemma cell_upd_free [mem_simps]: "h a = None \<Longrightarrow> cell_upd a f h = None"
  by (simp add: cell_upd_def)

lemma cell_upd_SomeD: "cell_upd a f h = Some h' \<Longrightarrow> \<exists>c. h a = Some c \<and> h' = h(a \<mapsto> f c)"
  by (auto simp: cell_upd_def split: option.splits)

lemma cell_upd_other: "cell_upd a f h = Some h' \<Longrightarrow> b \<noteq> a \<Longrightarrow> h' b = h b"
  by (auto dest: cell_upd_SomeD)

section \<open>Words\<close>

lemma and_not_disjoint:
  fixes a b :: "'a::len word"
  assumes "a AND b = 0"
  shows "a AND NOT b = a"
proof (rule bit_word_eqI)
  fix n assume "n < LENGTH('a)"
  have "\<not> bit (a AND b) n" unfolding assms by simp
  then show "bit (a AND NOT b) n = bit a n"
    using \<open>n < LENGTH('a)\<close> by (simp add: bit_and_iff bit_not_iff) blast
qed

end
