(* ===== verification/Monitor.thy ===== *)
theory Monitor
  imports Prelude "HOL-Library.Signed_Division"
begin

text \<open>
  The monitor of src/monitor.c: a word of state flags guarded by a recursive mutex and a condition
  variable. The first part models the POSIX objects the source uses and the functions of the file
  one by one; the second part is a step relation in which any number of threads run
  \<open>pmmpthread_monitor_wait_until\<close>, \<open>pmmpthread_monitor_add\<close> and \<open>pmmpthread_monitor_remove\<close> on one
  monitor, a step per statement; the third part proves mutual exclusion and that no wake-up is lost.
\<close>

section \<open>POSIX objects\<close>

text \<open>
  A recursive mutex has an owner and a count. Locking it blocks while another thread owns it, and
  returns \<open>EAGAIN\<close> when the owner has locked it the maximal number of times. Unlocking it without
  owning it returns \<open>EPERM\<close>. A condition variable is the set of threads that wait on it. The
  implicit unlock of \<open>pthread_cond_wait\<close> gives back one level of a recursive mutex.
\<close>

record pthread_mutex =
  mx_owner :: "tid option"
  mx_count :: nat
  mx_max :: nat

definition EPERM :: int where "EPERM = 1"
definition EAGAIN :: int where "EAGAIN = 11"

definition pthread_mutex_lock :: "tid \<Rightarrow> pthread_mutex \<Rightarrow> (int \<times> pthread_mutex) outcome" where
  "pthread_mutex_lock t mx =
     (case mx_owner mx of
        None \<Rightarrow> Ret (0, mx\<lparr>mx_owner := Some t, mx_count := 1\<rparr>)
      | Some u \<Rightarrow>
          if u \<noteq> t then Block
          else if mx_count mx < mx_max mx then Ret (0, mx\<lparr>mx_count := mx_count mx + 1\<rparr>)
          else Ret (EAGAIN, mx))"

definition pthread_mutex_unlock :: "tid \<Rightarrow> pthread_mutex \<Rightarrow> int \<times> pthread_mutex" where
  "pthread_mutex_unlock t mx =
     (if mx_owner mx = Some t then
        (0, if mx_count mx \<le> 1 then mx\<lparr>mx_owner := None, mx_count := 0\<rparr>
            else mx\<lparr>mx_count := mx_count mx - 1\<rparr>)
      else (EPERM, mx))"

section \<open>The monitor (src/monitor.h, src/monitor.c)\<close>

type_synonym pmmpthread_monitor_state_t = "64 word"

record pmmpthread_monitor_t =
  mon_state :: pmmpthread_monitor_state_t
  mon_mutex :: pthread_mutex
  mon_cond :: "tid set"

definition PMMPTHREAD_MONITOR_NOTHING :: pmmpthread_monitor_state_t where
  "PMMPTHREAD_MONITOR_NOTHING = 0"
definition PMMPTHREAD_MONITOR_STARTED :: pmmpthread_monitor_state_t where
  "PMMPTHREAD_MONITOR_STARTED = push_bit 0 1"
definition PMMPTHREAD_MONITOR_RUNNING :: pmmpthread_monitor_state_t where
  "PMMPTHREAD_MONITOR_RUNNING = push_bit 1 1"
definition PMMPTHREAD_MONITOR_JOINED :: pmmpthread_monitor_state_t where
  "PMMPTHREAD_MONITOR_JOINED = push_bit 2 1"
definition PMMPTHREAD_MONITOR_ERROR :: pmmpthread_monitor_state_t where
  "PMMPTHREAD_MONITOR_ERROR = push_bit 3 1"
definition PMMPTHREAD_MONITOR_READY :: pmmpthread_monitor_state_t where
  "PMMPTHREAD_MONITOR_READY = push_bit 4 1"
definition PMMPTHREAD_MONITOR_COLLECT_GARBAGE :: pmmpthread_monitor_state_t where
  "PMMPTHREAD_MONITOR_COLLECT_GARBAGE = push_bit 5 1"
definition PMMPTHREAD_MONITOR_EXIT :: pmmpthread_monitor_state_t where
  "PMMPTHREAD_MONITOR_EXIT = push_bit 6 1"
definition PMMPTHREAD_MONITOR_AWAIT_JOIN :: pmmpthread_monitor_state_t where
  "PMMPTHREAD_MONITOR_AWAIT_JOIN = push_bit 7 1"

lemmas monitor_flag_defs =
  PMMPTHREAD_MONITOR_NOTHING_def PMMPTHREAD_MONITOR_STARTED_def PMMPTHREAD_MONITOR_RUNNING_def
  PMMPTHREAD_MONITOR_JOINED_def PMMPTHREAD_MONITOR_ERROR_def PMMPTHREAD_MONITOR_READY_def
  PMMPTHREAD_MONITOR_COLLECT_GARBAGE_def PMMPTHREAD_MONITOR_EXIT_def
  PMMPTHREAD_MONITOR_AWAIT_JOIN_def

text \<open>
  The two POSIX initialisers may fail; their return values are arguments. On a failure the source
  passes the monitor to \<open>free\<close>, which the result \<open>None\<close> records. \<open>lim\<close> is the platform's
  limit on recursive locks.
\<close>

definition pmmpthread_monitor_init ::
  "nat \<Rightarrow> int \<Rightarrow> int \<Rightarrow> bool \<times> pmmpthread_monitor_t option"
where
  "pmmpthread_monitor_init lim mutex_ret cond_ret =
     (if mutex_ret \<noteq> 0 then (False, None)
      else if cond_ret \<noteq> 0 then (False, None)
      else (True, Some \<lparr>mon_state = 0,
                        mon_mutex = \<lparr>mx_owner = None, mx_count = 0, mx_max = lim\<rparr>,
                        mon_cond = {}\<rparr>))"

text \<open>Destroying a mutex that is held, or a condition variable with waiters, is undefined.\<close>

definition pmmpthread_monitor_destroy :: "pmmpthread_monitor_t \<Rightarrow> unit outcome" where
  "pmmpthread_monitor_destroy m =
     (if mx_owner (mon_mutex m) = None \<and> mon_cond m = {} then Ret () else Fault)"

definition pmmpthread_monitor_lock ::
  "tid \<Rightarrow> pmmpthread_monitor_t \<Rightarrow> (bool \<times> pmmpthread_monitor_t) outcome"
where
  "pmmpthread_monitor_lock t m =
     obind (pthread_mutex_lock t (mon_mutex m)) (\<lambda>(r, mx). Ret (r = 0, m\<lparr>mon_mutex := mx\<rparr>))"

definition pmmpthread_monitor_unlock ::
  "tid \<Rightarrow> pmmpthread_monitor_t \<Rightarrow> bool \<times> pmmpthread_monitor_t"
where
  "pmmpthread_monitor_unlock t m =
     (let (r, mx) = pthread_mutex_unlock t (mon_mutex m) in (r = 0, m\<lparr>mon_mutex := mx\<rparr>))"

definition pmmpthread_monitor_check ::
  "tid \<Rightarrow> pmmpthread_monitor_t \<Rightarrow> pmmpthread_monitor_state_t \<Rightarrow>
     (pmmpthread_monitor_state_t \<times> pmmpthread_monitor_t) outcome"
where
  "pmmpthread_monitor_check t m state =
     obind (pmmpthread_monitor_lock t m)
       (\<lambda>(ok, m1).
          if ok then Ret (mon_state m1 AND state, snd (pmmpthread_monitor_unlock t m1))
          else Ret (PMMPTHREAD_MONITOR_NOTHING, m1))"

text \<open>
  \<open>pmmpthread_monitor_wait\<close> decides how to wait: for ever, until an absolute time, or not at all
  when the clock cannot be read. Division and remainder truncate towards zero, as in C. The waiting
  itself (\<open>pthread_cond_wait\<close>) fails when the caller does not own the mutex; otherwise it gives
  back one level of the mutex and joins the waiters.
\<close>

record timeval =
  tv_sec :: int
  tv_usec :: int

record timespec =
  ts_sec :: int
  ts_nsec :: int

datatype wait_call = CondWait | CondTimedWait timespec | WaitError int

definition pmmpthread_monitor_wait :: "timeval option \<Rightarrow> int \<Rightarrow> wait_call" where
  "pmmpthread_monitor_wait now timeout =
     (if timeout = 0 then CondWait
      else case now of
        None \<Rightarrow> WaitError (-1)
      | Some tv \<Rightarrow>
          (let sec1 = tv_sec tv + (timeout sdiv 1000000);
               sec2 = sec1 + ((tv_usec tv + (timeout smod 1000000)) sdiv 1000000);
               usec = (tv_usec tv + (timeout smod 1000000)) smod 1000000
           in CondTimedWait \<lparr>ts_sec = sec2, ts_nsec = usec * 1000\<rparr>))"

definition pthread_cond_wait :: "tid \<Rightarrow> pmmpthread_monitor_t \<Rightarrow> int \<times> pmmpthread_monitor_t" where
  "pthread_cond_wait t m =
     (case pthread_mutex_unlock t (mon_mutex m) of
        (r, mx) \<Rightarrow>
          if r = 0 then (0, m\<lparr>mon_mutex := mx, mon_cond := insert t (mon_cond m)\<rparr>) else (r, m))"

definition pmmpthread_monitor_notify :: "pmmpthread_monitor_t \<Rightarrow> pmmpthread_monitor_t" where
  "pmmpthread_monitor_notify m = m\<lparr>mon_cond := {}\<rparr>"

text \<open>The waiter that \<open>pthread_cond_signal\<close> wakes is the platform's choice: an argument.\<close>

definition pmmpthread_monitor_notify_one :: "tid \<Rightarrow> pmmpthread_monitor_t \<Rightarrow> pmmpthread_monitor_t" where
  "pmmpthread_monitor_notify_one u m = m\<lparr>mon_cond := mon_cond m - {u}\<rparr>"

definition pmmpthread_monitor_add ::
  "tid \<Rightarrow> pmmpthread_monitor_t \<Rightarrow> pmmpthread_monitor_state_t \<Rightarrow> pmmpthread_monitor_t outcome"
where
  "pmmpthread_monitor_add t m state =
     obind (pmmpthread_monitor_lock t m)
       (\<lambda>(ok, m1).
          if ok then
            (let m2 = m1\<lparr>mon_state := mon_state m1 OR state\<rparr>;
                 m3 = pmmpthread_monitor_notify m2
             in Ret (snd (pmmpthread_monitor_unlock t m3)))
          else Ret m1)"

definition pmmpthread_monitor_remove ::
  "tid \<Rightarrow> pmmpthread_monitor_t \<Rightarrow> pmmpthread_monitor_state_t \<Rightarrow> pmmpthread_monitor_t outcome"
where
  "pmmpthread_monitor_remove t m state =
     obind (pmmpthread_monitor_lock t m)
       (\<lambda>(ok, m1).
          if ok then
            (let m2 = m1\<lparr>mon_state := mon_state m1 AND NOT state\<rparr>;
                 m3 = pmmpthread_monitor_notify m2
             in Ret (snd (pmmpthread_monitor_unlock t m3)))
          else Ret m1)"

lemmas monitor_defs =
  pmmpthread_monitor_lock_def pmmpthread_monitor_unlock_def pmmpthread_monitor_check_def
  pmmpthread_monitor_notify_def pmmpthread_monitor_add_def pmmpthread_monitor_remove_def
  pthread_mutex_lock_def pthread_mutex_unlock_def

section \<open>Threads on one monitor\<close>

text \<open>
  The program counter of a thread. \<open>WU\<close>: inside \<open>pmmpthread_monitor_wait_until\<close>, before the lock,
  before the loop test, before the wait, in the wait, before the unlock. \<open>Upd\<close>: inside
  \<open>pmmpthread_monitor_add\<close> or \<open>pmmpthread_monitor_remove\<close> (the function is the change of the flags),
  before the lock, before the change, before the broadcast, before the unlock.
\<close>

datatype pc =
    Idle
  | WU_lock pmmpthread_monitor_state_t
  | WU_test pmmpthread_monitor_state_t
  | WU_wait pmmpthread_monitor_state_t
  | WU_blocked pmmpthread_monitor_state_t
  | WU_unlock pmmpthread_monitor_state_t
  | Upd_lock bool pmmpthread_monitor_state_t
  | Upd_write bool pmmpthread_monitor_state_t
  | Upd_notify
  | Upd_unlock

record monitor_sys =
  mon :: pmmpthread_monitor_t
  pcs :: "tid \<Rightarrow> pc"

definition flags_upd :: "bool \<Rightarrow> pmmpthread_monitor_state_t \<Rightarrow> pmmpthread_monitor_state_t \<Rightarrow> pmmpthread_monitor_state_t" where
  "flags_upd adding k st = (if adding then st OR k else st AND NOT k)"

abbreviation goto :: "monitor_sys \<Rightarrow> tid \<Rightarrow> pc \<Rightarrow> pmmpthread_monitor_t \<Rightarrow> monitor_sys" where
  "goto s t p m \<equiv> s\<lparr>mon := m, pcs := (pcs s)(t := p)\<rparr>"

inductive monitor_step :: "monitor_sys \<Rightarrow> monitor_sys \<Rightarrow> bool" where
  call_wait_until: "pcs s t = Idle \<Longrightarrow> monitor_step s (goto s t (WU_lock k) (mon s))"
| call_update: "pcs s t = Idle \<Longrightarrow> monitor_step s (goto s t (Upd_lock b k) (mon s))"
| call_notify: "pcs s t = Idle \<Longrightarrow> monitor_step s (goto s t Idle (pmmpthread_monitor_notify (mon s)))"
| call_notify_one:
    "pcs s t = Idle \<Longrightarrow> monitor_step s (goto s t Idle (pmmpthread_monitor_notify_one u (mon s)))"
| wu_lock: "pcs s t = WU_lock k \<Longrightarrow> pmmpthread_monitor_lock t (mon s) = Ret (True, m) \<Longrightarrow>
    monitor_step s (goto s t (WU_test k) m)"
| wu_lock_fails: "pcs s t = WU_lock k \<Longrightarrow> pmmpthread_monitor_lock t (mon s) = Ret (False, m) \<Longrightarrow>
    monitor_step s (goto s t Idle m)"
| wu_test_clear: "pcs s t = WU_test k \<Longrightarrow> pmmpthread_monitor_check t (mon s) k = Ret (0, m) \<Longrightarrow>
    monitor_step s (goto s t (WU_wait k) m)"
| wu_test_set: "pcs s t = WU_test k \<Longrightarrow> pmmpthread_monitor_check t (mon s) k = Ret (r, m) \<Longrightarrow> r \<noteq> 0 \<Longrightarrow>
    monitor_step s (goto s t (WU_unlock k) m)"
| wu_wait: "pcs s t = WU_wait k \<Longrightarrow> pthread_cond_wait t (mon s) = (0, m) \<Longrightarrow>
    monitor_step s (goto s t (WU_blocked k) m)"
| wu_wait_fails: "pcs s t = WU_wait k \<Longrightarrow> pthread_cond_wait t (mon s) = (r, m) \<Longrightarrow> r \<noteq> 0 \<Longrightarrow>
    monitor_step s (goto s t (WU_unlock k) m)"
| wu_spurious: "pcs s t = WU_blocked k \<Longrightarrow>
    monitor_step s (goto s t (WU_blocked k) (pmmpthread_monitor_notify_one t (mon s)))"
| wu_wake: "pcs s t = WU_blocked k \<Longrightarrow> t \<notin> mon_cond (mon s) \<Longrightarrow>
    pmmpthread_monitor_lock t (mon s) = Ret (True, m) \<Longrightarrow> monitor_step s (goto s t (WU_test k) m)"
| wu_unlock: "pcs s t = WU_unlock k \<Longrightarrow> pmmpthread_monitor_unlock t (mon s) = (r, m) \<Longrightarrow>
    monitor_step s (goto s t Idle m)"
| upd_lock: "pcs s t = Upd_lock b k \<Longrightarrow> pmmpthread_monitor_lock t (mon s) = Ret (True, m) \<Longrightarrow>
    monitor_step s (goto s t (Upd_write b k) m)"
| upd_lock_fails: "pcs s t = Upd_lock b k \<Longrightarrow> pmmpthread_monitor_lock t (mon s) = Ret (False, m) \<Longrightarrow>
    monitor_step s (goto s t Idle m)"
| upd_write: "pcs s t = Upd_write b k \<Longrightarrow>
    monitor_step s (goto s t Upd_notify ((mon s)\<lparr>mon_state := flags_upd b k (mon_state (mon s))\<rparr>))"
| upd_notify: "pcs s t = Upd_notify \<Longrightarrow>
    monitor_step s (goto s t Upd_unlock (pmmpthread_monitor_notify (mon s)))"
| upd_unlock: "pcs s t = Upd_unlock \<Longrightarrow> pmmpthread_monitor_unlock t (mon s) = (r, m) \<Longrightarrow>
    monitor_step s (goto s t Idle m)"

definition monitor_start :: "nat \<Rightarrow> monitor_sys" where
  "monitor_start lim =
     \<lparr>mon = \<lparr>mon_state = 0, mon_mutex = \<lparr>mx_owner = None, mx_count = 0, mx_max = lim\<rparr>, mon_cond = {}\<rparr>,
      pcs = (\<lambda>_. Idle)\<rparr>"

inductive monitor_reach :: "nat \<Rightarrow> monitor_sys \<Rightarrow> bool" for lim where
  start: "monitor_reach lim (monitor_start lim)"
| step: "monitor_reach lim s \<Longrightarrow> monitor_step s s' \<Longrightarrow> monitor_reach lim s'"

section \<open>Invariants\<close>

fun in_section :: "pc \<Rightarrow> bool" where
  "in_section (WU_test k) = True"
| "in_section (WU_wait k) = True"
| "in_section (WU_unlock k) = True"
| "in_section (Upd_write b k) = True"
| "in_section Upd_notify = True"
| "in_section Upd_unlock = True"
| "in_section _ = False"

text \<open>
  The mutex is held, once, by exactly the thread that is inside a critical section. A thread that is
  about to wait, or that waits without having been notified, waits for flags that are not set,
  unless a broadcast is about to come. A thread that leaves the loop has seen its flags set.
\<close>

definition mutex_inv :: "monitor_sys \<Rightarrow> bool" where
  "mutex_inv s \<longleftrightarrow>
     (\<forall>t. in_section (pcs s t) \<longleftrightarrow> mx_owner (mon_mutex (mon s)) = Some t) \<and>
     mx_count (mon_mutex (mon s)) = (if mx_owner (mon_mutex (mon s)) = None then 0 else 1)"

definition wake_inv :: "monitor_sys \<Rightarrow> bool" where
  "wake_inv s \<longleftrightarrow>
     (\<forall>t k. pcs s t = WU_wait k \<longrightarrow> mon_state (mon s) AND k = 0) \<and>
     (\<forall>t k. pcs s t = WU_unlock k \<longrightarrow> mon_state (mon s) AND k \<noteq> 0) \<and>
     (\<forall>t k. pcs s t = WU_blocked k \<and> t \<in> mon_cond (mon s) \<and> mon_state (mon s) AND k \<noteq> 0 \<longrightarrow>
        (\<exists>u. pcs s u = Upd_notify)) \<and>
     (\<forall>t \<in> mon_cond (mon s). \<exists>k. pcs s t = WU_blocked k)"

definition monitor_inv :: "nat \<Rightarrow> monitor_sys \<Rightarrow> bool" where
  "monitor_inv lim s \<longleftrightarrow> mx_max (mon_mutex (mon s)) = lim \<and> mutex_inv s \<and> wake_inv s"

inductive_cases monitor_stepE: "monitor_step s s'"

lemma lock_free: "mx_owner (mon_mutex m) = None \<Longrightarrow>
  pmmpthread_monitor_lock t m = Ret (True, m\<lparr>mon_mutex := (mon_mutex m)\<lparr>mx_owner := Some t, mx_count := 1\<rparr>\<rparr>)"
  by (simp add: monitor_defs)

lemma check_owned:
  "mx_owner (mon_mutex m) = Some t \<Longrightarrow> mx_count (mon_mutex m) = 1 \<Longrightarrow> 2 \<le> mx_max (mon_mutex m) \<Longrightarrow>
   pmmpthread_monitor_check t m k = Ret (mon_state m AND k, m)"
  by (simp add: monitor_defs)

lemma monitor_inv_start: "monitor_inv lim (monitor_start lim)"
  by (simp add: monitor_inv_def mutex_inv_def wake_inv_def monitor_start_def)

lemma lock_RetD: "pmmpthread_monitor_lock t m = Ret (b, m') \<Longrightarrow>
  (mx_owner (mon_mutex m) = None \<or> mx_owner (mon_mutex m) = Some t) \<and> mon_state m' = mon_state m \<and> mon_cond m' = mon_cond m \<and>
  mx_max (mon_mutex m') = mx_max (mon_mutex m) \<and>
  (mx_owner (mon_mutex m) = None \<longrightarrow> b \<and> mx_owner (mon_mutex m') = Some t \<and> mx_count (mon_mutex m') = 1)"
  by (auto simp: monitor_defs split: option.splits if_splits)

lemma unlock_held: "mx_owner (mon_mutex m) = Some t \<Longrightarrow> mx_count (mon_mutex m) = 1 \<Longrightarrow>
  pmmpthread_monitor_unlock t m = (True, m\<lparr>mon_mutex := (mon_mutex m)\<lparr>mx_owner := None, mx_count := 0\<rparr>\<rparr>)"
  by (simp add: monitor_defs)

lemma cond_wait_held: "mx_owner (mon_mutex m) = Some t \<Longrightarrow> mx_count (mon_mutex m) = 1 \<Longrightarrow>
  pthread_cond_wait t m =
    (0, m\<lparr>mon_mutex := (mon_mutex m)\<lparr>mx_owner := None, mx_count := 0\<rparr>, mon_cond := insert t (mon_cond m)\<rparr>)"
  by (simp add: pthread_cond_wait_def pthread_mutex_unlock_def)

text \<open>In a state with the mutex invariant, what a thread inside or outside a section knows.\<close>

lemma section_owner: "mutex_inv s \<Longrightarrow> in_section (pcs s t) \<Longrightarrow>
  mx_owner (mon_mutex (mon s)) = Some t \<and> mx_count (mon_mutex (mon s)) = 1"
  by (simp add: mutex_inv_def)

lemma section_unique: "mutex_inv s \<Longrightarrow> in_section (pcs s t) \<Longrightarrow> in_section (pcs s u) \<Longrightarrow> u = t"
  by (simp add: mutex_inv_def)

lemma outside_lock: "mutex_inv s \<Longrightarrow> \<not> in_section (pcs s t) \<Longrightarrow>
  pmmpthread_monitor_lock t (mon s) = Ret (b, m) \<Longrightarrow>
  b \<and> mx_owner (mon_mutex (mon s)) = None \<and>
  m = (mon s)\<lparr>mon_mutex := (mon_mutex (mon s))\<lparr>mx_owner := Some t, mx_count := 1\<rparr>\<rparr>"
  by (auto simp: mutex_inv_def monitor_defs split: option.splits if_splits)

text \<open>
  Every step is one of four kinds: it enters the section, stays in it, leaves it, or does not touch
  the mutex.
\<close>

lemma mutex_inv_enter:
  assumes "mutex_inv s" "\<not> in_section (pcs s t)" "pmmpthread_monitor_lock t (mon s) = Ret (b, m)" "in_section p"
  shows "mutex_inv (goto s t p m)"
  using outside_lock [OF assms(1,2,3)] assms(1,4) by (auto simp: mutex_inv_def)

lemma mutex_inv_stay:
  assumes "mutex_inv s" "in_section (pcs s t) = in_section p" "mon_mutex m = mon_mutex (mon s)"
  shows "mutex_inv (goto s t p m)"
  using assms by (auto simp: mutex_inv_def)

lemma mutex_inv_leave:
  assumes "mutex_inv s" "in_section (pcs s t)" "\<not> in_section p"
    and "mon_mutex m = (mon_mutex (mon s))\<lparr>mx_owner := None, mx_count := 0\<rparr>"
  shows "mutex_inv (goto s t p m)"
  using assms by (auto simp: mutex_inv_def)

lemma mutex_inv_step:
  assumes "monitor_step s s'" and inv: "mutex_inv s" and "2 \<le> mx_max (mon_mutex (mon s))"
  shows "mutex_inv s' \<and> mx_max (mon_mutex (mon s')) = mx_max (mon_mutex (mon s))"
  using assms(1)
proof (cases rule: monitor_step.cases)
  case (call_wait_until t k)
  then show ?thesis using mutex_inv_stay [OF inv, of t "WU_lock k" "mon s"] by auto
next
  case (call_update t b k)
  then show ?thesis using mutex_inv_stay [OF inv, of t "Upd_lock b k" "mon s"] by auto
next
  case (wu_lock t k m)
  then show ?thesis using mutex_inv_enter [OF inv, of t] lock_RetD by auto
next
  case (wu_lock_fails t k m)
  then show ?thesis using outside_lock [OF inv, of t] by auto
next
  case (wu_test_clear t k m)
  then show ?thesis using mutex_inv_stay [OF inv, of t] section_owner [OF inv, of t] check_owned [of _ t k] assms(3)
    by auto
next
  case (wu_test_set t k r m)
  then show ?thesis using mutex_inv_stay [OF inv, of t] section_owner [OF inv, of t] check_owned [of _ t k] assms(3)
    by auto
next
  case (wu_wait t k m)
  then show ?thesis using mutex_inv_leave [OF inv, of t] section_owner [OF inv, of t] by (auto simp: cond_wait_held)
next
  case (wu_wait_fails t k r m)
  then show ?thesis using section_owner [OF inv, of t] by (auto simp: cond_wait_held)
next
  case (wu_wake t k m)
  then show ?thesis using mutex_inv_enter [OF inv, of t] lock_RetD by auto
next
  case (wu_unlock t k r m)
  then show ?thesis using mutex_inv_leave [OF inv, of t] section_owner [OF inv, of t] by (auto simp: unlock_held)
next
  case (upd_lock t b k m)
  then show ?thesis using mutex_inv_enter [OF inv, of t] lock_RetD by auto
next
  case (upd_lock_fails t b k m)
  then show ?thesis using outside_lock [OF inv, of t] by auto
next
  case (upd_unlock t r m)
  then show ?thesis using mutex_inv_leave [OF inv, of t] section_owner [OF inv, of t] by (auto simp: unlock_held)
qed (use mutex_inv_stay [OF inv] in \<open>auto simp: pmmpthread_monitor_notify_def pmmpthread_monitor_notify_one_def\<close>)

text \<open>
  The wake-up invariant. A step that neither writes the flags nor adds a waiter keeps it when the
  thread's new program counter has what the invariant asks of it.
\<close>

lemma wake_inv_goto:
  assumes "wake_inv s" "mon_state m = mon_state (mon s)" "mon_cond m \<subseteq> mon_cond (mon s)"
    and "\<And>k. p = WU_wait k \<Longrightarrow> mon_state m AND k = 0"
    and "\<And>k. p = WU_unlock k \<Longrightarrow> mon_state m AND k \<noteq> 0"
    and "t \<notin> mon_cond m" "pcs s t \<noteq> Upd_notify \<or> mon_cond m = {}"
  shows "wake_inv (goto s t p m)"
proof -
  have "\<exists>u. u \<noteq> t \<and> pcs s u = Upd_notify"
    if "pcs s x = WU_blocked k" "x \<in> mon_cond m" "mon_state m AND k \<noteq> 0" for x k
  proof -
    from assms(1-3) that obtain u where "pcs s u = Upd_notify" unfolding wake_inv_def by fastforce
    with assms(7) that(2) show ?thesis by (intro exI [of _ u]) auto
  qed
  moreover have "\<exists>k. pcs s x = WU_blocked k" if "x \<in> mon_cond m" for x
    using assms(1,3) that unfolding wake_inv_def by blast
  moreover have "mon_state m AND k = 0" if "(pcs (goto s t p m)) x = WU_wait k" for x k
    using assms(1,2,4) that unfolding wake_inv_def by (auto split: if_splits)
  moreover have "mon_state m AND k \<noteq> 0" if "(pcs (goto s t p m)) x = WU_unlock k" for x k
    using assms(1,2,5) that unfolding wake_inv_def by (auto split: if_splits)
  ultimately show ?thesis
    using assms(6) unfolding wake_inv_def by (auto split: if_splits; metis)
qed

lemma idle_not_waiting: "wake_inv s \<Longrightarrow> (\<And>k. pcs s t \<noteq> WU_blocked k) \<Longrightarrow> t \<notin> mon_cond (mon s)"
  unfolding wake_inv_def by blast

lemma wake_inv_wait:
  assumes "mutex_inv s" "wake_inv s" "pcs s t = WU_wait k"
    and "mon_state m = mon_state (mon s)" "mon_cond m = insert t (mon_cond (mon s))"
  shows "wake_inv (goto s t (WU_blocked k) m)"
proof -
  have none: "pcs s u \<noteq> Upd_notify" for u
    using section_unique [OF assms(1), of t u] assms(3) by auto
  have zero: "mon_state (mon s) AND k = 0" using assms(2,3) unfolding wake_inv_def by blast
  have blocked: "mon_state (mon s) AND j = 0" if "pcs s x = WU_blocked j" "x \<in> mon_cond (mon s)" for x j
    using assms(2) none that unfolding wake_inv_def by blast
  show ?thesis
    using assms(2,4,5) zero blocked none unfolding wake_inv_def by auto
qed

lemma wake_inv_write:
  assumes "mutex_inv s" "wake_inv s" "pcs s t = Upd_write b k" "mon_cond m = mon_cond (mon s)"
  shows "wake_inv (goto s t Upd_notify m)"
proof -
  have none: "pcs s u \<noteq> WU_wait j \<and> pcs s u \<noteq> WU_unlock j" for u j
    using section_unique [OF assms(1), of t u] assms(3) by auto
  have "t \<notin> mon_cond m" using idle_not_waiting [OF assms(2), of t] assms(3,4) by simp
  then show ?thesis using assms(2,4) none unfolding wake_inv_def by auto
qed

lemma wake_inv_step:
  assumes "monitor_step s s'" and mu: "mutex_inv s" and wk: "wake_inv s" and "2 \<le> mx_max (mon_mutex (mon s))"
  shows "wake_inv s'"
  using assms(1)
proof (cases rule: monitor_step.cases)
  case (wu_test_clear t k m)
  then show ?thesis
    using section_owner [OF mu, of t] check_owned [of _ t k] assms(4) idle_not_waiting [OF wk, of t]
    by (auto intro!: wake_inv_goto [OF wk])
next
  case (wu_test_set t k r m)
  then show ?thesis
    using section_owner [OF mu, of t] check_owned [of _ t k] assms(4) idle_not_waiting [OF wk, of t]
    by (auto intro!: wake_inv_goto [OF wk])
next
  case (wu_wait t k m)
  then show ?thesis using section_owner [OF mu, of t] wake_inv_wait [OF mu wk, of t k] by (auto simp: cond_wait_held)
next
  case (wu_wait_fails t k r m)
  then show ?thesis using section_owner [OF mu, of t] by (auto simp: cond_wait_held)
next
  case (upd_write t b k)
  then show ?thesis using wake_inv_write [OF mu wk] by auto
next
  case (upd_unlock t r m)
  then show ?thesis
    using section_owner [OF mu, of t] idle_not_waiting [OF wk, of t]
    by (auto simp: unlock_held intro!: wake_inv_goto [OF wk])
next
  case (wu_unlock t k r m)
  then show ?thesis
    using section_owner [OF mu, of t] idle_not_waiting [OF wk, of t]
    by (auto simp: unlock_held intro!: wake_inv_goto [OF wk])
next
  case (call_wait_until t k)
  then show ?thesis using wake_inv_goto [OF wk, of "mon s" "WU_lock k" t] idle_not_waiting [OF wk, of t] by auto
next
  case (call_update t b k)
  then show ?thesis using wake_inv_goto [OF wk, of "mon s" "Upd_lock b k" t] idle_not_waiting [OF wk, of t] by auto
qed (use idle_not_waiting [OF wk] lock_RetD in
  \<open>force simp: pmmpthread_monitor_notify_def pmmpthread_monitor_notify_one_def intro!: wake_inv_goto [OF wk]\<close>)+

lemma unlock_state: "pmmpthread_monitor_unlock t m = (r, m') \<Longrightarrow> mon_state m' = mon_state m"
  by (auto simp: pmmpthread_monitor_unlock_def split: prod.splits)

lemma unlock_state_snd: "mon_state (snd (pmmpthread_monitor_unlock t m)) = mon_state m"
  by (simp add: pmmpthread_monitor_unlock_def split: prod.splits)

lemma check_state: "pmmpthread_monitor_check t m k = Ret (r, m') \<Longrightarrow> mon_state m' = mon_state m"
  unfolding pmmpthread_monitor_check_def
  by (auto simp: outcome_simps unlock_state_snd dest!: lock_RetD split: if_splits)

lemma cond_wait_state: "pthread_cond_wait t m = (r, m') \<Longrightarrow> mon_state m' = mon_state m"
  by (auto simp: pthread_cond_wait_def split: prod.splits if_splits)

text \<open>Only a thread that has the lock for it writes the flags.\<close>

lemma step_state:
  "monitor_step s s' \<Longrightarrow> mon_state (mon s') = mon_state (mon s) \<or> (\<exists>u b k. pcs s u = Upd_write b k)"
  by (cases rule: monitor_step.cases, assumption)
    (auto simp: pmmpthread_monitor_notify_def pmmpthread_monitor_notify_one_def
      dest!: lock_RetD unlock_state check_state cond_wait_state)

lemma reach_inv:
  assumes "monitor_reach lim s" "2 \<le> lim"
  shows "monitor_inv lim s"
  using assms
proof (induction rule: monitor_reach.induct)
  case start
  show ?case by (rule monitor_inv_start)
next
  case (step s s')
  then show ?case
    using mutex_inv_step [of s s'] wake_inv_step [of s s'] unfolding monitor_inv_def by auto
qed

inductive monitor_steps :: "tid \<Rightarrow> monitor_sys \<Rightarrow> monitor_sys \<Rightarrow> bool" for t where
  steps_none: "monitor_steps t s s"
| steps_more: "monitor_step s s' \<Longrightarrow> (\<forall>u. u \<noteq> t \<longrightarrow> pcs s' u = pcs s u) \<Longrightarrow> monitor_steps t s' s'' \<Longrightarrow>
    monitor_steps t s s''"

lemma monitor_steps3:
  assumes "monitor_step a b" "monitor_step b c" "monitor_step c d"
    and "\<forall>u. u \<noteq> t \<longrightarrow> pcs b u = pcs a u" "\<forall>u. u \<noteq> t \<longrightarrow> pcs c u = pcs b u"
    and "\<forall>u. u \<noteq> t \<longrightarrow> pcs d u = pcs c u"
  shows "monitor_steps t a d"
  using assms by (meson monitor_steps.intros)

text \<open>
  The step relation as a function: thread \<open>t\<close> makes its next step, or the call it is told to make
  when it is idle. \<open>None\<close>: the thread cannot move. A run is a sequence of such moves.
\<close>

datatype move = CallWait pmmpthread_monitor_state_t | CallUpd bool pmmpthread_monitor_state_t | Go

definition after_lock ::
  "monitor_sys \<Rightarrow> tid \<Rightarrow> pc \<Rightarrow> (bool \<times> pmmpthread_monitor_t) outcome \<Rightarrow> monitor_sys option"
where
  "after_lock s t p r =
     (case r of Ret (True, m) \<Rightarrow> Some (goto s t p m) | Ret (False, m) \<Rightarrow> Some (goto s t Idle m) | _ \<Rightarrow> None)"

definition monitor_exec :: "tid \<Rightarrow> move \<Rightarrow> monitor_sys \<Rightarrow> monitor_sys option" where
  "monitor_exec t c s =
     (case pcs s t of
        Idle \<Rightarrow> (case c of CallWait k \<Rightarrow> Some (goto s t (WU_lock k) (mon s))
                       | CallUpd b k \<Rightarrow> Some (goto s t (Upd_lock b k) (mon s))
                       | Go \<Rightarrow> None)
      | WU_lock k \<Rightarrow> after_lock s t (WU_test k) (pmmpthread_monitor_lock t (mon s))
      | WU_test k \<Rightarrow> (case pmmpthread_monitor_check t (mon s) k of
                        Ret (r, m) \<Rightarrow> Some (goto s t (if r = 0 then WU_wait k else WU_unlock k) m)
                      | _ \<Rightarrow> None)
      | WU_wait k \<Rightarrow> (case pthread_cond_wait t (mon s) of
                        (r, m) \<Rightarrow> Some (goto s t (if r = 0 then WU_blocked k else WU_unlock k) m))
      | WU_blocked k \<Rightarrow> (if t \<in> mon_cond (mon s) then None
                         else case pmmpthread_monitor_lock t (mon s) of
                                Ret (True, m) \<Rightarrow> Some (goto s t (WU_test k) m) | _ \<Rightarrow> None)
      | WU_unlock k \<Rightarrow> Some (goto s t Idle (snd (pmmpthread_monitor_unlock t (mon s))))
      | Upd_lock b k \<Rightarrow> after_lock s t (Upd_write b k) (pmmpthread_monitor_lock t (mon s))
      | Upd_write b k \<Rightarrow>
          Some (goto s t Upd_notify ((mon s)\<lparr>mon_state := flags_upd b k (mon_state (mon s))\<rparr>))
      | Upd_notify \<Rightarrow> Some (goto s t Upd_unlock (pmmpthread_monitor_notify (mon s)))
      | Upd_unlock \<Rightarrow> Some (goto s t Idle (snd (pmmpthread_monitor_unlock t (mon s)))))"

fun monitor_run :: "(tid \<times> move) list \<Rightarrow> monitor_sys \<Rightarrow> monitor_sys option" where
  "monitor_run [] s = Some s"
| "monitor_run ((t, c) # ms) s = Option.bind (monitor_exec t c s) (monitor_run ms)"

lemmas monitor_step_calls =
  monitor_step.call_wait_until [simplified] monitor_step.call_update [simplified]

lemma monitor_exec_step: "monitor_exec t c s = Some s' \<Longrightarrow> monitor_step s s'"
  unfolding monitor_exec_def
  by (cases "pcs s t")
    (auto simp: after_lock_def split: move.splits outcome.splits prod.splits bool.splits if_splits
      intro: monitor_step.intros monitor_step_calls prod.collapse [symmetric])

lemma monitor_run_reach: "monitor_run ms s = Some s' \<Longrightarrow> monitor_reach lim s \<Longrightarrow> monitor_reach lim s'"
  by (induction ms s rule: monitor_run.induct)
    (auto simp: Option.bind_eq_Some_conv, metis monitor_exec_step monitor_reach.step)

lemmas monitor_run_start = monitor_run_reach [OF _ monitor_reach.start]

section \<open>The interface other components use\<close>

text \<open>
  What the clients of a monitor rely on: a mutex that is available can be taken, a mutex held by
  another thread suspends the caller, and giving a taken mutex back restores it, whatever the body of
  the critical section did to the rest of the monitor. \<open>guarded\<close> is a client's critical section: lock,
  body, unlock, with a result for the failing lock.
\<close>

definition guarded ::
  "(tid \<Rightarrow> 'm \<Rightarrow> (bool \<times> 'm) outcome) \<Rightarrow> (tid \<Rightarrow> 'm \<Rightarrow> bool \<times> 'm) \<Rightarrow>
   tid \<Rightarrow> 'm \<Rightarrow> 's \<Rightarrow> ('m \<Rightarrow> 's \<Rightarrow> ('r \<times> 'm \<times> 's) outcome) \<Rightarrow> 'r \<Rightarrow> ('r \<times> 'm \<times> 's) outcome"
where
  "guarded lock unlock t m s body z =
     obind (lock t m) (\<lambda>(ok, m1).
       if ok then obind (body m1 s) (\<lambda>(r, m2, s2). Ret (r, snd (unlock t m2), s2))
       else Ret (z, m1, s))"

locale monitor_lock =
  fixes lock :: "tid \<Rightarrow> 'm \<Rightarrow> (bool \<times> 'm) outcome"
    and unlock :: "tid \<Rightarrow> 'm \<Rightarrow> bool \<times> 'm"
    and mutex :: "'m \<Rightarrow> 'x"
    and set_mutex :: "'x \<Rightarrow> 'm \<Rightarrow> 'm"
    and take :: "tid \<Rightarrow> 'x \<Rightarrow> 'x"
    and avail :: "tid \<Rightarrow> 'x \<Rightarrow> bool"
    and owner :: "'x \<Rightarrow> tid option"
  assumes lock_avail: "avail t (mutex m) \<Longrightarrow> lock t m = Ret (True, set_mutex (take t (mutex m)) m)"
    and lock_busy: "owner (mutex m) = Some u \<Longrightarrow> u \<noteq> t \<Longrightarrow> lock t m = Block"
    and unlock_taken: "avail t x \<Longrightarrow> mutex m = take t x \<Longrightarrow> unlock t m = (True, set_mutex x m)"
    and owner_take: "owner (take t x) = Some t"
begin

lemma guarded_runs:
  assumes "avail t (mutex m)"
    and "body (set_mutex (take t (mutex m)) m) s = Ret (r, m2, s2)" "mutex m2 = take t (mutex m)"
  shows "guarded lock unlock t m s body z = Ret (r, set_mutex (mutex m) m2, s2)"
  using assms by (simp add: guarded_def lock_avail unlock_taken)

lemma guarded_blocks:
  "owner (mutex m) = Some u \<Longrightarrow> u \<noteq> t \<Longrightarrow> guarded lock unlock t m s body z = Block"
  by (simp add: guarded_def lock_busy)

lemma guarded_faults:
  "avail t (mutex m) \<Longrightarrow> body (set_mutex (take t (mutex m)) m) s = Fault \<Longrightarrow>
   guarded lock unlock t m s body z = Fault"
  by (simp add: guarded_def lock_avail)

lemma guarded_excludes:
  "u \<noteq> t \<Longrightarrow> mutex m = take t x \<Longrightarrow> guarded lock unlock u m s body z = Block"
  by (rule guarded_blocks [of m t]) (simp_all add: owner_take)

end

text \<open>
  A mutex that counts its locks (zero locks means no owner) can be taken by its owner, or by anyone
  when it has none, as long as \<open>n\<close> more levels fit.
\<close>

definition mutex_avail :: "nat \<Rightarrow> tid \<Rightarrow> pthread_mutex \<Rightarrow> bool" where
  "mutex_avail n t mx \<longleftrightarrow>
     (mx_owner mx = None \<longleftrightarrow> mx_count mx = 0) \<and> (mx_owner mx = None \<or> mx_owner mx = Some t) \<and>
     mx_count mx + n \<le> mx_max mx"

definition mutex_take :: "tid \<Rightarrow> pthread_mutex \<Rightarrow> pthread_mutex" where
  "mutex_take t mx = mx\<lparr>mx_owner := Some t, mx_count := mx_count mx + 1\<rparr>"

lemma avail_take: "mutex_avail (Suc n) t mx \<Longrightarrow> mutex_avail n t (mutex_take t mx)"
  by (simp add: mutex_avail_def mutex_take_def)

lemma avail_mono: "mutex_avail n t mx \<Longrightarrow> k \<le> n \<Longrightarrow> mutex_avail k t mx"
  by (auto simp: mutex_avail_def)

lemma lock_avail_eq: "mutex_avail (Suc n) t (mon_mutex m) \<Longrightarrow>
  pmmpthread_monitor_lock t m = Ret (True, m\<lparr>mon_mutex := mutex_take t (mon_mutex m)\<rparr>)"
  by (auto simp: monitor_defs mutex_avail_def mutex_take_def)

lemma unlock_taken_eq: "mutex_avail (Suc n) t mx \<Longrightarrow> mon_mutex m = mutex_take t mx \<Longrightarrow>
  pmmpthread_monitor_unlock t m = (True, m\<lparr>mon_mutex := mx\<rparr>)"
  by (cases mx) (auto simp: monitor_defs mutex_avail_def mutex_take_def)

interpretation ml: monitor_lock pmmpthread_monitor_lock pmmpthread_monitor_unlock
  mon_mutex "\<lambda>x m. m\<lparr>mon_mutex := x\<rparr>" mutex_take "mutex_avail 1" mx_owner
proof unfold_locales
  show "mutex_avail 1 t (mon_mutex m) \<Longrightarrow>
    pmmpthread_monitor_lock t m = Ret (True, m\<lparr>mon_mutex := mutex_take t (mon_mutex m)\<rparr>)" for t m
    using lock_avail_eq [of 0] by simp
  show "mutex_avail 1 t x \<Longrightarrow> mon_mutex m = mutex_take t x \<Longrightarrow>
    pmmpthread_monitor_unlock t m = (True, m\<lparr>mon_mutex := x\<rparr>)" for t x m
    using unlock_taken_eq [of 0] by simp
qed (auto simp: monitor_defs mutex_take_def)

lemma check_avail: "mutex_avail (Suc n) t (mon_mutex m) \<Longrightarrow>
  pmmpthread_monitor_check t m k = Ret (mon_state m AND k, m)"
  by (simp add: pmmpthread_monitor_check_def lock_avail_eq unlock_taken_eq)

lemma add_avail: "mutex_avail (Suc n) t (mon_mutex m) \<Longrightarrow>
  pmmpthread_monitor_add t m k = Ret (m\<lparr>mon_state := mon_state m OR k, mon_cond := {}\<rparr>)"
  by (simp add: pmmpthread_monitor_add_def lock_avail_eq pmmpthread_monitor_notify_def unlock_taken_eq)

lemma remove_avail: "mutex_avail (Suc n) t (mon_mutex m) \<Longrightarrow>
  pmmpthread_monitor_remove t m k = Ret (m\<lparr>mon_state := mon_state m AND NOT k, mon_cond := {}\<rparr>)"
  by (simp add: pmmpthread_monitor_remove_def lock_avail_eq pmmpthread_monitor_notify_def unlock_taken_eq)

lemmas monitor_avail = check_avail add_avail remove_avail lock_avail_eq unlock_taken_eq

section \<open>Properties\<close>

text \<open>
  C4: In every reachable state of any number of threads that wait for flags and change flags of one
  monitor, at most one thread is between a successful \<open>pmmpthread_monitor_lock\<close> and its unlock or
  wait, and this thread is the owner of the mutex, with exactly one level of it.
\<close>

theorem monitor_mutual_exclusion:
  assumes "monitor_reach lim s" "2 \<le> lim" "in_section (pcs s t)" "in_section (pcs s u)"
  shows "u = t \<and> mx_owner (mon_mutex (mon s)) = Some t \<and> mx_count (mon_mutex (mon s)) = 1"
  using reach_inv [OF assms(1,2)] section_unique [of s t u] section_owner [of s t] assms(3,4)
  unfolding monitor_inv_def by simp

theorem monitor_mutual_exclusion_witness:
  "\<exists>s. monitor_run [(1, CallWait 1), (2, CallUpd True 1), (1, Go)] (monitor_start 2) = Some s \<and>
       mx_owner (mon_mutex (mon s)) = Some 1 \<and> mx_count (mon_mutex (mon s)) = 1"
proof -
  obtain s where run: "monitor_run [(1, CallWait 1), (2, CallUpd True 1), (1, Go)] (monitor_start 2) = Some s"
    and pc: "pcs s 1 = WU_test 1"
    by (simp add: monitor_exec_def after_lock_def monitor_start_def monitor_defs)
  then show ?thesis
    using monitor_mutual_exclusion [OF monitor_run_start [OF run], of 1 1] by simp
qed

text \<open>
  C5: No wake-up is lost. Whenever the mutex of a reachable state is free and a thread sleeps in
  \<open>pmmpthread_monitor_wait_until\<close> for flags of which one is set, the thread is not among the waiters of
  the condition variable any more: its own next steps (reacquire, test, unlock) take it out of the
  function, without the help of another thread.
\<close>

theorem monitor_no_lost_wakeup:
  assumes "monitor_reach lim s" "2 \<le> lim" "mx_owner (mon_mutex (mon s)) = None"
    and "pcs s t = WU_blocked k" "mon_state (mon s) AND k \<noteq> 0"
  shows "t \<notin> mon_cond (mon s) \<and> (\<exists>s'. monitor_steps t s s' \<and> pcs s' t = Idle \<and> mon s' = mon s)"
proof -
  have inv: "mutex_inv s" "wake_inv s" "mx_max (mon_mutex (mon s)) = lim"
    using reach_inv [OF assms(1,2)] unfolding monitor_inv_def by auto
  have "pcs s u \<noteq> Upd_notify" for u using section_owner [OF inv(1), of u] assms(3) by auto
  then have nw: "t \<notin> mon_cond (mon s)" using inv(2) assms(4,5) unfolding wake_inv_def by blast
  define mx where "mx = mon_mutex (mon s)"
  define m where "m = (mon s)\<lparr>mon_mutex := mutex_take t mx\<rparr>"
  have av: "mutex_avail (Suc 1) t mx"
    using inv(1) assms(2,3) inv(3) by (simp add: mx_def mutex_avail_def mutex_inv_def)
  define s1 where "s1 = goto s t (WU_test k) m"
  define s2 where "s2 = goto s1 t (WU_unlock k) m"
  define s3 where "s3 = goto s2 t Idle (mon s)"
  have "monitor_step s s1" unfolding s1_def m_def mx_def
    by (rule monitor_step.wu_wake [OF assms(4) nw lock_avail_eq [OF av [unfolded mx_def]]])
  moreover have "monitor_step s1 s2" unfolding s2_def
    using avail_take [OF av] assms(5)
    by (intro monitor_step.wu_test_set [of s1 t k]) (simp_all add: s1_def m_def check_avail [of 0])
  moreover have "monitor_step s2 s3" unfolding s3_def
    using unlock_taken_eq [OF av, of m]
    by (intro monitor_step.wu_unlock [of s2 t k True]) (simp_all add: s2_def m_def mx_def)
  ultimately have "monitor_steps t s s3"
    by (rule monitor_steps3) (simp_all add: s1_def s2_def s3_def)
  then show ?thesis using nw by (auto simp: s3_def)
qed

definition demo_wakeup :: "(tid \<times> move) list" where
  "demo_wakeup =
     [(1, CallWait 64), (1, Go), (1, Go), (1, Go),
      (2, CallUpd True 64), (2, Go), (2, Go), (2, Go), (2, Go)]"

theorem monitor_no_lost_wakeup_witness:
  "\<exists>s s'. monitor_run demo_wakeup (monitor_start 2) = Some s \<and> pcs s 1 = WU_blocked 64 \<and>
     monitor_steps 1 s s' \<and> pcs s' 1 = Idle"
proof -
  obtain s where run: "monitor_run demo_wakeup (monitor_start 2) = Some s"
    and pc: "pcs s 1 = WU_blocked 64" "mx_owner (mon_mutex (mon s)) = None" "mon_state (mon s) AND 64 \<noteq> 0"
    by (simp add: demo_wakeup_def monitor_exec_def after_lock_def monitor_start_def monitor_defs
        pthread_cond_wait_def flags_upd_def)
  then show ?thesis
    using monitor_no_lost_wakeup [OF monitor_run_start [OF run], of 1 64] by auto
qed

text \<open>
  When \<open>pmmpthread_monitor_wait_until\<close> gives its lock back and returns, one of the awaited flags
  is set.
\<close>

theorem monitor_wait_until_correct:
  assumes "monitor_reach lim s" "2 \<le> lim" "monitor_step s s'"
    and "pcs s t = WU_unlock k" "pcs s' t = Idle"
  shows "mon_state (mon s') AND k \<noteq> 0"
proof -
  have inv: "mutex_inv s" "wake_inv s"
    using reach_inv [OF assms(1,2)] unfolding monitor_inv_def by auto
  have "pcs s u \<noteq> Upd_write b j" for u b j
    using section_unique [OF inv(1), of t u] assms(4) by auto
  then have "mon_state (mon s') = mon_state (mon s)" using step_state [OF assms(3)] by blast
  moreover have "mon_state (mon s) AND k \<noteq> 0" using inv(2) assms(4) unfolding wake_inv_def by blast
  ultimately show ?thesis by simp
qed

definition demo_wait :: "(tid \<times> move) list" where
  "demo_wait =
     [(2, CallUpd True 64), (2, Go), (2, Go), (2, Go), (2, Go), (1, CallWait 64), (1, Go), (1, Go)]"

theorem monitor_wait_until_correct_witness:
  "\<exists>s s'. monitor_run demo_wait (monitor_start 2) = Some s \<and> monitor_exec 1 Go s = Some s' \<and>
     mon_state (mon s') AND 64 \<noteq> 0"
proof -
  obtain s s' where run: "monitor_run demo_wait (monitor_start 2) = Some s"
    and ex: "monitor_exec 1 Go s = Some s'"
    and pc: "pcs s 1 = WU_unlock 64" "pcs s' 1 = Idle"
    by (simp add: demo_wait_def monitor_exec_def after_lock_def monitor_start_def monitor_defs
        pthread_cond_wait_def flags_upd_def)
  then show ?thesis
    using monitor_wait_until_correct [OF monitor_run_start [OF run] _ monitor_exec_step [OF ex], of 1 64]
    by auto
qed

lemma sdiv_nonneg: "0 \<le> (a::int) \<Longrightarrow> a sdiv 1000000 = a div 1000000"
  by (cases "a = 0") (auto simp: signed_divide_int_def)

lemma smod_nonneg: "0 \<le> (a::int) \<Longrightarrow> a smod 1000000 = a mod 1000000"
  by (cases "a = 0") (auto simp: signed_modulo_int_def)

lemma deadline_arith:
  fixes t :: int
  assumes "t = q * 1000000 + m" "u + m = p * 1000000 + n"
  shows "(s + q + p) * 1000000000 + n * 1000 = (s * 1000000 + u + t) * 1000"
  using assms by (simp add: algebra_simps)

text \<open>
  The deadline of a timed wait. For a positive timeout and a normalised clock reading the
  absolute time passed to \<open>pthread_cond_timedwait\<close> is normalised, as POSIX demands, and lies exactly
  \<open>timeout\<close> microseconds after the reading.
\<close>

theorem monitor_deadline_exact:
  assumes "0 < timeout" "0 \<le> tv_usec now" "tv_usec now < 1000000"
  shows "\<exists>d. pmmpthread_monitor_wait (Some now) timeout = CondTimedWait d \<and>
    0 \<le> ts_nsec d \<and> ts_nsec d < 1000000000 \<and>
    ts_sec d * 1000000000 + ts_nsec d = (tv_sec now * 1000000 + tv_usec now + timeout) * 1000"
proof -
  define r where "r = tv_usec now + timeout mod 1000000"
  have r: "0 \<le> r" using assms by (simp add: r_def)
  have wait: "pmmpthread_monitor_wait (Some now) timeout =
    CondTimedWait \<lparr>ts_sec = tv_sec now + timeout div 1000000 + r div 1000000,
                   ts_nsec = r mod 1000000 * 1000\<rparr>"
    using assms(1) r by (simp add: pmmpthread_monitor_wait_def sdiv_nonneg smod_nonneg r_def)
  have "timeout = timeout div 1000000 * 1000000 + timeout mod 1000000"
    and "r = r div 1000000 * 1000000 + r mod 1000000" by simp_all
  then have "(tv_sec now + timeout div 1000000 + r div 1000000) * 1000000000 + r mod 1000000 * 1000 =
    (tv_sec now * 1000000 + tv_usec now + timeout) * 1000"
    unfolding r_def by (rule deadline_arith)
  then show ?thesis unfolding wait by simp
qed

theorem monitor_deadline_exact_witness:
  "\<exists>d. pmmpthread_monitor_wait (Some \<lparr>tv_sec = 7, tv_usec = 900000\<rparr>) 2300000 = CondTimedWait d \<and>
     ts_sec d * 1000000000 + ts_nsec d = 10200000000"
  using monitor_deadline_exact [of 2300000 "\<lparr>tv_sec = 7, tv_usec = 900000\<rparr>"] by auto

text \<open>
  A negative timeout is passed through: the deadline then has a negative nanosecond field as soon
  as the clock's microseconds do not cover the remainder, which \<open>pthread_cond_timedwait\<close> rejects
  with \<open>EINVAL\<close> instead of timing out.
\<close>

theorem monitor_negative_timeout:
  assumes "timeout < 0" "0 \<le> tv_usec now" "tv_usec now < (- timeout) mod 1000000"
  shows "\<exists>d. pmmpthread_monitor_wait (Some now) timeout = CondTimedWait d \<and> ts_nsec d < 0"
proof -
  have m: "timeout smod 1000000 = - ((- timeout) mod 1000000)"
    using assms(1) by (simp add: signed_modulo_int_def)
  define r where "r = tv_usec now - (- timeout) mod 1000000"
  have "(- timeout) mod 1000000 < 1000000" by simp
  then have "- 1000000 < r" "r < 0" using assms(2,3) unfolding r_def by linarith+
  then have "r smod 1000000 < 0" by (simp add: signed_modulo_int_def)
  then show ?thesis
    using assms(1) by (simp add: pmmpthread_monitor_wait_def m r_def)
qed

theorem monitor_negative_timeout_witness:
  "\<exists>d. pmmpthread_monitor_wait (Some \<lparr>tv_sec = 7, tv_usec = 20\<rparr>) (-1500) = CondTimedWait d \<and> ts_nsec d < 0"
  using monitor_negative_timeout [of "-1500" "\<lparr>tv_sec = 7, tv_usec = 20\<rparr>"] by simp

text \<open>
  The waiting functions give back one level of the recursive mutex only. A thread that calls
  them with the mutex taken twice (a \<open>wait()\<close> inside two nested \<open>synchronized()\<close> calls, a \<open>join()\<close>
  inside \<open>synchronized()\<close>, on the same
  object) sleeps while it still owns the mutex, and every other thread that asks for it is suspended.
\<close>

theorem monitor_nested_wait_keeps_mutex:
  assumes "mx_owner (mon_mutex m) = Some t" "2 \<le> mx_count (mon_mutex m)" "u \<noteq> t"
  shows "\<exists>m'. pthread_cond_wait t m = (0, m') \<and> t \<in> mon_cond m' \<and>
    mx_owner (mon_mutex m') = Some t \<and> pmmpthread_monitor_lock u m' = Block \<and>
    pmmpthread_monitor_add u m' k = Block \<and> pmmpthread_monitor_check u m' k = Block"
  using assms by (auto simp: pthread_cond_wait_def monitor_defs)

theorem monitor_nested_wait_keeps_mutex_witness:
  "\<exists>m'. pthread_cond_wait 1
      \<lparr>mon_state = 0, mon_mutex = \<lparr>mx_owner = Some 1, mx_count = 2, mx_max = 9\<rparr>, mon_cond = {}\<rparr> = (0, m') \<and>
     pmmpthread_monitor_add 2 m' 1 = Block"
  using monitor_nested_wait_keeps_mutex
    [of "\<lparr>mon_state = 0, mon_mutex = \<lparr>mx_owner = Some 1, mx_count = 2, mx_max = 9\<rparr>, mon_cond = {}\<rparr>" 1 2 1]
  by auto

text \<open>
  Refinement: when the mutex is free, the four steps of an update have the effect of the
  function \<open>pmmpthread_monitor_add\<close> (or \<open>pmmpthread_monitor_remove\<close>), which other components use as
  one action.
\<close>

theorem monitor_update_refines:
  assumes "pcs s t = Upd_lock b k" "mutex_avail 1 t (mon_mutex (mon s))"
  shows "\<exists>s'. monitor_run [(t, Go), (t, Go), (t, Go), (t, Go)] s = Some s' \<and> pcs s' t = Idle \<and>
    (if b then pmmpthread_monitor_add else pmmpthread_monitor_remove) t (mon s) k = Ret (mon s')"
  using assms lock_avail_eq [of 0 t "mon s"] unlock_taken_eq [of 0 t "mon_mutex (mon s)"]
  by (simp add: monitor_exec_def after_lock_def flags_upd_def pmmpthread_monitor_notify_def
      pmmpthread_monitor_add_def pmmpthread_monitor_remove_def)

theorem monitor_update_refines_witness:
  "\<exists>s'. monitor_run [(1, CallUpd True 5), (1, Go), (1, Go), (1, Go), (1, Go)] (monitor_start 1) = Some s' \<and>
     mon_state (mon s') = 5"
proof -
  let ?s = "goto (monitor_start 1) 1 (Upd_lock True 5) (mon (monitor_start 1))"
  have "pcs ?s 1 = Upd_lock True 5" "mutex_avail 1 1 (mon_mutex (mon ?s))"
    by (simp_all add: monitor_start_def mutex_avail_def)
  from monitor_update_refines [OF this] show ?thesis
    by (auto simp: monitor_exec_def monitor_start_def monitor_defs after_lock_def flags_upd_def)
qed

end
