(* ===== verification/Zend_Hash.thy ===== *)
theory Zend_Hash
  imports Prelude
begin

text \<open>
  The hash table of the Zend engine, which the program uses and which is not part of it. \<open>zend_hash_api\<close>
  collects the functions the program calls; the definitions of the program take it as an argument. The
  locale \<open>zend_hash\<close> states the engine's documented behaviour over the bucket array (\<open>slots\<close>): keys are
  unique, iteration follows insertion order, deletion leaves a hole, growing the table may compact
  the array, positions are bucket indices. The lemmas the program's proofs need follow from it, and a
  concrete table shows that the laws can be satisfied.
\<close>

section \<open>Interface\<close>

datatype hkey = HInt int | HStr string

definition ZEND_LONG_MAX :: int where "ZEND_LONG_MAX = 9223372036854775807"
definition ZEND_LONG_MIN :: int where "ZEND_LONG_MIN = - 9223372036854775808"

type_synonym 'v slots = "(hkey \<times> 'v) option list"

text \<open>
  The moving functions return the new position, or \<open>None\<close> for \<open>FAILURE\<close>, which leaves the position as
  it was.
\<close>

record ('h, 'v) zend_hash_api =
  zh_empty :: 'h
  zh_find :: "hkey \<Rightarrow> 'h \<Rightarrow> 'v option"
  zh_update :: "hkey \<Rightarrow> 'v \<Rightarrow> 'h \<Rightarrow> 'h"
  zh_del :: "hkey \<Rightarrow> 'h \<Rightarrow> 'h"
  zh_num :: "'h \<Rightarrow> nat"
  zh_next_free :: "'h \<Rightarrow> int"
  zh_reset :: "'h \<Rightarrow> nat"
  zh_end :: "'h \<Rightarrow> nat"
  zh_current :: "'h \<Rightarrow> nat \<Rightarrow> (hkey \<times> 'v) option"
  zh_forward :: "'h \<Rightarrow> nat \<Rightarrow> nat option"
  zh_backward :: "'h \<Rightarrow> nat \<Rightarrow> nat option"
  zh_foreach :: "'h \<Rightarrow> (hkey \<times> 'v) list"

section \<open>Bucket arrays\<close>

abbreviation is_hole :: "'a option \<Rightarrow> bool" where
  "is_hole x \<equiv> x = None"

definition entries :: "'v slots \<Rightarrow> (hkey \<times> 'v) list" where
  "entries s = map the (filter (\<lambda>x. x \<noteq> None) s)"

definition compact :: "'v slots \<Rightarrow> 'v slots" where
  "compact s = filter (\<lambda>x. x \<noteq> None) s"

text \<open>The first used bucket at or after a position; past the end, the position itself.\<close>

definition valid_pos :: "'v slots \<Rightarrow> nat \<Rightarrow> nat" where
  "valid_pos s p = p + length (takeWhile is_hole (drop p s))"

definition current_at :: "'v slots \<Rightarrow> nat \<Rightarrow> (hkey \<times> 'v) option" where
  "current_at s p = (if valid_pos s p < length s then s ! valid_pos s p else None)"

definition forward_pos :: "'v slots \<Rightarrow> nat \<Rightarrow> nat option" where
  "forward_pos s p =
     (if valid_pos s p < length s then Some (valid_pos s (valid_pos s p + 1)) else None)"

definition end_pos :: "'v slots \<Rightarrow> nat" where
  "end_pos s =
     (if length (takeWhile is_hole (rev s)) < length s
      then length s - 1 - length (takeWhile is_hole (rev s)) else length s)"

definition backward_pos :: "'v slots \<Rightarrow> nat \<Rightarrow> nat option" where
  "backward_pos s p =
     (if p < length s then Some (if end_pos (take p s) < p then end_pos (take p s) else length s) else None)"

definition set_value :: "hkey \<Rightarrow> 'v \<Rightarrow> 'v slots \<Rightarrow> 'v slots" where
  "set_value k v s = map (map_option (\<lambda>(k', v'). if k' = k then (k, v) else (k', v'))) s"

definition kill :: "hkey \<Rightarrow> 'v slots \<Rightarrow> 'v slots" where
  "kill k s = map (\<lambda>x. case x of None \<Rightarrow> None | Some (k', v) \<Rightarrow> if k' = k then None else x) s"

definition trim :: "'v slots \<Rightarrow> 'v slots" where
  "trim s = rev (dropWhile is_hole (rev s))"

text \<open>The bucket array after adding a new key: appended, after some unused buckets or a compaction.\<close>

definition added :: "'v slots \<Rightarrow> hkey \<Rightarrow> 'v \<Rightarrow> 'v slots \<Rightarrow> bool" where
  "added s k v s' \<longleftrightarrow> (\<exists>n. s' = s @ replicate n None @ [Some (k, v)]) \<or> s' = compact s @ [Some (k, v)]"

section \<open>The laws\<close>

locale zend_hash =
  fixes H :: "('h, 'v) zend_hash_api"
    and slots :: "'h \<Rightarrow> 'v slots"
    and ok :: "'h \<Rightarrow> bool"
  assumes ok_empty: "ok (zh_empty H)"
    and ok_update: "ok h \<Longrightarrow> ok (zh_update H k v h)"
    and ok_del: "ok h \<Longrightarrow> ok (zh_del H k h)"
    and slots_empty: "slots (zh_empty H) = []"
    and keys_distinct: "ok h \<Longrightarrow> distinct (map fst (entries (slots h)))"
    and slots_trimmed: "ok h \<Longrightarrow> slots h \<noteq> [] \<Longrightarrow> last (slots h) \<noteq> None"
    and find_law: "ok h \<Longrightarrow> zh_find H k h = map_of (entries (slots h)) k"
    and update_old: "ok h \<Longrightarrow> zh_find H k h \<noteq> None \<Longrightarrow> slots (zh_update H k v h) = set_value k v (slots h)"
    and update_new: "ok h \<Longrightarrow> zh_find H k h = None \<Longrightarrow> added (slots h) k v (slots (zh_update H k v h))"
    and del_law: "ok h \<Longrightarrow> slots (zh_del H k h) = trim (kill k (slots h))"
    and num_law: "ok h \<Longrightarrow> zh_num H h = length (entries (slots h))"
    and reset_law: "ok h \<Longrightarrow> zh_reset H h = valid_pos (slots h) 0"
    and end_law: "ok h \<Longrightarrow> zh_end H h = end_pos (slots h)"
    and current_law: "ok h \<Longrightarrow> zh_current H h p = current_at (slots h) p"
    and forward_law: "ok h \<Longrightarrow> zh_forward H h p = forward_pos (slots h) p"
    and backward_law: "ok h \<Longrightarrow> zh_backward H h p = backward_pos (slots h) p"
    and foreach_law: "ok h \<Longrightarrow> zh_foreach H h = entries (slots h)"
    and next_free_unused: "ok h \<Longrightarrow> zh_next_free H h = ZEND_LONG_MIN \<Longrightarrow> zh_find H (HInt i) h = None"
    and next_free_above: "ok h \<Longrightarrow> zh_find H (HInt i) h \<noteq> None \<Longrightarrow>
          i < zh_next_free H h \<or> zh_next_free H h = ZEND_LONG_MAX"

section \<open>Facts about bucket arrays\<close>

lemma entries_Nil [simp]: "entries [] = []"
  by (simp add: entries_def)

lemma entries_Cons [simp]: "entries (x # s) = (case x of None \<Rightarrow> entries s | Some e \<Rightarrow> e # entries s)"
  by (simp add: entries_def split: option.splits)

lemma entries_append [simp]: "entries (s @ s') = entries s @ entries s'"
  by (simp add: entries_def)

lemma entries_replicate [simp]: "entries (replicate n None) = []"
  by (simp add: entries_def)

lemma entries_compact [simp]: "entries (compact s) = entries s"
  by (simp add: entries_def compact_def)

lemma entries_added: "added s k v s' \<Longrightarrow> entries s' = entries s @ [(k, v)]"
  by (auto simp: added_def)

lemma entries_set_value: "entries (set_value k v s) = map (\<lambda>(k', v'). if k' = k then (k, v) else (k', v')) (entries s)"
  by (induction s) (auto simp: set_value_def split: option.splits)

lemma entries_kill: "entries (kill k s) = filter (\<lambda>e. fst e \<noteq> k) (entries s)"
  by (induction s) (auto simp: kill_def split: option.splits)

lemma trim_snoc: "trim (s @ [x]) = (if x = None then trim s else s @ [x])"
  by (simp add: trim_def)

lemma entries_trim [simp]: "entries (trim s) = entries s"
  by (induction s rule: rev_induct) (auto simp: trim_snoc trim_def split: option.splits)

lemma map_of_filter_key: "map_of (filter (\<lambda>e. fst e \<noteq> k) xs) k' = (if k' = k then None else map_of xs k')"
  by (induction xs) auto

lemma map_of_set_value:
  "map_of (map (\<lambda>(k', v'). if k' = k then (k, v) else (k', v')) xs) k' =
     (if k' = k \<and> map_of xs k \<noteq> None then Some v else map_of xs k')"
proof (cases "k' = k")
  case True
  then show ?thesis by (induction xs) (auto split: if_splits)
next
  case False
  then show ?thesis by (induction xs) (auto split: if_splits)
qed

section \<open>Positions\<close>

text \<open>
  A position that has only holes before it designates the first entry; in an array that ends with an
  entry, the last index designates the last one.
\<close>

definition first_ok :: "'v slots \<Rightarrow> nat \<Rightarrow> bool" where
  "first_ok s p \<longleftrightarrow> p \<le> length s \<and> entries (take p s) = []"

definition last_ok :: "'v slots \<Rightarrow> nat \<Rightarrow> bool" where
  "last_ok s p \<longleftrightarrow> s \<noteq> [] \<and> p = length s - 1"

lemma entries_eq_Nil: "entries s = [] \<longleftrightarrow> (\<forall>x \<in> set s. x = None)"
  by (induction s) (auto split: option.splits)

lemma entries_first_slot:
  "entries s = (if length (takeWhile is_hole s) < length s
     then the (s ! length (takeWhile is_hole s)) # entries (drop (Suc (length (takeWhile is_hole s))) s) else [])"
  by (induction s) (auto split: option.splits)

lemma takeWhile_slot: "length (takeWhile is_hole s) < length s \<Longrightarrow> s ! length (takeWhile is_hole s) \<noteq> None"
  by (rule nth_length_takeWhile)

lemma first_ok_drop: "first_ok s p \<Longrightarrow> entries s = entries (drop p s)"
  unfolding first_ok_def by (metis append_Nil append_take_drop_id entries_append)

lemma current_first:
  assumes "first_ok s p"
  shows "current_at s p = (case entries s of [] \<Rightarrow> None | e # _ \<Rightarrow> Some e)"
proof -
  let ?j = "length (takeWhile is_hole (drop p s))"
  have p: "p \<le> length s" using assms by (simp add: first_ok_def)
  have e: "entries s = (if ?j < length (drop p s) then the (drop p s ! ?j) # entries (drop (Suc ?j) (drop p s)) else [])"
    unfolding first_ok_drop [OF assms] by (rule entries_first_slot)
  show ?thesis
  proof (cases "?j < length (drop p s)")
    case True
    then have "s ! (p + ?j) \<noteq> None" using takeWhile_slot [OF True] p by simp
    then show ?thesis using True p unfolding e by (auto simp: current_at_def valid_pos_def)
  next
    case False
    then have "\<not> valid_pos s p < length s" using p by (simp add: valid_pos_def)
    then show ?thesis using False unfolding e by (simp add: current_at_def)
  qed
qed

lemma first_ok_reset: "first_ok s (valid_pos s 0)"
proof -
  have "take (valid_pos s 0) s = takeWhile is_hole s"
    by (simp add: valid_pos_def takeWhile_eq_take [symmetric])
  then show ?thesis
    by (auto simp: first_ok_def entries_eq_Nil valid_pos_def length_takeWhile_le dest: set_takeWhileD)
qed

lemma first_ok_valid: "first_ok s p \<Longrightarrow> first_ok s (valid_pos s p)"
proof -
  assume p: "first_ok s p"
  have "take (valid_pos s p) s = take p s @ takeWhile is_hole (drop p s)"
    by (simp add: valid_pos_def take_add takeWhile_eq_take [symmetric])
  moreover have "entries (takeWhile is_hole (drop p s)) = []"
    by (auto simp: entries_eq_Nil dest: set_takeWhileD)
  moreover have "valid_pos s p \<le> length s"
    using p length_takeWhile_le [of is_hole "drop p s"] by (auto simp: valid_pos_def first_ok_def)
  ultimately show ?thesis using p by (simp add: first_ok_def)
qed

lemma trim_decomp: "\<exists>n. s = trim s @ replicate n None"
proof (induction s rule: rev_induct)
  case Nil
  show ?case by (simp add: trim_def)
next
  case (snoc x s)
  then obtain n where n: "s = trim s @ replicate n None" by blast
  show ?case
  proof (cases "x = None")
    case True
    then have "s @ [x] = trim (s @ [x]) @ replicate (Suc n) None"
      using n by (simp add: trim_snoc replicate_append_same [symmetric])
    then show ?thesis by blast
  next
    case False
    show ?thesis by (intro exI [of _ 0]) (simp only: trim_snoc False if_False replicate_0 append_Nil2)
  qed
qed

lemma trim_take: "q \<le> length (trim s) \<Longrightarrow> take q (trim s) = take q s"
  using trim_decomp [of s] by (metis append_Nil2 append_eq_conv_conj take_append take_eq_Nil2 diff_is_0_eq)

lemma trim_keeps:
  assumes "q < length s" "s ! q \<noteq> None"
  shows "q < length (trim s)"
proof (rule ccontr)
  assume "\<not> q < length (trim s)"
  moreover obtain n where n: "s = trim s @ replicate n None" using trim_decomp by blast
  moreover have "q - length (trim s) < n" using assms(1) calculation
    by (metis (no_types) length_append length_replicate less_diff_conv2 linorder_not_less add.commute)
  ultimately have "s ! q = None" by (metis nth_append nth_replicate)
  with assms(2) show False by contradiction
qed

lemma kill_other: "k \<notin> fst ` set (entries s) \<Longrightarrow> kill k s = s"
  by (induction s) (auto simp: kill_def split: option.splits)

lemma length_trim: "length (trim s) = length s - length (takeWhile is_hole (rev s))"
  by (simp add: trim_def dropWhile_eq_drop)

lemma entries_rev: "entries (rev s) = rev (entries s)"
  by (simp add: entries_def rev_map rev_filter)

lemma holes_all: "length (takeWhile is_hole (rev s)) < length s \<longleftrightarrow> entries s \<noteq> []"
  using entries_first_slot [of "rev s"] by (simp add: entries_rev split: if_splits)

lemma end_pos_trim: "end_pos s = (if entries s = [] then length s else length (trim s) - 1)"
  by (auto simp: end_pos_def holes_all length_trim)

text \<open>Taking the first entry out: the next position designates the first of the others.\<close>

lemma shift_first:
  assumes "first_ok s p" "entries s = (k, v) # es" "es \<noteq> []" "distinct (map fst (entries s))"
  shows "\<exists>q. forward_pos s p = Some q \<and> first_ok (trim (kill k s)) q"
proof -
  define i where "i = valid_pos s p"
  have i: "first_ok s i" using first_ok_valid [OF assms(1)] by (simp add: i_def)
  have il: "i < length s" and si: "s ! i = Some (k, v)"
    using current_first [OF assms(1)] assms(2) by (auto simp: current_at_def i_def split: if_splits)
  define q where "q = valid_pos s (i + 1)"
  have split: "s = take i s @ Some (k, v) # drop (Suc i) s" using il si by (metis id_take_nth_drop)
  have e2: "entries (drop (Suc i) s) = es"
    using arg_cong [OF split, of entries] i assms(2) by (simp add: first_ok_def)
  let ?d = "drop (Suc i) s"
  let ?j = "length (takeWhile is_hole ?d)"
  have j: "?j < length ?d" using entries_first_slot [of ?d] assms(3) e2 by (auto split: if_splits)
  have q: "q = i + 1 + ?j" "q < length s" using j by (auto simp: q_def valid_pos_def)
  have sq: "s ! q \<noteq> None" using takeWhile_slot [OF j] q by simp
  have other: "k \<notin> fst ` set es" using assms(2,4) by auto
  have kd: "kill k ?d = ?d" using other e2 by (intro kill_other) simp
  have ks: "kill k s = take i s @ None # ?d"
  proof -
    have "kill k (take i s) = take i s" using i by (intro kill_other) (simp add: first_ok_def)
    then show ?thesis using kd by (subst split) (simp add: kill_def)
  qed
  have "length (kill k s) = length s" by (simp add: kill_def)
  moreover have "kill k s ! q = s ! q"
    using q il by (simp add: ks nth_append)
  ultimately have ql: "q < length (trim (kill k s))" using q sq by (intro trim_keeps) auto
  have "take q (kill k s) = take i s @ None # takeWhile is_hole ?d"
    using il q by (simp add: ks takeWhile_eq_take [symmetric])
  moreover have "entries (takeWhile is_hole ?d) = []" by (auto simp: entries_eq_Nil dest: set_takeWhileD)
  ultimately have "entries (take q (kill k s)) = []" using i by (simp add: first_ok_def)
  then have "first_ok (trim (kill k s)) q" using ql by (simp add: first_ok_def trim_take)
  moreover have "forward_pos s p = Some q" using il by (simp add: forward_pos_def i_def [symmetric] q_def)
  ultimately show ?thesis by blast
qed

text \<open>Taking the last entry out: the position before designates the last of the others.\<close>

lemma last_entry:
  assumes "s \<noteq> []" "last s \<noteq> None"
  shows "\<exists>k v s0. s = s0 @ [Some (k, v)]"
  using assms by (cases s rule: rev_cases) auto

lemma current_last:
  assumes "last_ok s p" "last s \<noteq> None"
  shows "entries s \<noteq> [] \<and> current_at s p = Some (last (entries s))"
proof -
  obtain k v s0 where s: "s = s0 @ [Some (k, v)]" using last_entry [of s] assms unfolding last_ok_def by blast
  then have "valid_pos s p = p" "s ! p = Some (k, v)" "p < length s"
    using assms(1) by (auto simp: last_ok_def valid_pos_def)
  then show ?thesis using s by (simp add: current_at_def)
qed

lemma end_last: "s \<noteq> [] \<Longrightarrow> last s \<noteq> None \<Longrightarrow> last_ok s (end_pos s)"
  using last_entry [of s] by (auto simp: last_ok_def end_pos_trim trim_snoc)

lemma pop_last:
  assumes "last_ok s p" "last s \<noteq> None" "entries s = es @ [(k, v)]" "es \<noteq> []" "distinct (map fst (entries s))"
  shows "\<exists>q. backward_pos s p = Some q \<and> last_ok (trim (kill k s)) q"
proof -
  obtain k' v' s0 where s: "s = s0 @ [Some (k', v')]" using last_entry [of s] assms(1,2) unfolding last_ok_def by blast
  then have e0: "entries s0 = es" "k' = k" using assms(3) by auto
  have "kill k s0 = s0" using assms(3,5) e0 by (intro kill_other) auto
  then have t: "trim (kill k s) = trim s0" using s e0 by (simp add: kill_def trim_snoc)
  have n0: "entries s0 \<noteq> []" "trim s0 \<noteq> []" using e0 assms(4) entries_trim [of s0] entries_Nil by metis+
  have lt: "length (trim s0) \<le> length s0" by (simp add: length_trim)
  have p: "p = length s0" "take p s = s0" using assms(1) s by (auto simp: last_ok_def)
  have "length (trim s0) - 1 < length s0" using n0(2) lt by (cases "trim s0") auto
  then have "backward_pos s p = Some (length (trim s0) - 1)"
    using p s n0 by (auto simp: backward_pos_def end_pos_trim)
  then show ?thesis using n0 by (auto simp: last_ok_def t)
qed

lemma length_filter_key:
  "distinct (map fst xs) \<Longrightarrow> length (filter (\<lambda>e. fst e \<noteq> k) xs) = length xs - (if map_of xs k = None then 0 else 1)"
proof (induction xs)
  case (Cons x xs)
  have "filter (\<lambda>e. fst e \<noteq> fst x) xs = xs" using Cons.prems by (intro filter_True) (auto simp: image_iff)
  moreover have "length xs \<noteq> 0" if "map_of xs k \<noteq> None" using that by auto
  ultimately show ?case using Cons by (cases x) (auto simp: Suc_diff_le split: if_splits)
qed simp

context zend_hash
begin

lemma find_empty [simp]: "zh_find H k (zh_empty H) = None"
  by (simp add: find_law ok_empty slots_empty)

lemma find_update: "ok h \<Longrightarrow> zh_find H k' (zh_update H k v h) = (if k' = k then Some v else zh_find H k' h)"
proof (cases "zh_find H k h = None")
  case True
  assume ok: "ok h"
  have "entries (slots (zh_update H k v h)) = entries (slots h) @ [(k, v)]"
    using update_new [OF ok True] by (rule entries_added)
  then show ?thesis using True ok by (auto simp: find_law ok_update map_add_def split: option.splits)
next
  case False
  assume ok: "ok h"
  then have "map_of (entries (slots h)) k \<noteq> None" using False by (simp add: find_law)
  then show ?thesis
    using update_old [OF ok False, of v] ok
    by (auto simp: find_law ok_update entries_set_value map_of_set_value)
qed

lemma find_del: "ok h \<Longrightarrow> zh_find H k' (zh_del H k h) = (if k' = k then None else zh_find H k' h)"
  by (simp add: find_law ok_del del_law entries_kill map_of_filter_key)

lemma foreach_update_new:
  "ok h \<Longrightarrow> zh_find H k h = None \<Longrightarrow> zh_foreach H (zh_update H k v h) = zh_foreach H h @ [(k, v)]"
  by (simp add: foreach_law ok_update entries_added [OF update_new])

lemma foreach_del: "ok h \<Longrightarrow> zh_foreach H (zh_del H k h) = filter (\<lambda>e. fst e \<noteq> k) (zh_foreach H h)"
  by (simp add: foreach_law ok_del del_law entries_kill)

lemma foreach_keys: "ok h \<Longrightarrow> distinct (map fst (zh_foreach H h))"
  by (simp add: foreach_law keys_distinct)

lemma foreach_find: "ok h \<Longrightarrow> zh_find H k h = map_of (zh_foreach H h) k"
  by (simp add: foreach_law find_law)

lemma num_del: "ok h \<Longrightarrow> zh_num H (zh_del H k h) = zh_num H h - (if zh_find H k h = None then 0 else 1)"
  by (simp add: num_law ok_del del_law entries_kill find_law length_filter_key keys_distinct)

lemma num_foreach: "ok h \<Longrightarrow> zh_num H h = length (zh_foreach H h)"
  by (simp add: foreach_law num_law)

end

section \<open>A table that satisfies the laws\<close>

text \<open>
  A table of buckets that compacts its holes when it has eight buckets or more at the time of an
  insertion, as the engine does when the allocated buckets are used up.
\<close>

record 'v btable =
  bt_slots :: "'v slots"
  bt_next :: int

definition next_after :: "int \<Rightarrow> int" where
  "next_after i = min ZEND_LONG_MAX (max (ZEND_LONG_MIN + 1) (i + 1))"

definition bt_update :: "hkey \<Rightarrow> 'v \<Rightarrow> 'v btable \<Rightarrow> 'v btable" where
  "bt_update k v t =
     (if map_of (entries (bt_slots t)) k \<noteq> None then t\<lparr>bt_slots := set_value k v (bt_slots t)\<rparr>
      else \<lparr>bt_slots = (if 8 \<le> length (bt_slots t) then compact (bt_slots t) else bt_slots t) @ [Some (k, v)],
            bt_next = (case k of HStr _ \<Rightarrow> bt_next t
                       | HInt i \<Rightarrow> if bt_next t \<le> i \<or> bt_next t = ZEND_LONG_MIN
                                   then next_after i
                                   else bt_next t)\<rparr>)"

definition bt_api :: "('v btable, 'v) zend_hash_api" where
  "bt_api =
     \<lparr>zh_empty = \<lparr>bt_slots = [], bt_next = ZEND_LONG_MIN\<rparr>,
      zh_find = (\<lambda>k t. map_of (entries (bt_slots t)) k),
      zh_update = bt_update,
      zh_del = (\<lambda>k t. t\<lparr>bt_slots := trim (kill k (bt_slots t))\<rparr>),
      zh_num = (\<lambda>t. length (entries (bt_slots t))),
      zh_next_free = bt_next,
      zh_reset = (\<lambda>t. valid_pos (bt_slots t) 0),
      zh_end = (\<lambda>t. end_pos (bt_slots t)),
      zh_current = (\<lambda>t. current_at (bt_slots t)),
      zh_forward = (\<lambda>t. forward_pos (bt_slots t)),
      zh_backward = (\<lambda>t. backward_pos (bt_slots t)),
      zh_foreach = (\<lambda>t. entries (bt_slots t))\<rparr>"

text \<open>The next free index lies above the integer keys, or has reached the last one.\<close>

fun key_below :: "int \<Rightarrow> hkey \<Rightarrow> bool" where
  "key_below n (HInt i) \<longleftrightarrow> (i < n \<or> n = ZEND_LONG_MAX) \<and> n \<noteq> ZEND_LONG_MIN"
| "key_below n (HStr _) \<longleftrightarrow> True"

definition next_ok :: "(hkey \<times> 'v) list \<Rightarrow> int \<Rightarrow> bool" where
  "next_ok es n \<longleftrightarrow> (\<forall>k \<in> fst ` set es. key_below n k)"

lemma key_below_next: "key_below (next_after i) (HInt i)"
  by (auto simp: next_after_def ZEND_LONG_MIN_def ZEND_LONG_MAX_def)

lemma key_below_mono: "key_below n k \<Longrightarrow> n \<le> i \<or> n = ZEND_LONG_MIN \<Longrightarrow> key_below (next_after i) k"
  by (cases k) (auto simp: next_after_def ZEND_LONG_MIN_def ZEND_LONG_MAX_def min_def max_def)

definition bt_ok :: "'v btable \<Rightarrow> bool" where
  "bt_ok t \<longleftrightarrow> distinct (map fst (entries (bt_slots t))) \<and> (bt_slots t \<noteq> [] \<longrightarrow> last (bt_slots t) \<noteq> None) \<and>
     next_ok (entries (bt_slots t)) (bt_next t)"

lemma set_value_keys: "map fst (entries (set_value k v s)) = map fst (entries s)"
  by (auto simp: entries_set_value)

lemma last_map_option: "s \<noteq> [] \<Longrightarrow> last s \<noteq> None \<Longrightarrow> last (map (map_option f) s) \<noteq> None"
  by (simp add: last_map)

lemma next_ok_keys: "fst ` set es' \<subseteq> fst ` set es \<Longrightarrow> next_ok es n \<Longrightarrow> next_ok es' n"
  unfolding next_ok_def by blast

lemma bt_update_ok:
  assumes "bt_ok t"
  shows "bt_ok (bt_update k v t)"
proof (cases "map_of (entries (bt_slots t)) k = None")
  case True
  define n where "n = bt_next (bt_update k v t)"
  have n: "n = (case k of HStr _ \<Rightarrow> bt_next t
                       | HInt i \<Rightarrow> if bt_next t \<le> i \<or> bt_next t = ZEND_LONG_MIN
                                   then next_after i
                                   else bt_next t)"
    using True by (simp add: n_def bt_update_def)
  have e: "entries (bt_slots (bt_update k v t)) = entries (bt_slots t) @ [(k, v)]"
    using True by (simp add: bt_update_def)
  have "next_ok (entries (bt_slots t) @ [(k, v)]) n"
    using assms key_below_next key_below_mono unfolding n bt_ok_def next_ok_def
    by (auto split: hkey.splits)
  moreover have "bt_slots (bt_update k v t) \<noteq> [] \<longrightarrow> last (bt_slots (bt_update k v t)) \<noteq> None"
    using True by (simp add: bt_update_def)
  ultimately show ?thesis
    using assms True unfolding bt_ok_def n_def e by (auto simp: map_of_eq_None_iff)
next
  case False
  then have u: "bt_update k v t = t\<lparr>bt_slots := set_value k v (bt_slots t)\<rparr>" by (simp add: bt_update_def)
  have keys: "fst ` set (entries (set_value k v (bt_slots t))) = fst ` set (entries (bt_slots t))"
    using arg_cong [OF set_value_keys [of k v "bt_slots t"], of set] by simp
  have "next_ok (entries (set_value k v (bt_slots t))) (bt_next t)"
    using assms keys unfolding bt_ok_def next_ok_def by simp
  then show ?thesis
    using assms set_value_keys [of k v "bt_slots t"] last_map_option [of "bt_slots t" "\<lambda>(k', v'). if k' = k then (k, v) else (k', v')"]
    unfolding u bt_ok_def by (simp add: set_value_def)
qed

lemma trim_last: "trim s \<noteq> [] \<Longrightarrow> last (trim s) \<noteq> None"
  by (induction s rule: rev_induct) (auto simp: trim_snoc trim_def)

lemma next_ok_find: "next_ok es n \<Longrightarrow> map_of es (HInt i) \<noteq> None \<Longrightarrow> (i < n \<or> n = ZEND_LONG_MAX) \<and> n \<noteq> ZEND_LONG_MIN"
  unfolding next_ok_def by (metis key_below.simps(1) map_of_eq_None_iff)

interpretation bt: zend_hash bt_api bt_slots bt_ok
proof (unfold_locales, goal_cases)
  case (3 h k)
  have "fst ` set (entries (trim (kill k (bt_slots h)))) \<subseteq> fst ` set (entries (bt_slots h))"
    by (auto simp: entries_kill)
  then have "next_ok (entries (trim (kill k (bt_slots h)))) (bt_next h)"
    using 3 next_ok_keys unfolding bt_ok_def by blast
  then show ?case
    using 3 trim_last by (auto simp: bt_ok_def bt_api_def entries_kill distinct_map_filter)
next
  case (9 h k v)
  then show ?case by (auto simp: bt_api_def bt_update_def added_def intro: exI [of _ 0])
next
  case (18 h i)
  then show ?case
    using next_ok_find [of "entries (bt_slots h)" "bt_next h" i]
    by (cases "map_of (entries (bt_slots h)) (HInt i)") (auto simp: bt_ok_def bt_api_def)
next
  case (19 h i)
  then show ?case using next_ok_find [of "entries (bt_slots h)" "bt_next h" i] by (auto simp: bt_ok_def bt_api_def)
qed (simp_all add: bt_update_ok bt_api_def, auto simp: bt_ok_def next_ok_def bt_update_def)

end
