(* ===== verification/Objects.thy ===== *)
theory Objects
  imports Monitor Zend_Hash "HOL-Library.AList"
begin

text \<open>
  The data of the extension and its process-wide tables (src/thread.h, src/store.h,
  src/store_types.h, src/globals.c) and the part of src/object.c by which a thread obtains its own
  connection to an object of another thread. A thread-safe object has one shared part
  (\<open>pmmpthread_object_t\<close>, with the property store) and one connection
  (\<open>pmmpthread_zend_object_t\<close>, with a local property cache) per thread that uses it.
\<close>

section \<open>Values\<close>

record pmmpthread_ident_t =
  ident_id :: nat
  ident_ls :: tid

text \<open>
  A string is a pointer and its content. Permanent strings live for the whole process and may be
  shared; persistent ones are allocated outside any thread's memory.
\<close>

record zend_string =
  zs_ptr :: addr
  zs_val :: string
  zs_permanent :: bool
  zs_persistent :: bool

datatype closure_this = ThisUndef | ThisThreadSafe addr | ThisOther

text \<open>Of the opcodes of a closure only \<open>ZEND_BIND_STATIC\<close> and its by-reference flag are looked at.\<close>

record zend_closure =
  cl_ptr :: addr
  cl_this :: closure_this
  cl_user_function :: bool
  cl_fake :: bool
  cl_statics :: bool
  cl_opcodes :: "(bool \<times> bool) list"

record php_socket =
  bsd_socket :: int
  sock_type :: int
  sock_error :: int
  sock_blocking :: int
  sock_stream :: bool

datatype pmmpthread_storage =
    STORE_TYPE_CLOSURE zend_closure "addr option" pmmpthread_ident_t
  | STORE_TYPE_THREADSAFE_OBJECT addr
  | STORE_TYPE_SOCKET int int int int
  | STORE_TYPE_ENUM zend_string zend_string
  | STORE_TYPE_STRING_PTR zend_string pmmpthread_ident_t

text \<open>
  A PHP value, with the objects sorted by how the extension treats them. Arrays and the properties
  of other objects are association lists in iteration order. Doubles are bit patterns.
\<close>

datatype zval =
    Z_UNDEF
  | Z_NULL
  | Z_FALSE
  | Z_TRUE
  | Z_LONG int
  | Z_DOUBLE "64 word"
  | Z_STRING zend_string
  | Z_ARRAY "(hkey \<times> zval) list"
  | Z_ENUM zend_string zend_string
  | Z_CLOSURE zend_closure
  | Z_THREADSAFE addr
  | Z_SOCKET php_socket
  | Z_OBJECT addr "(hkey \<times> zval) list"
  | Z_PTR pmmpthread_storage
  | Z_INDIRECT zval

section \<open>Objects\<close>

text \<open>A position of the store is a bucket index; \<open>None\<close> is \<open>HT_INVALID_IDX\<close>.\<close>

record 'h pmmpthread_store_t =
  st_hash :: 'h
  st_modcount :: int
  st_first :: "nat option"
  st_last :: "nat option"

record 'h pmmpthread_object_t =
  o_refcount :: nat
  o_scope :: nat
  o_props :: "'h pmmpthread_store_t"
  o_creator :: pmmpthread_ident_t
  o_local :: pmmpthread_ident_t

text \<open>
  \<open>zo_properties\<close> is the thread's own property table, \<open>None\<close> while it is not allocated, in iteration
  order; \<open>zo_array\<close> tells whether the class is a \<open>ThreadSafeArray\<close>, \<open>zo_declared\<close> are the declared properties
  of the class, \<open>zo_recursive\<close> is the engine's recursion guard.
\<close>

record pmmpthread_zend_object_t =
  zo_ts :: addr
  zo_owner :: pmmpthread_ident_t
  zo_local_modcount :: int
  zo_worker :: bool
  zo_array :: bool
  zo_recursive :: bool
  zo_declared :: "hkey list"
  zo_properties :: "(hkey \<times> zval) list option"

datatype pmmpthread_error =
    ClosureThisNotThreadSafe
  | ClosureHasStatics
  | IndirectModification
  | ObjectDestroyed
  | CannotMerge hkey
  | NonThreadSafeDefault hkey
  | IterationByReference
  | InaccessibleProperty string
  | WriteOnlyProperty string
  | ReadOnlyProperty string
  | VirtualPropertyAccess string bool
  | UninitializedProperty string
  | AsymmetricVisibility string
  | NonThreadSafeValue
  | NonThreadSafeProperty string
  | DynamicProperty string
  | UnsetHookedProperty string
  | EnumCaseMissing string
  | ClosureThisGone
  | UnknownMethod string
  | UnknownFunction string

text \<open>
  The state of the process: the shared parts and the connections by address, the monitors of the
  shared parts, the globals of src/globals.h, the thread-local globals of src/pmmpthread.h, the pending
  exception of each thread, the addresses the allocators are going to return, and the engine's guards
  against re-entering the magic methods of an object.
\<close>

record 'h world =
  ts_objs :: "addr \<Rightarrow> 'h pmmpthread_object_t option"
  zobjs :: "addr \<Rightarrow> pmmpthread_zend_object_t option"
  monitors :: "addr \<Rightarrow> pmmpthread_monitor_t"
  g_init :: bool
  g_failed :: bool
  g_monitor :: pmmpthread_monitor_t
  g_objects :: "addr set"
  g_shared_globals :: ptr
  g_shared_sockets :: "int set"
  g_interned :: "string \<rightharpoonup> zend_string"
  g_thread_count :: nat
  z_resolve :: "tid \<Rightarrow> addr \<rightharpoonup> addr"
  z_connecting :: "tid \<Rightarrow> ptr"
  z_shared_globals :: "tid \<Rightarrow> ptr"
  exceptions :: "tid \<Rightarrow> pmmpthread_error option"
  addrs :: "nat \<Rightarrow> addr"
  guards :: "addr \<Rightarrow> string \<Rightarrow> 32 word"

definition new_addr :: "'h world \<Rightarrow> addr \<times> 'h world" where
  "new_addr w = (addrs w 0, w\<lparr>addrs := (\<lambda>n. addrs w (Suc n))\<rparr>)"

definition throw :: "tid \<Rightarrow> pmmpthread_error \<Rightarrow> 'h world \<Rightarrow> 'h world" where
  "throw t e w = w\<lparr>exceptions := (exceptions w)(t \<mapsto> e)\<rparr>"

text \<open>\<open>zend_string_init\<close>: a new string with the given content.\<close>

definition zend_string_init :: "string \<Rightarrow> bool \<Rightarrow> 'h world \<Rightarrow> zend_string \<times> 'h world" where
  "zend_string_init s persistent w =
     (case new_addr w of
        (a, w1) \<Rightarrow> (\<lparr>zs_ptr = a, zs_val = s, zs_permanent = False, zs_persistent = persistent\<rparr>, w1))"

section \<open>Critical sections\<close>

text \<open>
  \<open>ts_locked t a body z w\<close>: the body in the critical section of the shared part at \<open>a\<close>. The lock is
  taken and given back through the functions of the monitor; \<open>z\<close> is the result when it cannot be taken.
  \<open>globals_locked\<close> is the same for the global lock.
\<close>

definition ts_locked ::
  "tid \<Rightarrow> addr \<Rightarrow> ('h world \<Rightarrow> ('r \<times> 'h world) outcome) \<Rightarrow> 'r \<Rightarrow> 'h world \<Rightarrow> ('r \<times> 'h world) outcome"
where
  "ts_locked t a body z w =
     obind
       (guarded pmmpthread_monitor_lock pmmpthread_monitor_unlock t (monitors w a) w
         (\<lambda>m w1. obind (body w1) (\<lambda>(r, w2). Ret (r, m, w2))) z)
       (\<lambda>(r, m, w2). Ret (r, w2\<lparr>monitors := (monitors w2)(a := m)\<rparr>))"

definition globals_locked ::
  "tid \<Rightarrow> ('h world \<Rightarrow> ('r \<times> 'h world) outcome) \<Rightarrow> 'r \<Rightarrow> 'h world \<Rightarrow> ('r \<times> 'h world) outcome"
where
  "globals_locked t body z w =
     obind
       (guarded pmmpthread_monitor_lock pmmpthread_monitor_unlock t (g_monitor w) w
         (\<lambda>m w1. obind (body w1) (\<lambda>(r, w2). Ret (r, m, w2))) z)
       (\<lambda>(r, m, w2). Ret (r, w2\<lparr>g_monitor := m\<rparr>))"

section \<open>Globals (src/globals.c)\<close>

definition pmmpthread_globals_lock :: "tid \<Rightarrow> 'h world \<Rightarrow> (bool \<times> 'h world) outcome" where
  "pmmpthread_globals_lock t w =
     obind (pmmpthread_monitor_lock t (g_monitor w)) (\<lambda>(ok, m). Ret (ok, w\<lparr>g_monitor := m\<rparr>))"

definition pmmpthread_globals_unlock :: "tid \<Rightarrow> 'h world \<Rightarrow> 'h world" where
  "pmmpthread_globals_unlock t w = w\<lparr>g_monitor := snd (pmmpthread_monitor_unlock t (g_monitor w))\<rparr>"

definition pmmpthread_globals_init :: "nat \<Rightarrow> int \<Rightarrow> int \<Rightarrow> 'h world \<Rightarrow> bool \<times> 'h world" where
  "pmmpthread_globals_init lim mutex_ret cond_ret w =
     (if \<not> g_init w \<and> \<not> g_failed w then
        (case pmmpthread_monitor_init lim mutex_ret cond_ret of
           (True, Some m) \<Rightarrow>
             (True, w\<lparr>g_init := True, g_monitor := m, g_shared_globals := None, g_objects := {},
                      g_shared_sockets := {}, g_interned := (\<lambda>_. None), g_thread_count := 0\<rparr>)
         | _ \<Rightarrow> (False, w\<lparr>g_init := False, g_failed := True\<rparr>))
      else (False, w))"

definition pmmpthread_globals_shutdown :: "'h world \<Rightarrow> 'h world outcome" where
  "pmmpthread_globals_shutdown w =
     (if g_init w then
        obind (pmmpthread_monitor_destroy (g_monitor w)) (\<lambda>_.
          Ret (w\<lparr>g_init := False, g_failed := False, g_objects := {}, g_shared_sockets := {},
                 g_interned := (\<lambda>_. None)\<rparr>))
      else Ret w)"

text \<open>\<open>permanent\<close> is the engine's \<open>zend_interned_string_find_permanent\<close>.\<close>

definition pmmpthread_globals_find_interned_string ::
  "(string \<rightharpoonup> zend_string) \<Rightarrow> tid \<Rightarrow> zend_string \<Rightarrow> 'h world \<Rightarrow> (zend_string option \<times> 'h world) outcome"
where
  "pmmpthread_globals_find_interned_string permanent t str w =
     (if zs_permanent str then Ret (Some str, w)
      else case permanent (zs_val str) of
        Some r \<Rightarrow> Ret (Some r, w)
      | None \<Rightarrow> globals_locked t (\<lambda>w. Ret (g_interned w (zs_val str), w)) None w)"

definition pmmpthread_globals_add_interned_string ::
  "(string \<rightharpoonup> zend_string) \<Rightarrow> tid \<Rightarrow> zend_string \<Rightarrow> 'h world \<Rightarrow> (zend_string option \<times> 'h world) outcome"
where
  "pmmpthread_globals_add_interned_string permanent t str w =
     (if zs_permanent str then Ret (Some str, w)
      else globals_locked t
        (\<lambda>w.
          obind (pmmpthread_globals_find_interned_string permanent t str w) (\<lambda>(found, w1).
            case found of
              Some r \<Rightarrow> Ret (Some r, w1)
            | None \<Rightarrow>
                (case zend_string_init (zs_val str) True w1 of
                   (s, w2) \<Rightarrow>
                     (let r = s\<lparr>zs_permanent := True\<rparr> in
                      Ret (Some r, w2\<lparr>g_interned := (g_interned w2)(zs_val str \<mapsto> r)\<rparr>))))) None w)"

text \<open>The structure is zeroed after it has been registered.\<close>

definition zero_ident :: pmmpthread_ident_t where
  "zero_ident = \<lparr>ident_id = 0, ident_ls = 0\<rparr>"

definition zero_object :: pmmpthread_zend_object_t where
  "zero_object = \<lparr>zo_ts = 0, zo_owner = zero_ident, zo_local_modcount = 0, zo_worker = False, zo_array = False,
     zo_recursive = False, zo_declared = [], zo_properties = None\<rparr>"

definition pmmpthread_globals_object_alloc :: "tid \<Rightarrow> 'h world \<Rightarrow> (addr \<times> 'h world) outcome" where
  "pmmpthread_globals_object_alloc t w =
     (case new_addr w of
        (a, w1) \<Rightarrow>
          obind (globals_locked t (\<lambda>w. Ret ((), w\<lparr>g_objects := insert a (g_objects w)\<rparr>)) () w1) (\<lambda>(_, w2).
            Ret (a, w2\<lparr>zobjs := (zobjs w2)(a \<mapsto> zero_object)\<rparr>)))"

definition pmmpthread_globals_object_valid :: "tid \<Rightarrow> ptr \<Rightarrow> 'h world \<Rightarrow> (bool \<times> 'h world) outcome" where
  "pmmpthread_globals_object_valid t address w =
     (case address of
        None \<Rightarrow> Ret (False, w)
      | Some a \<Rightarrow> globals_locked t (\<lambda>w. Ret (a \<in> g_objects w, w)) False w)"

text \<open>The value returned is the engine's result code converted to a boolean: \<open>SUCCESS\<close> is zero.\<close>

definition pmmpthread_globals_object_delete :: "tid \<Rightarrow> ptr \<Rightarrow> 'h world \<Rightarrow> (bool \<times> 'h world) outcome" where
  "pmmpthread_globals_object_delete t address w =
     (case address of
        None \<Rightarrow> Ret (False, w)
      | Some a \<Rightarrow>
          globals_locked t (\<lambda>w. Ret (a \<notin> g_objects w, w\<lparr>g_objects := g_objects w - {a}\<rparr>)) False w)"

definition pmmpthread_globals_shared_socket_track :: "tid \<Rightarrow> int \<Rightarrow> 'h world \<Rightarrow> (unit \<times> 'h world) outcome" where
  "pmmpthread_globals_shared_socket_track t socket w =
     (if socket < 0 then Ret ((), w)
      else globals_locked t
        (\<lambda>w. Ret ((), w\<lparr>g_shared_sockets := insert socket (g_shared_sockets w)\<rparr>)) () w)"

definition pmmpthread_globals_socket_shared :: "tid \<Rightarrow> int \<Rightarrow> 'h world \<Rightarrow> (bool \<times> 'h world) outcome" where
  "pmmpthread_globals_socket_shared t socket w =
     (if socket < 0 then Ret (False, w)
      else globals_locked t (\<lambda>w. Ret (socket \<in> g_shared_sockets w, w)) False w)"

section \<open>Connections (src/object.c)\<close>

definition PMMPTHREAD_THREAD_OWNS :: "tid \<Rightarrow> pmmpthread_zend_object_t \<Rightarrow> bool" where
  "PMMPTHREAD_THREAD_OWNS t z \<longleftrightarrow> ident_ls (zo_owner z) = t"

definition PMMPTHREAD_IN_CREATOR :: "tid \<Rightarrow> 'h pmmpthread_object_t \<Rightarrow> bool" where
  "PMMPTHREAD_IN_CREATOR t ob \<longleftrightarrow> ident_ls (o_creator ob) = t"

definition upd_zobj :: "addr \<Rightarrow> (pmmpthread_zend_object_t \<Rightarrow> pmmpthread_zend_object_t) \<Rightarrow> 'h world \<Rightarrow> 'h world outcome" where
  "upd_zobj a f w = obind (of_mem (cell_upd a f (zobjs w))) (\<lambda>h. Ret (w\<lparr>zobjs := h\<rparr>))"

definition upd_ts :: "addr \<Rightarrow> ('h pmmpthread_object_t \<Rightarrow> 'h pmmpthread_object_t) \<Rightarrow> 'h world \<Rightarrow> 'h world outcome" where
  "upd_ts a f w = obind (of_mem (cell_upd a f (ts_objs w))) (\<lambda>h. Ret (w\<lparr>ts_objs := h\<rparr>))"

definition pmmpthread_connect_nolock :: "ptr \<Rightarrow> ptr \<Rightarrow> 'h world \<Rightarrow> (bool \<times> 'h world) outcome" where
  "pmmpthread_connect_nolock source destination w =
     (case (source, destination) of
        (Some src, Some dst) \<Rightarrow>
          obind (of_mem (zobjs w src)) (\<lambda>zs.
          obind (upd_zobj dst (\<lambda>z. z\<lparr>zo_ts := zo_ts zs\<rparr>) w) (\<lambda>w1.
          obind (upd_ts (zo_ts zs) (\<lambda>ob. ob\<lparr>o_refcount := o_refcount ob + 1\<rparr>) w1) (\<lambda>w2.
          obind (upd_zobj dst (\<lambda>z. z\<lparr>zo_properties := map_option (\<lambda>_. []) (zo_properties z)\<rparr>) w2) (\<lambda>w3.
          Ret (True, w3)))))
      | _ \<Rightarrow> Ret (False, w))"

definition pmmpthread_connect :: "tid \<Rightarrow> ptr \<Rightarrow> ptr \<Rightarrow> 'h world \<Rightarrow> (bool \<times> 'h world) outcome" where
  "pmmpthread_connect t source destination w =
     globals_locked t (pmmpthread_connect_nolock source destination) False w"

text \<open>
  The end of \<open>pmmpthread_base_ctor\<close>: the new connection becomes the one its thread finds, unless it
  has one already, and starts out of sync.
\<close>

definition base_ctor_link :: "tid \<Rightarrow> addr \<Rightarrow> 'h world \<Rightarrow> 'h world outcome" where
  "base_ctor_link t base w =
     obind (of_mem (zobjs w base)) (\<lambda>z.
     obind (of_mem (ts_objs w (zo_ts z))) (\<lambda>ob.
     let r = z_resolve w t;
         r1 = (if r (zo_ts z) = None then r(zo_ts z \<mapsto> base) else r);
         w1 = w\<lparr>z_resolve := (z_resolve w)(t := r1)\<rparr>
     in upd_zobj base (\<lambda>z. z\<lparr>zo_local_modcount := st_modcount (o_props ob) - 1\<rparr>) w1))"

text \<open>
  What \<open>object_init_ex\<close> runs while an object is being connected: the class's constructor function with
  \<open>connecting_object\<close> set. \<open>oid\<close> is the operating system's name of the thread.
\<close>

definition connection_ctor :: "tid \<Rightarrow> nat \<Rightarrow> addr \<Rightarrow> 'h world \<Rightarrow> (addr \<times> 'h world) outcome" where
  "connection_ctor t oid original w =
     obind (pmmpthread_globals_object_alloc t w) (\<lambda>(base, w1).
     obind (of_mem (zobjs w1 original)) (\<lambda>zo.
     obind (upd_zobj base (\<lambda>z. z\<lparr>zo_owner := \<lparr>ident_id = oid, ident_ls = t\<rparr>, zo_worker := False,
                                 zo_array := zo_array zo, zo_declared := zo_declared zo, zo_properties := None\<rparr>) w1) (\<lambda>w2.
     obind (pmmpthread_connect t (z_connecting w2 t) (Some base) w2) (\<lambda>(_, w3).
     obind (base_ctor_link t base w3) (\<lambda>w4. Ret (base, w4))))))"

definition pmmpthread_object_connect ::
  "tid \<Rightarrow> nat \<Rightarrow> ptr \<Rightarrow> 'h world \<Rightarrow> (addr option \<times> 'h world) outcome"
where
  "pmmpthread_object_connect t oid address w =
     globals_locked t
       (\<lambda>w.
         obind (pmmpthread_globals_object_valid t address w) (\<lambda>(valid, w1).
           case address of
             None \<Rightarrow> Ret (None, w1)
           | Some a \<Rightarrow>
               if \<not> valid then Ret (None, w1)
               else
                 obind (of_mem (zobjs w1 a)) (\<lambda>original.
                 if PMMPTHREAD_THREAD_OWNS t original then Ret (Some a, w1)
                 else case z_resolve w1 t (zo_ts original) of
                   Some connection \<Rightarrow> Ret (Some connection, w1)
                 | None \<Rightarrow>
                     obind (connection_ctor t oid a (w1\<lparr>z_connecting := (z_connecting w1)(t := Some a)\<rparr>))
                       (\<lambda>(c, w2). Ret (Some c, w2\<lparr>z_connecting := (z_connecting w2)(t := None)\<rparr>))))) None w"

section \<open>New objects (src/object.c)\<close>

definition pmmpthread_store_init :: "('h, zval) zend_hash_api \<Rightarrow> 'h pmmpthread_store_t" where
  "pmmpthread_store_init H = \<lparr>st_hash = zh_empty H, st_modcount = 0, st_first = None, st_last = None\<rparr>"

text \<open>The result of initialising the monitor is not looked at; \<open>m\<close> is the monitor it leaves.\<close>

definition pmmpthread_ts_object_ctor ::
  "('h, zval) zend_hash_api \<Rightarrow> tid \<Rightarrow> nat \<Rightarrow> pmmpthread_monitor_t \<Rightarrow> nat \<Rightarrow> 'h world \<Rightarrow> addr \<times> 'h world"
where
  "pmmpthread_ts_object_ctor H t oid m scope w =
     (case new_addr w of
        (a, w1) \<Rightarrow>
          (a, w1\<lparr>ts_objs := (ts_objs w1)(a \<mapsto>
                   \<lparr>o_refcount = 1, o_scope = scope, o_props = pmmpthread_store_init H,
                    o_creator = \<lparr>ident_id = oid, ident_ls = t\<rparr>, o_local = zero_ident\<rparr>),
                 monitors := (monitors w1)(a := m)\<rparr>))"

text \<open>
  A new \<open>ThreadSafeArray\<close>, as \<open>object_init_ex\<close> makes it while no object is being connected. The class
  declares no properties, so there are no defaults to write.
\<close>

definition pmmpthread_threaded_array_new ::
  "('h, zval) zend_hash_api \<Rightarrow> tid \<Rightarrow> nat \<Rightarrow> pmmpthread_monitor_t \<Rightarrow> 'h world \<Rightarrow> (addr \<times> 'h world) outcome"
where
  "pmmpthread_threaded_array_new H t oid m w =
     obind (pmmpthread_globals_object_alloc t w) (\<lambda>(base, w1).
       case pmmpthread_ts_object_ctor H t oid m 0 w1 of
         (ts, w2) \<Rightarrow>
           obind (upd_zobj base (\<lambda>z. z\<lparr>zo_ts := ts, zo_owner := \<lparr>ident_id = oid, ident_ls = t\<rparr>,
                                       zo_worker := False, zo_array := True\<rparr>) w2) (\<lambda>w3.
           obind (base_ctor_link t base w3) (\<lambda>w4. Ret (base, w4))))"

section \<open>Lemmas\<close>

text \<open>A critical section whose lock is available is its body, when the body leaves the monitor alone.\<close>

lemma ts_locked_runs:
  assumes "mutex_avail (Suc 0) t (mon_mutex (monitors w a))"
    and "\<And>r w2. body w = Ret (r, w2) \<Longrightarrow> monitors w2 a = monitors w a"
  shows "ts_locked t a body z w = body w"
proof (cases "body w")
  case (Ret x)
  obtain r w2 where x: "x = (r, w2)" by (cases x)
  let ?m = "(monitors w a)\<lparr>mon_mutex := mutex_take t (mon_mutex (monitors w a))\<rparr>"
  have "guarded pmmpthread_monitor_lock pmmpthread_monitor_unlock t (monitors w a) w
      (\<lambda>m w1. obind (body w1) (\<lambda>(r, w2). Ret (r, m, w2))) z =
    Ret (r, ?m\<lparr>mon_mutex := mon_mutex (monitors w a)\<rparr>, w2)"
    using assms(1) by (intro ml.guarded_runs) (simp_all add: Ret x One_nat_def [symmetric] del: One_nat_def)
  then show ?thesis
    using assms(2) Ret x by (simp add: ts_locked_def fun_upd_idem)
next
  case Block
  then show ?thesis using lock_avail_eq [OF assms(1)] by (simp add: ts_locked_def guarded_def)
next
  case Fault
  then show ?thesis using lock_avail_eq [OF assms(1)] by (simp add: ts_locked_def guarded_def)
qed

lemma globals_locked_runs:
  assumes "mutex_avail (Suc 0) t (mon_mutex (g_monitor w))"
    and "\<And>r w2. body w = Ret (r, w2) \<Longrightarrow> g_monitor w2 = g_monitor w"
  shows "globals_locked t body z w = body w"
proof (cases "body w")
  case (Ret x)
  obtain r w2 where x: "x = (r, w2)" by (cases x)
  let ?m = "(g_monitor w)\<lparr>mon_mutex := mutex_take t (mon_mutex (g_monitor w))\<rparr>"
  have "guarded pmmpthread_monitor_lock pmmpthread_monitor_unlock t (g_monitor w) w
      (\<lambda>m w1. obind (body w1) (\<lambda>(r, w2). Ret (r, m, w2))) z =
    Ret (r, ?m\<lparr>mon_mutex := mon_mutex (g_monitor w)\<rparr>, w2)"
    using assms(1) by (intro ml.guarded_runs) (simp_all add: Ret x One_nat_def [symmetric] del: One_nat_def)
  then show ?thesis using assms(2) Ret x by (simp add: globals_locked_def)
next
  case Block
  then show ?thesis using lock_avail_eq [OF assms(1)] by (simp add: globals_locked_def guarded_def)
next
  case Fault
  then show ?thesis using lock_avail_eq [OF assms(1)] by (simp add: globals_locked_def guarded_def)
qed

lemma globals_locked_eq:
  "mutex_avail (Suc 0) t (mon_mutex (g_monitor w)) \<Longrightarrow> body w = Ret (r, w2) \<Longrightarrow> g_monitor w2 = g_monitor w \<Longrightarrow>
   globals_locked t body z w = Ret (r, w2)"
  using globals_locked_runs [of t w body z] by simp

lemma ts_locked_eq:
  "mutex_avail (Suc 0) t (mon_mutex (monitors w a)) \<Longrightarrow> body w = Ret (r, w2) \<Longrightarrow> monitors w2 a = monitors w a \<Longrightarrow>
   ts_locked t a body z w = Ret (r, w2)"
  using ts_locked_runs [of t w a body z] by simp

lemma ts_locked_blocks:
  "mx_owner (mon_mutex (monitors w a)) = Some u \<Longrightarrow> u \<noteq> t \<Longrightarrow> ts_locked t a body z w = Block"
  by (simp add: ts_locked_def ml.guarded_blocks)

lemma object_valid_eq:
  "mutex_avail (Suc 0) t (mon_mutex (g_monitor w)) \<Longrightarrow>
   pmmpthread_globals_object_valid t (Some a) w = Ret (a \<in> g_objects w, w)"
  by (auto simp: pmmpthread_globals_object_valid_def intro!: globals_locked_eq)

lemma object_alloc_eq:
  "mutex_avail (Suc 0) t (mon_mutex (g_monitor w)) \<Longrightarrow>
   pmmpthread_globals_object_alloc t w =
     Ret (addrs w 0, w\<lparr>addrs := (\<lambda>n. addrs w (Suc n)), g_objects := insert (addrs w 0) (g_objects w),
                      zobjs := (zobjs w)(addrs w 0 \<mapsto> zero_object)\<rparr>)"
  by (simp add: pmmpthread_globals_object_alloc_def new_addr_def globals_locked_eq [OF _ refl])

text \<open>The connection a thread gets to an object of another thread when it has none yet.\<close>

definition new_connection :: "tid \<Rightarrow> nat \<Rightarrow> pmmpthread_zend_object_t \<Rightarrow> 'h pmmpthread_object_t \<Rightarrow> pmmpthread_zend_object_t" where
  "new_connection t oid z ob =
     \<lparr>zo_ts = zo_ts z, zo_owner = \<lparr>ident_id = oid, ident_ls = t\<rparr>,
      zo_local_modcount = st_modcount (o_props ob) - 1, zo_worker = False, zo_array = zo_array z,
      zo_recursive = False, zo_declared = zo_declared z, zo_properties = None\<rparr>"

definition connected_world :: "tid \<Rightarrow> nat \<Rightarrow> pmmpthread_zend_object_t \<Rightarrow> 'h pmmpthread_object_t \<Rightarrow> 'h world \<Rightarrow> 'h world" where
  "connected_world t oid z ob w =
     w\<lparr>addrs := (\<lambda>n. addrs w (Suc n)),
       g_objects := insert (addrs w 0) (g_objects w),
       zobjs := (zobjs w)(addrs w 0 \<mapsto> new_connection t oid z ob),
       ts_objs := (ts_objs w)(zo_ts z \<mapsto> ob\<lparr>o_refcount := o_refcount ob + 1\<rparr>),
       z_resolve := (z_resolve w)(t := (z_resolve w t)(zo_ts z \<mapsto> addrs w 0)),
       z_connecting := (z_connecting w)(t := None)\<rparr>"

lemma connection_ctor_eq:
  assumes "mutex_avail (Suc 0) t (mon_mutex (g_monitor w))" "zobjs w a = Some z" "ts_objs w (zo_ts z) = Some ob"
    and "zobjs w (addrs w 0) = None" "z_resolve w t (zo_ts z) = None" "z_connecting w t = Some a"
  shows "obind (connection_ctor t oid a w) (\<lambda>(c, w2). Ret (Some c, w2\<lparr>z_connecting := (z_connecting w2)(t := None)\<rparr>)) =
    Ret (Some (addrs w 0), connected_world t oid z ob w)"
proof -
  have ne: "a \<noteq> addrs w 0" using assms(2,4) by auto
  have lock: "pmmpthread_connect t src dst v = pmmpthread_connect_nolock src dst v"
    if "g_monitor v = g_monitor w" for src dst v
    unfolding pmmpthread_connect_def
    by (rule globals_locked_runs)
      (auto simp: that assms(1) pmmpthread_connect_nolock_def upd_zobj_def upd_ts_def outcome_simps
        split: option.splits)
  show ?thesis
    using assms ne
    by (simp add: connection_ctor_def object_alloc_eq upd_zobj_def upd_ts_def cell_upd_def lock
        pmmpthread_connect_nolock_def base_ctor_link_def Let_def zero_object_def connected_world_def new_connection_def)
qed

lemma object_connect_eq:
  assumes "mutex_avail (Suc 0) t (mon_mutex (g_monitor w))" "a \<in> g_objects w" "zobjs w a = Some z"
    and "ts_objs w (zo_ts z) = Some ob" "zobjs w (addrs w 0) = None"
  shows "pmmpthread_object_connect t oid (Some a) w =
    (if ident_ls (zo_owner z) = t then Ret (Some a, w)
     else case z_resolve w t (zo_ts z) of
       Some c \<Rightarrow> Ret (Some c, w)
     | None \<Rightarrow> Ret (Some (addrs w 0), connected_world t oid z ob w))"
  unfolding pmmpthread_object_connect_def using assms
  by (cases "z_resolve w t (zo_ts z)"; cases "ident_ls (zo_owner z) = t")
    (auto intro!: globals_locked_eq simp: object_valid_eq PMMPTHREAD_THREAD_OWNS_def connection_ctor_eq connected_world_def)

lemma object_connect_invalid:
  "mutex_avail (Suc 0) t (mon_mutex (g_monitor w)) \<Longrightarrow> a \<notin> g_objects w \<Longrightarrow>
   pmmpthread_object_connect t oid (Some a) w = Ret (None, w)"
  unfolding pmmpthread_object_connect_def by (rule globals_locked_eq) (auto simp: object_valid_eq)

end
