(* ===== verification/Store.thy ===== *)
theory Store
  imports Objects
begin

text \<open>
  The property store of src/store.c: reading, writing, deleting and testing properties, taking
  elements off either end, merging, iterating, and keeping the per-thread caches in step with the
  shared table. The functions are translated one by one in the order of the source; values that
  threads may not share are converted to a storage form on the way in and back on the way out.
\<close>

section \<open>Environment\<close>

text \<open>
  What the store uses of other code: the engine's hash table, its recognition of integer-like strings
  (\<open>ZEND_HANDLE_NUMERIC\<close>), its conversion of a value to a string, the lookup of an enum case, the copy
  of a closure onto the calling thread, the operating system's name of a thread, the monitor of a
  new object, the finished tasks of a worker, and the property table of an object that is not
  thread-safe.
\<close>

record 'h store_env =
  e_hash :: "('h, zval) zend_hash_api"
  e_numeric :: "string \<Rightarrow> int option"
  e_get_string :: "zval \<Rightarrow> string"
  e_enum_case :: "string \<Rightarrow> string \<Rightarrow> (zend_string \<times> zend_string) option"
  e_copy_closure :: "tid \<Rightarrow> pmmpthread_ident_t \<Rightarrow> zend_closure \<Rightarrow> zend_closure option"
  e_self :: "tid \<Rightarrow> nat"
  e_monitor :: pmmpthread_monitor_t
  e_collectable :: "addr \<Rightarrow> addr list"
  e_objprop :: "zval \<Rightarrow> (hkey \<times> zval) list"

abbreviation fetch_object :: "addr \<Rightarrow> 'h world \<Rightarrow> pmmpthread_zend_object_t outcome" where
  "fetch_object th w \<equiv> of_mem (zobjs w th)"

abbreviation fetch_ts :: "addr \<Rightarrow> 'h world \<Rightarrow> 'h pmmpthread_object_t outcome" where
  "fetch_ts a w \<equiv> of_mem (ts_objs w a)"

definition upd_props :: "addr \<Rightarrow> ('h pmmpthread_store_t \<Rightarrow> 'h pmmpthread_store_t) \<Rightarrow> 'h world \<Rightarrow> 'h world outcome" where
  "upd_props a f w = upd_ts a (\<lambda>ob. ob\<lparr>o_props := f (o_props ob)\<rparr>) w"

section \<open>Bounds and local cache\<close>

definition pmmpthread_store_invalidate_bounds :: "'h pmmpthread_store_t \<Rightarrow> 'h pmmpthread_store_t" where
  "pmmpthread_store_invalidate_bounds st = st\<lparr>st_first := None, st_last := None\<rparr>"

definition pmmpthread_store_destroy :: "('h, zval) zend_hash_api \<Rightarrow> 'h pmmpthread_store_t \<Rightarrow> 'h pmmpthread_store_t" where
  "pmmpthread_store_destroy H st = st\<lparr>st_hash := zh_empty H\<rparr>"

text \<open>
  Allocating the local table enters an indirect, uninitialised value for every declared property; a
  table that exists is left alone.
\<close>

definition pmmpthread_store_init_local_properties :: "addr \<Rightarrow> 'h world \<Rightarrow> 'h world outcome" where
  "pmmpthread_store_init_local_properties th w =
     upd_zobj th (\<lambda>z. z\<lparr>zo_properties :=
         (case zo_properties z of
            Some p \<Rightarrow> Some p
          | None \<Rightarrow> Some (map (\<lambda>k. (k, Z_INDIRECT Z_UNDEF)) (zo_declared z)))\<rparr>) w"

fun deindirect :: "zval \<Rightarrow> zval" where
  "deindirect (Z_INDIRECT v) = v"
| "deindirect v = v"

text \<open>
  Whether a cached value still stands for what the shared table holds under its key. Strings are
  compared by reference in the source; a string does not change while it is referenced, so two
  references are the same exactly when address and content are.
\<close>

definition sync_item :: "tid \<Rightarrow> zval option \<Rightarrow> zval \<Rightarrow> 'h world \<Rightarrow> (bool \<times> 'h world) outcome" where
  "sync_item t ts_val val w =
     (case (ts_val, deindirect val) of
        (Some (Z_PTR (STORE_TYPE_THREADSAFE_OBJECT shared)), Z_THREADSAFE local) \<Rightarrow>
          if shared = local then Ret (True, w)
          else
            obind (pmmpthread_globals_object_valid t (Some shared) w) (\<lambda>(valid, w1).
              if valid then
                obind (fetch_object shared w1) (\<lambda>zs.
                obind (fetch_object local w1) (\<lambda>zl. Ret (zo_ts zs = zo_ts zl, w1)))
              else Ret (False, w1))
      | (Some (Z_PTR (STORE_TYPE_CLOSURE shared _ _)), Z_CLOSURE local) \<Rightarrow>
          Ret (cl_ptr shared = cl_ptr local, w)
      | (Some (Z_PTR (STORE_TYPE_SOCKET bsd _ _ _)), Z_SOCKET local) \<Rightarrow>
          Ret (bsd = bsd_socket local, w)
      | (Some (Z_PTR (STORE_TYPE_STRING_PTR str owner)), Z_STRING local) \<Rightarrow>
          Ret (ident_ls owner = t \<and> str = local, w)
      | _ \<Rightarrow> Ret (False, w))"

fun sync_local_entries ::
  "('h, zval) zend_hash_api \<Rightarrow> tid \<Rightarrow> 'h \<Rightarrow> (hkey \<times> zval) list \<Rightarrow> 'h world \<Rightarrow>
     ((hkey \<times> zval) list \<times> 'h world) outcome"
where
  "sync_local_entries H t h [] w = Ret ([], w)"
| "sync_local_entries H t h ((k, val) # es) w =
     obind (sync_item t (zh_find H k h) val w) (\<lambda>(keep, w1).
     obind (sync_local_entries H t h es w1) (\<lambda>(es1, w2).
     Ret (if keep then (k, val) # es1 else es1, w2)))"

definition pmmpthread_store_sync_local_properties ::
  "'h store_env \<Rightarrow> tid \<Rightarrow> addr \<Rightarrow> 'h world \<Rightarrow> 'h world outcome"
where
  "pmmpthread_store_sync_local_properties E t th w =
     obind (fetch_object th w) (\<lambda>z.
     obind (fetch_ts (zo_ts z) w) (\<lambda>ob.
     if zo_local_modcount z = st_modcount (o_props ob) then Ret w
     else
       obind (case zo_properties z of
                None \<Rightarrow> Ret (None, w)
              | Some p \<Rightarrow>
                  obind (sync_local_entries (e_hash E) t (st_hash (o_props ob)) p w) (\<lambda>(p1, w1). Ret (Some p1, w1)))
         (\<lambda>(p, w1).
           upd_zobj th (\<lambda>z. z\<lparr>zo_properties := p, zo_local_modcount := st_modcount (o_props ob)\<rparr>) w1)))"

fun pmmpthread_store_retain_in_local_cache :: "zval \<Rightarrow> bool" where
  "pmmpthread_store_retain_in_local_cache (Z_THREADSAFE a) = True"
| "pmmpthread_store_retain_in_local_cache (Z_CLOSURE c) = True"
| "pmmpthread_store_retain_in_local_cache (Z_SOCKET s) = True"
| "pmmpthread_store_retain_in_local_cache (Z_STRING s) = True"
| "pmmpthread_store_retain_in_local_cache _ = False"

fun pmmpthread_store_valid_local_cache_item :: "zval \<Rightarrow> bool" where
  "pmmpthread_store_valid_local_cache_item (Z_INDIRECT v) = False"
| "pmmpthread_store_valid_local_cache_item _ = True"

fun pmmpthread_store_storage_is_cacheable :: "zval option \<Rightarrow> bool" where
  "pmmpthread_store_storage_is_cacheable (Some (Z_STRING s)) = True"
| "pmmpthread_store_storage_is_cacheable (Some (Z_PTR (STORE_TYPE_ENUM c m))) = False"
| "pmmpthread_store_storage_is_cacheable (Some (Z_PTR s)) = True"
| "pmmpthread_store_storage_is_cacheable _ = False"

fun pmmpthread_store_storage_is_pmmpthread_obj :: "zval \<Rightarrow> bool" where
  "pmmpthread_store_storage_is_pmmpthread_obj (Z_PTR (STORE_TYPE_THREADSAFE_OBJECT a)) = True"
| "pmmpthread_store_storage_is_pmmpthread_obj _ = False"

definition pmmpthread_store_bump_modcount_nolock :: "addr \<Rightarrow> 'h world \<Rightarrow> 'h world outcome" where
  "pmmpthread_store_bump_modcount_nolock th w =
     obind (fetch_object th w) (\<lambda>z.
     obind (fetch_ts (zo_ts z) w) (\<lambda>ob.
     obind (if zo_local_modcount z = st_modcount (o_props ob)
            then upd_zobj th (\<lambda>z. z\<lparr>zo_local_modcount := zo_local_modcount z + 1\<rparr>) w else Ret w) (\<lambda>w1.
     upd_props (zo_ts z) (\<lambda>st. st\<lparr>st_modcount := st_modcount st + 1\<rparr>) w1)))"

text \<open>
  Keys: integer-like strings become integers, other values than strings and integers their string
  form. Whether the resulting string has to be released is the second component.
\<close>

definition pmmpthread_store_coerce :: "'h store_env \<Rightarrow> zval \<Rightarrow> hkey \<times> bool" where
  "pmmpthread_store_coerce E key =
     (case key of
        Z_STRING s \<Rightarrow> (case e_numeric E (zs_val s) of Some n \<Rightarrow> (HInt n, False) | None \<Rightarrow> (HStr (zs_val s), False))
      | Z_LONG n \<Rightarrow> (HInt n, False)
      | _ \<Rightarrow> (HStr (e_get_string E key), True))"

definition pmmpthread_store_member_is_cacheable ::
  "'h store_env \<Rightarrow> 'h pmmpthread_object_t \<Rightarrow> hkey \<Rightarrow> bool"
where
  "pmmpthread_store_member_is_cacheable E ob member =
     pmmpthread_store_storage_is_cacheable (zh_find (e_hash E) member (st_hash (o_props ob)))"

definition local_del :: "addr \<Rightarrow> hkey \<Rightarrow> 'h world \<Rightarrow> 'h world outcome" where
  "local_del th k w = upd_zobj th (\<lambda>z. z\<lparr>zo_properties := map_option (AList.delete k) (zo_properties z)\<rparr>) w"

section \<open>Delete, isset\<close>

definition pmmpthread_store_delete :: "'h store_env \<Rightarrow> tid \<Rightarrow> addr \<Rightarrow> zval \<Rightarrow> 'h world \<Rightarrow> (bool \<times> 'h world) outcome" where
  "pmmpthread_store_delete E t th key w =
     (let member = fst (pmmpthread_store_coerce E key) in
      obind (fetch_object th w) (\<lambda>z.
      obind (ts_locked t (zo_ts z)
        (\<lambda>w.
          obind (fetch_ts (zo_ts z) w) (\<lambda>ob.
          let was = pmmpthread_store_member_is_cacheable E ob member;
              result = (zh_find (e_hash E) member (st_hash (o_props ob)) \<noteq> None)
          in
          obind (upd_props (zo_ts z) (\<lambda>st. st\<lparr>st_hash := zh_del (e_hash E) member (st_hash st)\<rparr>) w) (\<lambda>w1.
          obind (if result \<and> was then pmmpthread_store_bump_modcount_nolock th w1 else Ret w1) (\<lambda>w2.
          obind (upd_props (zo_ts z) pmmpthread_store_invalidate_bounds w2) (\<lambda>w3.
          Ret (result, w3)))))) False w) (\<lambda>(result, w1).
      if result then obind (local_del th member w1) (\<lambda>w2. Ret (result, w2)) else Ret (result, w1))))"

datatype has_set_exists = ZEND_PROPERTY_ISSET | ZEND_PROPERTY_NOT_EMPTY | ZEND_PROPERTY_EXISTS

definition double_is_zero :: "64 word \<Rightarrow> bool" where
  "double_is_zero d \<longleftrightarrow> d = 0 \<or> d = push_bit 63 1"

definition string_counts_empty :: "string \<Rightarrow> bool" where
  "string_counts_empty s \<longleftrightarrow> s = [] \<or> hd s = CHR ''0''"

fun isset_value :: "has_set_exists \<Rightarrow> zval \<Rightarrow> bool" where
  "isset_value ZEND_PROPERTY_NOT_EMPTY v =
     (case v of
        Z_NULL \<Rightarrow> False
      | Z_FALSE \<Rightarrow> False
      | Z_LONG n \<Rightarrow> n \<noteq> 0
      | Z_DOUBLE d \<Rightarrow> \<not> double_is_zero d
      | Z_STRING s \<Rightarrow> \<not> string_counts_empty (zs_val s)
      | Z_ARRAY es \<Rightarrow> es \<noteq> []
      | Z_PTR (STORE_TYPE_STRING_PTR s _) \<Rightarrow> \<not> string_counts_empty (zs_val s)
      | _ \<Rightarrow> True)"
| "isset_value ZEND_PROPERTY_ISSET v = (v \<noteq> Z_NULL)"
| "isset_value ZEND_PROPERTY_EXISTS v = True"

definition pmmpthread_store_isset ::
  "'h store_env \<Rightarrow> tid \<Rightarrow> addr \<Rightarrow> zval \<Rightarrow> has_set_exists \<Rightarrow> 'h world \<Rightarrow> (bool \<times> 'h world) outcome"
where
  "pmmpthread_store_isset E t th key mode w =
     (let member = fst (pmmpthread_store_coerce E key) in
      obind (fetch_object th w) (\<lambda>z.
      ts_locked t (zo_ts z)
        (\<lambda>w.
          obind (fetch_ts (zo_ts z) w) (\<lambda>ob.
            case zh_find (e_hash E) member (st_hash (o_props ob)) of
              None \<Rightarrow> Ret (False, w)
            | Some zstorage \<Rightarrow> Ret (isset_value mode zstorage, w))) False w))"

text \<open>
  The two updates. The source chooses between using the key string itself and copying it by how the
  string is allocated; the key that ends up in the table is the same.
\<close>

definition pmmpthread_store_update_local_property ::
  "addr \<Rightarrow> hkey \<Rightarrow> zval \<Rightarrow> 'h world \<Rightarrow> 'h world outcome"
where
  "pmmpthread_store_update_local_property th k v w =
     (if pmmpthread_store_retain_in_local_cache v then
        obind (pmmpthread_store_init_local_properties th w) (\<lambda>w1.
        upd_zobj th (\<lambda>z. z\<lparr>zo_properties := map_option (AList.update k v) (zo_properties z)\<rparr>) w1)
      else Ret w)"

definition pmmpthread_store_update_shared_property ::
  "'h store_env \<Rightarrow> addr \<Rightarrow> hkey \<Rightarrow> zval \<Rightarrow> 'h world \<Rightarrow> 'h world outcome"
where
  "pmmpthread_store_update_shared_property E ts k zstorage w =
     upd_props ts (\<lambda>st. st\<lparr>st_hash := zh_update (e_hash E) k zstorage (st_hash st)\<rparr>) w"

section \<open>Strings, closures, storage\<close>

definition pmmpthread_store_save_string :: "zend_string \<Rightarrow> 'h world \<Rightarrow> zend_string \<times> 'h world" where
  "pmmpthread_store_save_string s w = (if zs_permanent s then (s, w) else zend_string_init (zs_val s) True w)"

definition pmmpthread_store_restore_string :: "zend_string \<Rightarrow> 'h world \<Rightarrow> zend_string \<times> 'h world" where
  "pmmpthread_store_restore_string s w = (if zs_permanent s then (s, w) else zend_string_init (zs_val s) False w)"

definition pmmpthread_closure_thread_safe :: "tid \<Rightarrow> zend_closure \<Rightarrow> 'h world \<Rightarrow> bool \<times> 'h world" where
  "pmmpthread_closure_thread_safe t c w =
     (if cl_this c = ThisOther then (False, throw t ClosureThisNotThreadSafe w)
      else if cl_user_function c \<and> \<not> cl_fake c \<and> cl_statics c \<and>
              (\<exists>(bind_static, by_ref) \<in> set (cl_opcodes c). bind_static \<and> by_ref)
      then (False, throw t ClosureHasStatics w)
      else (True, w))"

definition closure_this_obj :: "zend_closure \<Rightarrow> addr option" where
  "closure_this_obj c = (case cl_this c of ThisThreadSafe a \<Rightarrow> Some a | _ \<Rightarrow> None)"

definition pmmpthread_store_create ::
  "tid \<Rightarrow> pmmpthread_ident_t \<Rightarrow> zval \<Rightarrow> 'h world \<Rightarrow> (pmmpthread_storage option \<times> 'h world) outcome"
where
  "pmmpthread_store_create t source unstore w =
     (case unstore of
        Z_STRING s \<Rightarrow> Ret (Some (STORE_TYPE_STRING_PTR s source), w)
      | Z_ENUM class_name member_name \<Rightarrow>
          (case pmmpthread_store_save_string class_name w of
             (c, w1) \<Rightarrow>
               (case pmmpthread_store_save_string member_name w1 of
                  (m, w2) \<Rightarrow> Ret (Some (STORE_TYPE_ENUM c m), w2)))
      | Z_CLOSURE c \<Rightarrow>
          (case pmmpthread_closure_thread_safe t c w of
             (safe, w1) \<Rightarrow>
               Ret (if safe then Some (STORE_TYPE_CLOSURE c (closure_this_obj c) source) else None, w1))
      | Z_THREADSAFE a \<Rightarrow> Ret (Some (STORE_TYPE_THREADSAFE_OBJECT a), w)
      | Z_SOCKET s \<Rightarrow>
          if sock_stream s then Ret (None, w)
          else
            obind (if 0 \<le> bsd_socket s then pmmpthread_globals_shared_socket_track t (bsd_socket s) w else Ret ((), w))
              (\<lambda>(_, w1).
                Ret (Some (STORE_TYPE_SOCKET (bsd_socket s) (sock_type s) (sock_error s) (sock_blocking s)), w1))
      | _ \<Rightarrow> Ret (None, w))"

definition pmmpthread_store_save_zval ::
  "tid \<Rightarrow> pmmpthread_ident_t \<Rightarrow> zval \<Rightarrow> 'h world \<Rightarrow> (zval option \<times> 'h world) outcome"
where
  "pmmpthread_store_save_zval t source write w =
     (if write \<in> {Z_NULL, Z_FALSE, Z_TRUE} then Ret (Some write, w)
      else case write of
        Z_LONG n \<Rightarrow> Ret (Some write, w)
      | Z_DOUBLE d \<Rightarrow> Ret (Some write, w)
      | _ \<Rightarrow>
          if (case write of Z_STRING s \<Rightarrow> zs_permanent s | _ \<Rightarrow> False) then Ret (Some write, w)
          else obind (pmmpthread_store_create t source write w) (\<lambda>(st, w1). Ret (map_option Z_PTR st, w1)))"

definition pmmpthread_store_convert ::
  "'h store_env \<Rightarrow> tid \<Rightarrow> pmmpthread_storage \<Rightarrow> 'h world \<Rightarrow> (zval \<times> 'h world) outcome"
where
  "pmmpthread_store_convert E t storage w =
     (case storage of
        STORE_TYPE_STRING_PTR s owner \<Rightarrow>
          if ident_ls owner = t then Ret (Z_STRING s, w)
          else (case pmmpthread_store_restore_string s w of (s1, w1) \<Rightarrow> Ret (Z_STRING s1, w1))
      | STORE_TYPE_CLOSURE c _ owner \<Rightarrow>
          Ret (case e_copy_closure E t owner c of Some c1 \<Rightarrow> Z_CLOSURE c1 | None \<Rightarrow> Z_NULL, w)
      | STORE_TYPE_THREADSAFE_OBJECT a \<Rightarrow>
          obind (pmmpthread_object_connect t (e_self E t) (Some a) w) (\<lambda>(r, w1).
            case r of
              Some c \<Rightarrow> Ret (Z_THREADSAFE c, w1)
            | None \<Rightarrow> Ret (Z_NULL, throw t ObjectDestroyed w1))
      | STORE_TYPE_SOCKET bsd ty err blocking \<Rightarrow>
          Ret (Z_SOCKET \<lparr>bsd_socket = bsd, sock_type = ty, sock_error = err, sock_blocking = blocking, sock_stream = False\<rparr>, w)
      | STORE_TYPE_ENUM class_name member_name \<Rightarrow>
          Ret (case e_enum_case E (zs_val class_name) (zs_val member_name) of
                 Some (c, m) \<Rightarrow> Z_ENUM c m | None \<Rightarrow> Z_NULL, w))"

definition pmmpthread_store_restore_zval_ex ::
  "'h store_env \<Rightarrow> tid \<Rightarrow> zval \<Rightarrow> 'h world \<Rightarrow> ((zval \<times> bool) \<times> 'h world) outcome"
where
  "pmmpthread_store_restore_zval_ex E t zstorage w =
     (let cached = pmmpthread_store_storage_is_cacheable (Some zstorage) in
      if zstorage \<in> {Z_NULL, Z_FALSE, Z_TRUE} then Ret ((zstorage, cached), w)
      else case zstorage of
        Z_LONG n \<Rightarrow> Ret ((zstorage, cached), w)
      | Z_DOUBLE d \<Rightarrow> Ret ((zstorage, cached), w)
      | Z_STRING s \<Rightarrow> (case pmmpthread_store_restore_string s w of (s1, w1) \<Rightarrow> Ret ((Z_STRING s1, cached), w1))
      | Z_PTR st \<Rightarrow> obind (pmmpthread_store_convert E t st w) (\<lambda>(v, w1). Ret ((v, cached), w1))
      | _ \<Rightarrow> Fault)"

definition pmmpthread_store_restore_zval ::
  "'h store_env \<Rightarrow> tid \<Rightarrow> zval \<Rightarrow> 'h world \<Rightarrow> (zval \<times> 'h world) outcome"
where
  "pmmpthread_store_restore_zval E t zstorage w =
     obind (pmmpthread_store_restore_zval_ex E t zstorage w) (\<lambda>((v, _), w1). Ret (v, w1))"

definition pmmpthread_store_hard_copy_storage :: "zval \<Rightarrow> 'h world \<Rightarrow> (zval \<times> 'h world)" where
  "pmmpthread_store_hard_copy_storage zstorage w =
     (case zstorage of
        Z_PTR (STORE_TYPE_STRING_PTR s _) \<Rightarrow> (case pmmpthread_store_save_string s w of (s1, w1) \<Rightarrow> (Z_STRING s1, w1))
      | Z_PTR st \<Rightarrow> (Z_PTR st, w)
      | Z_STRING s \<Rightarrow> (case pmmpthread_store_save_string s w of (s1, w1) \<Rightarrow> (Z_STRING s1, w1))
      | _ \<Rightarrow> (zstorage, w))"

section \<open>Read\<close>

datatype fetch_type = BP_VAR_R | BP_VAR_W | BP_VAR_RW | BP_VAR_IS | BP_VAR_FUNC_ARG | BP_VAR_UNSET

text \<open>
  The locked part of a read finds the value in the local cache (\<open>CacheHit\<close>), restores it from the
  shared table (\<open>Restored\<close>), or fails.
\<close>

datatype read_result = CacheHit zval | Restored zval | ReadFailure

definition read_shared ::
  "'h store_env \<Rightarrow> tid \<Rightarrow> 'h pmmpthread_object_t \<Rightarrow> hkey \<Rightarrow> fetch_type \<Rightarrow> 'h world \<Rightarrow> (read_result \<times> 'h world) outcome"
where
  "read_shared E t ob member type w =
     (let zstorage = zh_find (e_hash E) member (st_hash (o_props ob)) in
      if \<not> (case zstorage of Some v \<Rightarrow> pmmpthread_store_storage_is_pmmpthread_obj v | None \<Rightarrow> False) \<and>
         type \<noteq> BP_VAR_R \<and> type \<noteq> BP_VAR_IS
      then Ret (ReadFailure, throw t IndirectModification w)
      else case zstorage of
        None \<Rightarrow> Ret (ReadFailure, w)
      | Some v \<Rightarrow> obind (pmmpthread_store_restore_zval E t v w) (\<lambda>(r, w1). Ret (Restored r, w1)))"

definition read_locked ::
  "'h store_env \<Rightarrow> tid \<Rightarrow> addr \<Rightarrow> hkey \<Rightarrow> fetch_type \<Rightarrow> 'h world \<Rightarrow> (read_result \<times> 'h world) outcome"
where
  "read_locked E t th member type w =
     obind (fetch_object th w) (\<lambda>z0.
     obind (if zo_properties z0 \<noteq> None then pmmpthread_store_sync_local_properties E t th w else Ret w) (\<lambda>w1.
     obind (fetch_object th w1) (\<lambda>z.
     obind (fetch_ts (zo_ts z) w1) (\<lambda>ob.
       case Option.bind (zo_properties z) (\<lambda>p. map_of p member) of
         Some property \<Rightarrow>
           if pmmpthread_store_valid_local_cache_item property then Ret (CacheHit property, w1)
           else read_shared E t ob member type w1
       | None \<Rightarrow> read_shared E t ob member type w1))))"

definition pmmpthread_store_read ::
  "'h store_env \<Rightarrow> tid \<Rightarrow> addr \<Rightarrow> zval \<Rightarrow> fetch_type \<Rightarrow> 'h world \<Rightarrow> ((bool \<times> zval) \<times> 'h world) outcome"
where
  "pmmpthread_store_read E t th key type w =
     (let member = fst (pmmpthread_store_coerce E key) in
      obind (fetch_object th w) (\<lambda>z.
      obind (ts_locked t (zo_ts z) (read_locked E t th member type) ReadFailure w) (\<lambda>(r, w1).
        case r of
          CacheHit v \<Rightarrow> Ret ((True, v), w1)
        | Restored v \<Rightarrow> obind (pmmpthread_store_update_local_property th member v w1) (\<lambda>w2. Ret ((True, v), w2))
        | ReadFailure \<Rightarrow> Ret ((False, Z_UNDEF), w1))))"

section \<open>Write and merge\<close>

text \<open>
  The bounds after a write. A first position other than zero is dropped when the table has an element,
  because the buckets may have moved; a write under a given key drops both; an append moves the last
  position forward. When that fails, a debug build stops at an assertion, a release build goes on
  with the position as it was.
\<close>

definition write_bounds :: "('h, zval) zend_hash_api \<Rightarrow> bool \<Rightarrow> 'h pmmpthread_store_t \<Rightarrow> 'h pmmpthread_store_t" where
  "write_bounds H appended st =
     (let st1 = (case st_first st of
                   Some p \<Rightarrow> if p \<noteq> 0 \<and> zh_current H (st_hash st) 0 \<noteq> None
                             then pmmpthread_store_invalidate_bounds st else st
                 | None \<Rightarrow> st)
      in if \<not> appended then pmmpthread_store_invalidate_bounds st1
         else case st_last st1 of
           None \<Rightarrow> st1
         | Some p \<Rightarrow> (case zh_forward H (st_hash st1) p of Some q \<Rightarrow> st1\<lparr>st_last := Some q\<rparr> | None \<Rightarrow> st1))"

definition append_key :: "('h, zval) zend_hash_api \<Rightarrow> 'h \<Rightarrow> hkey" where
  "append_key H h = HInt (if zh_next_free H h = ZEND_LONG_MIN then 0 else zh_next_free H h)"

definition write_locked ::
  "'h store_env \<Rightarrow> tid \<Rightarrow> addr \<Rightarrow> zval option \<Rightarrow> zval \<Rightarrow> 'h world \<Rightarrow> (hkey option \<times> 'h world) outcome"
where
  "write_locked E t th key zstorage w =
     obind (fetch_object th w) (\<lambda>z.
     obind (fetch_ts (zo_ts z) w) (\<lambda>ob.
     let member = (case key of
                     None \<Rightarrow> append_key (e_hash E) (st_hash (o_props ob))
                   | Some k \<Rightarrow> fst (pmmpthread_store_coerce E k));
         was = pmmpthread_store_member_is_cacheable E ob member
     in
     obind (pmmpthread_store_update_shared_property E (zo_ts z) member zstorage w) (\<lambda>w1.
     obind (if was then pmmpthread_store_bump_modcount_nolock th w1 else Ret w1) (\<lambda>w2.
     obind (upd_props (zo_ts z) (write_bounds (e_hash E) (key = None)) w2) (\<lambda>w3.
     obind (pmmpthread_store_sync_local_properties E t th w3) (\<lambda>w4.
     Ret (Some member, w4)))))))"

text \<open>A write once arrays have been coerced: save the value, update the shared table, then the cache.\<close>

definition store_write_value ::
  "'h store_env \<Rightarrow> tid \<Rightarrow> addr \<Rightarrow> zval option \<Rightarrow> zval \<Rightarrow> 'h world \<Rightarrow> (bool \<times> 'h world) outcome"
where
  "store_write_value E t th key write w =
     obind (fetch_object th w) (\<lambda>z.
     obind (pmmpthread_store_save_zval t (zo_owner z) write w) (\<lambda>(saved, w1).
       case saved of
         None \<Rightarrow> Ret (False, w1)
       | Some zstorage \<Rightarrow>
           obind (ts_locked t (zo_ts z) (write_locked E t th key zstorage) None w1) (\<lambda>(r, w2).
             case r of
               None \<Rightarrow> Ret (False, w2)
             | Some member \<Rightarrow>
                 obind (pmmpthread_store_update_local_property th member write w2) (\<lambda>w3. Ret (True, w3)))))"

definition key_zval :: "hkey \<Rightarrow> zval" where
  "key_zval k = (case k of HInt n \<Rightarrow> Z_LONG n
     | HStr s \<Rightarrow> Z_STRING \<lparr>zs_ptr = 0, zs_val = s, zs_permanent = False, zs_persistent = False\<rparr>)"

fun strip_indirect :: "zval \<Rightarrow> zval" where
  "strip_indirect (Z_INDIRECT v) = strip_indirect v"
| "strip_indirect v = v"

lemma strip_indirect_size: "size (strip_indirect v) \<le> size v"
  by (induction v rule: strip_indirect.induct) auto

lemma strip_indirect_bound: "2 * size (strip_indirect v) \<le> Suc (Suc (Suc (Suc (2 * size v + n))))"
  using strip_indirect_size [of v] by simp

text \<open>
  Writing a value, and merging a list of entries into an object. An array that is to be coerced
  becomes a new \<open>ThreadSafeArray\<close> with the entries merged into it. A value that cannot be shared throws,
  and a pending exception ends the merge.
\<close>

function (sequential)
  pmmpthread_store_write ::
    "'h store_env \<Rightarrow> tid \<Rightarrow> addr \<Rightarrow> zval option \<Rightarrow> zval \<Rightarrow> bool \<Rightarrow> 'h world \<Rightarrow> (bool \<times> 'h world) outcome"
  and merge_entries ::
    "'h store_env \<Rightarrow> tid \<Rightarrow> addr \<Rightarrow> (hkey \<times> zval) list \<Rightarrow> bool \<Rightarrow> bool \<Rightarrow> 'h world \<Rightarrow> (unit \<times> 'h world) outcome"
where
  "pmmpthread_store_write E t th key (Z_ARRAY es) coerce_array w =
     (if coerce_array then
        obind (pmmpthread_threaded_array_new (e_hash E) t (e_self E t) (e_monitor E) w) (\<lambda>(vol, w1).
        obind (fetch_object vol w1) (\<lambda>zv.
        obind (ts_locked t (zo_ts zv) (merge_entries E t vol es True True) () w1) (\<lambda>(_, w2).
        store_write_value E t th key (Z_THREADSAFE vol) w2)))
      else store_write_value E t th key (Z_ARRAY es) w)"
| "pmmpthread_store_write E t th key write coerce_array w = store_write_value E t th key write w"
| "merge_entries E t th [] overwrite coerce_array w = Ret ((), w)"
| "merge_entries E t th ((k, pzval) # es) overwrite coerce_array w =
     obind (fetch_object th w) (\<lambda>z.
     obind (fetch_ts (zo_ts z) w) (\<lambda>ob.
     obind
       (if \<not> overwrite \<and> zh_find (e_hash E) k (st_hash (o_props ob)) \<noteq> None then Ret w
        else
          obind (pmmpthread_store_write E t th (Some (key_zval k)) (strip_indirect pzval) coerce_array w) (\<lambda>(r, w1).
          Ret (if r then w1 else throw t (CannotMerge k) w1)))
       (\<lambda>w1. if exceptions w1 t \<noteq> None then Ret ((), w1)
              else merge_entries E t th es overwrite coerce_array w1)))"
  by pat_completeness auto
termination
  by (relation "measure (\<lambda>x. case x of Inl (E, t, th, key, v, c, w) \<Rightarrow> 2 * size v
        | Inr (E, t, th, es, ov, c, w) \<Rightarrow> 2 * size_list (size_prod (\<lambda>_. 0) size) es + 1)")
    (auto simp: less_Suc_eq_le strip_indirect_bound)

section \<open>Count, shift, chunk, pop\<close>

definition pmmpthread_store_count :: "'h store_env \<Rightarrow> tid \<Rightarrow> addr \<Rightarrow> 'h world \<Rightarrow> (nat \<times> 'h world) outcome" where
  "pmmpthread_store_count E t th w =
     obind (fetch_object th w) (\<lambda>z.
     ts_locked t (zo_ts z)
       (\<lambda>w. obind (fetch_ts (zo_ts z) w) (\<lambda>ob. Ret (zh_num (e_hash E) (st_hash (o_props ob)), w))) 0 w)"

text \<open>
  Taking one element out: the position of an end moves on first (or both are dropped when this is the
  last element), then the value is restored, then the entry goes from the shared and the local table.
\<close>

definition take_out ::
  "'h store_env \<Rightarrow> tid \<Rightarrow> addr \<Rightarrow> ('h pmmpthread_store_t \<Rightarrow> 'h pmmpthread_store_t) \<Rightarrow> hkey \<Rightarrow> zval \<Rightarrow> 'h world \<Rightarrow>
     ((zval \<times> bool) \<times> 'h world) outcome"
where
  "take_out E t th moved key zstorage w =
     obind (fetch_object th w) (\<lambda>z.
     obind (upd_props (zo_ts z)
              (\<lambda>st. if zh_num (e_hash E) (st_hash st) = 1 then pmmpthread_store_invalidate_bounds st else moved st) w) (\<lambda>w1.
     obind (pmmpthread_store_restore_zval_ex E t zstorage w1) (\<lambda>(r, w2).
     obind (upd_props (zo_ts z) (\<lambda>st. st\<lparr>st_hash := zh_del (e_hash E) key (st_hash st)\<rparr>) w2) (\<lambda>w3.
     obind (local_del th key w3) (\<lambda>w4. Ret (r, w4))))))"

text \<open>Moving on leaves the position where it is when the engine reports that it cannot move.\<close>

definition move_first :: "('h, zval) zend_hash_api \<Rightarrow> nat \<Rightarrow> 'h pmmpthread_store_t \<Rightarrow> 'h pmmpthread_store_t" where
  "move_first H p st = st\<lparr>st_first := Some (case zh_forward H (st_hash st) p of Some q \<Rightarrow> q | None \<Rightarrow> p)\<rparr>"

definition move_last :: "('h, zval) zend_hash_api \<Rightarrow> nat \<Rightarrow> 'h pmmpthread_store_t \<Rightarrow> 'h pmmpthread_store_t" where
  "move_last H p st = st\<lparr>st_last := Some (case zh_backward H (st_hash st) p of Some q \<Rightarrow> q | None \<Rightarrow> p)\<rparr>"

definition first_pos :: "('h, zval) zend_hash_api \<Rightarrow> 'h pmmpthread_store_t \<Rightarrow> nat" where
  "first_pos H st = (case st_first st of Some p \<Rightarrow> p | None \<Rightarrow> zh_reset H (st_hash st))"

definition last_pos :: "('h, zval) zend_hash_api \<Rightarrow> 'h pmmpthread_store_t \<Rightarrow> nat" where
  "last_pos H st = (case st_last st of Some p \<Rightarrow> p | None \<Rightarrow> zh_end H (st_hash st))"

definition shift_locked :: "'h store_env \<Rightarrow> tid \<Rightarrow> addr \<Rightarrow> 'h world \<Rightarrow> (zval option \<times> 'h world) outcome" where
  "shift_locked E t th w =
     obind (fetch_object th w) (\<lambda>z.
     obind (fetch_ts (zo_ts z) w) (\<lambda>ob.
     let H = e_hash E; p = first_pos H (o_props ob) in
     case zh_current H (st_hash (o_props ob)) p of
       None \<Rightarrow> Ret (Some Z_NULL, w)
     | Some (key, zstorage) \<Rightarrow>
         obind (take_out E t th (move_first H p) key zstorage w) (\<lambda>((v, cached), w1).
         obind (if cached then pmmpthread_store_bump_modcount_nolock th w1 else Ret w1) (\<lambda>w2.
         Ret (Some v, w2)))))"

definition pmmpthread_store_shift :: "'h store_env \<Rightarrow> tid \<Rightarrow> addr \<Rightarrow> 'h world \<Rightarrow> (zval option \<times> 'h world) outcome" where
  "pmmpthread_store_shift E t th w =
     obind (fetch_object th w) (\<lambda>z. ts_locked t (zo_ts z) (shift_locked E t th) None w)"

definition pop_locked :: "'h store_env \<Rightarrow> tid \<Rightarrow> addr \<Rightarrow> 'h world \<Rightarrow> (zval option \<times> 'h world) outcome" where
  "pop_locked E t th w =
     obind (fetch_object th w) (\<lambda>z.
     obind (fetch_ts (zo_ts z) w) (\<lambda>ob.
     let H = e_hash E; p = last_pos H (o_props ob) in
     case zh_current H (st_hash (o_props ob)) p of
       None \<Rightarrow> Ret (Some Z_NULL, w)
     | Some (key, zstorage) \<Rightarrow>
         obind (take_out E t th (move_last H p) key zstorage w) (\<lambda>((v, cached), w1).
         obind (if cached then pmmpthread_store_bump_modcount_nolock th w1 else Ret w1) (\<lambda>w2.
         Ret (Some v, w2)))))"

definition pmmpthread_store_pop :: "'h store_env \<Rightarrow> tid \<Rightarrow> addr \<Rightarrow> 'h world \<Rightarrow> (zval option \<times> 'h world) outcome" where
  "pmmpthread_store_pop E t th w =
     obind (fetch_object th w) (\<lambda>z. ts_locked t (zo_ts z) (pop_locked E t th) None w)"

text \<open>
  The loop of a chunk: \<open>fuel\<close> bounds the passes, each of which takes an element out, so one more than
  the number of elements is enough. The parameter \<open>$preserve\<close> of the method is not used: keys are kept.
\<close>

fun chunk_loop ::
  "nat \<Rightarrow> 'h store_env \<Rightarrow> tid \<Rightarrow> addr \<Rightarrow> int \<Rightarrow> nat \<Rightarrow> (hkey \<times> zval) list \<Rightarrow> bool \<Rightarrow> 'h world \<Rightarrow>
     (((hkey \<times> zval) list \<times> bool) \<times> 'h world) outcome"
where
  "chunk_loop 0 E t th sz p chunk stale w = Block"
| "chunk_loop (Suc fuel) E t th sz p chunk stale w =
     obind (fetch_object th w) (\<lambda>z.
     obind (fetch_ts (zo_ts z) w) (\<lambda>ob.
     let H = e_hash E in
     case (int (length chunk) < sz, zh_current H (st_hash (o_props ob)) p) of
       (True, Some (key, zstorage)) \<Rightarrow>
         (let one = (zh_num H (st_hash (o_props ob)) = 1);
              q = (case zh_forward H (st_hash (o_props ob)) p of Some q \<Rightarrow> q | None \<Rightarrow> p) in
          obind (take_out E t th (move_first H p) key zstorage w) (\<lambda>((v, cached), w1).
          chunk_loop fuel E t th sz (if one then p else q) (AList.update key v chunk) (stale \<or> cached) w1))
     | _ \<Rightarrow> Ret ((chunk, stale), w)))"

definition pmmpthread_store_chunk ::
  "'h store_env \<Rightarrow> tid \<Rightarrow> addr \<Rightarrow> int \<Rightarrow> bool \<Rightarrow> 'h world \<Rightarrow> ((hkey \<times> zval) list option \<times> 'h world) outcome"
where
  "pmmpthread_store_chunk E t th sz preserve w =
     obind (fetch_object th w) (\<lambda>z.
     ts_locked t (zo_ts z)
       (\<lambda>w.
         obind (fetch_ts (zo_ts z) w) (\<lambda>ob.
         let st = o_props ob in
         obind (chunk_loop (Suc (zh_num (e_hash E) (st_hash st))) E t th sz (first_pos (e_hash E) st) [] False w)
           (\<lambda>((chunk, stale), w1).
             obind (if stale then pmmpthread_store_bump_modcount_nolock th w1 else Ret w1) (\<lambda>w2.
             Ret (Some chunk, w2))))) None w)"

section \<open>Property tables\<close>

text \<open>
  \<open>pmmpthread_store_tohash\<close> copies the store into a table: the object's own local table (\<open>own\<close>) or
  another one. Cached values are used as they are, the others restored. Declared properties that are
  not in the table are entered as indirect, uninitialised values. A local table that was changed this
  way is marked out of sync.
\<close>

fun tohash_entries ::
  "'h store_env \<Rightarrow> tid \<Rightarrow> bool \<Rightarrow> (hkey \<times> zval) list \<Rightarrow> (hkey \<times> zval) list \<Rightarrow> (hkey \<times> zval) list \<Rightarrow> bool \<Rightarrow>
     'h world \<Rightarrow> (((hkey \<times> zval) list \<times> bool) \<times> 'h world) outcome"
where
  "tohash_entries E t own props hash [] changed w = Ret ((hash, changed), w)"
| "tohash_entries E t own props hash ((k, zstorage) # es) changed w =
     (case map_of (if own then hash else props) k of
        Some cached \<Rightarrow>
          if pmmpthread_store_valid_local_cache_item cached then
            tohash_entries E t own props (if own then hash else AList.update k cached hash) es changed w
          else
            obind (pmmpthread_store_restore_zval E t zstorage w) (\<lambda>(v, w1).
            tohash_entries E t own props (AList.update k v hash) es True w1)
      | None \<Rightarrow>
          obind (pmmpthread_store_restore_zval E t zstorage w) (\<lambda>(v, w1).
          tohash_entries E t own props (AList.update k v hash) es True w1))"

fun tohash_declared :: "hkey list \<Rightarrow> (hkey \<times> zval) list \<Rightarrow> bool \<Rightarrow> (hkey \<times> zval) list \<times> bool" where
  "tohash_declared [] hash changed = (hash, changed)"
| "tohash_declared (k # ks) hash changed =
     (if map_of hash k = None then tohash_declared ks (AList.update k (Z_INDIRECT Z_UNDEF) hash) True
      else tohash_declared ks hash changed)"

definition pmmpthread_store_tohash ::
  "'h store_env \<Rightarrow> tid \<Rightarrow> addr \<Rightarrow> (hkey \<times> zval) list option \<Rightarrow> 'h world \<Rightarrow> ((hkey \<times> zval) list \<times> 'h world) outcome"
where
  "pmmpthread_store_tohash E t th other w =
     obind (pmmpthread_store_init_local_properties th w) (\<lambda>w0.
     obind (fetch_object th w0) (\<lambda>z0.
     ts_locked t (zo_ts z0)
       (\<lambda>w.
         obind (pmmpthread_store_sync_local_properties E t th w) (\<lambda>w1.
         obind (fetch_object th w1) (\<lambda>z.
         obind (fetch_ts (zo_ts z) w1) (\<lambda>ob.
         let props = (case zo_properties z of Some p \<Rightarrow> p | None \<Rightarrow> []);
             own = (other = None);
             hash0 = (case other of None \<Rightarrow> props | Some h \<Rightarrow> h) in
         obind (tohash_entries E t own props hash0 (zh_foreach (e_hash E) (st_hash (o_props ob))) False w1)
           (\<lambda>((hash1, changed1), w2).
             case tohash_declared (zo_declared z) hash1 changed1 of
               (hash, changed) \<Rightarrow>
                 if own then
                   obind (upd_zobj th (\<lambda>z. z\<lparr>zo_properties := Some hash,
                       zo_local_modcount := (if changed then st_modcount (o_props ob) - 1 else zo_local_modcount z)\<rparr>) w2)
                     (\<lambda>w3. Ret (hash, w3))
                 else Ret (hash, w2))))))
       (case other of None \<Rightarrow> [] | Some h \<Rightarrow> h) w0))"

text \<open>
  Before the last reference of a thread goes, the strings this thread owns are copied to persistent
  memory, in place.
\<close>

fun persist_entries ::
  "('h, zval) zend_hash_api \<Rightarrow> tid \<Rightarrow> (hkey \<times> zval) list \<Rightarrow> 'h \<Rightarrow> 'h world \<Rightarrow> 'h \<times> 'h world"
where
  "persist_entries H t [] h w = (h, w)"
| "persist_entries H t ((k, v) # es) h w =
     (case v of
        Z_PTR (STORE_TYPE_STRING_PTR s owner) \<Rightarrow>
          if ident_ls owner = t then
            (case pmmpthread_store_save_string s w of
               (s1, w1) \<Rightarrow> persist_entries H t es (zh_update H k (Z_STRING s1) h) w1)
          else persist_entries H t es h w
      | _ \<Rightarrow> persist_entries H t es h w)"

definition pmmpthread_store_persist_local_properties ::
  "'h store_env \<Rightarrow> tid \<Rightarrow> addr \<Rightarrow> 'h world \<Rightarrow> (unit \<times> 'h world) outcome"
where
  "pmmpthread_store_persist_local_properties E t th w =
     obind (fetch_object th w) (\<lambda>z.
     ts_locked t (zo_ts z)
       (\<lambda>w.
         obind (fetch_ts (zo_ts z) w) (\<lambda>ob.
         let h = st_hash (o_props ob) in
         case persist_entries (e_hash E) t (zh_foreach (e_hash E) h) h w of
           (h1, w1) \<Rightarrow> obind (upd_props (zo_ts z) (\<lambda>st. st\<lparr>st_hash := h1\<rparr>) w1) (\<lambda>w2. Ret ((), w2)))) () w)"

section \<open>Merging an array object, destroying storage\<close>

fun merge_shared_entries ::
  "'h store_env \<Rightarrow> addr \<Rightarrow> (hkey \<times> zval) list \<Rightarrow> bool \<Rightarrow> bool \<Rightarrow> 'h world \<Rightarrow> (bool \<times> 'h world) outcome"
where
  "merge_shared_entries E th [] overwrite overwrote w = Ret (overwrote, w)"
| "merge_shared_entries E th ((key, storage) # es) overwrite overwrote w =
     obind (fetch_object th w) (\<lambda>z.
     obind (fetch_ts (zo_ts z) w) (\<lambda>ob.
     if \<not> overwrite \<and> zh_find (e_hash E) key (st_hash (o_props ob)) \<noteq> None
     then merge_shared_entries E th es overwrite overwrote w
     else
       (case pmmpthread_store_hard_copy_storage storage w of
          (new_zstorage, w1) \<Rightarrow>
            obind (pmmpthread_store_update_shared_property E (zo_ts z) key new_zstorage w1) (\<lambda>w2.
            obind (local_del th key w2) (\<lambda>w3.
            merge_shared_entries E th es overwrite
              (overwrote \<or> pmmpthread_store_member_is_cacheable E ob key) w3)))))"

definition merge_array_object ::
  "'h store_env \<Rightarrow> tid \<Rightarrow> addr \<Rightarrow> addr \<Rightarrow> bool \<Rightarrow> 'h world \<Rightarrow> (bool \<times> 'h world) outcome"
where
  "merge_array_object E t destination from overwrite w =
     obind (fetch_object destination w) (\<lambda>z.
     obind (fetch_object from w) (\<lambda>zf.
     ts_locked t (zo_ts z)
       (\<lambda>w.
         obind (ts_locked t (zo_ts zf)
           (\<lambda>w.
             obind (fetch_ts (zo_ts zf) w) (\<lambda>obf.
             obind (merge_shared_entries E destination (zh_foreach (e_hash E) (st_hash (o_props obf))) overwrite False w)
               (\<lambda>(overwrote, w1).
                 obind (if overwrote then pmmpthread_store_bump_modcount_nolock destination w1 else Ret w1) (\<lambda>w2.
                 obind (upd_props (zo_ts z) pmmpthread_store_invalidate_bounds w2) (\<lambda>w3. Ret ((), w3)))))) () w)
           (\<lambda>(_, w1). Ret (True, w1))) False w))"

definition pmmpthread_store_merge ::
  "'h store_env \<Rightarrow> tid \<Rightarrow> addr \<Rightarrow> zval \<Rightarrow> bool \<Rightarrow> bool \<Rightarrow> 'h world \<Rightarrow> (bool \<times> 'h world) outcome"
where
  "pmmpthread_store_merge E t destination from overwrite coerce_array w =
     (let merge_table =
        (\<lambda>table w.
          obind (fetch_object destination w) (\<lambda>z.
          obind (ts_locked t (zo_ts z)
                   (\<lambda>w. obind (table w) (\<lambda>(es, w1). merge_entries E t destination es overwrite coerce_array w1)) () w)
            (\<lambda>(_, w1). Ret (exceptions w1 t = None, w1))))
      in case from of
        Z_ARRAY es \<Rightarrow> merge_table (\<lambda>w. Ret (es, w)) w
      | Z_THREADSAFE f \<Rightarrow>
          obind (fetch_object f w) (\<lambda>zf.
          if zo_array zf then merge_array_object E t destination f overwrite w
          else merge_table (pmmpthread_store_tohash E t f None) w)
      | Z_OBJECT a props \<Rightarrow> merge_table (\<lambda>w. Ret (props, w)) w
      | Z_ENUM _ _ \<Rightarrow> merge_table (\<lambda>w. Ret (e_objprop E from, w)) w
      | Z_CLOSURE _ \<Rightarrow> merge_table (\<lambda>w. Ret (e_objprop E from, w)) w
      | Z_SOCKET _ \<Rightarrow> merge_table (\<lambda>w. Ret (e_objprop E from, w)) w
      | _ \<Rightarrow> Ret (False, w))"

text \<open>The strings whose memory the destruction of a stored value gives back.\<close>

definition pmmpthread_store_storage_dtor :: "zval option \<Rightarrow> addr list" where
  "pmmpthread_store_storage_dtor zstorage =
     (case zstorage of
        Some (Z_PTR (STORE_TYPE_ENUM class_name member_name)) \<Rightarrow>
          map zs_ptr (filter (\<lambda>s. \<not> zs_permanent s) [class_name, member_name])
      | Some (Z_STRING s) \<Rightarrow> (if zs_permanent s then [] else [zs_ptr s])
      | _ \<Rightarrow> [])"

section \<open>Iteration\<close>

definition current_key :: "('h, zval) zend_hash_api \<Rightarrow> 'h \<Rightarrow> nat option \<Rightarrow> hkey option" where
  "current_key H h position = Option.bind position (\<lambda>p. map_option fst (zh_current H h p))"

definition pmmpthread_store_reset :: "'h store_env \<Rightarrow> tid \<Rightarrow> addr \<Rightarrow> nat option \<Rightarrow> 'h world \<Rightarrow> (nat option \<times> 'h world) outcome" where
  "pmmpthread_store_reset E t th position w =
     obind (fetch_object th w) (\<lambda>z.
     ts_locked t (zo_ts z)
       (\<lambda>w.
         obind (fetch_ts (zo_ts z) w) (\<lambda>ob.
         case st_first (o_props ob) of
           Some p \<Rightarrow> Ret (Some p, w)
         | None \<Rightarrow>
             (let p = zh_reset (e_hash E) (st_hash (o_props ob)) in
              if zh_current (e_hash E) (st_hash (o_props ob)) p = None then Ret (None, w)
              else obind (upd_props (zo_ts z) (\<lambda>st. st\<lparr>st_first := Some p\<rparr>) w) (\<lambda>w1. Ret (Some p, w1))))) position w)"

definition pmmpthread_store_key :: "'h store_env \<Rightarrow> tid \<Rightarrow> addr \<Rightarrow> nat option \<Rightarrow> 'h world \<Rightarrow> (zval \<times> 'h world) outcome" where
  "pmmpthread_store_key E t th position w =
     obind (fetch_object th w) (\<lambda>z.
     ts_locked t (zo_ts z)
       (\<lambda>w.
         obind (fetch_ts (zo_ts z) w) (\<lambda>ob.
         case current_key (e_hash E) (st_hash (o_props ob)) position of
           None \<Rightarrow> Ret (Z_NULL, w)
         | Some (HInt n) \<Rightarrow> Ret (Z_LONG n, w)
         | Some (HStr s) \<Rightarrow> (case zend_string_init s False w of (str, w1) \<Rightarrow> Ret (Z_STRING str, w1)))) Z_UNDEF w)"

definition pmmpthread_store_data :: "'h store_env \<Rightarrow> tid \<Rightarrow> addr \<Rightarrow> nat option \<Rightarrow> 'h world \<Rightarrow> (zval \<times> 'h world) outcome" where
  "pmmpthread_store_data E t th position w =
     obind (fetch_object th w) (\<lambda>z.
     ts_locked t (zo_ts z)
       (\<lambda>w.
         obind (fetch_ts (zo_ts z) w) (\<lambda>ob.
         let key = (case current_key (e_hash E) (st_hash (o_props ob)) position of
                      None \<Rightarrow> Z_NULL | Some k \<Rightarrow> key_zval k) in
         obind (pmmpthread_store_read E t th key BP_VAR_R w) (\<lambda>((ok, v), w1).
         Ret (if ok then v else Z_UNDEF, w1)))) Z_UNDEF w)"

definition pmmpthread_store_forward ::
  "'h store_env \<Rightarrow> tid \<Rightarrow> addr \<Rightarrow> nat option \<Rightarrow> 'h world \<Rightarrow> (nat option \<times> 'h world) outcome"
where
  "pmmpthread_store_forward E t th position w =
     obind (fetch_object th w) (\<lambda>z.
     ts_locked t (zo_ts z)
       (\<lambda>w.
         obind (fetch_ts (zo_ts z) w) (\<lambda>ob.
         let h = st_hash (o_props ob);
             p1 = (case position of
                     None \<Rightarrow> None
                   | Some p \<Rightarrow> (case zh_forward (e_hash E) h p of Some q \<Rightarrow> Some q | None \<Rightarrow> Some p)) in
         Ret (if current_key (e_hash E) h p1 = None then None else p1, w))) position w)"

section \<open>Full synchronisation\<close>

text \<open>
  \<open>pmmpthread_store_full_sync_local_properties\<close> brings every cacheable value into the local table, and
  does the same for the objects it finds. \<open>rec\<close> is the recursive call, \<open>None\<close> when its fuel is used up.
  Where the source takes the object pointer of a value that is not an object, the result is a fault.
\<close>

definition full_sync_restore ::
  "(addr \<Rightarrow> 'h world \<Rightarrow> 'h world outcome option) \<Rightarrow> 'h store_env \<Rightarrow> tid \<Rightarrow> addr \<Rightarrow> hkey \<Rightarrow> zval \<Rightarrow>
     'h world \<Rightarrow> 'h world outcome option"
where
  "full_sync_restore rec E t th k zstorage w =
     (if \<not> pmmpthread_store_storage_is_cacheable (Some zstorage) then Some (Ret w)
      else case pmmpthread_store_restore_zval E t zstorage w of
        Ret (pzval, w1) \<Rightarrow>
          (case (if pmmpthread_store_storage_is_pmmpthread_obj zstorage
                 then (case pzval of Z_THREADSAFE a \<Rightarrow> rec a w1 | _ \<Rightarrow> Some Fault)
                 else Some (Ret w1)) of
             None \<Rightarrow> None
           | Some r \<Rightarrow>
               Some (obind r (upd_zobj th (\<lambda>z. z\<lparr>zo_properties := map_option (AList.update k pzval) (zo_properties z)\<rparr>))))
      | Block \<Rightarrow> Some Block
      | Fault \<Rightarrow> Some Fault)"

fun full_sync_entries ::
  "(addr \<Rightarrow> 'h world \<Rightarrow> 'h world outcome option) \<Rightarrow> 'h store_env \<Rightarrow> tid \<Rightarrow> addr \<Rightarrow> (hkey \<times> zval) list \<Rightarrow>
     'h world \<Rightarrow> 'h world outcome option"
where
  "full_sync_entries rec E t th [] w = Some (Ret w)"
| "full_sync_entries rec E t th ((k, zstorage) # es) w =
     (let go = (\<lambda>r. case r of
                  None \<Rightarrow> None
                | Some (Ret w1) \<Rightarrow> full_sync_entries rec E t th es w1
                | Some Block \<Rightarrow> Some Block
                | Some Fault \<Rightarrow> Some Fault);
          is_obj = pmmpthread_store_storage_is_pmmpthread_obj zstorage in
      case Option.bind (Option.bind (zobjs w th) zo_properties) (\<lambda>p. map_of p k) of
        Some cached \<Rightarrow>
          if pmmpthread_store_valid_local_cache_item cached then
            (if is_obj then (case cached of Z_THREADSAFE a \<Rightarrow> go (rec a w) | _ \<Rightarrow> Some Fault)
             else full_sync_entries rec E t th es w)
          else go (full_sync_restore rec E t th k zstorage w)
      | None \<Rightarrow> go (full_sync_restore rec E t th k zstorage w))"

text \<open>
  The finished tasks of a worker, each under the monitor of the task. The monitor of the worker's data,
  which the source takes around the loop, is that of the worker object, which the caller holds.
\<close>

fun full_sync_tasks ::
  "(addr \<Rightarrow> 'h world \<Rightarrow> 'h world outcome option) \<Rightarrow> tid \<Rightarrow> addr list \<Rightarrow> 'h world \<Rightarrow> 'h world outcome option"
where
  "full_sync_tasks rec t [] w = Some (Ret w)"
| "full_sync_tasks rec t (a # as) w =
     (case zobjs w a of
        None \<Rightarrow> Some Fault
      | Some z \<Rightarrow>
          (case rec a w of
             None \<Rightarrow> None
           | Some r \<Rightarrow>
               (case ts_locked t (zo_ts z) (\<lambda>_. obind r (\<lambda>w1. Ret ((), w1))) () w of
                  Ret (_, w1) \<Rightarrow> full_sync_tasks rec t as w1
                | Block \<Rightarrow> Some Block
                | Fault \<Rightarrow> Some Fault)))"

definition full_sync_body ::
  "(addr \<Rightarrow> 'h world \<Rightarrow> 'h world outcome option) \<Rightarrow> 'h store_env \<Rightarrow> tid \<Rightarrow> addr \<Rightarrow> 'h world \<Rightarrow> 'h world outcome option"
where
  "full_sync_body rec E t th w =
     (case obind (upd_zobj th (\<lambda>z. z\<lparr>zo_recursive := True\<rparr>) w) (\<lambda>w1.
           obind (pmmpthread_store_sync_local_properties E t th w1) (\<lambda>w2.
           obind (pmmpthread_store_init_local_properties th w2) (\<lambda>w3.
           obind (fetch_object th w3) (\<lambda>z.
           obind (fetch_ts (zo_ts z) w3) (\<lambda>ob. Ret (z, zh_foreach (e_hash E) (st_hash (o_props ob)), w3)))))) of
        Ret (z, es, w3) \<Rightarrow>
          (case full_sync_entries rec E t th es w3 of
             Some (Ret w4) \<Rightarrow>
               (case (if zo_worker z then full_sync_tasks rec t (e_collectable E th) w4 else Some (Ret w4)) of
                  None \<Rightarrow> None
                | Some r \<Rightarrow> Some (obind r (upd_zobj th (\<lambda>z. z\<lparr>zo_recursive := False\<rparr>))))
           | r \<Rightarrow> r)
      | Block \<Rightarrow> Some Block
      | Fault \<Rightarrow> Some Fault)"

fun full_sync ::
  "nat \<Rightarrow> 'h store_env \<Rightarrow> tid \<Rightarrow> addr \<Rightarrow> 'h world \<Rightarrow> 'h world outcome option"
where
  "full_sync 0 E t th w = None"
| "full_sync (Suc n) E t th w =
     (case zobjs w th of
        None \<Rightarrow> Some Fault
      | Some z \<Rightarrow>
          if zo_recursive z then Some (Ret w)
          else
            (case full_sync_body (full_sync n E t) E t th w of
               None \<Rightarrow> None
             | Some r \<Rightarrow>
                 Some (obind (ts_locked t (zo_ts z) (\<lambda>_. obind r (\<lambda>w1. Ret ((), w1))) () w) (\<lambda>(_, w1). Ret w1))))"

end
