(* ===== verification/Store_Correct.thy ===== *)
theory Store_Correct
  imports Store
begin

text \<open>
  What the property store guarantees: stored values come back as values that stand for them, on
  every thread; the ends of an array are taken off in order and the cached end positions stay right;
  writing and reading, deleting, testing and counting agree with a map; local caches. The engine's hash
  table enters as a hypothesis (\<open>zend_hash\<close>).
\<close>

section \<open>Well-formed worlds\<close>

text \<open>
  Every registered object has its connection and its shared part; what a thread finds in its table of
  connections is its own connection to the object it looked for; the next address is unused.
\<close>

definition world_ok :: "'h world \<Rightarrow> bool" where
  "world_ok w \<longleftrightarrow>
     (\<forall>a \<in> g_objects w. \<exists>z ob. zobjs w a = Some z \<and> ts_objs w (zo_ts z) = Some ob) \<and>
     (\<forall>t ts c. z_resolve w t ts = Some c \<longrightarrow> (\<exists>z. zobjs w c = Some z \<and> zo_ts z = ts \<and> ident_ls (zo_owner z) = t)) \<and>
     inj (addrs w) \<and> (\<forall>n. zobjs w (addrs w n) = None \<and> ts_objs w (addrs w n) = None)"

lemma world_ok_fresh: "world_ok w \<Longrightarrow> zobjs w (addrs w n) = None"
  by (simp add: world_ok_def)

lemma addrs_ne: "inj (addrs w) \<Longrightarrow> addrs w (Suc n) \<noteq> addrs w 0"
  by (simp add: inj_eq)

lemma inj_tail: "inj f \<Longrightarrow> inj (\<lambda>n. f (Suc n))"
  by (metis (mono_tags, lifting) injD injI nat.inject)

lemma world_ok_frame:
  assumes "world_ok w" "g_objects w' = g_objects w" "z_resolve w' = z_resolve w" "addrs w' = addrs w"
    and "\<And>a. ts_objs w' a = None \<longleftrightarrow> ts_objs w a = None"
    and "\<And>a. map_option (\<lambda>z. (zo_ts z, zo_owner z)) (zobjs w' a) = map_option (\<lambda>z. (zo_ts z, zo_owner z)) (zobjs w a)"
  shows "world_ok w'"
proof -
  have z: "\<exists>z'. zobjs w' a = Some z' \<and> zo_ts z' = zo_ts z \<and> zo_owner z' = zo_owner z" if "zobjs w a = Some z" for a z
    using assms(6) [of a] that by (auto simp: map_option_case split: option.splits)
  have n: "zobjs w' a = None" if "zobjs w a = None" for a
    using assms(6) [of a] that by simp
  have "\<exists>z ob. zobjs w' a = Some z \<and> ts_objs w' (zo_ts z) = Some ob" if a: "a \<in> g_objects w" for a
  proof -
    obtain za ob where "zobjs w a = Some za" "ts_objs w (zo_ts za) = Some ob"
      using a assms(1) unfolding world_ok_def by blast
    then show ?thesis using z [of a za] assms(5) [of "zo_ts za"] by auto
  qed
  moreover have "\<exists>z. zobjs w' c = Some z \<and> zo_ts z = ts \<and> ident_ls (zo_owner z) = t" if c: "z_resolve w t ts = Some c" for t ts c
  proof -
    obtain zc where "zobjs w c = Some zc" "zo_ts zc = ts" "ident_ls (zo_owner zc) = t"
      using c assms(1) unfolding world_ok_def by blast
    then show ?thesis using z [of c zc] by auto
  qed
  ultimately show ?thesis using assms(1-5) n unfolding world_ok_def by simp
qed

definition props_of :: "'h world \<Rightarrow> addr \<Rightarrow> 'h pmmpthread_store_t option" where
  "props_of w a = map_option o_props (ts_objs w a)"

text \<open>
  What restoring a value may change: nothing of the stores, the monitors and the connections there
  are. A new connection has no cache and is out of step.
\<close>

definition same_stores :: "'h world \<Rightarrow> 'h world \<Rightarrow> bool" where
  "same_stores w w' \<longleftrightarrow> props_of w' = props_of w \<and> monitors w' = monitors w \<and> g_monitor w' = g_monitor w \<and>
     (\<forall>a z. zobjs w a = Some z \<longrightarrow> zobjs w' a = Some z) \<and>
     (\<forall>a z. zobjs w' a = Some z \<longrightarrow> zobjs w a = Some z \<or> zo_properties z = None \<and>
        (\<forall>st. props_of w' (zo_ts z) = Some st \<longrightarrow> zo_local_modcount z < st_modcount st))"

lemma same_stores_refl [simp]: "same_stores w w"
  by (simp add: same_stores_def)

text \<open>Objects that are registered stay registered, and connections stay what they are connections to.\<close>

definition grows :: "'h world \<Rightarrow> 'h world \<Rightarrow> bool" where
  "grows w w' \<longleftrightarrow> g_objects w \<subseteq> g_objects w' \<and>
     (\<forall>a z. zobjs w a = Some z \<longrightarrow> (\<exists>z'. zobjs w' a = Some z' \<and> zo_ts z' = zo_ts z \<and> zo_owner z' = zo_owner z))"

lemma grows_refl [simp]: "grows w w"
  by (simp add: grows_def)

lemma grows_trans:
  assumes "grows w1 w2" "grows w2 w3"
  shows "grows w1 w3"
  unfolding grows_def
proof (intro conjI allI impI)
  show "g_objects w1 \<subseteq> g_objects w3" using assms by (auto simp: grows_def)
next
  fix a z
  assume "zobjs w1 a = Some z"
  then obtain z2 where "zobjs w2 a = Some z2" "zo_ts z2 = zo_ts z" "zo_owner z2 = zo_owner z"
    using assms(1) unfolding grows_def by blast
  moreover from this obtain z3 where "zobjs w3 a = Some z3" "zo_ts z3 = zo_ts z2" "zo_owner z3 = zo_owner z2"
    using assms(2) unfolding grows_def by blast
  ultimately show "\<exists>z3. zobjs w3 a = Some z3 \<and> zo_ts z3 = zo_ts z \<and> zo_owner z3 = zo_owner z" by simp
qed

text \<open>The forms in which the store keeps values, and the values a thread gets for them.\<close>

fun is_storage :: "zval \<Rightarrow> bool" where
  "is_storage Z_NULL = True"
| "is_storage Z_FALSE = True"
| "is_storage Z_TRUE = True"
| "is_storage (Z_LONG n) = True"
| "is_storage (Z_DOUBLE d) = True"
| "is_storage (Z_STRING s) = True"
| "is_storage (Z_PTR st) = True"
| "is_storage _ = False"

fun stands_for :: "'h store_env \<Rightarrow> tid \<Rightarrow> 'h world \<Rightarrow> zval \<Rightarrow> zval \<Rightarrow> bool" where
  "stands_for E t w (Z_STRING s) x = (\<exists>s'. x = Z_STRING s' \<and> zs_val s' = zs_val s)"
| "stands_for E t w (Z_PTR (STORE_TYPE_STRING_PTR s owner)) x = (\<exists>s'. x = Z_STRING s' \<and> zs_val s' = zs_val s)"
| "stands_for E t w (Z_PTR (STORE_TYPE_THREADSAFE_OBJECT a)) x =
     (if a \<in> g_objects w
      then \<exists>c zc z. x = Z_THREADSAFE c \<and> zobjs w c = Some zc \<and> zobjs w a = Some z \<and>
             zo_ts zc = zo_ts z \<and> ident_ls (zo_owner zc) = t
      else x = Z_NULL \<and> exceptions w t = Some ObjectDestroyed)"
| "stands_for E t w (Z_PTR (STORE_TYPE_CLOSURE c this owner)) x =
     (x = (case e_copy_closure E t owner c of Some c1 \<Rightarrow> Z_CLOSURE c1 | None \<Rightarrow> Z_NULL))"
| "stands_for E t w (Z_PTR (STORE_TYPE_SOCKET b ty err bl)) x =
     (x = Z_SOCKET \<lparr>bsd_socket = b, sock_type = ty, sock_error = err, sock_blocking = bl, sock_stream = False\<rparr>)"
| "stands_for E t w (Z_PTR (STORE_TYPE_ENUM c m)) x =
     (x = (case e_enum_case E (zs_val c) (zs_val m) of Some (c1, m1) \<Rightarrow> Z_ENUM c1 m1 | None \<Rightarrow> Z_NULL))"
| "stands_for E t w v x = (x = v)"

fun stored_alive :: "'h world \<Rightarrow> zval \<Rightarrow> bool" where
  "stored_alive w (Z_PTR (STORE_TYPE_THREADSAFE_OBJECT a)) = (a \<in> g_objects w)"
| "stored_alive w v = True"

lemma stored_alive_grows: "stored_alive w v \<Longrightarrow> grows w w' \<Longrightarrow> stored_alive w' v"
  by (induction w v rule: stored_alive.induct) (auto simp: grows_def)

lemma stands_for_grows: "stands_for E t w v x \<Longrightarrow> stored_alive w v \<Longrightarrow> grows w w' \<Longrightarrow> stands_for E t w' v x"
proof (induction E t w v x rule: stands_for.induct)
  case (3 E t w a x)
  then obtain c zc z where x: "x = Z_THREADSAFE c" "zobjs w c = Some zc" "zobjs w a = Some z"
    "zo_ts zc = zo_ts z" "ident_ls (zo_owner zc) = t" "a \<in> g_objects w'"
    by (auto simp: grows_def)
  obtain zc' z' where "zobjs w' c = Some zc'" "zo_ts zc' = zo_ts zc" "zo_owner zc' = zo_owner zc"
    "zobjs w' a = Some z'" "zo_ts z' = zo_ts z"
    using x(2,3) 3(3) unfolding grows_def by metis
  then show ?case using x by auto
qed auto

lemma connected_world_frame:
  assumes "zobjs w (addrs w 0) = None" "ts_objs w (zo_ts z) = Some ob"
  shows "same_stores w (connected_world t oid z ob w)"
  using assms by (auto simp: same_stores_def connected_world_def props_of_def fun_eq_iff new_connection_def split: if_splits)

lemma connected_world_ok:
  assumes "world_ok w" "zobjs w a = Some z" "ts_objs w (zo_ts z) = Some ob" "a \<in> g_objects w"
  shows "world_ok (connected_world t oid z ob w)"
proof -
  let ?c = "addrs w 0" and ?w = "connected_world t oid z ob w"
  have old: "x \<noteq> ?c" if "zobjs w x = Some zx" for x zx using that world_ok_fresh [OF assms(1), of 0] by auto
  have ts: "\<exists>ob'. ts_objs ?w x = Some ob'" if "ts_objs w x = Some obx" for x obx
    using that by (auto simp: connected_world_def)
  have g: "\<forall>x \<in> g_objects ?w. \<exists>zx obx. zobjs ?w x = Some zx \<and> ts_objs ?w (zo_ts zx) = Some obx"
  proof
    fix x
    assume x: "x \<in> g_objects ?w"
    show "\<exists>zx obx. zobjs ?w x = Some zx \<and> ts_objs ?w (zo_ts zx) = Some obx"
    proof (cases "x = ?c")
      case True
      then show ?thesis by (simp add: connected_world_def new_connection_def)
    next
      case False
      then obtain zx obx where "zobjs w x = Some zx" "ts_objs w (zo_ts zx) = Some obx"
        using x assms(1) unfolding world_ok_def by (auto simp: connected_world_def)
      then show ?thesis using False ts by (simp add: connected_world_def)
    qed
  qed
  have r: "\<forall>u ts c. z_resolve ?w u ts = Some c \<longrightarrow>
    (\<exists>zc. zobjs ?w c = Some zc \<and> zo_ts zc = ts \<and> ident_ls (zo_owner zc) = u)"
  proof (intro allI impI)
    fix u ts c
    assume c: "z_resolve ?w u ts = Some c"
    show "\<exists>zc. zobjs ?w c = Some zc \<and> zo_ts zc = ts \<and> ident_ls (zo_owner zc) = u"
    proof (cases "u = t \<and> ts = zo_ts z")
      case True
      then show ?thesis using c by (simp add: connected_world_def new_connection_def)
    next
      case False
      then have "z_resolve w u ts = Some c" using c by (auto simp: connected_world_def split: if_splits)
      then obtain zc where "zobjs w c = Some zc" "zo_ts zc = ts" "ident_ls (zo_owner zc) = u"
        using assms(1) unfolding world_ok_def by blast
      then show ?thesis using old by (simp add: connected_world_def)
    qed
  qed
  have i: "inj (addrs w)" using assms(1) by (simp add: world_ok_def)
  have f: "\<forall>n. zobjs ?w (addrs ?w n) = None \<and> ts_objs ?w (addrs ?w n) = None"
    using assms(1,3) addrs_ne [OF i] by (auto simp: connected_world_def world_ok_def, metis option.distinct(1))
  have "inj (addrs ?w)" using i by (simp add: connected_world_def inj_tail)
  then show ?thesis unfolding world_ok_def using g r f by blast
qed

lemma connect_ok:
  assumes "world_ok w" "mutex_avail (Suc 0) t (mon_mutex (g_monitor w))" "a \<in> g_objects w"
  shows "\<exists>c zc z w'. pmmpthread_object_connect t oid (Some a) w = Ret (Some c, w') \<and> same_stores w w' \<and> world_ok w' \<and> grows w w' \<and>
    zobjs w' c = Some zc \<and> zobjs w' a = Some z \<and> zo_ts zc = zo_ts z \<and> ident_ls (zo_owner zc) = t \<and> a \<in> g_objects w'"
proof -
  obtain z ob where z: "zobjs w a = Some z" "ts_objs w (zo_ts z) = Some ob"
    using assms(1,3) unfolding world_ok_def by blast
  have fresh: "zobjs w (addrs w 0) = None" using assms(1) by (rule world_ok_fresh)
  have gr: "grows w (connected_world t oid z ob w)" using fresh by (auto simp: grows_def connected_world_def)
  note eq = object_connect_eq [OF assms(2,3) z fresh, of oid]
  consider (own) "ident_ls (zo_owner z) = t" | (found) c where "ident_ls (zo_owner z) \<noteq> t" "z_resolve w t (zo_ts z) = Some c"
    | (new) "ident_ls (zo_owner z) \<noteq> t" "z_resolve w t (zo_ts z) = None"
    by blast
  then show ?thesis
  proof cases
    case own
    then show ?thesis using eq z(1) assms(1,3) by auto
  next
    case found
    then obtain zc where "zobjs w c = Some zc" "zo_ts zc = zo_ts z" "ident_ls (zo_owner zc) = t"
      using assms(1) unfolding world_ok_def by blast
    then show ?thesis using eq z(1) assms(1,3) found by auto
  next
    case new
    have ne: "a \<noteq> addrs w 0" using z(1) fresh by auto
    show ?thesis
      using eq new ne gr z(1) assms(3) connected_world_frame [OF fresh z(2), of t oid] connected_world_ok [OF assms(1) z assms(3), of t oid]
      by (intro exI [of _ "addrs w 0"] exI [of _ "new_connection t oid z ob"] exI [of _ z]
          exI [of _ "connected_world t oid z ob w"])
        (simp add: connected_world_def new_connection_def)
  qed
qed

lemma string_init_frame: "zend_string_init s b w = (str, w') \<Longrightarrow> same_stores w w' \<and> zs_val str = s \<and> exceptions w' = exceptions w \<and> grows w w'"
  by (auto simp: zend_string_init_def new_addr_def same_stores_def props_of_def grows_def)

lemma string_init_ok: "zend_string_init s b w = (str, w') \<Longrightarrow> world_ok w \<Longrightarrow> world_ok w'"
  by (auto simp: zend_string_init_def new_addr_def world_ok_def inj_tail)

lemma restore_string_frame:
  "pmmpthread_store_restore_string s w = (str, w') \<Longrightarrow> same_stores w w' \<and> zs_val str = zs_val s \<and> grows w w' \<and> (world_ok w \<longrightarrow> world_ok w')"
  by (auto simp: pmmpthread_store_restore_string_def split: if_splits dest: string_init_frame string_init_ok)

text \<open>Restoring never faults on a well-formed world, and what it returns stands for what is stored.\<close>

lemma restore_ok:
  assumes "world_ok w" "mutex_avail (Suc 0) t (mon_mutex (g_monitor w))" "is_storage v"
  shows "\<exists>x w'. pmmpthread_store_restore_zval_ex E t v w =
      Ret ((x, pmmpthread_store_storage_is_cacheable (Some v)), w') \<and> stands_for E t w' v x \<and> same_stores w w' \<and> world_ok w' \<and> grows w w'"
proof (cases v)
  case (Z_STRING s)
  obtain s1 w1 where "pmmpthread_store_restore_string s w = (s1, w1)" by fastforce
  with Z_STRING restore_string_frame [OF this] assms(1) show ?thesis
    by (auto simp: pmmpthread_store_restore_zval_ex_def)
next
  case (Z_PTR st)
  show ?thesis
  proof (cases st)
    case (STORE_TYPE_STRING_PTR s owner)
    obtain s1 w1 where "pmmpthread_store_restore_string s w = (s1, w1)" by fastforce
    with Z_PTR STORE_TYPE_STRING_PTR restore_string_frame [OF this] assms(1) show ?thesis
      by (auto simp: pmmpthread_store_restore_zval_ex_def pmmpthread_store_convert_def)
  next
    case (STORE_TYPE_THREADSAFE_OBJECT a)
    show ?thesis
    proof (cases "a \<in> g_objects w")
      case True
      from connect_ok [OF assms(1,2) True, of "e_self E t"] obtain c zc z w' where
        "pmmpthread_object_connect t (e_self E t) (Some a) w = Ret (Some c, w')" "same_stores w w'" "world_ok w'" "grows w w'"
        "zobjs w' c = Some zc" "zobjs w' a = Some z" "zo_ts zc = zo_ts z" "ident_ls (zo_owner zc) = t" "a \<in> g_objects w'"
        by blast
      with Z_PTR STORE_TYPE_THREADSAFE_OBJECT show ?thesis
        by (auto simp: pmmpthread_store_restore_zval_ex_def pmmpthread_store_convert_def)
    next
      case False
      with object_connect_invalid [OF assms(2) False] Z_PTR STORE_TYPE_THREADSAFE_OBJECT assms(1) show ?thesis
        by (simp add: pmmpthread_store_restore_zval_ex_def pmmpthread_store_convert_def throw_def
            same_stores_def props_of_def fun_eq_iff world_ok_def grows_def)
    qed
  qed (use assms(1) in \<open>auto simp: Z_PTR pmmpthread_store_restore_zval_ex_def pmmpthread_store_convert_def split: option.splits\<close>)
qed (use assms(1,3) in \<open>auto simp: pmmpthread_store_restore_zval_ex_def\<close>)

section \<open>Updates of a store\<close>

text \<open>A change of stores and local tables: the objects and who owns them stay.\<close>

definition same_objects :: "'h world \<Rightarrow> 'h world \<Rightarrow> bool" where
  "same_objects w w' \<longleftrightarrow> monitors w' = monitors w \<and> g_monitor w' = g_monitor w \<and>
     g_objects w' = g_objects w \<and> exceptions w' = exceptions w \<and>
     (\<forall>a z. zobjs w a = Some z \<longrightarrow>
        (\<exists>z'. zobjs w' a = Some z' \<and> zo_ts z' = zo_ts z \<and> zo_owner z' = zo_owner z))"

lemma same_objects_refl [simp]: "same_objects w w"
  by (simp add: same_objects_def)

lemma same_objects_trans: "same_objects w1 w2 \<Longrightarrow> same_objects w2 w3 \<Longrightarrow> same_objects w1 w3"
  unfolding same_objects_def by fastforce

lemma same_objects_grows: "same_objects w w' \<Longrightarrow> grows w w'"
  by (simp add: same_objects_def grows_def)

lemma stands_for_same_objects: "stands_for E t w v x \<Longrightarrow> same_objects w w' \<Longrightarrow> stands_for E t w' v x"
  by (induction E t w v x rule: stands_for.induct)
    (auto simp: same_objects_def split: if_splits, metis)

lemma upd_props_ok:
  assumes "props_of w a = Some st"
  shows "\<exists>w'. upd_props a f w = Ret w' \<and> props_of w' = (props_of w)(a \<mapsto> f st) \<and> zobjs w' = zobjs w \<and>
    same_objects w w' \<and> (world_ok w \<longrightarrow> world_ok w') \<and> g_monitor w' = g_monitor w \<and> monitors w' = monitors w"
proof -
  obtain ob where ob: "ts_objs w a = Some ob" "o_props ob = st" using assms by (auto simp: props_of_def)
  let ?w = "w\<lparr>ts_objs := (ts_objs w)(a \<mapsto> ob\<lparr>o_props := f st\<rparr>)\<rparr>"
  have "upd_props a f w = Ret ?w" using ob by (simp add: upd_props_def upd_ts_def cell_upd_def)
  moreover have "world_ok w \<longrightarrow> world_ok ?w" by (intro impI, rule world_ok_frame [of w]) (use ob in auto)
  ultimately show ?thesis by (auto simp: props_of_def same_objects_def fun_eq_iff)
qed

lemma upd_zobj_ok:
  assumes "zobjs w a = Some z" "zo_ts (f z) = zo_ts z" "zo_owner (f z) = zo_owner z"
  shows "\<exists>w'. upd_zobj a f w = Ret w' \<and> zobjs w' = (zobjs w)(a \<mapsto> f z) \<and> props_of w' = props_of w \<and>
    same_objects w w' \<and> (world_ok w \<longrightarrow> world_ok w') \<and> g_monitor w' = g_monitor w \<and> monitors w' = monitors w"
proof -
  let ?w = "w\<lparr>zobjs := (zobjs w)(a \<mapsto> f z)\<rparr>"
  have "upd_zobj a f w = Ret ?w" using assms(1) by (simp add: upd_zobj_def cell_upd_def)
  moreover have "world_ok w \<longrightarrow> world_ok ?w"
    by (intro impI, rule world_ok_frame [of w]) (use assms in auto)
  ultimately show ?thesis using assms by (auto simp: props_of_def same_objects_def fun_eq_iff)
qed

lemma same_stores_props: "same_stores w w' \<Longrightarrow> props_of w' = props_of w"
  by (simp add: same_stores_def)

lemma take_out_ok:
  assumes "world_ok w" "mutex_avail (Suc 0) t (mon_mutex (g_monitor w))" "is_storage v"
    and "zobjs w th = Some z" "props_of w (zo_ts z) = Some st"
  shows "\<exists>x w'. take_out E t th moved k v w = Ret ((x, pmmpthread_store_storage_is_cacheable (Some v)), w') \<and>
    stands_for E t w' v x \<and> monitors w' = monitors w \<and> g_monitor w' = g_monitor w \<and> world_ok w' \<and> grows w w' \<and>
    props_of w' = (props_of w)(zo_ts z \<mapsto>
      (let st1 = (if zh_num (e_hash E) (st_hash st) = 1 then pmmpthread_store_invalidate_bounds st else moved st)
       in st1\<lparr>st_hash := zh_del (e_hash E) k (st_hash st1)\<rparr>)) \<and>
    zobjs w' th = Some (z\<lparr>zo_properties := map_option (AList.delete k) (zo_properties z)\<rparr>)"
proof -
  let ?f = "\<lambda>st. if zh_num (e_hash E) (st_hash st) = 1 then pmmpthread_store_invalidate_bounds st else moved st"
  let ?g = "\<lambda>st. st\<lparr>st_hash := zh_del (e_hash E) k (st_hash st)\<rparr>"
  let ?d = "\<lambda>z. z\<lparr>zo_properties := map_option (AList.delete k) (zo_properties z)\<rparr>"
  obtain w1 where w1: "upd_props (zo_ts z) ?f w = Ret w1" "props_of w1 = (props_of w)(zo_ts z \<mapsto> ?f st)"
    "zobjs w1 = zobjs w" "world_ok w1" "g_monitor w1 = g_monitor w" "monitors w1 = monitors w" "same_objects w w1"
    using upd_props_ok [OF assms(5), of ?f] assms(1) by blast
  obtain x w2 where r: "pmmpthread_store_restore_zval_ex E t v w1 =
      Ret ((x, pmmpthread_store_storage_is_cacheable (Some v)), w2)" "stands_for E t w2 v x" "same_stores w1 w2" "world_ok w2" "grows w1 w2"
    using restore_ok [OF w1(4) _ assms(3), of t E] assms(2) w1(5) by auto
  have p2: "props_of w2 (zo_ts z) = Some (?f st)" using same_stores_props [OF r(3)] w1(2) by simp
  obtain w3 where w3: "upd_props (zo_ts z) ?g w2 = Ret w3" "props_of w3 = (props_of w2)(zo_ts z \<mapsto> ?g (?f st))"
    "zobjs w3 = zobjs w2" "same_objects w2 w3" "monitors w3 = monitors w2" "world_ok w3" "g_monitor w3 = g_monitor w2"
    using upd_props_ok [OF p2, of ?g] r(4) by blast
  have z3: "zobjs w3 th = Some z" using r(3) assms(4) w1(3) w3(3) unfolding same_stores_def by metis
  obtain w4 where w4: "upd_zobj th ?d w3 = Ret w4" "zobjs w4 = (zobjs w3)(th \<mapsto> ?d z)" "props_of w4 = props_of w3"
    "same_objects w3 w4" "monitors w4 = monitors w3" "world_ok w4" "g_monitor w4 = g_monitor w3"
    using upd_zobj_ok [OF z3, of ?d] w3(6) by auto
  have "take_out E t th moved k v w = Ret ((x, pmmpthread_store_storage_is_cacheable (Some v)), w4)"
    using assms(4) w1(1) r(1) w3(1) w4(1) by (simp add: take_out_def local_del_def)
  moreover have "stands_for E t w4 v x"
    using stands_for_same_objects [OF r(2) same_objects_trans [OF w3(4) w4(4)]] .
  moreover have "monitors w4 = monitors w" "g_monitor w4 = g_monitor w"
    using w4(5,7) w3(5,7) r(3) w1(5,6) unfolding same_stores_def by simp_all
  moreover have "props_of w4 = (props_of w)(zo_ts z \<mapsto> ?g (?f st))"
    using w4(3) w3(2) same_stores_props [OF r(3)] w1(2) by simp
  moreover have "grows w w4"
    using grows_trans [OF same_objects_grows [OF w1(7)] grows_trans [OF r(5)
      grows_trans [OF same_objects_grows [OF w3(4)] same_objects_grows [OF w4(4)]]]] .
  ultimately show ?thesis using w4(2,6) by (auto simp: Let_def)
qed

lemma bump_ok:
  assumes "zobjs w th = Some z" "props_of w (zo_ts z) = Some st"
  shows "\<exists>w'. pmmpthread_store_bump_modcount_nolock th w = Ret w' \<and>
    props_of w' = (props_of w)(zo_ts z \<mapsto> st\<lparr>st_modcount := st_modcount st + 1\<rparr>) \<and>
    zobjs w' = (zobjs w)(th \<mapsto> (if zo_local_modcount z = st_modcount st
       then z\<lparr>zo_local_modcount := zo_local_modcount z + 1\<rparr> else z)) \<and>
    same_objects w w' \<and> monitors w' = monitors w \<and> (world_ok w \<longrightarrow> world_ok w')"
proof -
  obtain ob where ob: "ts_objs w (zo_ts z) = Some ob" "o_props ob = st" using assms(2) by (auto simp: props_of_def)
  obtain w' where w': "pmmpthread_store_bump_modcount_nolock th w = Ret w'"
    "w' = w\<lparr>zobjs := (zobjs w)(th \<mapsto> (if zo_local_modcount z = st_modcount st
       then z\<lparr>zo_local_modcount := zo_local_modcount z + 1\<rparr> else z)),
       ts_objs := (ts_objs w)(zo_ts z \<mapsto> ob\<lparr>o_props := st\<lparr>st_modcount := st_modcount st + 1\<rparr>\<rparr>)\<rparr>"
    using assms(1) ob
    by (auto simp: pmmpthread_store_bump_modcount_nolock_def upd_zobj_def upd_props_def upd_ts_def cell_upd_def fun_upd_idem)
  have "world_ok w \<longrightarrow> world_ok w'"
    by (intro impI, rule world_ok_frame [of w]) (use w'(2) assms(1) ob in auto)
  then show ?thesis
    using w' assms(1) ob by (auto simp: props_of_def same_objects_def fun_eq_iff)
qed

section \<open>The ends of a store\<close>

definition bounds_ok :: "zval slots \<Rightarrow> 'h pmmpthread_store_t \<Rightarrow> bool" where
  "bounds_ok s st \<longleftrightarrow>
     (\<forall>p. st_first st = Some p \<longrightarrow> first_ok s p \<and> s \<noteq> []) \<and> (\<forall>p. st_last st = Some p \<longrightarrow> last_ok s p)"

definition store_inv :: "('h \<Rightarrow> zval slots) \<Rightarrow> ('h \<Rightarrow> bool) \<Rightarrow> 'h pmmpthread_store_t \<Rightarrow> bool" where
  "store_inv slots ok st \<longleftrightarrow> ok (st_hash st) \<and> bounds_ok (slots (st_hash st)) st \<and>
     (\<forall>(k, v) \<in> set (entries (slots (st_hash st))). is_storage v)"

lemma invalidate_simps [simp]:
  "st_hash (pmmpthread_store_invalidate_bounds st) = st_hash st"
  "st_first (pmmpthread_store_invalidate_bounds st) = None" "st_last (pmmpthread_store_invalidate_bounds st) = None"
  "st_modcount (pmmpthread_store_invalidate_bounds st) = st_modcount st"
  by (simp_all add: pmmpthread_store_invalidate_bounds_def)

lemma entries_nonempty_slots: "entries s \<noteq> [] \<Longrightarrow> s \<noteq> []"
  by auto

lemma trim_nonempty: "entries s \<noteq> [] \<Longrightarrow> trim s \<noteq> []"
  by (metis entries_Nil entries_trim)

lemma last_ok_shift:
  assumes "last_ok s p" "last s \<noteq> None" "entries s = (k, v) # es" "es \<noteq> []" "distinct (map fst (entries s))"
  shows "last_ok (trim (kill k s)) p"
proof -
  obtain k' v' s0 where s: "s = s0 @ [Some (k', v')]" using last_entry [of s] assms(1,2) unfolding last_ok_def by blast
  then have e: "entries s0 @ [(k', v')] = (k, v) # es" using assms(3) by simp
  have "k' \<noteq> k"
  proof
    assume "k' = k"
    moreover have "k' \<in> fst ` set es" using e assms(4) by (cases "entries s0") auto
    ultimately show False using assms(3,5) by auto
  qed
  then have "kill k s = kill k s0 @ [Some (k', v')]" using s by (simp add: kill_def)
  then have "trim (kill k s) = kill k s0 @ [Some (k', v')]" by (simp add: trim_snoc)
  then show ?thesis using assms(1) s by (simp add: last_ok_def kill_def)
qed

lemma first_ok_pop:
  assumes "first_ok s p" "last s \<noteq> None" "s \<noteq> []" "entries s = es @ [(k, v)]" "es \<noteq> []" "distinct (map fst (entries s))"
  shows "first_ok (trim (kill k s)) p"
proof -
  obtain k' v' s0 where s: "s = s0 @ [Some (k', v')]" using last_entry [OF assms(3,2)] by blast
  then have e: "entries s0 = es" "k' = k" using assms(4) by auto
  have "kill k s0 = s0" using assms(4,6) e by (intro kill_other) auto
  then have t: "trim (kill k s) = trim s0" using s e by (simp add: kill_def trim_snoc)
  have "p \<le> length (trim s0)"
  proof (rule ccontr)
    assume n: "\<not> p \<le> length (trim s0)"
    obtain n where d: "s0 = trim s0 @ replicate n None" using trim_decomp by blast
    have "take p s = take p (trim s0) @ take (p - length (trim s0)) (replicate n None @ [Some (k', v')])"
      by (subst s, subst d) simp
    then have "entries (take p s) = entries (trim s0) @ entries (take (p - length (trim s0)) (replicate n None @ [Some (k', v')]))"
      using n by simp
    then show False using assms(1,5) e by (simp add: first_ok_def)
  qed
  moreover have "p \<le> length s0" using calculation by (simp add: length_trim)
  ultimately show ?thesis
    using assms(1) unfolding t by (simp add: s first_ok_def trim_take)
qed

text \<open>The engine's table with PHP values in it, as the store uses it.\<close>

definition took :: "('h, zval) zend_hash_api \<Rightarrow> ('h pmmpthread_store_t \<Rightarrow> 'h pmmpthread_store_t) \<Rightarrow> hkey \<Rightarrow>
    'h pmmpthread_store_t \<Rightarrow> 'h pmmpthread_store_t" where
  "took H moved k st =
     (let st1 = (if zh_num H (st_hash st) = 1 then pmmpthread_store_invalidate_bounds st else moved st)
      in st1\<lparr>st_hash := zh_del H k (st_hash st1)\<rparr>)"

locale store_table = zend_hash H slots ok
  for H :: "('h, zval) zend_hash_api" and slots :: "'h \<Rightarrow> zval slots" and ok :: "'h \<Rightarrow> bool"
begin

lemma first_pos_current:
  assumes "ok (st_hash st)" "bounds_ok (slots (st_hash st)) st"
  shows "zh_current H (st_hash st) (first_pos H st) = (case zh_foreach H (st_hash st) of [] \<Rightarrow> None | e # _ \<Rightarrow> Some e)"
proof -
  have "first_ok (slots (st_hash st)) (first_pos H st)"
    using assms by (auto simp: first_pos_def bounds_ok_def reset_law first_ok_reset split: option.splits)
  then show ?thesis using assms(1) by (simp add: current_law foreach_law current_first)
qed

lemma last_pos_current:
  assumes "ok (st_hash st)" "bounds_ok (slots (st_hash st)) st"
  shows "zh_current H (st_hash st) (last_pos H st) =
    (if zh_foreach H (st_hash st) = [] then None else Some (last (zh_foreach H (st_hash st))))"
proof (cases "slots (st_hash st) = []")
  case True
  then have "st_last st = None" using assms(2) by (auto simp: bounds_ok_def last_ok_def)
  then show ?thesis using assms(1) True by (simp add: last_pos_def current_law foreach_law current_at_def valid_pos_def)
next
  case False
  have "last_ok (slots (st_hash st)) (last_pos H st)"
    using assms False slots_trimmed [OF assms(1) False]
    by (auto simp: last_pos_def bounds_ok_def end_law end_last split: option.splits)
  from current_last [OF this slots_trimmed [OF assms(1) False]] show ?thesis
    using assms(1) by (simp add: current_law foreach_law)
qed

lemma current_empty:
  assumes "ok h" "zh_foreach H h = []"
  shows "zh_current H h p = None"
proof -
  have e: "entries (slots h) = []" using assms by (simp add: foreach_law)
  have "slots h = []"
  proof (rule ccontr)
    assume n: "slots h \<noteq> []"
    obtain s x where s: "slots h = s @ [x]" using n by (cases "slots h" rule: rev_cases) auto
    have "x \<noteq> None" using slots_trimmed [OF assms(1) n] unfolding s by simp
    then show False using e s by auto
  qed
  then show ?thesis using assms(1) by (simp add: current_law current_at_def valid_pos_def)
qed

lemma shifted_first:
  assumes "store_inv slots ok st" "zh_num H (st_hash st) \<noteq> 1"
  shows "first_pos H (took H (move_first H p) k st) = (case zh_forward H (st_hash st) p of Some q \<Rightarrow> q | None \<Rightarrow> p)"
  using assms(2) by (simp add: first_pos_def took_def move_first_def)

lemma shifted_inv:
  assumes "store_inv slots ok st" "zh_foreach H (st_hash st) = (k, v) # es"
  shows "store_inv slots ok (took H (move_first H (first_pos H st)) k st) \<and> zh_foreach H (st_hash (took H (move_first H (first_pos H st)) k st)) = es"
proof -
  define st1 where "st1 = (if zh_num H (st_hash st) = 1 then pmmpthread_store_invalidate_bounds st else move_first H (first_pos H st) st)"
  let ?s = "slots (st_hash st)"
  have ok: "ok (st_hash st)" and b: "bounds_ok ?s st" using assms(1) by (auto simp: store_inv_def)
  have e: "entries ?s = (k, v) # es" using assms(2) ok by (simp add: foreach_law)
  have d: "distinct (map fst (entries ?s))" using ok by (rule keys_distinct)
  have h: "st_hash st1 = st_hash st" by (simp add: st1_def move_first_def)
  have "k \<notin> fst ` set es" using d e by auto
  then have "filter (\<lambda>e. fst e \<noteq> k) es = es" by (intro filter_True) (auto simp: image_iff)
  then have es: "zh_foreach H (zh_del H k (st_hash st1)) = es" using ok by (simp add: foreach_del h assms(2))
  have "bounds_ok (slots (zh_del H k (st_hash st1))) st1"
  proof (cases "es = []")
    case True
    then have "zh_num H (st_hash st) = 1" using ok e by (simp add: num_law)
    then show ?thesis by (simp add: st1_def bounds_ok_def)
  next
    case False
    then have n: "zh_num H (st_hash st) \<noteq> 1" using ok e by (simp add: num_law)
    have ne1: "?s \<noteq> []" using e by auto
    note ne = ne1 slots_trimmed [OF ok ne1]
    have "first_ok ?s (first_pos H st)"
      using ok b by (auto simp: first_pos_def bounds_ok_def reset_law first_ok_reset split: option.splits)
    from shift_first [OF this e False d] obtain q where
      q: "forward_pos ?s (first_pos H st) = Some q" "first_ok (trim (kill k ?s)) q" by blast
    have "trim (kill k ?s) \<noteq> []"
      using False es ok by (intro trim_nonempty) (simp add: foreach_law ok_del del_law h)
    moreover have "last_ok (trim (kill k ?s)) p" if "st_last st = Some p" for p
      using last_ok_shift [OF _ ne(2) e False d] b that by (auto simp: bounds_ok_def)
    ultimately show ?thesis
      using n q ok by (auto simp: st1_def bounds_ok_def move_first_def forward_law del_law)
  qed
  then have "store_inv slots ok (st1\<lparr>st_hash := zh_del H k (st_hash st1)\<rparr>)"
    using assms(1) es h ok e by (auto simp: store_inv_def ok_del foreach_law bounds_ok_def)
  moreover have "took H (move_first H (first_pos H st)) k st = st1\<lparr>st_hash := zh_del H k (st_hash st1)\<rparr>"
    unfolding took_def st1_def Let_def by (rule refl)
  ultimately show ?thesis using es by simp
qed

lemma popped_inv:
  assumes "store_inv slots ok st" "zh_foreach H (st_hash st) = es @ [(k, v)]"
  shows "store_inv slots ok (took H (move_last H (last_pos H st)) k st) \<and> zh_foreach H (st_hash (took H (move_last H (last_pos H st)) k st)) = es"
proof -
  define st1 where "st1 = (if zh_num H (st_hash st) = 1 then pmmpthread_store_invalidate_bounds st else move_last H (last_pos H st) st)"
  let ?s = "slots (st_hash st)"
  have ok: "ok (st_hash st)" and b: "bounds_ok ?s st" using assms(1) by (auto simp: store_inv_def)
  have e: "entries ?s = es @ [(k, v)]" using assms(2) ok by (simp add: foreach_law)
  have d: "distinct (map fst (entries ?s))" using ok by (rule keys_distinct)
  have h: "st_hash st1 = st_hash st" by (simp add: st1_def move_last_def)
  have "k \<notin> fst ` set es" using d e by auto
  then have "filter (\<lambda>e. fst e \<noteq> k) es = es" by (intro filter_True) (auto simp: image_iff)
  then have es: "zh_foreach H (zh_del H k (st_hash st1)) = es" using ok by (simp add: foreach_del h assms(2))
  have "bounds_ok (slots (zh_del H k (st_hash st1))) st1"
  proof (cases "es = []")
    case True
    then have "zh_num H (st_hash st) = 1" using ok e by (simp add: num_law)
    then show ?thesis by (simp add: st1_def bounds_ok_def)
  next
    case False
    then have n: "zh_num H (st_hash st) \<noteq> 1" using ok e by (simp add: num_law)
    have ne1: "?s \<noteq> []" using e by auto
    note ne = ne1 slots_trimmed [OF ok ne1]
    have "last_ok ?s (last_pos H st)"
      using ok b ne by (auto simp: last_pos_def bounds_ok_def end_law end_last split: option.splits)
    from pop_last [OF this ne(2) e False d] obtain q where
      q: "backward_pos ?s (last_pos H st) = Some q" "last_ok (trim (kill k ?s)) q" by blast
    have "trim (kill k ?s) \<noteq> []"
      using False es ok by (intro trim_nonempty) (simp add: foreach_law ok_del del_law h)
    moreover have "first_ok (trim (kill k ?s)) p" if "st_first st = Some p" for p
      using first_ok_pop [OF _ ne(2,1) e False d] b that by (auto simp: bounds_ok_def)
    ultimately show ?thesis
      using n q ok by (auto simp: st1_def bounds_ok_def move_last_def backward_law del_law)
  qed
  then have "store_inv slots ok (st1\<lparr>st_hash := zh_del H k (st_hash st1)\<rparr>)"
    using assms(1) es h ok e by (auto simp: store_inv_def ok_del foreach_law bounds_ok_def)
  moreover have "took H (move_last H (last_pos H st)) k st = st1\<lparr>st_hash := zh_del H k (st_hash st1)\<rparr>"
    unfolding took_def st1_def Let_def by (rule refl)
  ultimately show ?thesis using es by simp
qed

end

interpretation st: store_table bt_api bt_slots bt_ok
  by unfold_locales

section \<open>Shift and pop\<close>

text \<open>
  The setting of the properties: a connection of the calling thread with its shared part, monitors
  that are available to the thread, a well-formed world and a well-formed store.
\<close>

definition store_ready ::
  "('h \<Rightarrow> zval slots) \<Rightarrow> ('h \<Rightarrow> bool) \<Rightarrow> tid \<Rightarrow> addr \<Rightarrow> pmmpthread_zend_object_t \<Rightarrow> 'h pmmpthread_store_t \<Rightarrow> 'h world \<Rightarrow> bool"
where
  "store_ready slots ok t th z st w \<longleftrightarrow> world_ok w \<and> zobjs w th = Some z \<and> props_of w (zo_ts z) = Some st \<and>
     store_inv slots ok st \<and> mutex_avail (Suc 0) t (mon_mutex (g_monitor w)) \<and>
     mutex_avail (Suc (Suc 0)) t (mon_mutex (monitors w (zo_ts z)))"

lemma store_ready_ts: "store_ready slots ok t th z st w \<Longrightarrow> \<exists>ob. ts_objs w (zo_ts z) = Some ob \<and> o_props ob = st"
  by (auto simp: store_ready_def props_of_def)

lemma store_inv_modcount [simp]: "store_inv slots ok (st\<lparr>st_modcount := n\<rparr>) = store_inv slots ok st"
  by (simp add: store_inv_def bounds_ok_def)

text \<open>One element taken out of a store that is ready leaves it ready, if the bounds are right.\<close>

lemma take_out_ready:
  assumes "store_ready slots ok t th z st w" "is_storage v" "store_inv slots ok (took (e_hash E) moved k st)"
  shows "\<exists>x w' z'. take_out E t th moved k v w = Ret ((x, pmmpthread_store_storage_is_cacheable (Some v)), w') \<and>
    stands_for E t w' v x \<and> store_ready slots ok t th z' (took (e_hash E) moved k st) w' \<and> zo_ts z' = zo_ts z \<and> grows w w' \<and>
    props_of w' = (props_of w)(zo_ts z \<mapsto> took (e_hash E) moved k st) \<and> monitors w' = monitors w"
  using take_out_ok [of w t v th z st E moved k] assms
  by (fastforce simp: store_ready_def took_def)

lemma bump_ready:
  assumes "store_ready slots ok t th z st w"
  shows "\<exists>w' z' n. (if b then pmmpthread_store_bump_modcount_nolock th w else Ret w) = Ret w' \<and>
    store_ready slots ok t th z' (st\<lparr>st_modcount := n\<rparr>) w' \<and> zo_ts z' = zo_ts z \<and> grows w w' \<and> same_objects w w' \<and>
    props_of w' = (props_of w)(zo_ts z \<mapsto> st\<lparr>st_modcount := n\<rparr>) \<and> monitors w' = monitors w"
proof (cases b)
  case True
  have r: "zobjs w th = Some z" "props_of w (zo_ts z) = Some st" "world_ok w" using assms by (auto simp: store_ready_def)
  obtain ob where ob: "ts_objs w (zo_ts z) = Some ob" "o_props ob = st" using r(2) by (auto simp: props_of_def)
  obtain w' where w': "pmmpthread_store_bump_modcount_nolock th w = Ret w'"
    "props_of w' = (props_of w)(zo_ts z \<mapsto> st\<lparr>st_modcount := st_modcount st + 1\<rparr>)"
    "zobjs w' = (zobjs w)(th \<mapsto> (if zo_local_modcount z = st_modcount st
       then z\<lparr>zo_local_modcount := zo_local_modcount z + 1\<rparr> else z))"
    "same_objects w w'" "monitors w' = monitors w" "world_ok w'"
    using bump_ok [OF r(1,2)] r(3) by blast
  have "store_ready slots ok t th (if zo_local_modcount z = st_modcount st
       then z\<lparr>zo_local_modcount := zo_local_modcount z + 1\<rparr> else z) (st\<lparr>st_modcount := st_modcount st + 1\<rparr>) w'"
    using assms w'(2-6) by (auto simp: store_ready_def same_objects_def)
  then show ?thesis using True w' same_objects_grows [OF w'(4)] by (fastforce split: if_splits)
next
  case False
  have "st = st\<lparr>st_modcount := st_modcount st\<rparr>" by simp
  moreover have "props_of w = (props_of w)(zo_ts z \<mapsto> st)" using assms by (simp add: fun_upd_idem store_ready_def)
  ultimately show ?thesis using False assms grows_refl same_objects_refl by metis
qed

text \<open>
  Taking an entry out at a position and marking the other caches stale, as shift and pop do.
\<close>

lemma take_end_ok:
  assumes "store_ready slots ok t th z st w" "is_storage v" "store_inv slots ok (took (e_hash E) moved k st)"
  shows "\<exists>x w' z' n. obind (take_out E t th moved k v w) (\<lambda>((v, cached), w1).
         obind (if cached then pmmpthread_store_bump_modcount_nolock th w1 else Ret w1) (\<lambda>w2. Ret (Some v, w2))) =
       Ret (Some x, w') \<and> stands_for E t w' v x \<and> store_ready slots ok t th z' ((took (e_hash E) moved k st)\<lparr>st_modcount := n\<rparr>) w' \<and> zo_ts z' = zo_ts z \<and> grows w w' \<and>
    props_of w' = (props_of w)(zo_ts z \<mapsto> (took (e_hash E) moved k st)\<lparr>st_modcount := n\<rparr>) \<and> monitors w' = monitors w"
proof -
  obtain x w1 z1 where t: "take_out E t th moved k v w = Ret ((x, pmmpthread_store_storage_is_cacheable (Some v)), w1)"
    "stands_for E t w1 v x" "store_ready slots ok t th z1 (took (e_hash E) moved k st) w1" "zo_ts z1 = zo_ts z" "grows w w1"
    "props_of w1 = (props_of w)(zo_ts z \<mapsto> took (e_hash E) moved k st)" "monitors w1 = monitors w"
    using take_out_ready [OF assms] by blast
  obtain w2 z2 n where b: "(if pmmpthread_store_storage_is_cacheable (Some v)
      then pmmpthread_store_bump_modcount_nolock th w1 else Ret w1) = Ret w2"
    "store_ready slots ok t th z2 ((took (e_hash E) moved k st)\<lparr>st_modcount := n\<rparr>) w2" "zo_ts z2 = zo_ts z1" "same_objects w1 w2" "grows w1 w2"
    "props_of w2 = (props_of w1)(zo_ts z1 \<mapsto> (took (e_hash E) moved k st)\<lparr>st_modcount := n\<rparr>)" "monitors w2 = monitors w1"
    using bump_ready [OF t(3)] by blast
  show ?thesis
    using t b stands_for_same_objects [OF t(2) b(4)] grows_trans [OF t(5) b(5)]
    by (intro exI [of _ x] exI [of _ w2] exI [of _ z2] exI [of _ n]) simp
qed

lemma shift_ok:
  assumes "zend_hash (e_hash E) slots ok" "store_ready slots ok t th z st w"
    and "zh_foreach (e_hash E) (st_hash st) = (k, v) # es"
  shows "\<exists>x w' z' st'. pmmpthread_store_shift E t th w = Ret (Some x, w') \<and> stands_for E t w' v x \<and>
    store_ready slots ok t th z' st' w' \<and> zo_ts z' = zo_ts z \<and> grows w w' \<and>
    props_of w' = (props_of w)(zo_ts z \<mapsto> st') \<and> zh_foreach (e_hash E) (st_hash st') = es"
proof -
  have tab: "store_table (e_hash E) slots ok" using assms(1) by (rule store_table.intro)
  obtain ob where ob: "ts_objs w (zo_ts z) = Some ob" "o_props ob = st" using store_ready_ts [OF assms(2)] by blast
  have r: "zobjs w th = Some z" "store_inv slots ok st" "mutex_avail (Suc (Suc 0)) t (mon_mutex (monitors w (zo_ts z)))"
    using assms(2) by (auto simp: store_ready_def)
  have inv: "ok (st_hash st)" "bounds_ok (slots (st_hash st)) st" using r(2) by (auto simp: store_inv_def)
  have cur: "zh_current (e_hash E) (st_hash st) (first_pos (e_hash E) st) = Some (k, v)"
    using store_table.first_pos_current [OF tab inv] assms(3) by simp
  have sv: "is_storage v"
    using r(2) assms(3) zend_hash.foreach_law [OF assms(1) inv(1)] by (auto simp: store_inv_def)
  define st2 where "st2 = took (e_hash E) (move_first (e_hash E) (first_pos (e_hash E) st)) k st"
  have i2: "store_inv slots ok st2" "zh_foreach (e_hash E) (st_hash st2) = es"
    using store_table.shifted_inv [OF tab r(2) assms(3)] by (simp_all add: st2_def)
  obtain x w' z' n where e: "shift_locked E t th w = Ret (Some x, w')" "stands_for E t w' v x"
    "store_ready slots ok t th z' (st2\<lparr>st_modcount := n\<rparr>) w'" "zo_ts z' = zo_ts z" "grows w w'"
    "props_of w' = (props_of w)(zo_ts z \<mapsto> st2\<lparr>st_modcount := n\<rparr>)" "monitors w' = monitors w"
    using take_end_ok [OF assms(2) sv i2(1) [unfolded st2_def], folded st2_def] r(1) ob cur by (auto simp: shift_locked_def Let_def)
  have "pmmpthread_store_shift E t th w = Ret (Some x, w')"
    using r(1) e(1,7) ts_locked_eq [OF avail_mono [OF r(3)], of "shift_locked E t th"]
    by (simp add: pmmpthread_store_shift_def)
  then show ?thesis
    using e i2(2) by (intro exI [of _ x] exI [of _ w'] exI [of _ z'] exI [of _ "st2\<lparr>st_modcount := n\<rparr>"]) simp
qed

lemma pop_ok:
  assumes "zend_hash (e_hash E) slots ok" "store_ready slots ok t th z st w"
    and "zh_foreach (e_hash E) (st_hash st) = es @ [(k, v)]"
  shows "\<exists>x w' z' st'. pmmpthread_store_pop E t th w = Ret (Some x, w') \<and> stands_for E t w' v x \<and>
    store_ready slots ok t th z' st' w' \<and> zo_ts z' = zo_ts z \<and> grows w w' \<and>
    props_of w' = (props_of w)(zo_ts z \<mapsto> st') \<and> zh_foreach (e_hash E) (st_hash st') = es"
proof -
  have tab: "store_table (e_hash E) slots ok" using assms(1) by (rule store_table.intro)
  obtain ob where ob: "ts_objs w (zo_ts z) = Some ob" "o_props ob = st" using store_ready_ts [OF assms(2)] by blast
  have r: "zobjs w th = Some z" "store_inv slots ok st" "mutex_avail (Suc (Suc 0)) t (mon_mutex (monitors w (zo_ts z)))"
    using assms(2) by (auto simp: store_ready_def)
  have inv: "ok (st_hash st)" "bounds_ok (slots (st_hash st)) st" using r(2) by (auto simp: store_inv_def)
  have cur: "zh_current (e_hash E) (st_hash st) (last_pos (e_hash E) st) = Some (k, v)"
    using store_table.last_pos_current [OF tab inv] assms(3) by simp
  have sv: "is_storage v"
    using r(2) assms(3) zend_hash.foreach_law [OF assms(1) inv(1)] by (auto simp: store_inv_def)
  define st2 where "st2 = took (e_hash E) (move_last (e_hash E) (last_pos (e_hash E) st)) k st"
  have i2: "store_inv slots ok st2" "zh_foreach (e_hash E) (st_hash st2) = es"
    using store_table.popped_inv [OF tab r(2) assms(3)] by (simp_all add: st2_def)
  obtain x w' z' n where e: "pop_locked E t th w = Ret (Some x, w')" "stands_for E t w' v x"
    "store_ready slots ok t th z' (st2\<lparr>st_modcount := n\<rparr>) w'" "zo_ts z' = zo_ts z" "grows w w'"
    "props_of w' = (props_of w)(zo_ts z \<mapsto> st2\<lparr>st_modcount := n\<rparr>)" "monitors w' = monitors w"
    using take_end_ok [OF assms(2) sv i2(1) [unfolded st2_def], folded st2_def] r(1) ob cur by (auto simp: pop_locked_def Let_def)
  have "pmmpthread_store_pop E t th w = Ret (Some x, w')"
    using r(1) e(1,7) ts_locked_eq [OF avail_mono [OF r(3)], of "pop_locked E t th"]
    by (simp add: pmmpthread_store_pop_def)
  then show ?thesis
    using e i2(2) by (intro exI [of _ x] exI [of _ w'] exI [of _ z'] exI [of _ "st2\<lparr>st_modcount := n\<rparr>"]) simp
qed

lemma shift_empty:
  assumes "zend_hash (e_hash E) slots ok" "store_ready slots ok t th z st w" "zh_foreach (e_hash E) (st_hash st) = []"
  shows "pmmpthread_store_shift E t th w = Ret (Some Z_NULL, w)"
proof -
  have tab: "store_table (e_hash E) slots ok" using assms(1) by (rule store_table.intro)
  obtain ob where ob: "ts_objs w (zo_ts z) = Some ob" "o_props ob = st" using store_ready_ts [OF assms(2)] by blast
  have r: "zobjs w th = Some z" "store_inv slots ok st" "mutex_avail (Suc (Suc 0)) t (mon_mutex (monitors w (zo_ts z)))"
    using assms(2) by (auto simp: store_ready_def)
  have inv: "ok (st_hash st)" "bounds_ok (slots (st_hash st)) st" using r(2) by (auto simp: store_inv_def)
  have "shift_locked E t th w = Ret (Some Z_NULL, w)"
    using r(1) ob store_table.first_pos_current [OF tab inv] assms(3) by (simp add: shift_locked_def Let_def)
  then show ?thesis
    using r(1) ts_locked_eq [OF avail_mono [OF r(3)], of "shift_locked E t th"] by (simp add: pmmpthread_store_shift_def)
qed

lemma pop_empty:
  assumes "zend_hash (e_hash E) slots ok" "store_ready slots ok t th z st w" "zh_foreach (e_hash E) (st_hash st) = []"
  shows "pmmpthread_store_pop E t th w = Ret (Some Z_NULL, w)"
proof -
  have tab: "store_table (e_hash E) slots ok" using assms(1) by (rule store_table.intro)
  obtain ob where ob: "ts_objs w (zo_ts z) = Some ob" "o_props ob = st" using store_ready_ts [OF assms(2)] by blast
  have r: "zobjs w th = Some z" "store_inv slots ok st" "mutex_avail (Suc (Suc 0)) t (mon_mutex (monitors w (zo_ts z)))"
    using assms(2) by (auto simp: store_ready_def)
  have inv: "ok (st_hash st)" "bounds_ok (slots (st_hash st)) st" using r(2) by (auto simp: store_inv_def)
  have "pop_locked E t th w = Ret (Some Z_NULL, w)"
    using r(1) ob store_table.last_pos_current [OF tab inv] assms(3) by (simp add: pop_locked_def Let_def)
  then show ?thesis
    using r(1) ts_locked_eq [OF avail_mono [OF r(3)], of "pop_locked E t th"] by (simp add: pmmpthread_store_pop_def)
qed

section \<open>Chunks\<close>

text \<open>
  The loop of a chunk, started at the first entry with an empty result or a result whose keys are not
  in the store, moves entries over until the chunk is full or the store is empty.
\<close>

definition restored_list :: "'h store_env \<Rightarrow> tid \<Rightarrow> 'h world \<Rightarrow> (hkey \<times> zval) list \<Rightarrow> (hkey \<times> zval) list \<Rightarrow> bool" where
  "restored_list E t w es xs \<longleftrightarrow> list_all2 (\<lambda>(k, v) (k', x). k' = k \<and> stands_for E t w v x) es xs"

lemma alist_update_new: "k \<notin> fst ` set xs \<Longrightarrow> AList.update k v xs = xs @ [(k, v)]"
  by (induction xs) auto

lemma chunk_loop_ok:
  assumes "zend_hash (e_hash E) slots ok" "store_ready slots ok t th z st w" "zh_foreach (e_hash E) (st_hash st) = es"
    and "length es < fuel" "fst ` set chunk \<inter> fst ` set es = {}" "\<forall>(k, v) \<in> set es. stored_alive w v"
    and "p = first_pos (e_hash E) st \<or> es = []"
  shows "\<exists>xs stale' w' z' st'. chunk_loop fuel E t th sz p chunk stale w = Ret ((chunk @ xs, stale'), w') \<and>
    restored_list E t w' (take (nat (sz - int (length chunk))) es) xs \<and> store_ready slots ok t th z' st' w' \<and>
    zo_ts z' = zo_ts z \<and> grows w w' \<and> props_of w' = (props_of w)(zo_ts z \<mapsto> st') \<and> monitors w' = monitors w \<and>
    zh_foreach (e_hash E) (st_hash st') = drop (nat (sz - int (length chunk))) es"
  using assms(2-)
proof (induction fuel arbitrary: p chunk stale w z st es)
  case 0
  then show ?case by simp
next
  case (Suc fuel)
  have tab: "store_table (e_hash E) slots ok" using assms(1) by (rule store_table.intro)
  obtain ob where ob: "ts_objs w (zo_ts z) = Some ob" "o_props ob = st" using store_ready_ts [OF Suc.prems(1)] by blast
  have r: "zobjs w th = Some z" "store_inv slots ok st" "props_of w (zo_ts z) = Some st"
    using Suc.prems(1) by (auto simp: store_ready_def)
  have inv: "ok (st_hash st)" "bounds_ok (slots (st_hash st)) st" using r(2) by (auto simp: store_inv_def)
  show ?case
  proof (cases "int (length chunk) < sz \<and> es \<noteq> []")
    case False
    then have "take (nat (sz - int (length chunk))) es = []" "drop (nat (sz - int (length chunk))) es = es" by auto
    moreover have "chunk_loop (Suc fuel) E t th sz p chunk stale w = Ret ((chunk, stale), w)"
    proof (cases "int (length chunk) < sz")
      case True
      then have "zh_current (e_hash E) (st_hash st) p = None"
        using False store_table.current_empty [OF tab inv(1)] Suc.prems(2) by simp
      then show ?thesis using True r(1) ob by (simp add: Let_def)
    qed (use r(1) ob in \<open>simp add: Let_def\<close>)
    moreover have "props_of w = (props_of w)(zo_ts z \<mapsto> st)" using r(3) by (simp add: fun_upd_idem)
    ultimately show ?thesis using Suc.prems(1,2)
      by (intro exI [of _ "[]"] exI [of _ stale] exI [of _ w] exI [of _ z] exI [of _ st]) (simp add: restored_list_def)
  next
    case True
    then obtain k v es' where es: "es = (k, v) # es'" by (cases es) auto
    have p: "p = first_pos (e_hash E) st" using Suc.prems(6) es by simp
    have cur: "zh_current (e_hash E) (st_hash st) p = Some (k, v)"
      using store_table.first_pos_current [OF tab inv] Suc.prems(2) es p by simp
    have sv: "is_storage v"
      using r(2) Suc.prems(2) es zend_hash.foreach_law [OF assms(1) inv(1)] by (auto simp: store_inv_def)
    define st2 where "st2 = took (e_hash E) (move_first (e_hash E) p) k st"
    have i2: "store_inv slots ok st2" "zh_foreach (e_hash E) (st_hash st2) = es'"
      using store_table.shifted_inv [OF tab r(2), of k v es'] Suc.prems(2) es by (simp_all add: st2_def p)
    obtain x w1 z1 where x: "take_out E t th (move_first (e_hash E) p) k v w =
        Ret ((x, pmmpthread_store_storage_is_cacheable (Some v)), w1)" "stands_for E t w1 v x"
      "store_ready slots ok t th z1 st2 w1" "zo_ts z1 = zo_ts z" "grows w w1"
      "props_of w1 = (props_of w)(zo_ts z \<mapsto> st2)" "monitors w1 = monitors w"
      using take_out_ready [OF Suc.prems(1) sv i2(1) [unfolded st2_def]] unfolding st2_def by blast
    define q where "q = (if zh_num (e_hash E) (st_hash st) = 1 then p
      else (case zh_forward (e_hash E) (st_hash st) p of Some q \<Rightarrow> q | None \<Rightarrow> p))"
    have q: "q = first_pos (e_hash E) st2 \<or> es' = []"
    proof (cases "zh_num (e_hash E) (st_hash st) = 1")
      case True
      then have "length es = 1" using zend_hash.num_foreach [OF assms(1) inv(1)] Suc.prems(2) by simp
      then show ?thesis using es by simp
    next
      case False
      then show ?thesis using store_table.shifted_first [OF tab r(2) False] by (simp add: q_def st2_def)
    qed
    have d: "k \<notin> fst ` set es'" using zend_hash.foreach_keys [OF assms(1) inv(1)] Suc.prems(2) es by simp
    have kc: "k \<notin> fst ` set chunk" using Suc.prems(4) es by auto
    have c1: "AList.update k x chunk = chunk @ [(k, x)]" using kc by (rule alist_update_new)
    have disj: "fst ` set (chunk @ [(k, x)]) \<inter> fst ` set es' = {}" using Suc.prems(4) es d by auto
    have alive: "\<forall>(k, v) \<in> set es'. stored_alive w1 v" using Suc.prems(5) es stored_alive_grows [OF _ x(5)] by auto
    have fl: "length es' < fuel" using Suc.prems(3) es by simp
    from Suc.IH [OF x(3) i2(2) fl disj alive q, of "stale \<or> pmmpthread_store_storage_is_cacheable (Some v)"]
    obtain xs stale' w' z' st' where ih: "chunk_loop fuel E t th sz q (chunk @ [(k, x)])
        (stale \<or> pmmpthread_store_storage_is_cacheable (Some v)) w1 = Ret (((chunk @ [(k, x)]) @ xs, stale'), w')"
      "restored_list E t w' (take (nat (sz - int (length (chunk @ [(k, x)])))) es') xs"
      "store_ready slots ok t th z' st' w'" "zo_ts z' = zo_ts z1" "grows w1 w'"
      "props_of w' = (props_of w1)(zo_ts z1 \<mapsto> st')" "monitors w' = monitors w1"
      "zh_foreach (e_hash E) (st_hash st') = drop (nat (sz - int (length (chunk @ [(k, x)])))) es'"
      by blast
    have n: "nat (sz - int (length chunk)) = Suc (nat (sz - int (length (chunk @ [(k, x)]))))"
      using conjunct1 [OF True] by simp
    have "chunk_loop (Suc fuel) E t th sz p chunk stale w = Ret ((chunk @ (k, x) # xs, stale'), w')"
      using r(1) ob True cur x(1) ih(1) by (simp add: Let_def c1 q_def)
    moreover have "stands_for E t w' v x"
      using stands_for_grows [OF x(2) stored_alive_grows [OF _ x(5)] ih(5)] Suc.prems(5) es by simp
    ultimately show ?thesis
      using ih(2-) x(4,6,7) grows_trans [OF x(5) ih(5)] es n
      by (intro exI [of _ "(k, x) # xs"] exI [of _ stale'] exI [of _ w'] exI [of _ z'] exI [of _ st'])
        (simp add: restored_list_def)
  qed
qed

lemma chunk_ok:
  assumes "zend_hash (e_hash E) slots ok" "store_ready slots ok t th z st w"
    and "\<forall>(k, v) \<in> set (zh_foreach (e_hash E) (st_hash st)). stored_alive w v"
  shows "\<exists>xs w' z' st'. pmmpthread_store_chunk E t th sz preserve w = Ret (Some xs, w') \<and>
    restored_list E t w' (take (nat sz) (zh_foreach (e_hash E) (st_hash st))) xs \<and> store_ready slots ok t th z' st' w' \<and>
    zo_ts z' = zo_ts z \<and> grows w w' \<and> props_of w' = (props_of w)(zo_ts z \<mapsto> st') \<and>
    zh_foreach (e_hash E) (st_hash st') = drop (nat sz) (zh_foreach (e_hash E) (st_hash st))"
proof -
  let ?es = "zh_foreach (e_hash E) (st_hash st)"
  obtain ob where ob: "ts_objs w (zo_ts z) = Some ob" "o_props ob = st" using store_ready_ts [OF assms(2)] by blast
  have r: "zobjs w th = Some z" "store_inv slots ok st" "mutex_avail (Suc (Suc 0)) t (mon_mutex (monitors w (zo_ts z)))"
    using assms(2) by (auto simp: store_ready_def)
  have num: "zh_num (e_hash E) (st_hash st) = length ?es"
    using zend_hash.num_foreach [OF assms(1)] r(2) by (simp add: store_inv_def)
  from chunk_loop_ok [OF assms(1,2) refl, of "Suc (length ?es)" "[]" "first_pos (e_hash E) st" sz False] assms(3)
  obtain xs stale w1 z1 st1 where c: "chunk_loop (Suc (length ?es)) E t th sz (first_pos (e_hash E) st) [] False w = Ret ((xs, stale), w1)"
    "restored_list E t w1 (take (nat sz) ?es) xs" "store_ready slots ok t th z1 st1 w1" "zo_ts z1 = zo_ts z" "grows w w1"
    "props_of w1 = (props_of w)(zo_ts z \<mapsto> st1)" "monitors w1 = monitors w"
    "zh_foreach (e_hash E) (st_hash st1) = drop (nat sz) ?es"
    by auto
  obtain w2 z2 n where b: "(if stale then pmmpthread_store_bump_modcount_nolock th w1 else Ret w1) = Ret w2"
    "store_ready slots ok t th z2 (st1\<lparr>st_modcount := n\<rparr>) w2" "zo_ts z2 = zo_ts z1" "same_objects w1 w2"
    "props_of w2 = (props_of w1)(zo_ts z1 \<mapsto> st1\<lparr>st_modcount := n\<rparr>)" "monitors w2 = monitors w1"
    using bump_ready [OF c(3)] by blast
  have "pmmpthread_store_chunk E t th sz preserve w = Ret (Some xs, w2)"
    unfolding pmmpthread_store_chunk_def using r(1) ob c(1,7) b(1,6) num
    by (simp del: chunk_loop.simps, intro ts_locked_eq [OF avail_mono [OF r(3)]]) (simp_all add: Let_def del: chunk_loop.simps)
  moreover have "restored_list E t w2 (take (nat sz) ?es) xs"
    using c(2) stands_for_same_objects [OF _ b(4)] unfolding restored_list_def
    by (auto elim!: list_all2_mono)
  ultimately show ?thesis
    using b c(4,6,8) grows_trans [OF c(5) same_objects_grows [OF b(4)]] by (intro exI [of _ xs] exI [of _ w2] exI [of _ z2] exI [of _ "st1\<lparr>st_modcount := n\<rparr>"]) simp
qed


section \<open>The double-ended queue\<close>

text \<open>
  What taking elements off the ends promises, whatever the elements are: \<open>holds s es\<close> says which
  sequence a state holds, \<open>denotes\<close> which result is given for an element (or for none), \<open>le\<close> that a
  state came after another.
\<close>

datatype end_op = Shift_op | Pop_op

fun deque_spec :: "end_op list \<Rightarrow> 'e list \<Rightarrow> 'e option list \<times> 'e list" where
  "deque_spec [] es = ([], es)"
| "deque_spec (Shift_op # ops) es =
     (case deque_spec ops (tl es) of (rs, es') \<Rightarrow> ((if es = [] then None else Some (hd es)) # rs, es'))"
| "deque_spec (Pop_op # ops) es =
     (case deque_spec ops (butlast es) of (rs, es') \<Rightarrow> ((if es = [] then None else Some (last es)) # rs, es'))"

fun deque_run ::
  "('s \<Rightarrow> ('x \<times> 's) outcome) \<Rightarrow> ('s \<Rightarrow> ('x \<times> 's) outcome) \<Rightarrow> end_op list \<Rightarrow> 's \<Rightarrow> ('x list \<times> 's) outcome"
where
  "deque_run shift pop [] s = Ret ([], s)"
| "deque_run shift pop (op # ops) s =
     obind (if op = Shift_op then shift s else pop s) (\<lambda>(x, s1).
     obind (deque_run shift pop ops s1) (\<lambda>(xs, s2). Ret (x # xs, s2)))"

locale deque =
  fixes shift :: "'s \<Rightarrow> ('x \<times> 's) outcome"
    and pop :: "'s \<Rightarrow> ('x \<times> 's) outcome"
    and holds :: "'s \<Rightarrow> 'e list \<Rightarrow> bool"
    and denotes :: "'s \<Rightarrow> 'e option \<Rightarrow> 'x \<Rightarrow> bool"
    and le :: "'s \<Rightarrow> 's \<Rightarrow> bool"
  assumes le_refl: "le s s"
    and le_trans: "le s1 s2 \<Longrightarrow> le s2 s3 \<Longrightarrow> le s1 s3"
    and denotes_mono: "denotes s e x \<Longrightarrow> le s s' \<Longrightarrow> denotes s' e x"
    and shift_law: "holds s es \<Longrightarrow>
      \<exists>x s'. shift s = Ret (x, s') \<and> holds s' (tl es) \<and> denotes s' (if es = [] then None else Some (hd es)) x \<and> le s s'"
    and pop_law: "holds s es \<Longrightarrow>
      \<exists>x s'. pop s = Ret (x, s') \<and> holds s' (butlast es) \<and> denotes s' (if es = [] then None else Some (last es)) x \<and> le s s'"
begin

lemma run_refines:
  "holds s es \<Longrightarrow> \<exists>xs s'. deque_run shift pop ops s = Ret (xs, s') \<and> le s s' \<and>
     holds s' (snd (deque_spec ops es)) \<and> list_all2 (denotes s') (fst (deque_spec ops es)) xs"
proof (induction ops arbitrary: s es)
  case Nil
  then show ?case using le_refl by simp
next
  case (Cons op ops)
  define e where "e = (if es = [] then None else Some (if op = Shift_op then hd es else last es))"
  define es1 where "es1 = (if op = Shift_op then tl es else butlast es)"
  have "\<exists>x s1. (if op = Shift_op then shift s else pop s) = Ret (x, s1) \<and> holds s1 es1 \<and> denotes s1 e x \<and> le s s1"
  proof (cases op)
    case Shift_op
    then show ?thesis using shift_law [OF Cons.prems] by (cases "es = []") (simp_all add: e_def es1_def)
  next
    case Pop_op
    then show ?thesis using pop_law [OF Cons.prems] by (cases "es = []") (simp_all add: e_def es1_def)
  qed
  then obtain x s1 where x: "(if op = Shift_op then shift s else pop s) = Ret (x, s1)" "holds s1 es1" "denotes s1 e x" "le s s1"
    by blast
  obtain xs s2 where xs: "deque_run shift pop ops s1 = Ret (xs, s2)" "le s1 s2" "holds s2 (snd (deque_spec ops es1))"
    "list_all2 (denotes s2) (fst (deque_spec ops es1)) xs"
    using Cons.IH [OF x(2)] by blast
  have "deque_spec (op # ops) es = (e # fst (deque_spec ops es1), snd (deque_spec ops es1))"
    by (cases op) (auto simp: e_def es1_def split: prod.splits)
  then show ?case using x(1) xs denotes_mono [OF x(3) xs(2)] le_trans [OF x(4) xs(2)] by auto
qed

end

text \<open>The store is such a queue, for any table that obeys the engine's laws.\<close>

definition store_holds ::
  "('h \<Rightarrow> zval slots) \<Rightarrow> ('h \<Rightarrow> bool) \<Rightarrow> 'h store_env \<Rightarrow> tid \<Rightarrow> addr \<Rightarrow> 'h world \<Rightarrow> (hkey \<times> zval) list \<Rightarrow> bool"
where
  "store_holds slots ok E t th w es \<longleftrightarrow> (\<exists>z st. store_ready slots ok t th z st w \<and>
     zh_foreach (e_hash E) (st_hash st) = es \<and> (\<forall>(k, v) \<in> set es. stored_alive w v))"

definition store_denotes :: "'h store_env \<Rightarrow> tid \<Rightarrow> 'h world \<Rightarrow> (hkey \<times> zval) option \<Rightarrow> zval option \<Rightarrow> bool" where
  "store_denotes E t w e x \<longleftrightarrow>
     (case e of None \<Rightarrow> x = Some Z_NULL
      | Some (k, v) \<Rightarrow> stored_alive w v \<and> (\<exists>y. x = Some y \<and> stands_for E t w v y))"

lemma store_holdsI:
  assumes "store_ready slots ok t th z st w'" "zh_foreach (e_hash E) (st_hash st) = es"
    and "\<forall>(k, v) \<in> set es0. stored_alive w v" "set es \<subseteq> set es0" "grows w w'"
  shows "store_holds slots ok E t th w' es"
proof -
  have "\<forall>(k, v) \<in> set es. stored_alive w' v" using assms(3,4) stored_alive_grows [OF _ assms(5)] by blast
  then show ?thesis using assms(1,2) unfolding store_holds_def by blast
qed

locale store_client = store_table "e_hash E" slots ok
  for E :: "'h store_env" and slots :: "'h \<Rightarrow> zval slots" and ok :: "'h \<Rightarrow> bool" +
  fixes t :: tid and th :: addr

sublocale store_client \<subseteq> ends: deque "pmmpthread_store_shift E t th" "pmmpthread_store_pop E t th"
  "store_holds slots ok E t th" "store_denotes E t" grows
proof
  fix w es
  assume h: "store_holds slots ok E t th w es"
  then obtain z st where r: "store_ready slots ok t th z st w" "zh_foreach (e_hash E) (st_hash st) = es"
    "\<forall>(k, v) \<in> set es. stored_alive w v" by (auto simp: store_holds_def)
  have tab: "zend_hash (e_hash E) slots ok" by (rule zend_hash_axioms)
  show "\<exists>x w'. pmmpthread_store_shift E t th w = Ret (x, w') \<and> store_holds slots ok E t th w' (tl es) \<and>
      store_denotes E t w' (if es = [] then None else Some (hd es)) x \<and> grows w w'"
  proof (cases es)
    case Nil
    then show ?thesis using shift_empty [OF tab r(1)] r h by (simp add: store_denotes_def)
  next
    case (Cons e es')
    obtain k v where e: "e = (k, v)" by (cases e)
    obtain x w' z' st' where x: "pmmpthread_store_shift E t th w = Ret (Some x, w')" "stands_for E t w' v x"
      "store_ready slots ok t th z' st' w'" "grows w w'" "zh_foreach (e_hash E) (st_hash st') = es'"
      using shift_ok [OF tab r(1), of k v es'] r(2) Cons e by auto
    have "store_holds slots ok E t th w' es'" using store_holdsI [OF x(3,5) r(3) _ x(4)] Cons by auto
    moreover have "stored_alive w' v" using r(3) Cons e stored_alive_grows [OF _ x(4)] by auto
    ultimately show ?thesis using x Cons e by (auto simp: store_denotes_def)
  qed
  show "\<exists>x w'. pmmpthread_store_pop E t th w = Ret (x, w') \<and> store_holds slots ok E t th w' (butlast es) \<and>
      store_denotes E t w' (if es = [] then None else Some (last es)) x \<and> grows w w'"
  proof (cases es rule: rev_cases)
    case Nil
    then show ?thesis using pop_empty [OF tab r(1)] r h by (simp add: store_denotes_def)
  next
    case (snoc es' e)
    obtain k v where e: "e = (k, v)" by (cases e)
    obtain x w' z' st' where x: "pmmpthread_store_pop E t th w = Ret (Some x, w')" "stands_for E t w' v x"
      "store_ready slots ok t th z' st' w'" "grows w w'" "zh_foreach (e_hash E) (st_hash st') = es'"
      using pop_ok [OF tab r(1), of es' k v] r(2) snoc e by auto
    have "store_holds slots ok E t th w' es'" using store_holdsI [OF x(3,5) r(3) _ x(4)] snoc by auto
    moreover have "stored_alive w' v" using r(3) snoc e stored_alive_grows [OF _ x(4)] by auto
    ultimately show ?thesis using x snoc e by (auto simp: store_denotes_def)
  qed
qed (auto simp: store_denotes_def intro: grows_trans stored_alive_grows stands_for_grows split: option.splits)

context store_client
begin

lemmas ends_refine = ends.run_refines

end

end
