(* ===== verification/Store_Cache.thy ===== *)
theory Store_Cache
  imports Store_Correct
begin

text \<open>
  The per-thread caches of the property store: what a synchronisation keeps, when a cache agrees with
  the shared table, and that a write is seen by every thread that reads.
\<close>

section \<open>Agreement of a cached value with a stored one\<close>

fun matches :: "'h store_env \<Rightarrow> tid \<Rightarrow> 'h world \<Rightarrow> zval \<Rightarrow> zval \<Rightarrow> bool" where
  "matches E t w (Z_PTR (STORE_TYPE_THREADSAFE_OBJECT a)) x =
     (\<exists>c zc z. x = Z_THREADSAFE c \<and> zobjs w c = Some zc \<and> zobjs w a = Some z \<and> zo_ts zc = zo_ts z)"
| "matches E t w (Z_PTR (STORE_TYPE_CLOSURE c this owner)) x =
     (\<exists>c'. x = Z_CLOSURE c' \<and> (cl_ptr c' = cl_ptr c \<or> e_copy_closure E t owner c = Some c'))"
| "matches E t w (Z_PTR (STORE_TYPE_SOCKET b ty err bl)) x = (\<exists>s. x = Z_SOCKET s \<and> bsd_socket s = b)"
| "matches E t w v x = stands_for E t w v x"

lemma matches_grows: "matches E t w v x \<Longrightarrow> grows w w' \<Longrightarrow> matches E t w' v x"
proof (induction E t w v x rule: matches.induct)
  case (1 E t w a x)
  then obtain c zc z where x: "x = Z_THREADSAFE c" "zobjs w c = Some zc" "zobjs w a = Some z" "zo_ts zc = zo_ts z" by auto
  obtain zc' z' where "zobjs w' c = Some zc'" "zo_ts zc' = zo_ts zc" "zobjs w' a = Some z'" "zo_ts z' = zo_ts z"
    using x(2,3) 1(2) unfolding grows_def by metis
  then show ?case using x by auto
qed auto

lemma stands_for_matches:
  "stands_for E t w s x \<Longrightarrow> stored_alive w s \<Longrightarrow> is_storage s \<Longrightarrow> pmmpthread_store_retain_in_local_cache x \<Longrightarrow>
   pmmpthread_store_storage_is_cacheable (Some s) \<and> matches E t w s x"
proof (cases s)
  case (Z_PTR st)
  assume "stands_for E t w s x" "stored_alive w s" "pmmpthread_store_retain_in_local_cache x"
  with Z_PTR show ?thesis by (cases st) (auto split: option.splits)
qed auto

section \<open>What a synchronisation keeps\<close>

definition sync_keep :: "tid \<Rightarrow> 'h world \<Rightarrow> zval option \<Rightarrow> zval \<Rightarrow> bool" where
  "sync_keep t w ts_val val =
     (case (ts_val, deindirect val) of
        (Some (Z_PTR (STORE_TYPE_THREADSAFE_OBJECT shared)), Z_THREADSAFE local) \<Rightarrow>
          shared = local \<or> shared \<in> g_objects w \<and> map_option zo_ts (zobjs w shared) = map_option zo_ts (zobjs w local)
      | (Some (Z_PTR (STORE_TYPE_CLOSURE shared _ _)), Z_CLOSURE local) \<Rightarrow> cl_ptr shared = cl_ptr local
      | (Some (Z_PTR (STORE_TYPE_SOCKET b _ _ _)), Z_SOCKET local) \<Rightarrow> b = bsd_socket local
      | (Some (Z_PTR (STORE_TYPE_STRING_PTR str owner)), Z_STRING local) \<Rightarrow>
          ident_ls owner = t \<and> str = local
      | _ \<Rightarrow> False)"

fun cached_alive :: "'h world \<Rightarrow> zval \<Rightarrow> bool" where
  "cached_alive w (Z_THREADSAFE c) = (zobjs w c \<noteq> None)"
| "cached_alive w (Z_INDIRECT v) = (v = Z_UNDEF)"
| "cached_alive w v = True"

lemma cached_alive_grows: "cached_alive w v \<Longrightarrow> grows w w' \<Longrightarrow> cached_alive w' v"
proof (induction w v rule: cached_alive.induct)
  case (1 w c)
  then obtain z where "zobjs w c = Some z" by auto
  then show ?case using 1(2) unfolding grows_def by (metis cached_alive.simps(1) option.distinct(1))
qed auto

lemma sync_item_eq:
  assumes "world_ok w" "mutex_avail (Suc 0) t (mon_mutex (g_monitor w))" "cached_alive w (deindirect v)"
  shows "sync_item t s v w = Ret (sync_keep t w s v, w)"
proof (cases "\<exists>a c. s = Some (Z_PTR (STORE_TYPE_THREADSAFE_OBJECT a)) \<and> deindirect v = Z_THREADSAFE c")
  case True
  then obtain a c where s: "s = Some (Z_PTR (STORE_TYPE_THREADSAFE_OBJECT a))" "deindirect v = Z_THREADSAFE c" by blast
  have o: "\<exists>z. zobjs w a = Some z" if "a \<in> g_objects w" using that assms(1) unfolding world_ok_def by blast
  show ?thesis using assms(3) o s by (auto simp: sync_item_def sync_keep_def object_valid_eq [OF assms(2)])
next
  case False
  then show ?thesis
    by (auto simp: sync_item_def sync_keep_def split: option.split zval.split pmmpthread_storage.split)
qed

lemma keep_matches:
  assumes "sync_keep t w s v" "pmmpthread_store_valid_local_cache_item v" "cached_alive w v"
  shows "\<exists>s'. s = Some s' \<and> pmmpthread_store_storage_is_cacheable s \<and> matches E t w s' v"
  using assms
  by (cases v) (auto simp: sync_keep_def split: option.splits zval.splits pmmpthread_storage.splits)

lemma sync_entries_eq:
  assumes "world_ok w" "mutex_avail (Suc 0) t (mon_mutex (g_monitor w))" "\<forall>(k, v) \<in> set es. cached_alive w (deindirect v)"
  shows "sync_local_entries H t h es w = Ret (filter (\<lambda>(k, v). sync_keep t w (zh_find H k h) v) es, w)"
  using assms(3)
proof (induction es)
  case (Cons e es)
  obtain k v where e: "e = (k, v)" by (cases e)
  then show ?case using Cons sync_item_eq [OF assms(1,2), of v "zh_find H k h"] by auto
qed simp

definition cache :: "pmmpthread_zend_object_t \<Rightarrow> (hkey \<times> zval) list" where
  "cache z = (case zo_properties z of None \<Rightarrow> [] | Some p \<Rightarrow> p)"

definition synced :: "'h store_env \<Rightarrow> tid \<Rightarrow> 'h world \<Rightarrow> 'h pmmpthread_store_t \<Rightarrow> pmmpthread_zend_object_t \<Rightarrow> pmmpthread_zend_object_t" where
  "synced E t w st z =
     (if zo_local_modcount z = st_modcount st then z
      else z\<lparr>zo_properties := map_option (filter (\<lambda>(k, v). sync_keep t w (zh_find (e_hash E) k (st_hash st)) v)) (zo_properties z),
             zo_local_modcount := st_modcount st\<rparr>)"

lemma synced_simps [simp]:
  "zo_ts (synced E t w st z) = zo_ts z" "zo_owner (synced E t w st z) = zo_owner z"
  "zo_declared (synced E t w st z) = zo_declared z" "zo_local_modcount (synced E t w st z) = st_modcount st"
  by (simp_all add: synced_def)

lemma sync_eq:
  assumes "world_ok w" "mutex_avail (Suc 0) t (mon_mutex (g_monitor w))" "zobjs w th = Some z" "props_of w (zo_ts z) = Some st"
    and "\<forall>(k, v) \<in> set (cache z). cached_alive w (deindirect v)"
  shows "pmmpthread_store_sync_local_properties E t th w = Ret (w\<lparr>zobjs := (zobjs w)(th \<mapsto> synced E t w st z)\<rparr>)"
proof -
  obtain ob where ob: "ts_objs w (zo_ts z) = Some ob" "o_props ob = st" using assms(4) by (auto simp: props_of_def)
  show ?thesis
  proof (cases "zo_properties z")
    case None
    then show ?thesis
      using assms(3) ob
      by (auto simp: pmmpthread_store_sync_local_properties_def synced_def upd_zobj_def cell_upd_def fun_upd_idem)
  next
    case (Some p)
    then show ?thesis
      using assms(3,5) ob sync_entries_eq [OF assms(1,2), of p "e_hash E" "st_hash st"]
      by (auto simp: pmmpthread_store_sync_local_properties_def synced_def upd_zobj_def cell_upd_def cache_def fun_upd_idem)
  qed
qed

section \<open>Coherence\<close>

text \<open>
  A connection is never ahead of the store; what it caches is alive; and when it is in step, what it
  caches under a key matches a cacheable value the store holds under that key; keys in \<open>K\<close> are exempt.
\<close>

definition cached_ok :: "'h store_env \<Rightarrow> tid \<Rightarrow> 'h world \<Rightarrow> 'h pmmpthread_store_t \<Rightarrow> hkey \<Rightarrow> zval \<Rightarrow> bool" where
  "cached_ok E t w st k v \<longleftrightarrow> pmmpthread_store_valid_local_cache_item v \<longrightarrow>
     (\<exists>s. zh_find (e_hash E) k (st_hash st) = Some s \<and> pmmpthread_store_storage_is_cacheable (Some s) \<and> matches E t w s v)"

definition conn_ok :: "'h store_env \<Rightarrow> hkey set \<Rightarrow> 'h world \<Rightarrow> pmmpthread_zend_object_t \<Rightarrow> 'h pmmpthread_store_t \<Rightarrow> bool" where
  "conn_ok E K w z st \<longleftrightarrow> zo_local_modcount z \<le> st_modcount st \<and> (\<forall>(k, v) \<in> set (cache z). cached_alive w v) \<and>
     (zo_local_modcount z = st_modcount st \<longrightarrow>
        (\<forall>k v. k \<notin> K \<longrightarrow> map_of (cache z) k = Some v \<longrightarrow> cached_ok E (ident_ls (zo_owner z)) w st k v))"

definition coherent_but :: "'h store_env \<Rightarrow> (addr \<Rightarrow> hkey set) \<Rightarrow> 'h world \<Rightarrow> bool" where
  "coherent_but E K w \<longleftrightarrow> (\<forall>th z st. zobjs w th = Some z \<longrightarrow> props_of w (zo_ts z) = Some st \<longrightarrow> conn_ok E (K th) w z st)"

text \<open>Every cache agrees with its store, on every key.\<close>

abbreviation coherent :: "'h store_env \<Rightarrow> 'h world \<Rightarrow> bool" where
  "coherent E \<equiv> coherent_but E (\<lambda>_. {})"

lemma conn_okD:
  assumes "conn_ok E K w z st" "zo_local_modcount z = st_modcount st" "map_of (cache z) k = Some v" "k \<notin> K"
    and "pmmpthread_store_valid_local_cache_item v"
  shows "\<exists>s. zh_find (e_hash E) k (st_hash st) = Some s \<and> pmmpthread_store_storage_is_cacheable (Some s) \<and>
    matches E (ident_ls (zo_owner z)) w s v"
proof -
  have "cached_ok E (ident_ls (zo_owner z)) w st k v" using assms(1-4) unfolding conn_ok_def by blast
  then show ?thesis using assms(5) by (simp add: cached_ok_def)
qed

lemma alive_deindirect: "cached_alive w v \<Longrightarrow> cached_alive w (deindirect v)"
  by (cases v) auto

lemma conn_ok_alive: "conn_ok E K w z st \<Longrightarrow> \<forall>(k, v) \<in> set (cache z). cached_alive w (deindirect v)"
  unfolding conn_ok_def using alive_deindirect by blast

lemma cached_ok_grows: "cached_ok E t w st k v \<Longrightarrow> grows w w' \<Longrightarrow> cached_ok E t w' st k v"
  unfolding cached_ok_def using matches_grows by blast

lemma conn_ok_grows:
  assumes "conn_ok E K w z st" "grows w w'"
  shows "conn_ok E K w' z st"
  using assms cached_ok_grows [OF _ assms(2)] cached_alive_grows [OF _ assms(2)] unfolding conn_ok_def by blast

text \<open>Synchronising a connection of the calling thread brings it in step.\<close>

lemma coherent_but_mono: "coherent_but E K w \<Longrightarrow> (\<And>a. K a \<subseteq> L a) \<Longrightarrow> coherent_but E L w"
  unfolding coherent_but_def conn_ok_def by blast

lemma synced_ok:
  assumes "conn_ok E K w z st" "ident_ls (zo_owner z) = t"
  shows "conn_ok E K w (synced E t w st z) st"
proof (cases "zo_local_modcount z = st_modcount st")
  case True
  then show ?thesis using assms(1) by (simp add: synced_def)
next
  case False
  let ?keep = "\<lambda>(k, v). sync_keep t w (zh_find (e_hash E) k (st_hash st)) v"
  have c: "cache (synced E t w st z) = filter ?keep (cache z)"
    using False by (auto simp: cache_def synced_def split: option.splits)
  have alive: "\<forall>(k, v) \<in> set (cache z). cached_alive w v" using assms(1) by (simp add: conn_ok_def)
  have "cached_ok E t w st k v" if "map_of (filter ?keep (cache z)) k = Some v" for k v
  proof -
    have k: "(k, v) \<in> set (cache z)" "sync_keep t w (zh_find (e_hash E) k (st_hash st)) v"
      using map_of_SomeD [OF that] by auto
    have "cached_alive w v" using k(1) alive by blast
    then show ?thesis using keep_matches [OF k(2), of E] by (auto simp: cached_ok_def)
  qed
  then show ?thesis using alive assms(2) unfolding conn_ok_def c by auto
qed

lemma coherent_restored:
  assumes "coherent_but E K w" "same_stores w w'" "grows w w'"
  shows "coherent_but E K w'"
  unfolding coherent_but_def
proof (intro allI impI)
  fix a z st
  assume z: "zobjs w' a = Some z" "props_of w' (zo_ts z) = Some st"
  show "conn_ok E (K a) w' z st"
  proof (cases "zobjs w a = Some z")
    case True
    then have "conn_ok E (K a) w z st" using assms(1,2) z(2) by (auto simp: coherent_but_def same_stores_def)
    then show ?thesis using assms(3) by (rule conn_ok_grows)
  next
    case False
    then have "zo_properties z = None" "zo_local_modcount z < st_modcount st"
      using assms(2) z unfolding same_stores_def by blast+
    then show ?thesis by (simp add: conn_ok_def cache_def)
  qed
qed

text \<open>Entering a value in the cache of one connection, once it matches what is stored.\<close>

definition put_cache :: "hkey \<Rightarrow> zval \<Rightarrow> pmmpthread_zend_object_t \<Rightarrow> pmmpthread_zend_object_t" where
  "put_cache k x z =
     (if pmmpthread_store_retain_in_local_cache x then
        z\<lparr>zo_properties := Some (AList.update k x (case zo_properties z of
             Some p \<Rightarrow> p | None \<Rightarrow> map (\<lambda>k. (k, Z_INDIRECT Z_UNDEF)) (zo_declared z)))\<rparr>
      else z)"

lemma put_cache_simps [simp]:
  "zo_ts (put_cache k x z) = zo_ts z" "zo_owner (put_cache k x z) = zo_owner z"
  "zo_local_modcount (put_cache k x z) = zo_local_modcount z"
  by (simp_all add: put_cache_def)

lemma update_local_eq:
  "zobjs w th = Some z \<Longrightarrow>
   pmmpthread_store_update_local_property th k x w = Ret (w\<lparr>zobjs := (zobjs w)(th \<mapsto> put_cache k x z)\<rparr>)"
  by (auto simp: pmmpthread_store_update_local_property_def pmmpthread_store_init_local_properties_def put_cache_def
      upd_zobj_def cell_upd_def fun_upd_idem split: option.splits)

lemma set_alist_update: "set (AList.update k v al) \<subseteq> insert (k, v) (set al)"
  by (induction al) auto

lemma indirect_lookup: "map_of (map (\<lambda>k. (k, Z_INDIRECT Z_UNDEF)) ks) k = Some v \<Longrightarrow> \<not> pmmpthread_store_valid_local_cache_item v"
  by (induction ks) (auto split: if_splits)

lemma put_cache_ok:
  assumes "conn_ok E K w z st" "K \<subseteq> {k}"
    and "pmmpthread_store_retain_in_local_cache x \<longrightarrow> cached_ok E (ident_ls (zo_owner z)) w st k x \<and> cached_alive w x"
  shows "conn_ok E (if pmmpthread_store_retain_in_local_cache x then {} else K) w (put_cache k x z) st"
proof (cases "pmmpthread_store_retain_in_local_cache x")
  case False
  then show ?thesis using assms(1) by (simp add: put_cache_def)
next
  case True
  define p where "p = (case zo_properties z of Some p \<Rightarrow> p | None \<Rightarrow> map (\<lambda>k. (k, Z_INDIRECT Z_UNDEF)) (zo_declared z))"
  have c: "cache (put_cache k x z) = AList.update k x p" using True by (simp add: put_cache_def cache_def p_def)
  have alive: "\<forall>(k, v) \<in> set p. cached_alive w v"
    using assms(1) by (auto simp: conn_ok_def cache_def p_def split: option.splits)
  have other: "cached_ok E (ident_ls (zo_owner z)) w st k' v"
    if "k' \<noteq> k" "map_of p k' = Some v" "zo_local_modcount z = st_modcount st" for k' v
  proof (cases "zo_properties z")
    case None
    then have "\<not> pmmpthread_store_valid_local_cache_item v" using that(2) indirect_lookup by (simp add: p_def)
    then show ?thesis by (simp add: cached_ok_def)
  next
    case (Some q)
    then show ?thesis using that assms(1,2) unfolding conn_ok_def by (auto simp: p_def cache_def)
  qed
  have "\<forall>(k', v) \<in> set (AList.update k x p). cached_alive w v"
    using alive assms(3) True set_alist_update [of k x p] by blast
  then show ?thesis
    using assms(1,3) True other unfolding conn_ok_def c by (auto simp: AList.update_conv')
qed

text \<open>Changing one connection and one store, with everything else as it was.\<close>

lemma coherent_upd:
  assumes "coherent_but E K w" "grows w w'" "zobjs w' = (zobjs w)(th \<mapsto> z')" "props_of w' = (props_of w)(ts \<mapsto> st')"
    and "zo_ts z' = ts" "conn_ok E (K th) w' z' st'"
    and "\<And>a z. a \<noteq> th \<Longrightarrow> zobjs w a = Some z \<Longrightarrow> zo_ts z = ts \<Longrightarrow> conn_ok E (K a) w z st'"
  shows "coherent_but E K w'"
  unfolding coherent_but_def
proof (intro allI impI)
  fix a z st
  assume z: "zobjs w' a = Some z" "props_of w' (zo_ts z) = Some st"
  consider "a = th" | "a \<noteq> th" "zo_ts z = ts" | "a \<noteq> th" "zo_ts z \<noteq> ts" by blast
  then show "conn_ok E (K a) w' z st"
  proof cases
    case 1
    then show ?thesis using z assms(3,4,5,6) by auto
  next
    case 2
    then have "conn_ok E (K a) w z st" using z assms(3,4) assms(7) [of a z] by auto
    then show ?thesis using assms(2) by (rule conn_ok_grows)
  next
    case 3
    then have "conn_ok E (K a) w z st" using z assms(1,3,4) by (auto simp: coherent_but_def)
    then show ?thesis using assms(2) by (rule conn_ok_grows)
  qed
qed

lemma grows_upd_zobj:
  "zobjs w th = Some z \<Longrightarrow> zo_ts z' = zo_ts z \<Longrightarrow> zo_owner z' = zo_owner z \<Longrightarrow> grows w (w\<lparr>zobjs := (zobjs w)(th \<mapsto> z')\<rparr>)"
  by (auto simp: grows_def)

lemma world_ok_upd_zobj:
  assumes "world_ok w" "zobjs w th = Some z" "zo_ts z' = zo_ts z" "zo_owner z' = zo_owner z"
  shows "world_ok (w\<lparr>zobjs := (zobjs w)(th \<mapsto> z')\<rparr>)"
  using assms(1) by (rule world_ok_frame) (use assms in auto)

lemma props_of_zobjs [simp]: "props_of (w\<lparr>zobjs := f\<rparr>) = props_of w"
  by (simp add: props_of_def fun_eq_iff)

lemma coherent_upd_zobj:
  assumes "coherent_but E K w" "zobjs w th = Some z" "zo_ts z' = zo_ts z" "zo_owner z' = zo_owner z"
    and "props_of w (zo_ts z) = Some st" "conn_ok E (K th) w z' st"
  shows "coherent_but E K (w\<lparr>zobjs := (zobjs w)(th \<mapsto> z')\<rparr>)"
proof (rule coherent_upd [OF assms(1), of _ th z' "zo_ts z" st])
  show "grows w (w\<lparr>zobjs := (zobjs w)(th \<mapsto> z')\<rparr>)" using assms(2,3,4) by (rule grows_upd_zobj)
  then show "conn_ok E (K th) (w\<lparr>zobjs := (zobjs w)(th \<mapsto> z')\<rparr>) z' st" by (rule conn_ok_grows [OF assms(6)])
  show "conn_ok E (K a) w z2 st" if "zobjs w a = Some z2" "zo_ts z2 = zo_ts z" for a z2
    using assms(1,5) that by (auto simp: coherent_but_def)
qed (use assms in \<open>auto simp: fun_upd_idem\<close>)

lemma sync_coherent:
  assumes "world_ok w" "mutex_avail (Suc 0) t (mon_mutex (g_monitor w))" "zobjs w th = Some z" "props_of w (zo_ts z) = Some st"
    and "coherent_but E K w" "ident_ls (zo_owner z) = t"
  shows "\<exists>w'. pmmpthread_store_sync_local_properties E t th w = Ret w' \<and> w' = w\<lparr>zobjs := (zobjs w)(th \<mapsto> synced E t w st z)\<rparr> \<and>
    world_ok w' \<and> coherent_but E K w' \<and> grows w w'"
proof -
  have c: "conn_ok E (K th) w z st" using assms(3-5) by (auto simp: coherent_but_def)
  note s = synced_ok [OF c assms(6)]
  show ?thesis
    using sync_eq [OF assms(1-4) conn_ok_alive [OF c]] world_ok_upd_zobj [OF assms(1,3), of "synced E t w st z"]
      coherent_upd_zobj [OF assms(5,3) _ _ assms(4) s] grows_upd_zobj [OF assms(3), of "synced E t w st z"]
    by simp
qed

section \<open>Reading\<close>

text \<open>What a reading thread gets for a stored value.\<close>

definition reads_as :: "'h store_env \<Rightarrow> tid \<Rightarrow> 'h world \<Rightarrow> zval \<Rightarrow> zval \<Rightarrow> bool" where
  "reads_as E t w s x \<longleftrightarrow> stands_for E t w s x \<or> matches E t w s x"

lemma matches_alive: "matches E t w s x \<Longrightarrow> is_storage s \<Longrightarrow> cached_alive w x"
proof (cases s)
  case (Z_PTR st)
  assume "matches E t w s x"
  with Z_PTR show ?thesis by (cases st) (auto split: option.splits)
qed auto

lemma restored_cacheable:
  assumes "stands_for E t w s x" "stored_alive w s" "is_storage s" "zh_find (e_hash E) k (st_hash st) = Some s"
    and "pmmpthread_store_retain_in_local_cache x"
  shows "cached_ok E t w st k x \<and> cached_alive w x"
  using stands_for_matches [OF assms(1-3,5)] matches_alive [OF _ assms(3)] assms(4) by (auto simp: cached_ok_def)

text \<open>Restoring a stored value and keeping it in the cache.\<close>

lemma restore_and_cache:
  assumes "world_ok w" "mutex_avail (Suc 0) t (mon_mutex (g_monitor w))" "zobjs w th = Some z" "props_of w (zo_ts z) = Some st"
    and "coherent_but E K w" "ident_ls (zo_owner z) = t" "zh_find (e_hash E) k (st_hash st) = Some s" "is_storage s" "stored_alive w s" "K th = {}"
  shows "\<exists>x w1 w2. pmmpthread_store_restore_zval E t s w = Ret (x, w1) \<and> monitors w1 = monitors w \<and>
    pmmpthread_store_update_local_property th k x w1 = Ret w2 \<and> stands_for E t w2 s x \<and>
    coherent_but E K w2 \<and> world_ok w2 \<and> grows w w2 \<and> props_of w2 = props_of w \<and> monitors w2 = monitors w \<and> g_monitor w2 = g_monitor w"
proof -
  obtain x w1 where r: "pmmpthread_store_restore_zval_ex E t s w = Ret ((x, pmmpthread_store_storage_is_cacheable (Some s)), w1)"
    "stands_for E t w1 s x" "same_stores w w1" "world_ok w1" "grows w w1"
    using restore_ok [OF assms(1,2,8)] by blast
  have z1: "zobjs w1 th = Some z" "props_of w1 = props_of w" "monitors w1 = monitors w" "g_monitor w1 = g_monitor w"
    using r(3) assms(3) by (auto simp: same_stores_def)
  have alive: "stored_alive w1 s" using assms(9) r(5) by (rule stored_alive_grows)
  have coh: "coherent_but E K w1" using assms(5) r(3,5) by (rule coherent_restored)
  have conn: "conn_ok E (K th) w1 z st" using coh z1 assms(4) by (auto simp: coherent_but_def)
  let ?w2 = "w1\<lparr>zobjs := (zobjs w1)(th \<mapsto> put_cache k x z)\<rparr>"
  have "conn_ok E (K th) w1 (put_cache k x z) st"
    using restored_cacheable [OF r(2) alive assms(8,7)] assms(6,10) put_cache_ok [OF conn, of k x] by (auto split: if_splits)
  then have "coherent_but E K ?w2" using coherent_upd_zobj [OF coh z1(1)] assms(4) z1(2) by auto
  moreover have g: "grows w1 ?w2" using z1(1) by (rule grows_upd_zobj) auto
  moreover have "stands_for E t ?w2 s x" using r(2) alive g by (rule stands_for_grows)
  moreover have "world_ok ?w2" using r(4) z1(1) by (rule world_ok_upd_zobj) auto
  ultimately show ?thesis
    using r(1) z1 update_local_eq [OF z1(1), of k x] grows_trans [OF r(5) g]
    by (intro exI [of _ x] exI [of _ w1] exI [of _ ?w2]) (simp add: pmmpthread_store_restore_zval_def)
qed

text \<open>A read of a key the store holds, by the thread of the connection.\<close>

lemma read_ok:
  assumes "zend_hash (e_hash E) slots ok" "store_ready slots ok t th z st w" "coherent_but E K w" "ident_ls (zo_owner z) = t"
    and "fst (pmmpthread_store_coerce E key) = k" "zh_find (e_hash E) k (st_hash st) = Some s" "stored_alive w s" "K th = {}"
  shows "\<exists>x w'. pmmpthread_store_read E t th key BP_VAR_R w = Ret ((True, x), w') \<and> reads_as E t w' s x \<and>
    coherent_but E K w' \<and> world_ok w' \<and> grows w w' \<and> props_of w' = props_of w \<and> monitors w' = monitors w \<and> g_monitor w' = g_monitor w"
proof -
  have r: "world_ok w" "zobjs w th = Some z" "props_of w (zo_ts z) = Some st" "store_inv slots ok st"
    "mutex_avail (Suc 0) t (mon_mutex (g_monitor w))" "mutex_avail (Suc (Suc 0)) t (mon_mutex (monitors w (zo_ts z)))"
    using assms(2) by (auto simp: store_ready_def)
  have sv: "is_storage s"
    using r(4) assms(6) zend_hash.find_law [OF assms(1)] by (auto simp: store_inv_def dest: map_of_SomeD)
  define w1 where "w1 = (if zo_properties z \<noteq> None then w\<lparr>zobjs := (zobjs w)(th \<mapsto> synced E t w st z)\<rparr> else w)"
  define z1 where "z1 = (if zo_properties z \<noteq> None then synced E t w st z else z)"
  have w1: "(if zo_properties z \<noteq> None then pmmpthread_store_sync_local_properties E t th w else Ret w) = Ret w1"
    "world_ok w1" "coherent_but E K w1" "grows w w1"
    using sync_coherent [OF r(1,5,2,3) assms(3,4)] r(1) assms(3) by (auto simp: w1_def)
  have z1: "zobjs w1 th = Some z1" "zo_ts z1 = zo_ts z" "zo_owner z1 = zo_owner z" "props_of w1 = props_of w"
    "monitors w1 = monitors w" "g_monitor w1 = g_monitor w"
    using r(2) by (auto simp: w1_def z1_def)
  have "props_of w1 (zo_ts z1) = Some st" using r(3) z1(2,4) by simp
  then obtain ob where ob: "ts_objs w1 (zo_ts z1) = Some ob" "o_props ob = st" by (auto simp: props_of_def)
  have conn: "conn_ok E (K th) w1 z1 st" using w1(3) z1 r(3) by (auto simp: coherent_but_def)
  have lock: "ts_locked t (zo_ts z) (read_locked E t th k BP_VAR_R) ReadFailure w = Ret (res, w2)"
    if "read_locked E t th k BP_VAR_R w = Ret (res, w2)" "monitors w2 = monitors w" for res w2
    using ts_locked_eq [OF avail_mono [OF r(6)], of "read_locked E t th k BP_VAR_R" res w2] that by simp
  show ?thesis
  proof (cases "\<exists>v. Option.bind (zo_properties z1) (\<lambda>p. map_of p k) = Some v \<and> pmmpthread_store_valid_local_cache_item v")
    case True
    then obtain v where v: "Option.bind (zo_properties z1) (\<lambda>p. map_of p k) = Some v" "pmmpthread_store_valid_local_cache_item v"
      by blast
    then have "map_of (cache z1) k = Some v" "zo_local_modcount z1 = st_modcount st"
      by (auto simp: cache_def z1_def split: if_splits option.splits bind_splits)
    then have "matches E t w1 s v" using conn_okD [OF conn, of k v] v(2) assms(4,6,8) z1(3) by auto
    moreover have "read_locked E t th k BP_VAR_R w = Ret (CacheHit v, w1)"
      using r(2) w1(1) z1(1) ob v by (simp add: read_locked_def)
    ultimately show ?thesis using lock [of "CacheHit v" w1] r(2) w1 z1 assms(5)
      by (auto simp: pmmpthread_store_read_def Let_def reads_as_def)
  next
    case False
    from restore_and_cache [where t = t, OF w1(2) _ z1(1) _ w1(3) _ assms(6) sv stored_alive_grows [OF assms(7) w1(4)] assms(8)] r(3,5) z1 assms(4)
    obtain x w2 w3 where x: "pmmpthread_store_restore_zval E t s w1 = Ret (x, w2)" "monitors w2 = monitors w1"
      "pmmpthread_store_update_local_property th k x w2 = Ret w3" "stands_for E t w3 s x" "coherent_but E K w3" "world_ok w3"
      "grows w1 w3" "props_of w3 = props_of w1" "monitors w3 = monitors w1" "g_monitor w3 = g_monitor w1"
      by auto
    have "read_locked E t th k BP_VAR_R w = read_shared E t ob k BP_VAR_R w1"
      using r(2) w1(1) z1(1) ob False by (auto simp: read_locked_def split: option.splits)
    also have "... = Ret (Restored x, w2)" using ob assms(6) x(1) by (simp add: read_shared_def)
    finally show ?thesis using lock [of "Restored x" w2] r(2) x z1 assms(5) grows_trans [OF w1(4) x(7)]
      by (auto simp: pmmpthread_store_read_def Let_def reads_as_def)
  qed
qed

section \<open>Writing\<close>

text \<open>What saving a value changes: neither stores nor connections.\<close>

definition same_tables :: "'h world \<Rightarrow> 'h world \<Rightarrow> bool" where
  "same_tables w w' \<longleftrightarrow> ts_objs w' = ts_objs w \<and> zobjs w' = zobjs w \<and> monitors w' = monitors w \<and> g_monitor w' = g_monitor w \<and>
     g_objects w' = g_objects w \<and> z_resolve w' = z_resolve w \<and> (world_ok w \<longrightarrow> world_ok w')"

lemma same_tables_refl [simp]: "same_tables w w"
  by (simp add: same_tables_def)

lemma same_tables_trans: "same_tables w1 w2 \<Longrightarrow> same_tables w2 w3 \<Longrightarrow> same_tables w1 w3"
  by (auto simp: same_tables_def)

lemma string_init_tables: "zend_string_init s b w = (str, w') \<Longrightarrow> same_tables w w'"
  using string_init_ok [of s b w str w'] by (auto simp: same_tables_def zend_string_init_def new_addr_def)

lemma save_string_tables:
  "pmmpthread_store_save_string s w = (str, w') \<Longrightarrow> same_tables w w' \<and> zs_val str = zs_val s"
  using string_init_tables [of "zs_val s" True w str w'] string_init_frame [of "zs_val s" True w str w']
  by (auto simp: pmmpthread_store_save_string_def split: if_splits)

lemma throw_tables: "same_tables w (throw t e w)"
  by (auto simp: same_tables_def throw_def intro: world_ok_frame)

lemma track_tables:
  "mutex_avail (Suc 0) t (mon_mutex (g_monitor w)) \<Longrightarrow>
   \<exists>w'. pmmpthread_globals_shared_socket_track t n w = Ret ((), w') \<and> same_tables w w'"
  by (auto simp: pmmpthread_globals_shared_socket_track_def same_tables_def globals_locked_eq [OF _ refl] intro: world_ok_frame)

text \<open>The forms in which values are stored.\<close>

fun stored_as :: "pmmpthread_ident_t \<Rightarrow> zval \<Rightarrow> zval \<Rightarrow> bool" where
  "stored_as owner (Z_STRING s) x = (x = (if zs_permanent s then Z_STRING s else Z_PTR (STORE_TYPE_STRING_PTR s owner)))"
| "stored_as owner (Z_ENUM c m) x =
     (\<exists>c' m'. x = Z_PTR (STORE_TYPE_ENUM c' m') \<and> zs_val c' = zs_val c \<and> zs_val m' = zs_val m)"
| "stored_as owner (Z_CLOSURE c) x = (x = Z_PTR (STORE_TYPE_CLOSURE c (closure_this_obj c) owner))"
| "stored_as owner (Z_THREADSAFE a) x = (x = Z_PTR (STORE_TYPE_THREADSAFE_OBJECT a))"
| "stored_as owner (Z_SOCKET s) x =
     (x = Z_PTR (STORE_TYPE_SOCKET (bsd_socket s) (sock_type s) (sock_error s) (sock_blocking s)))"
| "stored_as owner v x = (v \<in> {Z_NULL, Z_FALSE, Z_TRUE} \<and> x = v \<or> (\<exists>n. v = Z_LONG n \<and> x = v) \<or> (\<exists>d. v = Z_DOUBLE d \<and> x = v))"

text \<open>The values that can be shared, as the code decides it.\<close>

definition shareable :: "zval \<Rightarrow> bool" where
  "shareable v = (case v of
       Z_UNDEF \<Rightarrow> False | Z_ARRAY _ \<Rightarrow> False | Z_OBJECT _ _ \<Rightarrow> False | Z_PTR _ \<Rightarrow> False | Z_INDIRECT _ \<Rightarrow> False
     | Z_SOCKET s \<Rightarrow> \<not> sock_stream s
     | Z_CLOSURE c \<Rightarrow> cl_this c \<noteq> ThisOther \<and>
         \<not> (cl_user_function c \<and> \<not> cl_fake c \<and> cl_statics c \<and> (\<exists>(b, r) \<in> set (cl_opcodes c). b \<and> r))
     | _ \<Rightarrow> True)"

lemma save_ok:
  assumes "mutex_avail (Suc 0) t (mon_mutex (g_monitor w))"
  shows "\<exists>r w'. pmmpthread_store_save_zval t owner v w = Ret (r, w') \<and> same_tables w w' \<and>
    (if shareable v then \<exists>s. r = Some s \<and> stored_as owner v s else r = None)"
proof (cases v)
  case (Z_ENUM c m)
  obtain c1 w1 where c1: "pmmpthread_store_save_string c w = (c1, w1)" by fastforce
  obtain m1 w2 where m1: "pmmpthread_store_save_string m w1 = (m1, w2)" by fastforce
  show ?thesis
    using Z_ENUM c1 m1 save_string_tables [OF c1] save_string_tables [OF m1] same_tables_trans [of w w1 w2]
    by (simp add: pmmpthread_store_save_zval_def pmmpthread_store_create_def shareable_def)
next
  case (Z_CLOSURE c)
  then show ?thesis
    using throw_tables [of w t] by (auto simp: pmmpthread_store_save_zval_def pmmpthread_store_create_def
        pmmpthread_closure_thread_safe_def shareable_def)
next
  case (Z_SOCKET s)
  then show ?thesis
    using track_tables [OF assms, of "bsd_socket s"]
    by (cases "0 \<le> bsd_socket s") (auto simp: pmmpthread_store_save_zval_def pmmpthread_store_create_def shareable_def)
qed (auto simp: pmmpthread_store_save_zval_def pmmpthread_store_create_def shareable_def)

lemma save_string_quiet: "pmmpthread_store_save_string s w = (s', w') \<Longrightarrow> exceptions w' = exceptions w"
  by (auto simp: pmmpthread_store_save_string_def zend_string_init_def new_addr_def split: if_splits)

lemma save_quiet:
  assumes "shareable v" "mutex_avail (Suc 0) t (mon_mutex (g_monitor w))" "pmmpthread_store_save_zval t owner v w = Ret (r, w')"
  shows "exceptions w' = exceptions w"
proof (cases v)
  case (Z_ENUM c m)
  then show ?thesis
    using assms(3) by (auto simp: pmmpthread_store_save_zval_def pmmpthread_store_create_def dest!: save_string_quiet split: prod.splits)
next
  case (Z_SOCKET s)
  have "pmmpthread_globals_shared_socket_track t (bsd_socket s) w = Ret ((), w1) \<Longrightarrow> exceptions w1 = exceptions w" for w1
    using globals_locked_eq [OF assms(2), of "\<lambda>w. Ret ((), w\<lparr>g_shared_sockets := insert (bsd_socket s) (g_shared_sockets w)\<rparr>)" "()"
        "w\<lparr>g_shared_sockets := insert (bsd_socket s) (g_shared_sockets w)\<rparr>" "()"]
    by (auto simp: pmmpthread_globals_shared_socket_track_def split: if_splits)
  then show ?thesis
    using Z_SOCKET assms(1,3) by (auto simp: pmmpthread_store_save_zval_def pmmpthread_store_create_def shareable_def outcome_simps split: if_splits)
qed (use assms(1,3) in \<open>auto simp: pmmpthread_store_save_zval_def pmmpthread_store_create_def pmmpthread_closure_thread_safe_def shareable_def
       split: if_splits\<close>)

lemma stored_as_storage: "stored_as owner v s \<Longrightarrow> shareable v \<Longrightarrow> is_storage s"
  by (cases v) (auto simp: shareable_def split: if_splits)

lemma stored_as_matches:
  assumes "stored_as owner v s" "pmmpthread_store_retain_in_local_cache v" "cached_alive w v"
  shows "pmmpthread_store_storage_is_cacheable (Some s) \<and> matches E t w s v"
  using assms by (cases v) (auto split: if_splits)

text \<open>The store and the connections after an update of the shared table.\<close>

definition was_cacheable :: "'h store_env \<Rightarrow> hkey \<Rightarrow> 'h pmmpthread_store_t \<Rightarrow> bool" where
  "was_cacheable E k st = pmmpthread_store_storage_is_cacheable (zh_find (e_hash E) k (st_hash st))"

definition bumped :: "'h pmmpthread_store_t \<Rightarrow> pmmpthread_zend_object_t \<Rightarrow> pmmpthread_zend_object_t" where
  "bumped st z = (if zo_local_modcount z = st_modcount st then z\<lparr>zo_local_modcount := zo_local_modcount z + 1\<rparr> else z)"

lemma bumped_simps [simp]: "zo_ts (bumped st z) = zo_ts z" "zo_owner (bumped st z) = zo_owner z" "cache (bumped st z) = cache z"
  by (simp_all add: bumped_def cache_def)

lemma conn_ok_store:
  assumes "conn_ok E {} w z st"
    and "\<And>k'. k' \<noteq> k \<Longrightarrow> zh_find (e_hash E) k' (st_hash st') = zh_find (e_hash E) k' (st_hash st)"
    and "st_modcount st' = (if was_cacheable E k st then st_modcount st + 1 else st_modcount st)"
  shows "conn_ok E {} w z st'" "conn_ok E (if was_cacheable E k st then {k} else {}) w (if was_cacheable E k st then bumped st z else z) st'"
proof -
  let ?t = "ident_ls (zo_owner z)"
  have other: "cached_ok E ?t w st' k' v" if "zo_local_modcount z = st_modcount st" "map_of (cache z) k' = Some v" "k' \<noteq> k" for k' v
    using assms(1,2) that unfolding conn_ok_def cached_ok_def by simp
  have same: "cached_ok E ?t w st' k v"
    if "zo_local_modcount z = st_modcount st" "map_of (cache z) k = Some v" "\<not> was_cacheable E k st" for v
    using conn_okD [OF assms(1) that(1,2)] that(3) by (auto simp: cached_ok_def was_cacheable_def)
  show "conn_ok E {} w z st'"
  proof (cases "was_cacheable E k st")
    case True
    then show ?thesis using assms(1,3) by (simp add: conn_ok_def)
  next
    case False
    then have "cached_ok E ?t w st' k' v" if "zo_local_modcount z = st_modcount st" "map_of (cache z) k' = Some v" for k' v
      using that other same by (cases "k' = k") auto
    then show ?thesis using False assms(1,3) by (simp add: conn_ok_def)
  qed
  then show "conn_ok E (if was_cacheable E k st then {k} else {}) w (if was_cacheable E k st then bumped st z else z) st'"
  proof (cases "was_cacheable E k st")
    case True
    then show ?thesis
      using assms(1,3) other unfolding conn_ok_def by (auto simp: bumped_def cache_def split: if_splits)
  qed simp
qed

lemma write_bounds_simps [simp]:
  "st_hash (write_bounds H b st) = st_hash st" "st_modcount (write_bounds H b st) = st_modcount st"
  by (auto simp: write_bounds_def Let_def split: option.splits)

definition written :: "'h store_env \<Rightarrow> bool \<Rightarrow> hkey \<Rightarrow> zval \<Rightarrow> 'h pmmpthread_store_t \<Rightarrow> 'h pmmpthread_store_t" where
  "written E appended k s st = write_bounds (e_hash E) appended
     (st\<lparr>st_hash := zh_update (e_hash E) k s (st_hash st),
         st_modcount := (if was_cacheable E k st then st_modcount st + 1 else st_modcount st)\<rparr>)"

lemma written_simps [simp]:
  "st_hash (written E b k s st) = zh_update (e_hash E) k s (st_hash st)"
  "st_modcount (written E b k s st) = (if was_cacheable E k st then st_modcount st + 1 else st_modcount st)"
  by (simp_all add: written_def)

text \<open>The world once the shared table is updated, and once the writer's connection is.\<close>

definition after_shared ::
  "'h store_env \<Rightarrow> addr \<Rightarrow> pmmpthread_zend_object_t \<Rightarrow> bool \<Rightarrow> hkey \<Rightarrow> zval \<Rightarrow> 'h pmmpthread_store_t \<Rightarrow> 'h world \<Rightarrow> 'h world"
where
  "after_shared E th z appended k s st w =
     w\<lparr>zobjs := (zobjs w)(th \<mapsto> (if was_cacheable E k st then bumped st z else z)),
       ts_objs := (ts_objs w)(zo_ts z := map_option (\<lambda>ob. ob\<lparr>o_props := written E appended k s st\<rparr>) (ts_objs w (zo_ts z)))\<rparr>"

definition writer_conn ::
  "'h store_env \<Rightarrow> tid \<Rightarrow> pmmpthread_zend_object_t \<Rightarrow> bool \<Rightarrow> hkey \<Rightarrow> zval \<Rightarrow> 'h pmmpthread_store_t \<Rightarrow> 'h world \<Rightarrow> pmmpthread_zend_object_t"
where
  "writer_conn E t z appended k s st w =
     synced E t w (written E appended k s st) (if was_cacheable E k st then bumped st z else z)"

lemma writer_conn_simps [simp]:
  "zo_ts (writer_conn E t z b k s st w) = zo_ts z" "zo_owner (writer_conn E t z b k s st w) = zo_owner z"
  by (simp_all add: writer_conn_def)

lemma write_locked_eq:
  assumes "zobjs w th = Some z" "ts_objs w (zo_ts z) = Some ob" "o_props ob = st"
    and "k = (case key of None \<Rightarrow> append_key (e_hash E) (st_hash st) | Some q \<Rightarrow> fst (pmmpthread_store_coerce E q))"
  shows "write_locked E t th key s w =
    obind (pmmpthread_store_sync_local_properties E t th (after_shared E th z (key = None) k s st w)) (\<lambda>w'. Ret (Some k, w'))"
proof -
  have m: "(case key of None \<Rightarrow> append_key (e_hash E) (st_hash (o_props ob)) | Some q \<Rightarrow> fst (pmmpthread_store_coerce E q)) = k"
    unfolding assms(3,4) by (rule refl)
  have wc: "pmmpthread_store_member_is_cacheable E ob k = was_cacheable E k st"
    using assms(3) by (simp add: pmmpthread_store_member_is_cacheable_def was_cacheable_def)
  show ?thesis
    using assms(1-3)
    by (cases "was_cacheable E k st")
      (simp_all add: write_locked_def Let_def m wc pmmpthread_store_update_shared_property_def upd_props_def upd_ts_def cell_upd_def
        pmmpthread_store_bump_modcount_nolock_def upd_zobj_def written_def bumped_def fun_upd_idem after_shared_def)
qed

lemma after_shared_frame:
  assumes "zobjs w th = Some z" "props_of w (zo_ts z) = Some st" "w3 = after_shared E th z b k s st w"
  shows "zobjs w3 = (zobjs w)(th \<mapsto> (if was_cacheable E k st then bumped st z else z))"
    "props_of w3 = (props_of w)(zo_ts z \<mapsto> written E b k s st)" "grows w w3" "world_ok w \<Longrightarrow> world_ok w3"
    "monitors w3 = monitors w" "g_monitor w3 = g_monitor w" "g_objects w3 = g_objects w"
proof -
  show "props_of w3 = (props_of w)(zo_ts z \<mapsto> written E b k s st)"
    using assms(2,3) by (auto simp: after_shared_def props_of_def fun_eq_iff)
  show "grows w w3" using assms(1,3) by (auto simp: grows_def after_shared_def)
  show "world_ok w3" if "world_ok w" using that by (rule world_ok_frame) (use assms in \<open>auto simp: after_shared_def\<close>)
qed (simp_all add: assms(3) after_shared_def)

text \<open>The whole write, once the value is saved.\<close>

lemma write_eq:
  assumes "store_ready slots ok t th z st w" "\<forall>(k, v) \<in> set (cache z). cached_alive w v"
    and "k = (case key of None \<Rightarrow> append_key (e_hash E) (st_hash st) | Some q \<Rightarrow> fst (pmmpthread_store_coerce E q))"
    and "pmmpthread_store_save_zval t (zo_owner z) v w = Ret (Some s, w1)" "same_tables w w1"
    and "w3 = after_shared E th z (key = None) k s st w1"
  shows "store_write_value E t th key v w =
    Ret (True, w3\<lparr>zobjs := (zobjs w3)(th \<mapsto> put_cache k v (writer_conn E t z (key = None) k s st w3))\<rparr>)"
proof -
  have r: "world_ok w" "zobjs w th = Some z" "props_of w (zo_ts z) = Some st"
    "mutex_avail (Suc 0) t (mon_mutex (g_monitor w))" "mutex_avail (Suc (Suc 0)) t (mon_mutex (monitors w (zo_ts z)))"
    using assms(1) by (auto simp: store_ready_def)
  have w1: "ts_objs w1 = ts_objs w" "zobjs w1 = zobjs w" "monitors w1 = monitors w" "g_monitor w1 = g_monitor w"
    "g_objects w1 = g_objects w" "world_ok w1" "grows w w1" using assms(5) r(1) by (auto simp: same_tables_def grows_def)
  have p1: "props_of w1 = props_of w" using w1(1) by (simp add: props_of_def fun_eq_iff)
  obtain ob where ob: "ts_objs w1 (zo_ts z) = Some ob" "o_props ob = st" using r(3) w1(1) by (auto simp: props_of_def)
  let ?z2 = "if was_cacheable E k st then bumped st z else z"
  note f = after_shared_frame [of w1 th z st w3, OF _ _ assms(6)]
  have g: "grows w w3" using grows_trans [OF w1(7) f(3)] r(2,3) w1(2) p1 by simp
  have "cache ?z2 = cache z" by simp
  then have al: "\<forall>(k, v) \<in> set (cache ?z2). cached_alive w3 (deindirect v)"
    using assms(2) alive_deindirect [OF cached_alive_grows [OF _ g]] by auto
  have sync: "pmmpthread_store_sync_local_properties E t th w3 =
      Ret (w3\<lparr>zobjs := (zobjs w3)(th \<mapsto> writer_conn E t z (key = None) k s st w3)\<rparr>)"
    unfolding writer_conn_def
    by (rule sync_eq) (use f w1 p1 r al in auto)
  let ?w4 = "w3\<lparr>zobjs := (zobjs w3)(th \<mapsto> writer_conn E t z (key = None) k s st w3)\<rparr>"
  have "write_locked E t th key s w1 = Ret (Some k, ?w4)"
    using write_locked_eq [OF _ ob assms(3), of th t s] r(2) w1(2) sync assms(6) by simp
  then have "ts_locked t (zo_ts z) (write_locked E t th key s) None w1 = Ret (Some k, ?w4)"
    using ts_locked_eq [of t w1 "zo_ts z" "write_locked E t th key s" "Some k" ?w4 None] avail_mono [OF r(5), of "Suc 0"] w1(3)
      f(5) r(2,3) w1(2) p1 by simp
  moreover have "pmmpthread_store_update_local_property th k v ?w4 =
      Ret (w3\<lparr>zobjs := (zobjs w3)(th \<mapsto> put_cache k v (writer_conn E t z (key = None) k s st w3))\<rparr>)"
    using update_local_eq [of ?w4 th] by simp
  ultimately show ?thesis using r(2) assms(4) by (simp add: store_write_value_def)
qed

text \<open>
  The value a write overlooks: the cache does not keep the new value, and the connection of the writer is in
  step and caches a valid item under the key.
\<close>

definition overlooked :: "hkey \<Rightarrow> zval \<Rightarrow> pmmpthread_zend_object_t \<Rightarrow> 'h pmmpthread_store_t \<Rightarrow> bool" where
  "overlooked k v z st \<longleftrightarrow> \<not> pmmpthread_store_retain_in_local_cache v \<and> zo_local_modcount z = st_modcount st \<and>
     (case map_of (cache z) k of None \<Rightarrow> False | Some c \<Rightarrow> pmmpthread_store_valid_local_cache_item c)"

lemma conn_ok_fill:
  assumes "conn_ok E {k} w z st" "\<forall>v. map_of (cache z) k = Some v \<longrightarrow> \<not> pmmpthread_store_valid_local_cache_item v"
  shows "conn_ok E {} w z st"
  using assms unfolding conn_ok_def cached_ok_def by auto

lemma writer_conn_ok:
  assumes "conn_ok E {} w z st" "grows w w3" "ident_ls (zo_owner z) = t"
    and "\<And>k'. k' \<noteq> k \<Longrightarrow> zh_find (e_hash E) k' (st_hash (written E b k s st)) = zh_find (e_hash E) k' (st_hash st)"
    and "pmmpthread_store_retain_in_local_cache v \<longrightarrow> cached_ok E t w3 (written E b k s st) k v \<and> cached_alive w3 v"
  shows "conn_ok E (if overlooked k v z st then {k} else {}) w3 (put_cache k v (writer_conn E t z b k s st w3)) (written E b k s st)"
proof -
  let ?W = "was_cacheable E k st" and ?st3 = "written E b k s st"
  let ?z4 = "writer_conn E t z b k s st w3"
  have m3: "st_modcount ?st3 = (if ?W then st_modcount st + 1 else st_modcount st)" by simp
  note c = conn_ok_store [OF assms(1) assms(4) m3]
  have z4: "conn_ok E (if ?W then {k} else {}) w3 ?z4 ?st3"
    unfolding writer_conn_def using assms(3) c(2) by (intro synced_ok conn_ok_grows [OF _ assms(2)]) auto
  have put: "conn_ok E (if pmmpthread_store_retain_in_local_cache v then {} else (if ?W then {k} else {})) w3 (put_cache k v ?z4) ?st3"
    using put_cache_ok [OF z4, of k v] assms(3,5) by auto
  consider "pmmpthread_store_retain_in_local_cache v \<or> \<not> ?W" | "overlooked k v z st" "?W"
    | "\<not> pmmpthread_store_retain_in_local_cache v" "?W" "zo_local_modcount z \<noteq> st_modcount st"
    | "\<not> pmmpthread_store_retain_in_local_cache v" "?W" "zo_local_modcount z = st_modcount st"
      "\<forall>c. map_of (cache z) k = Some c \<longrightarrow> \<not> pmmpthread_store_valid_local_cache_item c"
    by (cases "map_of (cache z) k") (auto simp: overlooked_def)
  then show ?thesis
  proof cases
    case 1
    then show ?thesis using put by (auto simp: conn_ok_def split: if_splits)
  next
    case 2
    then show ?thesis using put by (auto simp: overlooked_def)
  next
    case 3
    then have "?z4 = synced E t w3 ?st3 z" by (simp add: writer_conn_def bumped_def)
    then have "conn_ok E {} w3 ?z4 ?st3" using synced_ok [OF conn_ok_grows [OF c(1) assms(2)] assms(3)] by simp
    then show ?thesis using 3 by (simp add: put_cache_def overlooked_def)
  next
    case 4
    then have "cache ?z4 = cache z" by (simp add: writer_conn_def bumped_def synced_def cache_def)
    then have "conn_ok E {} w3 ?z4 ?st3" using z4 4 by (intro conn_ok_fill) auto
    then show ?thesis using 4 by (auto simp: put_cache_def overlooked_def split: option.splits)
  qed
qed

lemma write_ok:
  assumes "zend_hash (e_hash E) slots ok" "store_ready slots ok t th z st w" "coherent E w" "ident_ls (zo_owner z) = t"
    and "k = (case key of None \<Rightarrow> append_key (e_hash E) (st_hash st) | Some q \<Rightarrow> fst (pmmpthread_store_coerce E q))"
    and "shareable v" "cached_alive w v"
  shows "\<exists>s w'. store_write_value E t th key v w = Ret (True, w') \<and> stored_as (zo_owner z) v s \<and>
    coherent_but E (\<lambda>a. if a = th \<and> overlooked k v z st then {k} else {}) w' \<and> world_ok w' \<and> grows w w' \<and> monitors w' = monitors w \<and> g_monitor w' = g_monitor w \<and>
    g_objects w' = g_objects w \<and> exceptions w' = exceptions w \<and> props_of w' = (props_of w)(zo_ts z \<mapsto> written E (key = None) k s st)"
proof -
  have r: "world_ok w" "zobjs w th = Some z" "props_of w (zo_ts z) = Some st" "store_inv slots ok st"
    "mutex_avail (Suc 0) t (mon_mutex (g_monitor w))" using assms(2) by (auto simp: store_ready_def)
  obtain s w1 where s: "pmmpthread_store_save_zval t (zo_owner z) v w = Ret (Some s, w1)" "same_tables w w1" "stored_as (zo_owner z) v s"
    using save_ok [OF r(5), of "zo_owner z" v] assms(6) by auto
  have w1: "zobjs w1 = zobjs w" "props_of w1 = props_of w" "monitors w1 = monitors w" "g_monitor w1 = g_monitor w"
    "g_objects w1 = g_objects w" "world_ok w1" "grows w w1"
    using s(2) r(1) by (auto simp: same_tables_def grows_def props_of_def fun_eq_iff)
  let ?W = "was_cacheable E k st" and ?st3 = "written E (key = None) k s st"
  define w3 where "w3 = after_shared E th z (key = None) k s st w1"
  define z5 where "z5 = put_cache k v (writer_conn E t z (key = None) k s st w3)"
  define w5 where "w5 = w3\<lparr>zobjs := (zobjs w3)(th \<mapsto> z5)\<rparr>"
  have f: "zobjs w3 = (zobjs w)(th \<mapsto> (if ?W then bumped st z else z))" "props_of w3 = (props_of w)(zo_ts z \<mapsto> ?st3)"
    "grows w1 w3" "world_ok w3" "monitors w3 = monitors w" "g_monitor w3 = g_monitor w" "g_objects w3 = g_objects w"
    using after_shared_frame [of w1 th z st, OF _ _ w3_def] r(2,3) w1 by simp_all
  have g3: "grows w w3" using w1(7) f(3) by (rule grows_trans)
  have g5: "grows w3 w5" unfolding w5_def by (rule grows_upd_zobj [of _ _ "if ?W then bumped st z else z"]) (simp_all add: f(1) z5_def)
  have find: "zh_find (e_hash E) k' (st_hash ?st3) = (if k' = k then Some s else zh_find (e_hash E) k' (st_hash st))" for k'
    using zend_hash.find_update [OF assms(1)] r(4) by (simp add: store_inv_def)
  have conn: "conn_ok E {} w za st" if "zobjs w a = Some za" "zo_ts za = zo_ts z" for a za
    using assms(3) r(3) that by (auto simp: coherent_but_def)
  note z = conn [OF r(2) refl]
  have m3: "st_modcount ?st3 = (if ?W then st_modcount st + 1 else st_modcount st)" by simp
  let ?K = "\<lambda>a. if a = th \<and> overlooked k v z st then {k} else {}"
  have others: "conn_ok E (?K a) w za ?st3" if "a \<noteq> th" "zobjs w a = Some za" "zo_ts za = zo_ts z" for a za
    using find conn_ok_store(1) [OF conn [OF that(2,3)] _ m3] that(1) by simp
  have "pmmpthread_store_retain_in_local_cache v \<longrightarrow> cached_ok E t w3 ?st3 k v \<and> cached_alive w3 v"
    using stored_as_matches [OF s(3), where w = w3 and E = E] cached_alive_grows [OF assms(7) g3] find assms(4) by (auto simp: cached_ok_def)
  then have "conn_ok E (?K th) w3 z5 ?st3" unfolding z5_def using writer_conn_ok [OF z g3 assms(4), of k "key = None" s v] find by simp
  then have "coherent_but E ?K w5"
    using f(1,2) coherent_but_mono [OF assms(3), of ?K]
    by (intro coherent_upd [OF _ grows_trans [OF g3 g5] _ _ _ conn_ok_grows [OF _ g5] others]) (simp_all add: w5_def z5_def)
  moreover have "world_ok w5"
    unfolding w5_def by (rule world_ok_upd_zobj [OF f(4), of _ "if ?W then bumped st z else z"]) (simp_all add: f(1) z5_def)
  moreover have "\<forall>(k, v) \<in> set (cache z). cached_alive w v" using z by (simp add: conn_ok_def)
  then have "store_write_value E t th key v w = Ret (True, w5)"
    unfolding w5_def z5_def by (rule write_eq [OF assms(2) _ assms(5) s(1,2) w3_def])
  moreover have "monitors w5 = monitors w" "g_monitor w5 = g_monitor w" "g_objects w5 = g_objects w"
    "props_of w5 = (props_of w)(zo_ts z \<mapsto> ?st3)" using f by (simp_all add: w5_def)
  moreover have "exceptions w5 = exceptions w"
    using save_quiet [OF assms(6) r(5) s(1)] by (simp add: w5_def w3_def after_shared_def)
  ultimately show ?thesis using s(3) grows_trans [OF g3 g5] by blast
qed

text \<open>The store stays well-formed after a write under a key.\<close>

lemma written_inv:
  assumes "zend_hash (e_hash E) slots ok" "store_inv slots ok st" "is_storage s"
  shows "store_inv slots ok (written E False k s st)"
proof -
  let ?h = "zh_update (e_hash E) k s (st_hash st)"
  have ok: "ok (st_hash st)" "ok ?h" using assms(1,2) zend_hash.ok_update [OF assms(1)] by (auto simp: store_inv_def)
  have "is_storage x" if "(k', x) \<in> set (entries (slots ?h))" for k' x
  proof -
    have "map_of (entries (slots ?h)) k' = Some x"
      using that zend_hash.keys_distinct [OF assms(1) ok(2)] by simp
    then have "zh_find (e_hash E) k' ?h = Some x" using zend_hash.find_law [OF assms(1) ok(2)] by simp
    then have "x = s \<or> zh_find (e_hash E) k' (st_hash st) = Some x"
      using zend_hash.find_update [OF assms(1) ok(1)] by (auto split: if_splits)
    then show ?thesis
      using assms(2,3) zend_hash.find_law [OF assms(1) ok(1)] by (auto simp: store_inv_def dest: map_of_SomeD)
  qed
  moreover have "st_first (written E False k s st) = None" "st_last (written E False k s st) = None"
    by (simp_all add: written_def write_bounds_def Let_def)
  ultimately show ?thesis using ok(2) by (auto simp: store_inv_def bounds_ok_def)
qed

section \<open>Written values and read values\<close>

text \<open>
  What a thread may get for a value that was written: the same scalar, a string with the same content, a
  connection to the same object, the closure itself, a copy of it or \<open>NULL\<close> when it cannot be copied, a socket with
  the same descriptor, the enum case of the same name.
\<close>

fun same_value :: "'h store_env \<Rightarrow> tid \<Rightarrow> 'h world \<Rightarrow> zval \<Rightarrow> zval \<Rightarrow> bool" where
  "same_value E t w (Z_STRING s) x = (\<exists>s'. x = Z_STRING s' \<and> zs_val s' = zs_val s)"
| "same_value E t w (Z_THREADSAFE a) x =
     (\<exists>c zc z. x = Z_THREADSAFE c \<and> zobjs w c = Some zc \<and> zobjs w a = Some z \<and> zo_ts zc = zo_ts z)"
| "same_value E t w (Z_CLOSURE c) x =
     ((\<exists>c'. x = Z_CLOSURE c' \<and> (cl_ptr c' = cl_ptr c \<or> (\<exists>owner. e_copy_closure E t owner c = Some c'))) \<or>
      x = Z_NULL \<and> (\<exists>owner. e_copy_closure E t owner c = None))"
| "same_value E t w (Z_SOCKET s) x = (\<exists>s'. x = Z_SOCKET s' \<and> bsd_socket s' = bsd_socket s)"
| "same_value E t w (Z_ENUM c m) x =
     (x = (case e_enum_case E (zs_val c) (zs_val m) of Some (c1, m1) \<Rightarrow> Z_ENUM c1 m1 | None \<Rightarrow> Z_NULL))"
| "same_value E t w v x = (x = v)"

lemma reads_same:
  assumes "stored_as owner v s" "reads_as E t w s x" "stored_alive w s" "shareable v"
  shows "same_value E t w v x"
  using assms by (cases v) (auto simp: reads_as_def shareable_def split: if_splits option.splits)

fun value_alive :: "'h world \<Rightarrow> zval \<Rightarrow> bool" where
  "value_alive w (Z_THREADSAFE a) = (a \<in> g_objects w)"
| "value_alive w v = True"

lemma value_alive_cached: "value_alive w v \<Longrightarrow> world_ok w \<Longrightarrow> shareable v \<Longrightarrow> cached_alive w v"
  by (cases v) (auto simp: world_ok_def shareable_def)

lemma value_alive_stored: "value_alive w v \<Longrightarrow> stored_as owner v s \<Longrightarrow> g_objects w' = g_objects w \<Longrightarrow> stored_alive w' s"
  by (cases v) (auto split: if_splits)

lemma write_shareable: "shareable v \<Longrightarrow> pmmpthread_store_write E t th key v b w = store_write_value E t th key v w"
  by (cases v) (simp_all add: shareable_def)

lemma ready_after:
  assumes "store_ready slots ok t th z st w" "grows w w'" "world_ok w'" "store_inv slots ok st'" "props_of w' (zo_ts z) = Some st'"
    and "monitors w' = monitors w" "g_monitor w' = g_monitor w"
  shows "\<exists>z'. store_ready slots ok t th z' st' w' \<and> zo_ts z' = zo_ts z \<and> zo_owner z' = zo_owner z"
proof -
  obtain z' where "zobjs w' th = Some z'" "zo_ts z' = zo_ts z" "zo_owner z' = zo_owner z"
    using assms(1,2) unfolding store_ready_def grows_def by blast
  then show ?thesis using assms by (auto simp: store_ready_def)
qed

section \<open>Deleting\<close>

definition deleted :: "'h store_env \<Rightarrow> hkey \<Rightarrow> 'h pmmpthread_store_t \<Rightarrow> 'h pmmpthread_store_t" where
  "deleted E k st = pmmpthread_store_invalidate_bounds
     (st\<lparr>st_hash := zh_del (e_hash E) k (st_hash st),
         st_modcount := (if was_cacheable E k st then st_modcount st + 1 else st_modcount st)\<rparr>)"

definition del_cache :: "hkey \<Rightarrow> pmmpthread_zend_object_t \<Rightarrow> pmmpthread_zend_object_t" where
  "del_cache k z = z\<lparr>zo_properties := map_option (AList.delete k) (zo_properties z)\<rparr>"

lemma deleted_simps [simp]:
  "st_hash (deleted E k st) = zh_del (e_hash E) k (st_hash st)"
  "st_modcount (deleted E k st) = (if was_cacheable E k st then st_modcount st + 1 else st_modcount st)"
  "st_first (deleted E k st) = None" "st_last (deleted E k st) = None"
  by (simp_all add: deleted_def)

lemma del_cache_simps [simp]:
  "zo_ts (del_cache k z) = zo_ts z" "zo_owner (del_cache k z) = zo_owner z" "zo_local_modcount (del_cache k z) = zo_local_modcount z"
  "cache (del_cache k z) = AList.delete k (cache z)"
  by (auto simp: del_cache_def cache_def split: option.splits)

lemma deleted_inv:
  assumes "zend_hash (e_hash E) slots ok" "store_inv slots ok st"
  shows "store_inv slots ok (deleted E k st)"
proof -
  have ok: "ok (st_hash st)" using assms(2) by (simp add: store_inv_def)
  have "set (entries (slots (zh_del (e_hash E) k (st_hash st)))) \<subseteq> set (entries (slots (st_hash st)))"
    using zend_hash.del_law [OF assms(1) ok, of k] by (auto simp: entries_kill)
  then show ?thesis using assms(2) zend_hash.ok_del [OF assms(1) ok] by (auto simp: store_inv_def bounds_ok_def)
qed

lemma del_cache_ok:
  assumes "conn_ok E {k} w z st"
  shows "conn_ok E {} w (del_cache k z) st"
proof -
  have "set (AList.delete k (cache z)) \<subseteq> set (cache z)" by (auto simp: AList.delete_eq)
  moreover have "map_of (AList.delete k (cache z)) = (map_of (cache z))(k := None)" by (rule delete_conv')
  ultimately show ?thesis using assms unfolding conn_ok_def by (auto split: if_splits)
qed

lemma conn_ok_weaken: "conn_ok E K w z st \<Longrightarrow> K \<subseteq> L \<Longrightarrow> conn_ok E L w z st"
  unfolding conn_ok_def by blast

text \<open>The whole deletion.\<close>

lemma delete_eq:
  assumes "store_ready slots ok t th z st w" "k = fst (pmmpthread_store_coerce E key)" "zend_hash (e_hash E) slots ok"
    and "w3 = w\<lparr>zobjs := (zobjs w)(th \<mapsto> (if was_cacheable E k st then bumped st z else z)),
       ts_objs := (ts_objs w)(zo_ts z := map_option (\<lambda>ob. ob\<lparr>o_props := deleted E k st\<rparr>) (ts_objs w (zo_ts z)))\<rparr>"
    and "found = (zh_find (e_hash E) k (st_hash st) \<noteq> None)"
  shows "pmmpthread_store_delete E t th key w =
    Ret (found, if found then w3\<lparr>zobjs := (zobjs w3)(th \<mapsto> del_cache k (if was_cacheable E k st then bumped st z else z))\<rparr> else w3)"
proof -
  have r: "zobjs w th = Some z" "props_of w (zo_ts z) = Some st" "mutex_avail (Suc (Suc 0)) t (mon_mutex (monitors w (zo_ts z)))"
    using assms(1) by (auto simp: store_ready_def)
  obtain ob where ob: "ts_objs w (zo_ts z) = Some ob" "o_props ob = st" using r(2) by (auto simp: props_of_def)
  have wc: "pmmpthread_store_member_is_cacheable E ob k = was_cacheable E k st"
    using ob(2) by (simp add: pmmpthread_store_member_is_cacheable_def was_cacheable_def)
  have found: "was_cacheable E k st \<Longrightarrow> found"
    using assms(5) by (cases "zh_find (e_hash E) k (st_hash st)") (auto simp: was_cacheable_def)
  have lock: "ts_locked t (zo_ts z) body False w = Ret (x, w')" if "body w = Ret (x, w')" "monitors w' = monitors w" for body x w'
    using ts_locked_eq [of t w "zo_ts z" body x w' False] that avail_mono [OF r(3), of "Suc 0"] by simp
  let ?body = "\<lambda>w. obind (fetch_ts (zo_ts z) w) (\<lambda>ob.
          let was = pmmpthread_store_member_is_cacheable E ob k; result = (zh_find (e_hash E) k (st_hash (o_props ob)) \<noteq> None) in
          obind (upd_props (zo_ts z) (\<lambda>st. st\<lparr>st_hash := zh_del (e_hash E) k (st_hash st)\<rparr>) w) (\<lambda>w1.
          obind (if result \<and> was then pmmpthread_store_bump_modcount_nolock th w1 else Ret w1) (\<lambda>w2.
          obind (upd_props (zo_ts z) pmmpthread_store_invalidate_bounds w2) (\<lambda>w3. Ret (result, w3)))))"
  have "?body w = Ret (found, w3)"
    using r(1) ob wc found assms(4,5)
    by (cases "was_cacheable E k st")
      (simp_all add: Let_def upd_props_def upd_ts_def cell_upd_def pmmpthread_store_bump_modcount_nolock_def upd_zobj_def
        deleted_def bumped_def fun_upd_idem pmmpthread_store_invalidate_bounds_def)
  then have l: "ts_locked t (zo_ts z) ?body False w = Ret (found, w3)" using assms(4) by (intro lock) auto
  have "local_del th k w3 = Ret (w3\<lparr>zobjs := (zobjs w3)(th \<mapsto> del_cache k (if was_cacheable E k st then bumped st z else z))\<rparr>)"
    using assms(4) by (simp add: local_del_def upd_zobj_def cell_upd_def del_cache_def)
  then show ?thesis
    using l r(1) assms(2) by (simp add: pmmpthread_store_delete_def Let_def)
qed

lemma delete_ok:
  assumes "zend_hash (e_hash E) slots ok" "store_ready slots ok t th z st w" "coherent E w"
    and "k = fst (pmmpthread_store_coerce E key)" "found = (zh_find (e_hash E) k (st_hash st) \<noteq> None)"
  shows "\<exists>w'. pmmpthread_store_delete E t th key w = Ret (found, w') \<and> coherent E w' \<and> world_ok w' \<and> grows w w' \<and>
    monitors w' = monitors w \<and> g_monitor w' = g_monitor w \<and> props_of w' = (props_of w)(zo_ts z \<mapsto> deleted E k st)"
proof -
  have r: "world_ok w" "zobjs w th = Some z" "props_of w (zo_ts z) = Some st" "store_inv slots ok st"
    using assms(2) by (auto simp: store_ready_def)
  obtain ob where ob: "ts_objs w (zo_ts z) = Some ob" using r(3) by (auto simp: props_of_def)
  let ?W = "was_cacheable E k st" and ?st = "deleted E k st"
  define z2 where "z2 = (if ?W then bumped st z else z)"
  define w3 where "w3 = w\<lparr>zobjs := (zobjs w)(th \<mapsto> z2),
       ts_objs := (ts_objs w)(zo_ts z := map_option (\<lambda>ob. ob\<lparr>o_props := ?st\<rparr>) (ts_objs w (zo_ts z)))\<rparr>"
  define z5 where "z5 = (if found then del_cache k z2 else z2)"
  define w5 where "w5 = (if found then w3\<lparr>zobjs := (zobjs w3)(th \<mapsto> z5)\<rparr> else w3)"
  have z5: "zo_ts z5 = zo_ts z" "zo_owner z5 = zo_owner z" by (auto simp: z5_def z2_def)
  have f: "zobjs w5 = (zobjs w)(th \<mapsto> z5)" "props_of w5 = (props_of w)(zo_ts z \<mapsto> ?st)" "monitors w5 = monitors w"
    "g_monitor w5 = g_monitor w" "g_objects w5 = g_objects w" "z_resolve w5 = z_resolve w" "addrs w5 = addrs w"
    using ob by (auto simp: w5_def w3_def z5_def props_of_def fun_eq_iff)
  have g: "grows w w5" using f(1,5) r(2) z5 by (auto simp: grows_def)
  have ok5: "world_ok w5" by (rule world_ok_frame [OF r(1)]) (use f r(2) z5 ob in \<open>auto simp: w5_def w3_def\<close>)
  have find: "zh_find (e_hash E) k' (st_hash ?st) = (if k' = k then None else zh_find (e_hash E) k' (st_hash st))" for k'
    using zend_hash.find_del [OF assms(1)] r(4) by (simp add: store_inv_def)
  have conn: "conn_ok E {} w za st" if "zobjs w a = Some za" "zo_ts za = zo_ts z" for a za
    using assms(3) r(3) that by (auto simp: coherent_but_def)
  have m: "st_modcount ?st = (if ?W then st_modcount st + 1 else st_modcount st)" by simp
  have others: "conn_ok E {} w za ?st" if "zobjs w a = Some za" "zo_ts za = zo_ts z" for a za
    using find by (intro conn_ok_store(1) [OF conn [OF that] _ m]) simp
  have z2: "conn_ok E (if ?W then {k} else {}) w z2 ?st"
    unfolding z2_def using find by (intro conn_ok_store(2) [OF conn [OF r(2) refl] _ m]) simp
  have "?W \<Longrightarrow> found" using assms(5) by (cases "zh_find (e_hash E) k (st_hash st)") (auto simp: was_cacheable_def)
  then have "conn_ok E {} w z5 ?st"
    using z2 del_cache_ok [OF conn_ok_weaken [OF z2, of "{k}"]] by (auto simp: z5_def split: if_splits)
  then have "coherent E w5" using f(1,2) z5(1) by (intro coherent_upd [OF assms(3) g _ _ _ conn_ok_grows [OF _ g] others])
  moreover have "pmmpthread_store_delete E t th key w = Ret (found, w5)"
    using delete_eq [OF assms(2,4,1) _ assms(5), of w3] by (simp add: w3_def w5_def z5_def z2_def)
  ultimately show ?thesis using f ok5 g by blast
qed

text \<open>A read of a key the store does not hold.\<close>

lemma read_absent:
  assumes "store_ready slots ok t th z st w" "coherent E w" "ident_ls (zo_owner z) = t"
    and "k = fst (pmmpthread_store_coerce E key)" "zh_find (e_hash E) k (st_hash st) = None"
  shows "\<exists>w'. pmmpthread_store_read E t th key BP_VAR_R w = Ret ((False, Z_UNDEF), w')"
proof -
  have r: "world_ok w" "zobjs w th = Some z" "props_of w (zo_ts z) = Some st"
    "mutex_avail (Suc 0) t (mon_mutex (g_monitor w))" "mutex_avail (Suc (Suc 0)) t (mon_mutex (monitors w (zo_ts z)))"
    using assms(1) by (auto simp: store_ready_def)
  define w1 where "w1 = (if zo_properties z \<noteq> None then w\<lparr>zobjs := (zobjs w)(th \<mapsto> synced E t w st z)\<rparr> else w)"
  define z1 where "z1 = (if zo_properties z \<noteq> None then synced E t w st z else z)"
  have w1: "(if zo_properties z \<noteq> None then pmmpthread_store_sync_local_properties E t th w else Ret w) = Ret w1" "coherent E w1"
    using sync_coherent [OF r(1,4,2,3) assms(2,3)] assms(2) by (auto simp: w1_def)
  have z1: "zobjs w1 th = Some z1" "zo_ts z1 = zo_ts z" "props_of w1 = props_of w" "monitors w1 = monitors w"
    using r(2) by (auto simp: w1_def z1_def)
  have "props_of w1 (zo_ts z1) = Some st" using r(3) z1(2,3) by simp
  then obtain ob where ob: "ts_objs w1 (zo_ts z1) = Some ob" "o_props ob = st" by (auto simp: props_of_def)
  have conn: "conn_ok E {} w1 z1 st" using w1(2) z1 r(3) by (auto simp: coherent_but_def)
  have "\<not> pmmpthread_store_valid_local_cache_item v" if v: "Option.bind (zo_properties z1) (\<lambda>p. map_of p k) = Some v" for v
  proof -
    have "map_of (cache z1) k = Some v" "zo_local_modcount z1 = st_modcount st"
      using v by (auto simp: cache_def z1_def split: if_splits option.splits bind_splits)
    then show ?thesis using conn_okD [OF conn, of k v] assms(5) by auto
  qed
  then have "read_locked E t th k BP_VAR_R w = Ret (ReadFailure, w1)"
    using r(2) w1(1) z1(1) ob assms(5) by (auto simp: read_locked_def read_shared_def split: option.splits)
  then have "ts_locked t (zo_ts z) (read_locked E t th k BP_VAR_R) ReadFailure w = Ret (ReadFailure, w1)"
    using ts_locked_eq [OF avail_mono [OF r(5)], of "read_locked E t th k BP_VAR_R"] z1(4) by simp
  then show ?thesis using r(2) assms(4) by (simp add: pmmpthread_store_read_def Let_def)
qed

text \<open>Testing and counting.\<close>

lemma isset_eq:
  assumes "store_ready slots ok t th z st w"
  shows "pmmpthread_store_isset E t th key mode w =
    Ret (case zh_find (e_hash E) (fst (pmmpthread_store_coerce E key)) (st_hash st) of None \<Rightarrow> False | Some v \<Rightarrow> isset_value mode v, w)"
proof -
  obtain ob where ob: "ts_objs w (zo_ts z) = Some ob" "o_props ob = st" using store_ready_ts [OF assms] by blast
  have r: "zobjs w th = Some z" "mutex_avail (Suc (Suc 0)) t (mon_mutex (monitors w (zo_ts z)))"
    using assms by (auto simp: store_ready_def)
  show ?thesis
    using r(1) ob avail_mono [OF r(2), of "Suc 0"]
    by (auto simp: pmmpthread_store_isset_def Let_def intro!: ts_locked_eq split: option.splits)
qed

lemma count_eq:
  assumes "store_ready slots ok t th z st w"
  shows "pmmpthread_store_count E t th w = Ret (zh_num (e_hash E) (st_hash st), w)"
proof -
  obtain ob where ob: "ts_objs w (zo_ts z) = Some ob" "o_props ob = st" using store_ready_ts [OF assms] by blast
  have r: "zobjs w th = Some z" "mutex_avail (Suc (Suc 0)) t (mon_mutex (monitors w (zo_ts z)))"
    using assms by (auto simp: store_ready_def)
  show ?thesis
    using r(1) ob avail_mono [OF r(2), of "Suc 0"] by (auto simp: pmmpthread_store_count_def intro!: ts_locked_eq)
qed

section \<open>Persisting\<close>

definition persisted :: "tid \<Rightarrow> zval \<Rightarrow> zval \<Rightarrow> bool" where
  "persisted t v v' \<longleftrightarrow>
     (case v of
        Z_PTR (STORE_TYPE_STRING_PTR s owner) \<Rightarrow>
          if ident_ls owner = t then \<exists>s'. v' = Z_STRING s' \<and> zs_val s' = zs_val s \<and> (zs_permanent s' \<or> zs_persistent s')
          else v' = v
      | _ \<Rightarrow> v' = v)"

lemma save_string_persistent: "pmmpthread_store_save_string s w = (s', w') \<Longrightarrow> zs_permanent s' \<or> zs_persistent s'"
  by (auto simp: pmmpthread_store_save_string_def zend_string_init_def new_addr_def split: if_splits)

lemma foreach_update_old:
  assumes "zend_hash H slots ok" "ok h" "zh_foreach H h = xs @ (k, v) # ys"
  shows "zh_foreach H (zh_update H k v' h) = xs @ (k, v') # ys"
proof -
  have e: "entries (slots h) = xs @ (k, v) # ys" using assms(3) zend_hash.foreach_law [OF assms(1,2)] by simp
  have d: "distinct (map fst (entries (slots h)))" using zend_hash.keys_distinct [OF assms(1,2)] .
  have old: "zh_find H k h \<noteq> None" using zend_hash.find_law [OF assms(1,2), of k] e
    by (auto simp: map_add_def split: option.splits)
  have n: "k \<notin> fst ` set xs" "k \<notin> fst ` set ys" using d e by auto
  have same: "map (\<lambda>(k', v''). if k' = k then (k, v') else (k', v'')) zs = zs" if "k \<notin> fst ` set zs" for zs
    using that by (induction zs) auto
  show ?thesis
    using zend_hash.foreach_law [OF assms(1) zend_hash.ok_update [OF assms(1,2)]] zend_hash.update_old [OF assms(1,2) old]
    by (simp add: entries_set_value e same [OF n(1)] same [OF n(2)])
qed

lemma persist_loop:
  assumes "zend_hash H slots ok" "ok h" "zh_foreach H h = done @ es" "persist_entries H t es h w = (h', w')"
  shows "ok h' \<and> same_tables w w' \<and> (\<exists>es'. zh_foreach H h' = done @ es' \<and>
    list_all2 (\<lambda>(k, v) (k', v'). k' = k \<and> persisted t v v') es es')"
  using assms(2-)
proof (induction es arbitrary: h w "done")
  case Nil
  then show ?case by simp
next
  case (Cons e es)
  obtain k v where e: "e = (k, v)" by (cases e)
  show ?case
  proof (cases "\<exists>s owner. v = Z_PTR (STORE_TYPE_STRING_PTR s owner) \<and> ident_ls owner = t")
    case True
    then obtain s owner where v: "v = Z_PTR (STORE_TYPE_STRING_PTR s owner)" "ident_ls owner = t" by blast
    obtain s1 w1 where s1: "pmmpthread_store_save_string s w = (s1, w1)" by fastforce
    let ?h = "zh_update H k (Z_STRING s1) h"
    have f: "zh_foreach H ?h = (done @ [(k, Z_STRING s1)]) @ es"
      using foreach_update_old [OF assms(1) Cons.prems(1), of "done" k v es] Cons.prems(2) e by simp
    have "persist_entries H t es ?h w1 = (h', w')" using Cons.prems(3) e v s1 by simp
    from Cons.IH [OF zend_hash.ok_update [OF assms(1) Cons.prems(1)] f this] obtain es' where
      ih: "ok h'" "same_tables w1 w'" "zh_foreach H h' = (done @ [(k, Z_STRING s1)]) @ es'"
      "list_all2 (\<lambda>(k, v) (k', v'). k' = k \<and> persisted t v v') es es'" by blast
    have "persisted t v (Z_STRING s1)"
      using v save_string_tables [OF s1] save_string_persistent [OF s1] by (simp add: persisted_def)
    then show ?thesis
      using ih e save_string_tables [OF s1] same_tables_trans [of w w1 w'] by (auto intro!: exI [of _ "(k, Z_STRING s1) # es'"])
  next
    case False
    have "persist_entries H t es h w = (h', w')"
      using Cons.prems(3) e False by (auto split: zval.splits pmmpthread_storage.splits if_splits)
    moreover have "zh_foreach H h = (done @ [(k, v)]) @ es" using Cons.prems(2) e by simp
    ultimately obtain es' where ih: "ok h'" "same_tables w w'" "zh_foreach H h' = (done @ [(k, v)]) @ es'"
      "list_all2 (\<lambda>(k, v) (k', v'). k' = k \<and> persisted t v v') es es'"
      using Cons.IH [OF Cons.prems(1)] by blast
    have "persisted t v v" using False by (auto simp: persisted_def split: zval.splits pmmpthread_storage.splits)
    then show ?thesis using ih e by (auto intro!: exI [of _ "(k, v) # es'"])
  qed
qed

lemma persist_entries_ok:
  assumes "zend_hash H slots ok" "ok h" "persist_entries H t (zh_foreach H h) h w = (h', w')"
  shows "same_tables w w' \<and> list_all2 (\<lambda>(k, v) (k', v'). k' = k \<and> persisted t v v') (zh_foreach H h) (zh_foreach H h')"
  using persist_loop [OF assms(1,2), of "[]" "zh_foreach H h" t w h' w'] assms(3) by auto

text \<open>The connection that overlooks its own write reads what it had cached.\<close>

lemma stale_read_ok:
  assumes "coherent E w" "store_ready slots ok t th z st w" "zo_local_modcount z = st_modcount st"
    and "k = fst (pmmpthread_store_coerce E key)" "map_of (cache z) k = Some c" "pmmpthread_store_valid_local_cache_item c"
    and "shareable v" "\<not> pmmpthread_store_retain_in_local_cache v"
  shows "\<exists>s w1. pmmpthread_store_write E t th (Some key) v False w = Ret (True, w1) \<and> stored_as (zo_owner z) v s \<and>
    map_option st_hash (props_of w1 (zo_ts z)) = Some (zh_update (e_hash E) k s (st_hash st)) \<and>
    pmmpthread_store_read E t th key BP_VAR_R w1 = Ret ((True, c), w1) \<and> exceptions w1 = exceptions w"
proof -
  have r: "zobjs w th = Some z" "props_of w (zo_ts z) = Some st" "mutex_avail (Suc 0) t (mon_mutex (g_monitor w))"
    "mutex_avail (Suc (Suc 0)) t (mon_mutex (monitors w (zo_ts z)))" using assms(2) by (auto simp: store_ready_def)
  have conn: "conn_ok E {} w z st" using assms(1) r(1,2) by (auto simp: coherent_but_def)
  have was: "was_cacheable E k st" using conn_okD [OF conn assms(3,5) _ assms(6)] by (auto simp: was_cacheable_def)
  have alive: "\<forall>(k, v) \<in> set (cache z). cached_alive w v" using conn by (simp add: conn_ok_def)
  obtain s w0 where s: "pmmpthread_store_save_zval t (zo_owner z) v w = Ret (Some s, w0)" "same_tables w w0" "stored_as (zo_owner z) v s"
    using save_ok [OF r(3), of "zo_owner z" v] assms(7) by auto
  define w3 where "w3 = after_shared E th z False k s st w0"
  define w1 where "w1 = w3\<lparr>zobjs := (zobjs w3)(th \<mapsto> bumped st z)\<rparr>"
  have w0: "zobjs w0 th = Some z" "props_of w0 (zo_ts z) = Some st" "monitors w0 = monitors w"
    using s(2) r(1,2) by (auto simp: same_tables_def props_of_def)
  have f: "props_of w3 = (props_of w0)(zo_ts z \<mapsto> written E False k s st)" "monitors w3 = monitors w"
    using after_shared_frame [OF w0(1,2) w3_def] w0(3) by simp_all
  have "put_cache k v (writer_conn E t z False k s st w3) = bumped st z"
    using assms(3,8) was by (simp add: put_cache_def writer_conn_def synced_def bumped_def)
  then have w: "pmmpthread_store_write E t th (Some key) v False w = Ret (True, w1)"
    using write_shareable [OF assms(7), of E t th "Some key" False w] write_eq [OF assms(2) alive _ s(1,2), where k = k and key = "Some key" and E = E and ?w3.0 = w3]
      assms(4) by (simp add: w3_def w1_def)
  have p1: "props_of w1 (zo_ts z) = Some (written E False k s st)" using f(1) by (simp add: w1_def)
  then obtain ob where ob: "ts_objs w1 (zo_ts z) = Some ob" "o_props ob = written E False k s st" by (auto simp: props_of_def)
  obtain p where p: "zo_properties z = Some p" "map_of p k = Some c" using assms(5) by (auto simp: cache_def split: option.splits)
  have z1: "zobjs w1 th = Some (bumped st z)" "zo_properties (bumped st z) = Some p"
    using p(1) by (simp_all add: w1_def bumped_def)
  have "pmmpthread_store_sync_local_properties E t th w1 = Ret w1"
    using z1(1) ob was assms(3) by (simp add: pmmpthread_store_sync_local_properties_def bumped_def)
  then have "read_locked E t th k BP_VAR_R w1 = Ret (CacheHit c, w1)"
    using z1 ob p(2) assms(6) by (simp add: read_locked_def)
  then have "ts_locked t (zo_ts z) (read_locked E t th k BP_VAR_R) ReadFailure w1 = Ret (CacheHit c, w1)"
    using ts_locked_eq [of t w1 "zo_ts z" "read_locked E t th k BP_VAR_R"] avail_mono [OF r(4), of "Suc 0"] f(2) by (simp add: w1_def)
  then have "pmmpthread_store_read E t th key BP_VAR_R w1 = Ret ((True, c), w1)"
    using z1(1) assms(4) by (simp add: pmmpthread_store_read_def Let_def)
  moreover have "exceptions w1 = exceptions w"
    using save_quiet [OF assms(7) r(3) s(1)] by (simp add: w1_def w3_def after_shared_def)
  ultimately show ?thesis using w s(3) p1 by auto
qed

text \<open>What one connection writes, every connection to the same object reads, unless it overlooks it.\<close>

lemma write_then_read_seen:
  assumes "zend_hash (e_hash E) slots ok" "coherent E w"
    and "store_ready slots ok t th z st w" "ident_ls (zo_owner z) = t"
    and "store_ready slots ok t' th' z' st w" "ident_ls (zo_owner z') = t'" "zo_ts z' = zo_ts z"
    and "shareable v" "value_alive w v" "k = fst (pmmpthread_store_coerce E key)" "\<not> (th' = th \<and> overlooked k v z st)"
  shows "\<exists>w1 x w2. pmmpthread_store_write E t th (Some key) v False w = Ret (True, w1) \<and> exceptions w1 = exceptions w \<and>
    pmmpthread_store_read E t' th' key BP_VAR_R w1 = Ret ((True, x), w2) \<and> same_value E t' w2 v x \<and>
    coherent_but E (\<lambda>a. if a = th \<and> overlooked k v z st then {k} else {}) w1 \<and>
    coherent_but E (\<lambda>a. if a = th \<and> overlooked k v z st then {k} else {}) w2"
proof -
  let ?K = "\<lambda>a. if a = th \<and> overlooked k v z st then {k} else {}"
  have inv: "store_inv slots ok st" "world_ok w" using assms(3) by (auto simp: store_ready_def)
  obtain s w1 where s: "store_write_value E t th (Some key) v w = Ret (True, w1)" "stored_as (zo_owner z) v s" "coherent_but E ?K w1"
    "world_ok w1" "grows w w1" "monitors w1 = monitors w" "g_monitor w1 = g_monitor w" "g_objects w1 = g_objects w"
    "props_of w1 = (props_of w)(zo_ts z \<mapsto> written E False k s st)" "exceptions w1 = exceptions w"
    using write_ok [OF assms(1,3,2,4), of k "Some key" v] assms(8,10) value_alive_cached [OF assms(9) inv(2) assms(8)] by auto
  have st1: "store_inv slots ok (written E False k s st)"
    using written_inv [OF assms(1) inv(1) stored_as_storage [OF s(2) assms(8)]] .
  have p1: "props_of w1 (zo_ts z') = Some (written E False k s st)" using s(9) assms(7) by simp
  obtain z1 where z1: "store_ready slots ok t' th' z1 (written E False k s st) w1" "zo_owner z1 = zo_owner z'"
    using ready_after [OF assms(5) s(5,4) st1 p1 s(6,7)] by blast
  have ok: "ok (st_hash st)" using inv(1) by (simp add: store_inv_def)
  have find: "zh_find (e_hash E) k (st_hash (written E False k s st)) = Some s"
    using zend_hash.find_update [OF assms(1) ok] by simp
  have alive: "stored_alive w1 s" using value_alive_stored [OF assms(9) s(2,8)] .
  have K: "?K th' = {}" using assms(11) by auto
  obtain x w2 where r: "pmmpthread_store_read E t' th' key BP_VAR_R w1 = Ret ((True, x), w2)" "reads_as E t' w2 s x"
    "coherent_but E ?K w2" "grows w1 w2"
    using read_ok [OF assms(1) z1(1) s(3) _ assms(10) [symmetric] find alive K] z1(2) assms(6) by auto
  have "same_value E t' w2 v x" using reads_same [OF s(2) r(2) stored_alive_grows [OF alive r(4)] assms(8)] .
  then show ?thesis using s(1,3,10) r(1,3) write_shareable [OF assms(8), of E t th "Some key" False w] by auto
qed

lemma write_then_read_ok:
  assumes "zend_hash (e_hash E) slots ok" "coherent E w"
    and "store_ready slots ok t th z st w" "ident_ls (zo_owner z) = t"
    and "store_ready slots ok t' th' z' st w" "ident_ls (zo_owner z') = t'" "zo_ts z' = zo_ts z"
    and "shareable v" "value_alive w v" "k = fst (pmmpthread_store_coerce E key)"
  shows "\<exists>w1 x w2. pmmpthread_store_write E t th (Some key) v False w = Ret (True, w1) \<and> exceptions w1 = exceptions w \<and>
    pmmpthread_store_read E t' th' key BP_VAR_R w1 = Ret ((True, x), w2) \<and>
    (if th' = th \<and> overlooked k v z st then map_of (cache z) k = Some x else same_value E t' w2 v x) \<and>
    coherent_but E (\<lambda>a. if a = th \<and> overlooked k v z st then {k} else {}) w1 \<and>
    coherent_but E (\<lambda>a. if a = th \<and> overlooked k v z st then {k} else {}) w2"
proof (cases "th' = th \<and> overlooked k v z st")
  case True
  have "z' = z" using True assms(3,5) by (simp add: store_ready_def)
  then have t: "t' = t" using assms(4,6) by simp
  obtain c where c: "map_of (cache z) k = Some c" "pmmpthread_store_valid_local_cache_item c" "zo_local_modcount z = st_modcount st"
    "\<not> pmmpthread_store_retain_in_local_cache v" using True by (auto simp: overlooked_def split: option.splits)
  obtain w1 where w1: "pmmpthread_store_write E t th (Some key) v False w = Ret (True, w1)" "exceptions w1 = exceptions w"
    "pmmpthread_store_read E t th key BP_VAR_R w1 = Ret ((True, c), w1)"
    using stale_read_ok [OF assms(2,3) c(3) assms(10) c(1,2) assms(8) c(4)] by blast
  have "world_ok w" using assms(3) by (simp add: store_ready_def)
  then have "coherent_but E (\<lambda>a. if a = th \<and> overlooked k v z st then {k} else {}) w1"
    using write_ok [OF assms(1,3,2,4), of k "Some key" v] assms(8,10) value_alive_cached [OF assms(9) _ assms(8)] w1(1)
      write_shareable [OF assms(8), of E t th "Some key" False w] by auto
  then show ?thesis using True t w1 c(1) by auto
next
  case False
  then show ?thesis using write_then_read_seen [OF assms(1-10) False] by auto
qed

text \<open>A value that cannot be shared is refused.\<close>

lemma write_refused_ok:
  assumes "store_ready slots ok t th z st w" "\<not> shareable v"
  shows "\<exists>w'. pmmpthread_store_write E t th key v False w = Ret (False, w') \<and> props_of w' = props_of w \<and> zobjs w' = zobjs w \<and>
    monitors w' = monitors w"
proof -
  have r: "zobjs w th = Some z" "mutex_avail (Suc 0) t (mon_mutex (g_monitor w))" using assms(1) by (auto simp: store_ready_def)
  obtain w' where "pmmpthread_store_save_zval t (zo_owner z) v w = Ret (None, w')" "same_tables w w'"
    using save_ok [OF r(2), of "zo_owner z" v] assms(2) by auto
  moreover have "pmmpthread_store_write E t th key v False w = store_write_value E t th key v w" by (cases v) simp_all
  ultimately show ?thesis
    using r(1) by (auto simp: store_write_value_def same_tables_def props_of_def fun_eq_iff)
qed

end
