(* ===== verification/Store_Properties.thy ===== *)
theory Store_Properties
  imports Store_Cache
begin

text \<open>
  The properties of the property store: its ends as a double-ended queue, chunks, what one thread
  writes and another reads, refused values, deletion, strings that outlive their thread, and the
  places where the store does not do what it means to.
\<close>

section \<open>A small world\<close>

text \<open>
  Two threads, 1 and 2, with the connections 10 and 12 to the object 20; the environment has no integer-like
  strings, no closures to copy and no enums.
\<close>

definition demo_mon :: pmmpthread_monitor_t where
  "demo_mon = \<lparr>mon_state = 0, mon_mutex = \<lparr>mx_owner = None, mx_count = 0, mx_max = 100\<rparr>, mon_cond = {}\<rparr>"

definition demo_env :: "zval btable store_env" where
  "demo_env = \<lparr>e_hash = bt_api, e_numeric = (\<lambda>_. None), e_get_string = (\<lambda>_. []), e_enum_case = (\<lambda>_ _. None),
     e_copy_closure = (\<lambda>_ _ _. None), e_self = (\<lambda>t. t), e_monitor = demo_mon, e_collectable = (\<lambda>_. []), e_objprop = (\<lambda>_. [])\<rparr>"

definition demo_conn :: "tid \<Rightarrow> int \<Rightarrow> (hkey \<times> zval) list option \<Rightarrow> pmmpthread_zend_object_t" where
  "demo_conn t n p = \<lparr>zo_ts = 20, zo_owner = \<lparr>ident_id = t, ident_ls = t\<rparr>, zo_local_modcount = n, zo_worker = False,
     zo_array = True, zo_recursive = False, zo_declared = [], zo_properties = p\<rparr>"

definition demo_store :: "zval slots \<Rightarrow> int \<Rightarrow> nat option \<Rightarrow> zval btable pmmpthread_store_t" where
  "demo_store s n lst = \<lparr>st_hash = \<lparr>bt_slots = s, bt_next = n\<rparr>, st_modcount = 3, st_first = None, st_last = lst\<rparr>"

definition demo_object :: "zval btable pmmpthread_store_t \<Rightarrow> zval btable pmmpthread_object_t" where
  "demo_object st = \<lparr>o_refcount = 2, o_scope = 0, o_props = st, o_creator = \<lparr>ident_id = 1, ident_ls = 1\<rparr>, o_local = zero_ident\<rparr>"

definition demo_world :: "(hkey \<times> zval) list option \<Rightarrow> zval btable pmmpthread_store_t \<Rightarrow> zval btable world" where
  "demo_world p st =
     \<lparr>ts_objs = [20 \<mapsto> demo_object st], zobjs = [10 \<mapsto> demo_conn 1 3 p, 12 \<mapsto> demo_conn 2 2 None],
      monitors = (\<lambda>_. demo_mon), g_init = True, g_failed = False, g_monitor = demo_mon, g_objects = {10, 12},
      g_shared_globals = None, g_shared_sockets = {}, g_interned = (\<lambda>_. None), g_thread_count = 2,
      z_resolve = (\<lambda>t a. if a = 20 \<and> t = 1 then Some 10 else if a = 20 \<and> t = 2 then Some 12 else None),
      z_connecting = (\<lambda>_. None), z_shared_globals = (\<lambda>_. None), exceptions = (\<lambda>_. None), addrs = (\<lambda>n. 100 + n), guards = (\<lambda>_ _. 0)\<rparr>"

lemma demo_mutex [simp]: "mutex_avail (Suc 0) t (mon_mutex demo_mon)" "mutex_avail (Suc (Suc 0)) t (mon_mutex demo_mon)"
  by (simp_all add: mutex_avail_def demo_mon_def)

lemma demo_zobjs: "zobjs (demo_world p st) a = (if a = 10 then Some (demo_conn 1 3 p) else if a = 12 then Some (demo_conn 2 2 None) else None)"
  by (simp add: demo_world_def)

lemma demo_world_ok: "world_ok (demo_world p st)"
  by (auto simp: world_ok_def demo_world_def demo_conn_def inj_def split: if_splits)

lemma demo_props: "props_of (demo_world p st) 20 = Some st"
  by (simp add: props_of_def demo_world_def demo_object_def)

lemma demo_ready:
  "store_inv bt_slots bt_ok st \<Longrightarrow> store_ready bt_slots bt_ok 1 10 (demo_conn 1 3 p) st (demo_world p st)"
  "store_inv bt_slots bt_ok st \<Longrightarrow> store_ready bt_slots bt_ok 2 12 (demo_conn 2 2 None) st (demo_world p st)"
  using demo_world_ok [of p st] demo_props [of p st] demo_mutex
  by (auto simp: store_ready_def demo_zobjs) (simp_all add: demo_conn_def demo_world_def)

lemma demo_hash: "zend_hash (e_hash demo_env) bt_slots bt_ok"
  unfolding demo_env_def by simp (rule bt.zend_hash_axioms)

interpretation demo: store_client demo_env bt_slots bt_ok 1 10
  by (rule store_client.intro, rule store_table.intro, rule demo_hash)

definition demo_string :: "nat \<Rightarrow> string \<Rightarrow> zend_string" where
  "demo_string a s = \<lparr>zs_ptr = a, zs_val = s, zs_permanent = False, zs_persistent = False\<rparr>"

definition demo_entries :: "zval slots" where
  "demo_entries = [Some (HInt 0, Z_LONG 7), None,
     Some (HStr ''k'', Z_PTR (STORE_TYPE_STRING_PTR (demo_string 50 ''v'') \<lparr>ident_id = 1, ident_ls = 1\<rparr>)),
     Some (HInt 1, Z_PTR (STORE_TYPE_THREADSAFE_OBJECT 10))]"

lemma demo_inv: "store_inv bt_slots bt_ok (demo_store demo_entries 2 (Some 3))"
  by (simp add: store_inv_def demo_store_def demo_entries_def bt_ok_def bounds_ok_def last_ok_def next_ok_def ZEND_LONG_MIN_def)

section \<open>Both ends\<close>

text \<open>
  C6: Taking elements off the ends of a store with any sequence of \<open>shift\<close> and \<open>pop\<close> calls always returns, gives the
  elements in the order a list gives them (\<open>deque_spec\<close>), \<open>NULL\<close> when the store is empty, each as a value that
  stands for the stored one on the calling thread, and leaves the remaining elements in the store with
  cached end positions that are right.
\<close>

theorem store_ends_refine_list:
  assumes "zend_hash (e_hash E) slots ok" "store_holds slots ok E t th w es"
  shows "\<exists>xs w'. deque_run (pmmpthread_store_shift E t th) (pmmpthread_store_pop E t th) ops w = Ret (xs, w') \<and>
    store_holds slots ok E t th w' (snd (deque_spec ops es)) \<and> list_all2 (store_denotes E t w') (fst (deque_spec ops es)) xs"
proof -
  have "store_client E slots ok" using assms(1) by (intro store_client.intro store_table.intro)
  from store_client.ends_refine [OF this assms(2), of ops] show ?thesis by blast
qed

abbreviation demo3 :: "zval btable world" where
  "demo3 \<equiv> demo_world None (demo_store demo_entries 2 (Some 3))"

lemma demo_alive: "\<forall>(k, v) \<in> set (entries demo_entries). stored_alive demo3 v"
  by (simp add: demo_entries_def demo_world_def)

lemma demo_foreach: "zh_foreach (e_hash demo_env) (st_hash (demo_store s n l)) = entries s"
  by (simp add: demo_env_def bt_api_def demo_store_def)

lemma demo_holds: "store_holds bt_slots bt_ok demo_env 1 10 demo3 (entries demo_entries)"
  using demo_ready(1) [OF demo_inv, of None] demo_foreach demo_alive unfolding store_holds_def by blast

theorem store_ends_refine_list_witness:
  "zend_hash (e_hash demo_env) bt_slots bt_ok \<and> store_holds bt_slots bt_ok demo_env 1 10 demo3 (entries demo_entries) \<and>
   (\<exists>xs w'. deque_run (pmmpthread_store_shift demo_env 1 10) (pmmpthread_store_pop demo_env 1 10)
      [Shift_op, Pop_op, Shift_op, Shift_op] demo3 = Ret (xs, w') \<and> store_holds bt_slots bt_ok demo_env 1 10 w' [] \<and>
      list_all2 (store_denotes demo_env 1 w') [Some (HInt 0, Z_LONG 7), Some (HInt 1, Z_PTR (STORE_TYPE_THREADSAFE_OBJECT 10)),
        Some (HStr ''k'', Z_PTR (STORE_TYPE_STRING_PTR (demo_string 50 ''v'') \<lparr>ident_id = 1, ident_ls = 1\<rparr>)), None] xs)"
  using store_ends_refine_list [OF demo_hash demo_holds, of "[Shift_op, Pop_op, Shift_op, Shift_op]"] demo_hash demo_holds
  by (simp add: demo_entries_def)

text \<open>
  C7: \<open>chunk\<close> with a size \<open>n\<close> always returns, and it returns the first \<open>n\<close> elements (all of them when there are fewer,
  none when \<open>n\<close> is not positive), in order and under their keys, as values that stand for the stored
  ones, and leaves the others in the store; the flag that asks for keys to be preserved makes no difference.
\<close>

theorem store_chunk_takes_prefix:
  assumes "zend_hash (e_hash E) slots ok" "store_holds slots ok E t th w es"
  shows "\<exists>xs w'. pmmpthread_store_chunk E t th n preserve w = Ret (Some xs, w') \<and>
    pmmpthread_store_chunk E t th n (\<not> preserve) w = Ret (Some xs, w') \<and>
    restored_list E t w' (take (nat n) es) xs \<and> store_holds slots ok E t th w' (drop (nat n) es)"
proof -
  obtain z st where h: "store_ready slots ok t th z st w" "zh_foreach (e_hash E) (st_hash st) = es"
    "\<forall>(k, v) \<in> set es. stored_alive w v" using assms(2) by (auto simp: store_holds_def)
  obtain xs w' z' st' where c: "pmmpthread_store_chunk E t th n preserve w = Ret (Some xs, w')"
    "restored_list E t w' (take (nat n) es) xs" "store_ready slots ok t th z' st' w'" "grows w w'"
    "zh_foreach (e_hash E) (st_hash st') = drop (nat n) es"
    using chunk_ok [OF assms(1) h(1)] h(2,3) by blast
  have "pmmpthread_store_chunk E t th n (\<not> preserve) w = pmmpthread_store_chunk E t th n preserve w"
    by (simp add: pmmpthread_store_chunk_def)
  moreover have "store_holds slots ok E t th w' (drop (nat n) es)"
    using c(4) by (intro store_holdsI [OF c(3,5) h(3) set_drop_subset])
  ultimately show ?thesis using c by auto
qed

theorem store_chunk_takes_prefix_witness:
  "zend_hash (e_hash demo_env) bt_slots bt_ok \<and> store_holds bt_slots bt_ok demo_env 1 10 demo3 (entries demo_entries) \<and>
   (\<exists>xs w'. pmmpthread_store_chunk demo_env 1 10 2 True demo3 = Ret (Some xs, w') \<and> map fst xs = [HInt 0, HStr ''k''] \<and>
      store_holds bt_slots bt_ok demo_env 1 10 w' [(HInt 1, Z_PTR (STORE_TYPE_THREADSAFE_OBJECT 10))])"
proof -
  have "take (nat 2) (entries demo_entries) = [(HInt 0, Z_LONG 7),
      (HStr ''k'', Z_PTR (STORE_TYPE_STRING_PTR (demo_string 50 ''v'') \<lparr>ident_id = 1, ident_ls = 1\<rparr>))]"
    "drop (nat 2) (entries demo_entries) = [(HInt 1, Z_PTR (STORE_TYPE_THREADSAFE_OBJECT 10))]"
    by (simp_all add: demo_entries_def)
  then show ?thesis
    using store_chunk_takes_prefix [OF demo_hash demo_holds, of 2 True] demo_hash demo_holds
    by (fastforce simp: restored_list_def list_all2_Cons1)
qed

section \<open>Writing and reading\<close>

text \<open>
  C8: What one thread writes is what every thread reads, with one exception. Let the caches agree with the shared
  table (\<open>coherent\<close>), and a thread write under a key a value that can be shared and, if it is a thread-safe object, is
  alive. The write succeeds. A read of the key by any connection to the object returns a value that is the same as the
  written one, unless the reader is the writing connection itself and the write was \<open>overlooked\<close> by its cache: the
  new value is one the cache does not keep (a number, \<open>NULL\<close>, a boolean or an enum case), the connection was in step
  with the store and caches a valid item under the key. In that case it still reads the item it had cached. The
  caches agree with the table afterwards, but for that item.
\<close>

theorem store_write_then_read:
  assumes "zend_hash (e_hash E) slots ok" "coherent E w"
    and "store_ready slots ok t th z st w" "ident_ls (zo_owner z) = t"
    and "store_ready slots ok t' th' z' st w" "ident_ls (zo_owner z') = t'" "zo_ts z' = zo_ts z"
    and "shareable v" "value_alive w v" "k = fst (pmmpthread_store_coerce E key)"
  shows "\<exists>w1 x w2. pmmpthread_store_write E t th (Some key) v False w = Ret (True, w1) \<and>
    pmmpthread_store_read E t' th' key BP_VAR_R w1 = Ret ((True, x), w2) \<and>
    (if th' = th \<and> overlooked k v z st then map_of (cache z) k = Some x else same_value E t' w2 v x) \<and>
    coherent_but E (\<lambda>a. if a = th \<and> overlooked k v z st then {k} else {}) w1 \<and>
    coherent_but E (\<lambda>a. if a = th \<and> overlooked k v z st then {k} else {}) w2"
  using write_then_read_ok [OF assms] by blast

definition demo_strings :: "zval slots" where
  "demo_strings = [Some (HStr ''k'', Z_PTR (STORE_TYPE_STRING_PTR (demo_string 50 ''v'') \<lparr>ident_id = 1, ident_ls = 1\<rparr>))]"

definition demo_key :: zval where
  "demo_key = Z_STRING (demo_string 70 ''k'')"

text \<open>Thread 1 caches the string under its key and is in step; thread 2 has no cache.\<close>

abbreviation demo_kv :: "zval btable world" where
  "demo_kv \<equiv> demo_world (Some [(HStr ''k'', Z_STRING (demo_string 50 ''v''))]) (demo_store demo_strings 0 None)"

lemma demo_kv_inv: "store_inv bt_slots bt_ok (demo_store demo_strings 0 None)"
  by (simp add: store_inv_def demo_store_def demo_strings_def bt_ok_def bounds_ok_def next_ok_def)

lemma demo_coherent: "coherent demo_env demo_kv"
  by (auto simp: coherent_but_def demo_zobjs conn_ok_def cache_def demo_conn_def cached_ok_def demo_env_def bt_api_def demo_props
      demo_store_def demo_strings_def demo_string_def split: if_splits)

lemma demo_coerce: "fst (pmmpthread_store_coerce demo_env demo_key) = HStr ''k''"
  by (simp add: pmmpthread_store_coerce_def demo_key_def demo_env_def demo_string_def)

lemma demo_kv_ready:
  "store_ready bt_slots bt_ok 1 10 (demo_conn 1 3 (Some [(HStr ''k'', Z_STRING (demo_string 50 ''v''))])) (demo_store demo_strings 0 None) demo_kv"
  "store_ready bt_slots bt_ok 2 12 (demo_conn 2 2 None) (demo_store demo_strings 0 None) demo_kv"
  using demo_ready demo_kv_inv by blast+

lemma demo_owner: "ident_ls (zo_owner (demo_conn t n p)) = t" "zo_ts (demo_conn t n p) = 20"
  by (simp_all add: demo_conn_def)

theorem store_write_then_read_witness:
  "coherent demo_env demo_kv \<and>
   (\<exists>w1 x w2. pmmpthread_store_write demo_env 1 10 (Some demo_key) (Z_STRING (demo_string 60 ''new'')) False demo_kv = Ret (True, w1) \<and>
      pmmpthread_store_read demo_env 2 12 demo_key BP_VAR_R w1 = Ret ((True, Z_STRING x), w2) \<and> zs_val x = ''new'') \<and>
   (\<exists>w1 w2. pmmpthread_store_write demo_env 1 10 (Some demo_key) (Z_LONG 5) False demo_kv = Ret (True, w1) \<and>
      pmmpthread_store_read demo_env 2 12 demo_key BP_VAR_R w1 = Ret ((True, Z_LONG 5), w2))"
proof -
  let ?v = "Z_STRING (demo_string 60 ''new'')"
  have v: "shareable ?v" "value_alive demo_kv ?v" "shareable (Z_LONG 5)" "value_alive demo_kv (Z_LONG 5)" by (simp_all add: shareable_def)
  note r = store_write_then_read [OF demo_hash demo_coherent demo_kv_ready(1) demo_owner(1) demo_kv_ready(2) demo_owner(1)]
  show ?thesis
    using r [OF _ v(1,2) refl, of demo_key] r [OF _ v(3,4) refl, of demo_key] demo_coherent
    by (fastforce simp: demo_owner demo_string_def)
qed

text \<open>
  A value the cache does not keep, written over one the cache holds, is not seen by the writer: when a
  connection is in step and caches \<open>c\<close> under a key, and its thread writes a number, \<open>NULL\<close>, a boolean or an enum
  under that key, the shared table holds the new value and the thread still reads \<open>c\<close>.
\<close>

theorem store_stale_read:
  assumes "coherent E w" "store_ready slots ok t th z st w" "zo_local_modcount z = st_modcount st"
    and "k = fst (pmmpthread_store_coerce E key)" "map_of (cache z) k = Some c" "pmmpthread_store_valid_local_cache_item c"
    and "shareable v" "\<not> pmmpthread_store_retain_in_local_cache v"
  shows "\<exists>s w1 w2. pmmpthread_store_write E t th (Some key) v False w = Ret (True, w1) \<and> stored_as (zo_owner z) v s \<and>
    map_option st_hash (props_of w1 (zo_ts z)) = Some (zh_update (e_hash E) k s (st_hash st)) \<and>
    pmmpthread_store_read E t th key BP_VAR_R w1 = Ret ((True, c), w2)"
  using stale_read_ok [OF assms] by auto

theorem store_stale_read_witness:
  "\<exists>w1 w2. pmmpthread_store_write demo_env 1 10 (Some demo_key) (Z_LONG 5) False demo_kv = Ret (True, w1) \<and>
     pmmpthread_store_read demo_env 1 10 demo_key BP_VAR_R w1 = Ret ((True, Z_STRING (demo_string 50 ''v'')), w2)"
proof -
  let ?c = "Z_STRING (demo_string 50 ''v'')"
  have a: "shareable (Z_LONG 5)" "\<not> pmmpthread_store_retain_in_local_cache (Z_LONG 5)" "pmmpthread_store_valid_local_cache_item ?c"
    "zo_local_modcount (demo_conn 1 3 p) = st_modcount (demo_store s n l)"
    "map_of (cache (demo_conn 1 3 (Some [(HStr ''k'', ?c)]))) (HStr ''k'') = Some ?c" for p s n l
    by (simp_all add: shareable_def demo_conn_def demo_store_def cache_def)
  from store_stale_read [OF demo_coherent demo_kv_ready(1) a(4) demo_coerce [symmetric] a(5,3,1,2)] show ?thesis by blast
qed



text \<open>
  A value that cannot be shared (an array that is not to be converted, an object that is not thread-safe,
  a socket with a stream, a closure bound to an object that is not thread-safe or with static or by-reference
  variables) is refused: the write reports failure and no store and no connection changes.
\<close>

theorem store_write_refused:
  assumes "store_ready slots ok t th z st w" "\<not> shareable v"
  shows "\<exists>w'. pmmpthread_store_write E t th key v False w = Ret (False, w') \<and> props_of w' = props_of w \<and> zobjs w' = zobjs w \<and>
    monitors w' = monitors w"
  using assms by (rule write_refused_ok)

theorem store_write_refused_witness:
  "\<not> shareable (Z_ARRAY []) \<and> (\<exists>w'. pmmpthread_store_write demo_env 1 10 (Some demo_key) (Z_ARRAY []) False demo_kv = Ret (False, w'))"
proof -
  have "\<not> shareable (Z_ARRAY [])" by (simp add: shareable_def)
  with store_write_refused [OF demo_kv_ready(1) this, of demo_env "Some demo_key"] show ?thesis by blast
qed

section \<open>Strings that outlive their thread\<close>

text \<open>
  Before a thread gives up its connection, \<open>pmmpthread_store_persist_local_properties\<close> replaces every string
  the thread owns in the store by a copy that is permanent or in persistent memory and has the same
  content; every other entry, the keys and their order stay as they are. So no entry of the store refers to a
  string of that thread afterwards.
\<close>

theorem store_persist_keeps_content:
  assumes "zend_hash (e_hash E) slots ok" "store_ready slots ok t th z st w"
  shows "\<exists>w' h. pmmpthread_store_persist_local_properties E t th w = Ret ((), w') \<and>
    props_of w' = (props_of w)(zo_ts z \<mapsto> st\<lparr>st_hash := h\<rparr>) \<and>
    list_all2 (\<lambda>(k, v) (k', v'). k' = k \<and> persisted t v v') (zh_foreach (e_hash E) (st_hash st)) (zh_foreach (e_hash E) h)"
proof -
  have r: "zobjs w th = Some z" "props_of w (zo_ts z) = Some st" "store_inv slots ok st"
    "mutex_avail (Suc (Suc 0)) t (mon_mutex (monitors w (zo_ts z)))" using assms(2) by (auto simp: store_ready_def)
  have ok: "ok (st_hash st)" using r(3) by (simp add: store_inv_def)
  obtain h w1 where p: "persist_entries (e_hash E) t (zh_foreach (e_hash E) (st_hash st)) (st_hash st) w = (h, w1)" by fastforce
  have q: "same_tables w w1" "list_all2 (\<lambda>(k, v) (k', v'). k' = k \<and> persisted t v v') (zh_foreach (e_hash E) (st_hash st)) (zh_foreach (e_hash E) h)"
    using persist_entries_ok [OF assms(1) ok p] by auto
  have p1: "props_of w1 = props_of w" "monitors w1 = monitors w" using q(1) by (auto simp: same_tables_def props_of_def fun_eq_iff)
  have ps: "props_of w1 (zo_ts z) = Some st" using p1(1) r(2) by simp
  obtain w2 where w2: "upd_props (zo_ts z) (\<lambda>st. st\<lparr>st_hash := h\<rparr>) w1 = Ret w2"
    "props_of w2 = (props_of w1)(zo_ts z \<mapsto> st\<lparr>st_hash := h\<rparr>)" "monitors w2 = monitors w1"
    using upd_props_ok [OF ps, of "\<lambda>st. st\<lparr>st_hash := h\<rparr>"] by blast
  obtain ob where ob: "ts_objs w (zo_ts z) = Some ob" "o_props ob = st" using store_ready_ts [OF assms(2)] by blast
  have "pmmpthread_store_persist_local_properties E t th w = Ret ((), w2)"
    unfolding pmmpthread_store_persist_local_properties_def using r(1) ob p w2(1,3) p1(2) avail_mono [OF r(4), of "Suc 0"]
    by (auto simp: Let_def intro!: ts_locked_eq)
  then show ?thesis using w2(2) p1(1) q(2) by auto
qed

theorem store_persist_keeps_content_witness:
  "\<exists>w' h. pmmpthread_store_persist_local_properties demo_env 1 10 demo_kv = Ret ((), w') \<and>
     (\<exists>s. zh_foreach bt_api h = [(HStr ''k'', Z_STRING s)] \<and> zs_val s = ''v'' \<and> (zs_permanent s \<or> zs_persistent s))"
proof -
  have f: "zh_foreach bt_api (st_hash (demo_store demo_strings 0 None)) =
      [(HStr ''k'', Z_PTR (STORE_TYPE_STRING_PTR (demo_string 50 ''v'') \<lparr>ident_id = 1, ident_ls = 1\<rparr>))]"
    by (simp add: bt_api_def demo_store_def demo_strings_def)
  have e: "e_hash demo_env = bt_api" by (simp add: demo_env_def)
  from store_persist_keeps_content [OF demo_hash demo_kv_ready(1)] obtain w' h where
    "pmmpthread_store_persist_local_properties demo_env 1 10 demo_kv = Ret ((), w')"
    "list_all2 (\<lambda>(k, v) (k', v'). k' = k \<and> persisted 1 v v') [(HStr ''k'', Z_PTR (STORE_TYPE_STRING_PTR (demo_string 50 ''v'')
      \<lparr>ident_id = 1, ident_ls = 1\<rparr>))] (zh_foreach bt_api h)"
    unfolding e f by blast
  then show ?thesis by (auto simp: list_all2_Cons1 persisted_def demo_string_def)
qed

section \<open>Where the store goes wrong\<close>

text \<open>
  Eight entries, with a string key so that the table is a hash; then an entry in the middle is deleted, the last
  is taken off, and two values are appended, the second of which finds the buckets used up and the
  table compacted.
\<close>

definition demo_eight :: "zval slots" where
  "demo_eight = Some (HStr ''a'', Z_TRUE) # map (\<lambda>n. Some (HInt (int n), Z_LONG (int n))) [0, 1, 2, 3, 4, 5, 6]"

definition demo_append :: "zval btable world \<Rightarrow> zval btable world outcome" where
  "demo_append w = obind (pmmpthread_store_write demo_env 1 10 None (Z_LONG 9) False w) (\<lambda>(_, w1). Ret w1)"

definition demo_rehash :: "((zval option \<times> nat) \<times> zval btable world) outcome" where
  "demo_rehash =
     obind (pmmpthread_store_delete demo_env 1 10 (Z_LONG 1) (demo_world None (demo_store demo_eight 7 None))) (\<lambda>(_, w1).
     obind (pmmpthread_store_pop demo_env 1 10 w1) (\<lambda>(_, w2).
     obind (demo_append w2) (\<lambda>w3.
     obind (demo_append w3) (\<lambda>w4.
     obind (pmmpthread_store_count demo_env 1 10 w4) (\<lambda>(n, w5).
     obind (pmmpthread_store_pop demo_env 1 10 w5) (\<lambda>(v, w6). Ret ((v, n), w6)))))))"

text \<open>
  The cached position of the last element can be wrong after an append that makes the table compact its
  buckets: there is a sequence of a delete, a pop and two appends after which \<open>pop\<close> returns \<open>NULL\<close> although the
  store holds eight elements.
\<close>

theorem store_pop_after_rehash: "\<exists>w. demo_rehash = Ret ((Some Z_NULL, 8), w)"
proof -
  have "obind demo_rehash (\<lambda>(r, w). Ret r) = Ret (Some Z_NULL, 8)" by code_simp
  then show ?thesis by (auto simp: obind_Ret_iff)
qed

text \<open>
  \<open>empty()\<close> is true of every stored string that starts with the digit zero, not only of the string that
  consists of it.
\<close>

theorem store_empty_leading_zero:
  assumes "store_ready slots ok t th z st w" "zs_val s = CHR ''0'' # cs"
    and "zh_find (e_hash E) (fst (pmmpthread_store_coerce E key)) (st_hash st) \<in>
      {Some (Z_STRING s), Some (Z_PTR (STORE_TYPE_STRING_PTR s owner))}"
  shows "pmmpthread_store_isset E t th key ZEND_PROPERTY_NOT_EMPTY w = Ret (False, w)"
  using assms(2,3) isset_eq [OF assms(1), of E key ZEND_PROPERTY_NOT_EMPTY] by (auto simp: string_counts_empty_def)

definition demo_zero :: "zval slots" where
  "demo_zero = [Some (HStr ''k'', Z_STRING (demo_string 50 ''0.5''))]"

theorem store_empty_leading_zero_witness:
  "pmmpthread_store_isset demo_env 1 10 demo_key ZEND_PROPERTY_NOT_EMPTY (demo_world None (demo_store demo_zero 0 None)) =
     Ret (False, demo_world None (demo_store demo_zero 0 None))"
proof -
  have i: "store_inv bt_slots bt_ok (demo_store demo_zero 0 None)"
    by (simp add: store_inv_def demo_store_def demo_zero_def bt_ok_def bounds_ok_def next_ok_def)
  have "zs_val (demo_string 50 ''0.5'') = CHR ''0'' # ''.5''" by (simp add: demo_string_def)
  moreover have "zh_find (e_hash demo_env) (HStr ''k'') (st_hash (demo_store demo_zero 0 None)) = Some (Z_STRING (demo_string 50 ''0.5''))"
    by (simp add: demo_env_def bt_api_def demo_store_def demo_zero_def)
  ultimately show ?thesis
    by (intro store_empty_leading_zero [OF demo_ready(1) [OF i], of "demo_string 50 ''0.5''"]) (simp_all add: demo_coerce)
qed

text \<open>
  The copy of a stored enum that merging makes shares the strings of the original, and both are given back
  when they are destroyed: a name that is not permanent is freed twice.
\<close>

theorem store_enum_copy_double_free:
  assumes "\<not> zs_permanent c" "pmmpthread_store_hard_copy_storage (Z_PTR (STORE_TYPE_ENUM c m)) w = (copy, w')"
  shows "zs_ptr c \<in> set (pmmpthread_store_storage_dtor (Some (Z_PTR (STORE_TYPE_ENUM c m)))) \<inter> set (pmmpthread_store_storage_dtor (Some copy))"
  using assms by (auto simp: pmmpthread_store_hard_copy_storage_def pmmpthread_store_storage_dtor_def)

theorem store_enum_copy_double_free_witness:
  "50 \<in> set (pmmpthread_store_storage_dtor (Some (fst (pmmpthread_store_hard_copy_storage
     (Z_PTR (STORE_TYPE_ENUM (demo_string 50 ''Suit'') (demo_string 51 ''Hearts''))) demo_kv))))"
proof -
  have "\<not> zs_permanent (demo_string 50 ''Suit'')" "zs_ptr (demo_string 50 ''Suit'') = 50" by (simp_all add: demo_string_def)
  then show ?thesis
    using store_enum_copy_double_free [of "demo_string 50 ''Suit''" "demo_string 51 ''Hearts''" demo_kv] by (metis IntD2 prod.collapse)
qed

text \<open>
  A full synchronisation, as \<open>join\<close> does it, of an object that holds a thread-safe object which has been destroyed
  takes the object pointer of the value \<open>NULL\<close> it restored instead: it faults.
\<close>

theorem store_full_sync_faults:
  "full_sync 2 demo_env 1 10 (demo_world None (demo_store [Some (HStr ''k'', Z_PTR (STORE_TYPE_THREADSAFE_OBJECT 99))] 0 None)) = Some Fault"
proof -
  have "case full_sync 2 demo_env 1 10 (demo_world None (demo_store [Some (HStr ''k'', Z_PTR (STORE_TYPE_THREADSAFE_OBJECT 99))] 0 None)) of
      Some Fault \<Rightarrow> True | _ \<Rightarrow> False"
    by code_simp
  then show ?thesis by (auto split: option.splits outcome.splits)
qed

end
