(* ===== verification/Object_Life.thy ===== *)
theory Object_Life
  imports Store_Properties
begin

text \<open>
  The life of a thread-safe object (src/object.c): the constructors with the default values of the properties, the destructor,
  the release of a connection and of the shared part, and the iterator. The theorems count the connections of a
  shared part and follow an iteration from the first entry to the last.
\<close>

section \<open>Scopes (src/thread.h)\<close>

definition PMMPTHREAD_SCOPE_THREAD :: nat where "PMMPTHREAD_SCOPE_THREAD = push_bit 2 1"
definition PMMPTHREAD_SCOPE_WORKER :: nat where "PMMPTHREAD_SCOPE_WORKER = push_bit 3 1"

definition PMMPTHREAD_IS_THREAD :: "'h pmmpthread_object_t \<Rightarrow> bool" where
  "PMMPTHREAD_IS_THREAD ob \<longleftrightarrow> o_scope ob AND PMMPTHREAD_SCOPE_THREAD \<noteq> 0"

definition PMMPTHREAD_IS_WORKER :: "'h pmmpthread_object_t \<Rightarrow> bool" where
  "PMMPTHREAD_IS_WORKER ob \<longleftrightarrow> o_scope ob AND PMMPTHREAD_SCOPE_WORKER \<noteq> 0"

section \<open>Constructors\<close>

text \<open>
  What a constructor looks at in a class: whether it is a \<open>ThreadSafeArray\<close>, its declared properties, the property tables of the class
  and its ancestors (\<open>pi_object\<close>: neither static nor virtual; \<open>pi_offset\<close>: its slot), and the default values
  the engine puts into the slots.
\<close>

record zend_property_info =
  pi_name :: zend_string
  pi_object :: bool
  pi_offset :: nat

record zend_class_entry =
  ce_array :: bool
  ce_declared :: "hkey list"
  ce_chain :: "zend_property_info list list"
  ce_slots :: "nat \<Rightarrow> zval"

text \<open>
  The loop over the properties of one class: a default that cannot be shared ends the loop of that class with an error, and the
  loop over the ancestors goes on. A value that was written leaves its slot.
\<close>

fun write_class_defaults ::
  "'h store_env \<Rightarrow> (string \<rightharpoonup> zend_string) \<Rightarrow> tid \<Rightarrow> addr \<Rightarrow> zend_property_info list \<Rightarrow> (nat \<Rightarrow> zval) \<Rightarrow> 'h world \<Rightarrow>
     ((nat \<Rightarrow> zval) \<times> 'h world) outcome"
where
  "write_class_defaults E permanent t base [] slots w = Ret (slots, w)"
| "write_class_defaults E permanent t base (info # infos) slots w =
     (if \<not> pi_object info then write_class_defaults E permanent t base infos slots w
      else
        obind (pmmpthread_globals_add_interned_string permanent t (pi_name info) w) (\<lambda>(interned, w1).
        obind (of_mem interned) (\<lambda>name.
        if slots (pi_offset info) = Z_UNDEF then write_class_defaults E permanent t base infos slots w1
        else
          obind (pmmpthread_store_write E t base (Some (Z_STRING name)) (slots (pi_offset info)) False w1) (\<lambda>(ok, w2).
          if \<not> ok then Ret (slots, throw t (NonThreadSafeDefault (HStr (zs_val name))) w2)
          else write_class_defaults E permanent t base infos (slots(pi_offset info := Z_UNDEF)) w2))))"

fun pmmpthread_base_write_property_defaults ::
  "'h store_env \<Rightarrow> (string \<rightharpoonup> zend_string) \<Rightarrow> tid \<Rightarrow> addr \<Rightarrow> zend_property_info list list \<Rightarrow> (nat \<Rightarrow> zval) \<Rightarrow> 'h world \<Rightarrow>
     'h world outcome"
where
  "pmmpthread_base_write_property_defaults E permanent t base [] slots w = Ret w"
| "pmmpthread_base_write_property_defaults E permanent t base (c # chain) slots w =
     obind (write_class_defaults E permanent t base c slots w) (\<lambda>(slots1, w1).
       pmmpthread_base_write_property_defaults E permanent t base chain slots1 w1)"

definition pmmpthread_base_ctor ::
  "'h store_env \<Rightarrow> (string \<rightharpoonup> zend_string) \<Rightarrow> tid \<Rightarrow> addr \<Rightarrow> zend_class_entry \<Rightarrow> nat \<Rightarrow> 'h world \<Rightarrow> 'h world outcome"
where
  "pmmpthread_base_ctor E permanent t base entry scope w =
     obind (upd_zobj base (\<lambda>z. z\<lparr>zo_owner := \<lparr>ident_id = e_self E t, ident_ls = t\<rparr>, zo_worker := False,
                                 zo_array := ce_array entry, zo_declared := ce_declared entry, zo_properties := None\<rparr>) w) (\<lambda>w1.
     obind
       (case z_connecting w1 t of
          Some original \<Rightarrow> obind (pmmpthread_connect t (Some original) (Some base) w1) (\<lambda>(_, w2). Ret w2)
        | None \<Rightarrow>
            (case pmmpthread_ts_object_ctor (e_hash E) t (e_self E t) (e_monitor E) scope w1 of
               (ts, w2) \<Rightarrow>
                 obind (upd_zobj base (\<lambda>z. z\<lparr>zo_ts := ts\<rparr>) w2) (\<lambda>w3.
                 pmmpthread_base_write_property_defaults E permanent t base (ce_chain entry) (ce_slots entry) w3))) (\<lambda>w4.
     base_ctor_link t base w4))"

definition pmmpthread_thread_ctor ::
  "'h store_env \<Rightarrow> (string \<rightharpoonup> zend_string) \<Rightarrow> tid \<Rightarrow> zend_class_entry \<Rightarrow> 'h world \<Rightarrow> (addr \<times> 'h world) outcome"
where
  "pmmpthread_thread_ctor E permanent t entry w =
     obind (pmmpthread_globals_object_alloc t w) (\<lambda>(thread, w1).
     obind (pmmpthread_base_ctor E permanent t thread entry PMMPTHREAD_SCOPE_THREAD w1) (\<lambda>w2. Ret (thread, w2)))"

definition pmmpthread_worker_ctor ::
  "'h store_env \<Rightarrow> (string \<rightharpoonup> zend_string) \<Rightarrow> tid \<Rightarrow> zend_class_entry \<Rightarrow> 'h world \<Rightarrow> (addr \<times> 'h world) outcome"
where
  "pmmpthread_worker_ctor E permanent t entry w =
     obind (pmmpthread_globals_object_alloc t w) (\<lambda>(worker, w1).
     obind (pmmpthread_base_ctor E permanent t worker entry PMMPTHREAD_SCOPE_WORKER w1) (\<lambda>w2.
     obind (fetch_object worker w2) (\<lambda>z.
     obind (fetch_ts (zo_ts z) w2) (\<lambda>ob.
     obind (if PMMPTHREAD_IN_CREATOR t ob then upd_zobj worker (\<lambda>z. z\<lparr>zo_worker := True\<rparr>) w2 else Ret w2) (\<lambda>w3.
     Ret (worker, w3))))))"

definition pmmpthread_threaded_base_ctor ::
  "'h store_env \<Rightarrow> (string \<rightharpoonup> zend_string) \<Rightarrow> tid \<Rightarrow> zend_class_entry \<Rightarrow> 'h world \<Rightarrow> (addr \<times> 'h world) outcome"
where
  "pmmpthread_threaded_base_ctor E permanent t entry w =
     obind (pmmpthread_globals_object_alloc t w) (\<lambda>(threaded, w1).
     obind (pmmpthread_base_ctor E permanent t threaded entry 0 w1) (\<lambda>w2. Ret (threaded, w2)))"

definition pmmpthread_threaded_array_ctor ::
  "'h store_env \<Rightarrow> (string \<rightharpoonup> zend_string) \<Rightarrow> tid \<Rightarrow> zend_class_entry \<Rightarrow> 'h world \<Rightarrow> (addr \<times> 'h world) outcome"
where
  "pmmpthread_threaded_array_ctor E permanent t entry w =
     obind (pmmpthread_globals_object_alloc t w) (\<lambda>(threaded, w1).
     obind (pmmpthread_base_ctor E permanent t threaded entry 0 w1) (\<lambda>w2. Ret (threaded, w2)))"

section \<open>Destructor and release\<close>

definition object_check :: "tid \<Rightarrow> addr \<Rightarrow> pmmpthread_monitor_state_t \<Rightarrow> 'h world \<Rightarrow> (bool \<times> 'h world) outcome" where
  "object_check t ts state w =
     obind (pmmpthread_monitor_check t (monitors w ts) state) (\<lambda>(r, m).
       Ret (r \<noteq> 0, w\<lparr>monitors := (monitors w)(ts := m)\<rparr>))"

text \<open>
  \<open>user_join\<close> is the call of the method \<open>join\<close>, which a class may override, \<open>join\<close> is \<open>pmmpthread_join\<close>, and \<open>destruct\<close> is the engine's
  call of the destructor method.
\<close>

definition pmmpthread_base_dtor ::
  "tid \<Rightarrow> addr \<Rightarrow> ('h world \<Rightarrow> 'h world outcome) \<Rightarrow> ('h world \<Rightarrow> 'h world outcome) \<Rightarrow> ('h world \<Rightarrow> 'h world outcome) \<Rightarrow>
     'h world \<Rightarrow> 'h world outcome"
where
  "pmmpthread_base_dtor t th user_join join destruct w =
     obind (fetch_object th w) (\<lambda>z.
     obind (fetch_ts (zo_ts z) w) (\<lambda>ob.
     obind
       (if PMMPTHREAD_IN_CREATOR t ob \<and> (PMMPTHREAD_IS_THREAD ob \<or> PMMPTHREAD_IS_WORKER ob) then
          obind (object_check t (zo_ts z) PMMPTHREAD_MONITOR_STARTED w) (\<lambda>(started, w1).
            if \<not> started then Ret w1
            else
              obind (object_check t (zo_ts z) PMMPTHREAD_MONITOR_JOINED w1) (\<lambda>(joined, w2).
                if joined then Ret w2
                else
                  obind (user_join w2) (\<lambda>w3.
                  obind (object_check t (zo_ts z) PMMPTHREAD_MONITOR_JOINED w3) (\<lambda>(joined2, w4).
                    if \<not> joined2 then join w4 else Ret w4))))
        else Ret w) destruct))"

definition pmmpthread_ts_object_free :: "'h store_env \<Rightarrow> tid \<Rightarrow> addr \<Rightarrow> 'h world \<Rightarrow> (unit \<times> 'h world) outcome" where
  "pmmpthread_ts_object_free E t base w =
     obind (fetch_object base w) (\<lambda>z.
     obind (ts_locked t (zo_ts z)
              (\<lambda>w. obind (upd_props (zo_ts z) (pmmpthread_store_destroy (e_hash E)) w) (\<lambda>w1. Ret ((), w1))) () w) (\<lambda>(_, w1).
     obind (pmmpthread_monitor_destroy (monitors w1 (zo_ts z))) (\<lambda>_.
     Ret ((), w1\<lparr>ts_objs := (ts_objs w1)(zo_ts z := None)\<rparr>))))"

text \<open>
  The release of a connection by the thread that owns it. The data of a worker are released by the function of the theory of
  workers. The reference count is decremented and tested in one expression.
\<close>

definition pmmpthread_base_free :: "'h store_env \<Rightarrow> tid \<Rightarrow> addr \<Rightarrow> 'h world \<Rightarrow> 'h world outcome" where
  "pmmpthread_base_free E t base w =
     obind (fetch_object base w) (\<lambda>z.
     let w1 = (if z_resolve w t (zo_ts z) = Some base
               then w\<lparr>z_resolve := (z_resolve w)(t := (z_resolve w t)(zo_ts z := None))\<rparr> else w);
         w2 = (if z_shared_globals w1 t = Some base
               then w1\<lparr>z_shared_globals := (z_shared_globals w1)(t := None)\<rparr> else w1)
     in
     obind (globals_locked t
       (\<lambda>w.
         obind (fetch_ts (zo_ts z) w) (\<lambda>ob.
         obind (upd_ts (zo_ts z) (\<lambda>ob. ob\<lparr>o_refcount := o_refcount ob - 1\<rparr>) w) (\<lambda>w3.
         obind (if o_refcount ob = 1 then pmmpthread_ts_object_free E t base w3
                else pmmpthread_store_persist_local_properties E t base w3) (\<lambda>(_, w4).
         obind (pmmpthread_globals_object_delete t (Some base) w4) (\<lambda>(_, w5).
         Ret ((), if g_shared_globals w5 = Some base then w5\<lparr>g_shared_globals := None\<rparr> else w5)))))) () w2) (\<lambda>(_, w6).
     Ret (w6\<lparr>zobjs := (zobjs w6)(base := None)\<rparr>)))"

text \<open>What a connection reports to the cycle collector: \<open>extra\<close> is \<open>pmmpthread_worker_get_gc_extra\<close> for a worker.\<close>

definition pmmpthread_base_gc :: "'v list \<Rightarrow> pmmpthread_zend_object_t \<Rightarrow> 'v list \<times> (hkey \<times> zval) list option" where
  "pmmpthread_base_gc extra z = (if zo_worker z then extra else [], zo_properties z)"

section \<open>Iterator\<close>

record pmmpthread_iterator_t =
  it_data :: zval
  it_object :: addr
  it_position :: "nat option"

definition pmmpthread_object_iterator_validate :: "pmmpthread_iterator_t \<Rightarrow> bool" where
  "pmmpthread_object_iterator_validate it \<longleftrightarrow> it_position it \<noteq> None"

definition pmmpthread_object_iterator_current_data ::
  "'h store_env \<Rightarrow> tid \<Rightarrow> pmmpthread_iterator_t \<Rightarrow> 'h world \<Rightarrow> ((zval \<times> pmmpthread_iterator_t) \<times> 'h world) outcome"
where
  "pmmpthread_object_iterator_current_data E t it w =
     obind (pmmpthread_store_data E t (it_object it) (it_position it) w) (\<lambda>(v, w1).
       Ret ((if v = Z_UNDEF then Z_NULL else v, it\<lparr>it_data := v\<rparr>), w1))"

definition pmmpthread_object_iterator_current_key ::
  "'h store_env \<Rightarrow> tid \<Rightarrow> pmmpthread_iterator_t \<Rightarrow> 'h world \<Rightarrow> (zval \<times> 'h world) outcome"
where
  "pmmpthread_object_iterator_current_key E t it w = pmmpthread_store_key E t (it_object it) (it_position it) w"

definition pmmpthread_object_iterator_move_forward ::
  "'h store_env \<Rightarrow> tid \<Rightarrow> pmmpthread_iterator_t \<Rightarrow> 'h world \<Rightarrow> (pmmpthread_iterator_t \<times> 'h world) outcome"
where
  "pmmpthread_object_iterator_move_forward E t it w =
     obind (pmmpthread_store_forward E t (it_object it) (it_position it) w) (\<lambda>(p, w1). Ret (it\<lparr>it_position := p\<rparr>, w1))"

definition pmmpthread_object_iterator_rewind ::
  "'h store_env \<Rightarrow> tid \<Rightarrow> pmmpthread_iterator_t \<Rightarrow> 'h world \<Rightarrow> (pmmpthread_iterator_t \<times> 'h world) outcome"
where
  "pmmpthread_object_iterator_rewind E t it w =
     obind (pmmpthread_store_reset E t (it_object it) (it_position it) w) (\<lambda>(p, w1). Ret (it\<lparr>it_position := p\<rparr>, w1))"

text \<open>The values the iterator holds, for the cycle collector.\<close>

definition pmmpthread_object_iterator_get_gc :: "pmmpthread_iterator_t \<Rightarrow> zval list" where
  "pmmpthread_object_iterator_get_gc it = (if it_data it \<noteq> Z_UNDEF then [it_data it] else [])"

text \<open>The zeroed position of a new iterator is the bucket zero.\<close>

definition pmmpthread_object_iterator_create ::
  "'h store_env \<Rightarrow> tid \<Rightarrow> addr \<Rightarrow> bool \<Rightarrow> 'h world \<Rightarrow> (pmmpthread_iterator_t option \<times> 'h world) outcome"
where
  "pmmpthread_object_iterator_create E t object by_ref w =
     (if by_ref then Ret (None, throw t IterationByReference w)
      else
        obind (pmmpthread_store_reset E t object (Some 0) w) (\<lambda>(p, w1).
          Ret (Some \<lparr>it_data = Z_UNDEF, it_object = object, it_position = p\<rparr>, w1)))"

text \<open>The values dropped with an iterator.\<close>

definition pmmpthread_object_iterator_dtor :: "pmmpthread_iterator_t \<Rightarrow> zval list" where
  "pmmpthread_object_iterator_dtor it = (if it_data it \<noteq> Z_UNDEF then [it_data it] else []) @ [Z_THREADSAFE (it_object it)]"

text \<open>
  The engine's loop over an iterator (\<open>foreach\<close>): value, key, step, until the iterator is no longer valid. \<open>n\<close> bounds the
  number of turns; \<open>None\<close> is running out of turns.
\<close>

fun iterate ::
  "nat \<Rightarrow> 'h store_env \<Rightarrow> tid \<Rightarrow> pmmpthread_iterator_t \<Rightarrow> 'h world \<Rightarrow> ((zval \<times> zval) list \<times> 'h world) outcome option"
where
  "iterate 0 E t it w = None"
| "iterate (Suc n) E t it w =
     (if \<not> pmmpthread_object_iterator_validate it then Some (Ret ([], w))
      else
        case obind (pmmpthread_object_iterator_current_data E t it w) (\<lambda>((v, it1), w1).
             obind (pmmpthread_object_iterator_current_key E t it1 w1) (\<lambda>(k, w2).
             obind (pmmpthread_object_iterator_move_forward E t it1 w2) (\<lambda>(it2, w3). Ret ((k, v), it2, w3)))) of
          Ret (kv, it2, w3) \<Rightarrow>
            map_option (\<lambda>r. obind r (\<lambda>(kvs, w4). Ret (kv # kvs, w4))) (iterate n E t it2 w3)
        | Block \<Rightarrow> Some Block
        | Fault \<Rightarrow> Some Fault)"

section \<open>Iteration\<close>

lemma current_drop: "current_at s p = (case entries (drop p s) of [] \<Rightarrow> None | e # _ \<Rightarrow> Some e)"
proof -
  let ?j = "length (takeWhile is_hole (drop p s))"
  have e: "entries (drop p s) = (if ?j < length (drop p s) then the (drop p s ! ?j) # entries (drop (Suc ?j) (drop p s)) else [])"
    by (rule entries_first_slot)
  show ?thesis
  proof (cases "?j < length (drop p s)")
    case True
    then have "drop p s ! ?j \<noteq> None" by (rule takeWhile_slot)
    then show ?thesis using True e by (auto simp: current_at_def valid_pos_def)
  next
    case False
    then have "\<not> valid_pos s p < length s" unfolding valid_pos_def length_drop by linarith
    then show ?thesis using e False by (simp add: current_at_def)
  qed
qed

lemma drop_valid_pos: "entries (drop (valid_pos s p) s) = entries (drop p s)"
proof -
  have "drop (valid_pos s p) s = dropWhile is_hole (drop p s)"
    by (simp add: valid_pos_def dropWhile_eq_drop add.commute)
  moreover have "entries (dropWhile is_hole xs) = entries xs" for xs :: "'v slots"
    by (induction xs) auto
  ultimately show ?thesis by simp
qed

lemma forward_drop:
  assumes "entries (drop p s) = e # es"
  shows "\<exists>q. forward_pos s p = Some q \<and> entries (drop q s) = es"
proof -
  let ?j = "length (takeWhile is_hole (drop p s))"
  have "?j < length (drop p s)" "entries (drop (Suc ?j) (drop p s)) = es"
    using assms entries_first_slot [of "drop p s"] by (auto split: if_splits)
  then have "valid_pos s p < length s" "entries (drop (valid_pos s p + 1) s) = es"
    by (auto simp: valid_pos_def add.commute)
  then show ?thesis by (simp add: forward_pos_def drop_valid_pos)
qed

lemma coherent_same_objects:
  assumes "coherent E w" "grows w w'" "zobjs w' = zobjs w" "props_of w' = props_of w"
  shows "coherent E w'"
  using assms conn_ok_grows [OF _ assms(2)] unfolding coherent_but_def by fastforce

lemma reads_as_grows: "reads_as E t w s x \<Longrightarrow> stored_alive w s \<Longrightarrow> grows w w' \<Longrightarrow> reads_as E t w' s x"
  by (auto simp: reads_as_def intro: stands_for_grows matches_grows)

lemma reads_defined: "is_storage s \<Longrightarrow> reads_as E t w s x \<Longrightarrow> x \<noteq> Z_UNDEF"
proof (cases s)
  case (Z_PTR st)
  assume "reads_as E t w s x"
  with Z_PTR show ?thesis by (cases st) (auto simp: reads_as_def split: option.splits if_splits)
qed (auto simp: reads_as_def)

text \<open>A key as the iterator returns it.\<close>

definition key_reads :: "hkey \<Rightarrow> zval \<Rightarrow> bool" where
  "key_reads k x = (case k of HInt n \<Rightarrow> x = Z_LONG n | HStr s \<Rightarrow> \<exists>str. x = Z_STRING str \<and> zs_val str = s)"

text \<open>A store ready to be iterated by the thread of the connection: all values are alive and every key is the one it is coerced to.\<close>

definition iterable ::
  "'h store_env \<Rightarrow> ('h \<Rightarrow> zval slots) \<Rightarrow> ('h \<Rightarrow> bool) \<Rightarrow> tid \<Rightarrow> addr \<Rightarrow> pmmpthread_zend_object_t \<Rightarrow> 'h pmmpthread_store_t \<Rightarrow> 'h world \<Rightarrow> bool"
where
  "iterable E slots ok t th z st w \<longleftrightarrow>
     zend_hash (e_hash E) slots ok \<and> store_ready slots ok t th z st w \<and> coherent E w \<and> ident_ls (zo_owner z) = t \<and>
     (\<forall>(k, v) \<in> set (entries (slots (st_hash st))). stored_alive w v \<and> fst (pmmpthread_store_coerce E (key_zval k)) = k)"

lemma iterable_after:
  assumes "iterable E slots ok t th z st w" "grows w w'" "world_ok w'" "coherent E w'" "props_of w' = props_of w"
    and "monitors w' = monitors w" "g_monitor w' = g_monitor w"
  shows "\<exists>z'. iterable E slots ok t th z' st w' \<and> zo_ts z' = zo_ts z"
proof -
  note i = assms(1) [unfolded iterable_def]
  have "props_of w' (zo_ts z) = Some st" "store_inv slots ok st" using i assms(5) by (auto simp: store_ready_def)
  from ready_after [OF conjunct1 [OF conjunct2 [OF i]] assms(2,3) this(2,1) assms(6,7)]
  obtain z' where "store_ready slots ok t th z' st w'" "zo_ts z' = zo_ts z" "zo_owner z' = zo_owner z" by blast
  then show ?thesis
    using i assms(4) stored_alive_grows [OF _ assms(2)] unfolding iterable_def by fastforce
qed

lemma iterable_lock:
  assumes "iterable E slots ok t th z st w" "body w = Ret (r, w')" "monitors w' = monitors w"
  shows "ts_locked t (zo_ts z) body d w = Ret (r, w')"
proof -
  have "mutex_avail (Suc 0) t (mon_mutex (monitors w (zo_ts z)))"
    using assms(1) avail_mono [of "Suc (Suc 0)" t _ "Suc 0"] by (auto simp: iterable_def store_ready_def)
  then show ?thesis using assms(2,3) by (intro ts_locked_eq) simp_all
qed

lemma iterable_current:
  assumes "iterable E slots ok t th z st w" "entries (drop p (slots (st_hash st))) = (k, s) # es"
  shows "current_key (e_hash E) (st_hash st) (Some p) = Some k" "zh_find (e_hash E) k (st_hash st) = Some s"
    "fst (pmmpthread_store_coerce E (key_zval k)) = k" "stored_alive w s" "is_storage s"
proof -
  note i = assms(1) [unfolded iterable_def]
  have h: "zend_hash (e_hash E) slots ok" "ok (st_hash st)" using i by (auto simp: store_ready_def store_inv_def)
  have "entries (slots (st_hash st)) = entries (take p (slots (st_hash st))) @ (k, s) # es"
    using assms(2) by (metis append_take_drop_id entries_append)
  then have m: "(k, s) \<in> set (entries (slots (st_hash st)))" by simp
  then show "fst (pmmpthread_store_coerce E (key_zval k)) = k" "stored_alive w s" using i by auto
  show "is_storage s" using i m by (auto simp: store_ready_def store_inv_def)
  show "current_key (e_hash E) (st_hash st) (Some p) = Some k"
    using assms(2) by (simp add: current_key_def zend_hash.current_law [OF h] current_drop)
  show "zh_find (e_hash E) k (st_hash st) = Some s"
    using m by (simp add: zend_hash.find_law [OF h] zend_hash.keys_distinct [OF h])
qed

text \<open>One turn of the iteration.\<close>

lemma iterate_data:
  assumes "iterable E slots ok t th z st w" "entries (drop p (slots (st_hash st))) = (k, s) # es" "it_object it = th" "it_position it = Some p"
  shows "\<exists>x z' w'. pmmpthread_object_iterator_current_data E t it w = Ret ((x, it\<lparr>it_data := x\<rparr>), w') \<and> reads_as E t w' s x \<and>
    iterable E slots ok t th z' st w' \<and> zo_ts z' = zo_ts z \<and> grows w w'"
proof -
  note i = assms(1) [unfolded iterable_def] and c = iterable_current [OF assms(1,2)]
  have r: "zobjs w th = Some z" "store_ready slots ok t th z st w" using i by (auto simp: store_ready_def)
  obtain ob where ob: "ts_objs w (zo_ts z) = Some ob" "o_props ob = st" using store_ready_ts [OF r(2)] by blast
  obtain x w' where x: "pmmpthread_store_read E t th (key_zval k) BP_VAR_R w = Ret ((True, x), w')" "reads_as E t w' s x"
    "coherent E w'" "world_ok w'" "grows w w'" "props_of w' = props_of w" "monitors w' = monitors w" "g_monitor w' = g_monitor w"
    using read_ok [of E slots ok t th z st w "\<lambda>_. {}" "key_zval k" k s] i c by auto
  have d: "pmmpthread_store_data E t th (Some p) w = Ret (x, w')"
    unfolding pmmpthread_store_data_def
    using r(1) ob c(1) x(1,7) by (auto simp: Let_def intro!: iterable_lock [OF assms(1)])
  have "pmmpthread_object_iterator_current_data E t it w = Ret ((x, it\<lparr>it_data := x\<rparr>), w')"
    using d assms(3,4) reads_defined [OF c(5) x(2)] by (simp add: pmmpthread_object_iterator_current_data_def)
  then show ?thesis using x iterable_after [OF assms(1) x(5,4,3,6-8)] by blast
qed

lemma iterate_key:
  assumes "iterable E slots ok t th z st w" "entries (drop p (slots (st_hash st))) = (k, s) # es" "it_object it = th" "it_position it = Some p"
  shows "\<exists>x z' w'. pmmpthread_object_iterator_current_key E t it w = Ret (x, w') \<and> key_reads k x \<and>
    iterable E slots ok t th z' st w' \<and> zo_ts z' = zo_ts z \<and> grows w w'"
proof -
  note i = assms(1) [unfolded iterable_def] and c = iterable_current [OF assms(1,2)]
  have r: "zobjs w th = Some z" "store_ready slots ok t th z st w" "world_ok w" using i by (auto simp: store_ready_def)
  obtain ob where ob: "ts_objs w (zo_ts z) = Some ob" "o_props ob = st" using store_ready_ts [OF r(2)] by blast
  show ?thesis
  proof (cases k)
    case (HInt n)
    have "pmmpthread_store_key E t th (Some p) w = Ret (Z_LONG n, w)"
      unfolding pmmpthread_store_key_def
      using r(1) ob c(1) HInt by (auto intro!: iterable_lock [OF assms(1)])
    then show ?thesis
      using assms HInt by (auto simp: pmmpthread_object_iterator_current_key_def key_reads_def intro!: exI [of _ z])
  next
    case (HStr str)
    obtain s1 w1 where s1: "zend_string_init str False w = (s1, w1)" by fastforce
    have f: "same_tables w w1" "zs_val s1 = str" "grows w w1" using string_init_tables [OF s1] string_init_frame [OF s1] by auto
    have p: "props_of w1 = props_of w" "zobjs w1 = zobjs w" using f(1) by (auto simp: same_tables_def props_of_def fun_eq_iff)
    have "pmmpthread_store_key E t th (Some p) w = Ret (Z_STRING s1, w1)"
      unfolding pmmpthread_store_key_def
      using r(1) ob c(1) HStr s1 f(1) by (auto simp: same_tables_def intro!: iterable_lock [OF assms(1)])
    moreover have "coherent E w1" using coherent_same_objects [OF _ f(3) p(2,1)] i by blast
    ultimately show ?thesis
      using iterable_after [OF assms(1) f(3) _ _ p(1)] f r(3) assms(3,4) HStr
      by (auto simp: pmmpthread_object_iterator_current_key_def key_reads_def same_tables_def)
  qed
qed

lemma iterate_forward:
  assumes "iterable E slots ok t th z st w" "entries (drop p (slots (st_hash st))) = (k, s) # es" "it_object it = th" "it_position it = Some p"
  shows "\<exists>q. pmmpthread_object_iterator_move_forward E t it w = Ret (it\<lparr>it_position := (if es = [] then None else Some q)\<rparr>, w) \<and>
    entries (drop q (slots (st_hash st))) = es"
proof -
  note i = assms(1) [unfolded iterable_def]
  have r: "zobjs w th = Some z" "store_ready slots ok t th z st w" using i by (auto simp: store_ready_def)
  have h: "zend_hash (e_hash E) slots ok" "ok (st_hash st)" using i by (auto simp: store_ready_def store_inv_def)
  obtain ob where ob: "ts_objs w (zo_ts z) = Some ob" "o_props ob = st" using store_ready_ts [OF r(2)] by blast
  obtain q where q: "forward_pos (slots (st_hash st)) p = Some q" "entries (drop q (slots (st_hash st))) = es"
    using forward_drop [OF assms(2)] by blast
  have f: "zh_forward (e_hash E) (st_hash st) p = Some q" using q(1) by (simp add: zend_hash.forward_law [OF h])
  have k: "current_key (e_hash E) (st_hash st) (Some q) = None \<longleftrightarrow> es = []"
    using q(2) by (cases es) (auto simp: current_key_def zend_hash.current_law [OF h] current_drop)
  have "pmmpthread_store_forward E t th (Some p) w = Ret (if es = [] then None else Some q, w)"
    unfolding pmmpthread_store_forward_def
    using r(1) ob f k by (auto simp: Let_def intro!: iterable_lock [OF assms(1)])
  then show ?thesis using q(2) assms(3,4) by (auto simp: pmmpthread_object_iterator_move_forward_def)
qed

lemma iterate_from:
  assumes "iterable E slots ok t th z st w" "entries (drop p (slots (st_hash st))) = es" "it_object it = th"
    and "it_position it = (if es = [] then None else Some p)" "length es < n"
  shows "\<exists>kvs w'. iterate n E t it w = Some (Ret (kvs, w')) \<and> grows w w' \<and> coherent E w' \<and>
    list_all2 (\<lambda>(k, s) (kx, x). key_reads k kx \<and> reads_as E t w' s x) es kvs"
  using assms
proof (induction es arbitrary: n p it w z)
  case Nil
  then show ?case by (cases n) (auto simp: pmmpthread_object_iterator_validate_def iterable_def)
next
  case (Cons e es)
  obtain m where n: "n = Suc m" "length es < m" using Cons.prems(5) by (cases n) auto
  obtain k s where e: "e = (k, s)" by (cases e)
  note en = Cons.prems(2) [unfolded e] and ip = Cons.prems(3) Cons.prems(4)
  have pos: "it_position it = Some p" using ip(2) by simp
  obtain x z1 w1 where d: "pmmpthread_object_iterator_current_data E t it w = Ret ((x, it\<lparr>it_data := x\<rparr>), w1)" "reads_as E t w1 s x"
    "iterable E slots ok t th z1 st w1" "grows w w1" using iterate_data [OF Cons.prems(1) en ip(1) pos] by blast
  obtain kx z2 w2 where k: "pmmpthread_object_iterator_current_key E t (it\<lparr>it_data := x\<rparr>) w1 = Ret (kx, w2)" "key_reads k kx"
    "iterable E slots ok t th z2 st w2" "grows w1 w2"
    using iterate_key [OF d(3) en, of "it\<lparr>it_data := x\<rparr>"] ip(1) pos by auto
  obtain q where q: "pmmpthread_object_iterator_move_forward E t (it\<lparr>it_data := x\<rparr>) w2 =
      Ret (it\<lparr>it_data := x, it_position := (if es = [] then None else Some q)\<rparr>, w2)" "entries (drop q (slots (st_hash st))) = es"
    using iterate_forward [OF k(3) en, of "it\<lparr>it_data := x\<rparr>"] ip(1) pos by auto
  let ?it = "it\<lparr>it_data := x, it_position := (if es = [] then None else Some q)\<rparr>"
  obtain kvs w' where ih: "iterate m E t ?it w2 = Some (Ret (kvs, w'))" "grows w2 w'" "coherent E w'"
    "list_all2 (\<lambda>(k, s) (kx, x). key_reads k kx \<and> reads_as E t w' s x) es kvs"
    using Cons.IH [OF k(3) q(2), of ?it m] ip(1) n(2) by auto
  have "stored_alive w1 s" using iterable_current(4) [OF d(3) en] .
  then have "reads_as E t w' s x" using reads_as_grows [OF d(2) _ grows_trans [OF k(4) ih(2)]] by blast
  then show ?case
    using n(1) pos d(1) k(1,2) q(1) ih e grows_trans [OF d(4) grows_trans [OF k(4) ih(2)]]
    by (simp add: pmmpthread_object_iterator_validate_def)
qed

lemma conn_ok_first [simp]: "conn_ok E K w z (st\<lparr>st_first := x\<rparr>) = conn_ok E K w z st"
  by (simp add: conn_ok_def cached_ok_def)

lemma iterable_entries: "iterable E slots ok t th z st w \<Longrightarrow> zh_foreach (e_hash E) (st_hash st) = entries (slots (st_hash st))"
  by (auto simp: iterable_def store_ready_def store_inv_def zend_hash.foreach_law)

text \<open>A new iterator stands before the first entry; finding it may be remembered in the store.\<close>

lemma iterator_create_ok:
  assumes "iterable E slots ok t th z st w"
  shows "\<exists>it p st' z' w'. pmmpthread_object_iterator_create E t th False w = Ret (Some it, w') \<and> it_object it = th \<and>
    it_position it = (if entries (slots (st_hash st)) = [] then None else Some p) \<and> st_hash st' = st_hash st \<and>
    iterable E slots ok t th z' st' w' \<and> entries (drop p (slots (st_hash st))) = entries (slots (st_hash st))"
proof -
  note i = assms [unfolded iterable_def]
  have r: "zobjs w th = Some z" "store_ready slots ok t th z st w" "world_ok w" "props_of w (zo_ts z) = Some st"
    using i by (auto simp: store_ready_def)
  have h: "zend_hash (e_hash E) slots ok" "ok (st_hash st)" "store_inv slots ok st" using i by (auto simp: store_ready_def store_inv_def)
  obtain ob where ob: "ts_objs w (zo_ts z) = Some ob" "o_props ob = st" using store_ready_ts [OF r(2)] by blast
  let ?s = "slots (st_hash st)"
  show ?thesis
  proof (cases "st_first st")
    case (Some p)
    then have p: "first_ok ?s p" "?s \<noteq> []" using h(3) by (auto simp: store_inv_def bounds_ok_def)
    have "entries ?s \<noteq> []" using p(2) zend_hash.slots_trimmed [OF h(1,2) p(2)] last_in_set [OF p(2)] by (force simp: entries_eq_Nil)
    moreover have "pmmpthread_store_reset E t th (Some 0) w = Ret (Some p, w)"
      unfolding pmmpthread_store_reset_def using r(1) ob Some by (auto intro!: iterable_lock [OF assms])
    ultimately show ?thesis
      using assms first_ok_drop [OF p(1)] by (auto simp: pmmpthread_object_iterator_create_def intro!: exI [of _ p] exI [of _ st] exI [of _ z])
  next
    case None
    define p where "p = zh_reset (e_hash E) (st_hash st)"
    have p: "first_ok ?s p" by (simp add: p_def zend_hash.reset_law [OF h(1,2)] first_ok_reset)
    have c: "zh_current (e_hash E) (st_hash st) p = None \<longleftrightarrow> entries ?s = []"
      using current_first [OF p] by (cases "entries ?s") (simp_all add: zend_hash.current_law [OF h(1,2)])
    show ?thesis
    proof (cases "entries ?s = []")
      case True
      then have "pmmpthread_store_reset E t th (Some 0) w = Ret (None, w)"
        unfolding pmmpthread_store_reset_def using r(1) ob None c by (auto simp: Let_def p_def intro!: iterable_lock [OF assms])
      then show ?thesis
        using True assms by (auto simp: pmmpthread_object_iterator_create_def intro!: exI [of _ 0] exI [of _ st] exI [of _ z])
    next
      case False
      let ?st = "st\<lparr>st_first := Some p\<rparr>"
      obtain w' where w': "upd_props (zo_ts z) (\<lambda>st. st\<lparr>st_first := Some p\<rparr>) w = Ret w'"
        "props_of w' = (props_of w)(zo_ts z \<mapsto> ?st)" "same_objects w w'" "world_ok w'" "zobjs w' = zobjs w"
        using upd_props_ok [OF r(4), of "\<lambda>st. st\<lparr>st_first := Some p\<rparr>"] r(3) by auto
      have reset: "pmmpthread_store_reset E t th (Some 0) w = Ret (Some p, w')"
        unfolding pmmpthread_store_reset_def
        using r(1) ob None c False w'(1,3) by (auto simp: Let_def p_def same_objects_def intro!: iterable_lock [OF assms])
      have "store_inv slots ok ?st" using h(3) p False by (auto simp: store_inv_def bounds_ok_def)
      then have ready: "store_ready slots ok t th z ?st w'"
        using r(2) w' by (simp add: store_ready_def same_objects_def)
      have "coherent E w'"
        using conjunct1 [OF conjunct2 [OF conjunct2 [OF i]]] w'(2,5) r(4) conn_ok_grows [OF _ same_objects_grows [OF w'(3)]]
        by (auto simp: coherent_but_def split: if_splits)
      then have "iterable E slots ok t th z ?st w'"
        using i ready stored_alive_grows [OF _ same_objects_grows [OF w'(3)]] by (auto simp: iterable_def)
      then show ?thesis
        using reset False first_ok_drop [OF p]
        by (auto simp: pmmpthread_object_iterator_create_def intro!: exI [of _ p] exI [of _ ?st] exI [of _ z])
    qed
  qed
qed

section \<open>Counting connections\<close>

text \<open>
  The connections of a shared part, and the invariant of the reference count: every shared part is referred to by as many
  connections as it counts, and by at least one.
\<close>

definition connections :: "'h world \<Rightarrow> addr \<Rightarrow> addr set" where
  "connections w ts = {a. \<exists>z. zobjs w a = Some z \<and> zo_ts z = ts}"

definition refs_ok :: "'h world \<Rightarrow> bool" where
  "refs_ok w \<longleftrightarrow> (\<forall>ts ob. ts_objs w ts = Some ob \<longrightarrow>
     finite (connections w ts) \<and> connections w ts \<noteq> {} \<and> o_refcount ob = card (connections w ts))"

lemma connections_upd:
  "connections (w\<lparr>zobjs := (zobjs w)(a \<mapsto> z)\<rparr>) ts = (if zo_ts z = ts then insert a (connections w ts) else connections w ts - {a})"
  by (auto simp: connections_def)

lemma connected_counts:
  assumes "refs_ok w" "zobjs w a = Some z" "ts_objs w (zo_ts z) = Some ob" "zobjs w (addrs w 0) = None"
  shows "refs_ok (connected_world t oid z ob w)" "connections (connected_world t oid z ob w) (zo_ts z) = insert (addrs w 0) (connections w (zo_ts z))"
proof -
  have c: "connections (connected_world t oid z ob w) ts = (if ts = zo_ts z then insert (addrs w 0) (connections w ts) else connections w ts)" for ts
    using assms(4) by (auto simp: connections_def connected_world_def new_connection_def)
  have n: "addrs w 0 \<notin> connections w ts" for ts using assms(4) by (simp add: connections_def)
  show "connections (connected_world t oid z ob w) (zo_ts z) = insert (addrs w 0) (connections w (zo_ts z))" by (simp add: c)
  show "refs_ok (connected_world t oid z ob w)"
    using assms(1,3) n unfolding refs_ok_def c by (auto simp: connected_world_def)
qed

text \<open>The persistence of the thread's strings, as the release of a connection runs it.\<close>

lemma persist_frame:
  assumes "zend_hash (e_hash E) slots ok" "ok (st_hash (o_props ob))" "zobjs w th = Some z" "ts_objs w (zo_ts z) = Some ob"
    and "mutex_avail (Suc 0) t (mon_mutex (monitors w (zo_ts z)))"
  shows "\<exists>w' h. pmmpthread_store_persist_local_properties E t th w = Ret ((), w') \<and>
    ts_objs w' = (ts_objs w)(zo_ts z \<mapsto> ob\<lparr>o_props := (o_props ob)\<lparr>st_hash := h\<rparr>\<rparr>) \<and> zobjs w' = zobjs w \<and> g_objects w' = g_objects w \<and>
    z_resolve w' = z_resolve w \<and> g_monitor w' = g_monitor w \<and> monitors w' = monitors w \<and> (world_ok w \<longrightarrow> world_ok w') \<and>
    list_all2 (\<lambda>(k, v) (k', v'). k' = k \<and> persisted t v v') (zh_foreach (e_hash E) (st_hash (o_props ob))) (zh_foreach (e_hash E) h)"
proof -
  obtain h w1 where p: "persist_entries (e_hash E) t (zh_foreach (e_hash E) (st_hash (o_props ob))) (st_hash (o_props ob)) w = (h, w1)"
    by fastforce
  have q: "same_tables w w1" "list_all2 (\<lambda>(k, v) (k', v'). k' = k \<and> persisted t v v') (zh_foreach (e_hash E) (st_hash (o_props ob))) (zh_foreach (e_hash E) h)"
    using persist_entries_ok [OF assms(1,2) p] by auto
  let ?w = "w1\<lparr>ts_objs := (ts_objs w1)(zo_ts z \<mapsto> ob\<lparr>o_props := (o_props ob)\<lparr>st_hash := h\<rparr>\<rparr>)\<rparr>"
  have u: "upd_props (zo_ts z) (\<lambda>st. st\<lparr>st_hash := h\<rparr>) w1 = Ret ?w"
    using q(1) assms(4) by (simp add: upd_props_def upd_ts_def cell_upd_def same_tables_def)
  have "pmmpthread_store_persist_local_properties E t th w = Ret ((), ?w)"
    unfolding pmmpthread_store_persist_local_properties_def
    using assms(3,4) p u q(1) by (auto simp: Let_def same_tables_def intro!: ts_locked_eq assms(5))
  moreover have "world_ok w1 \<longrightarrow> world_ok ?w"
    by (intro impI, rule world_ok_frame [of w1]) (use q(1) assms(4) in \<open>auto simp: same_tables_def\<close>)
  ultimately show ?thesis using q by (intro exI [of _ ?w] exI [of _ h]) (simp add: same_tables_def)
qed

lemma ts_object_free_eq:
  assumes "zobjs w th = Some z" "ts_objs w (zo_ts z) = Some ob" "mutex_avail (Suc 0) t (mon_mutex (monitors w (zo_ts z)))"
    and "mx_owner (mon_mutex (monitors w (zo_ts z))) = None" "mon_cond (monitors w (zo_ts z)) = {}"
  shows "pmmpthread_ts_object_free E t th w = Ret ((), w\<lparr>ts_objs := (ts_objs w)(zo_ts z := None)\<rparr>)"
proof -
  let ?w = "w\<lparr>ts_objs := (ts_objs w)(zo_ts z \<mapsto> ob\<lparr>o_props := pmmpthread_store_destroy (e_hash E) (o_props ob)\<rparr>)\<rparr>"
  have "ts_locked t (zo_ts z) (\<lambda>w. obind (upd_props (zo_ts z) (pmmpthread_store_destroy (e_hash E)) w) (\<lambda>w1. Ret ((), w1))) () w = Ret ((), ?w)"
    by (rule ts_locked_eq) (use assms in \<open>auto simp: upd_props_def upd_ts_def cell_upd_def\<close>)
  then show ?thesis using assms by (simp add: pmmpthread_ts_object_free_def pmmpthread_monitor_destroy_def)
qed

lemma world_ok_resolve: "world_ok w \<Longrightarrow> z_resolve w t ts = Some c \<Longrightarrow> \<exists>z. zobjs w c = Some z \<and> zo_ts z = ts \<and> ident_ls (zo_owner z) = t"
  unfolding world_ok_def by blast

lemma world_ok_live: "world_ok w \<Longrightarrow> a \<in> g_objects w \<Longrightarrow> \<exists>z ob. zobjs w a = Some z \<and> ts_objs w (zo_ts z) = Some ob"
  unfolding world_ok_def by blast

text \<open>The links of a connection that its thread keeps, removed before the connection is released.\<close>

definition unlinked :: "tid \<Rightarrow> addr \<Rightarrow> pmmpthread_zend_object_t \<Rightarrow> 'h world \<Rightarrow> 'h world" where
  "unlinked t base z w =
     (let w1 = (if z_resolve w t (zo_ts z) = Some base
                then w\<lparr>z_resolve := (z_resolve w)(t := (z_resolve w t)(zo_ts z := None))\<rparr> else w)
      in if z_shared_globals w1 t = Some base then w1\<lparr>z_shared_globals := (z_shared_globals w1)(t := None)\<rparr> else w1)"

lemma unlinked_simps [simp]:
  "zobjs (unlinked t base z w) = zobjs w" "ts_objs (unlinked t base z w) = ts_objs w" "g_objects (unlinked t base z w) = g_objects w"
  "monitors (unlinked t base z w) = monitors w" "g_monitor (unlinked t base z w) = g_monitor w" "addrs (unlinked t base z w) = addrs w"
  by (simp_all add: unlinked_def Let_def)

lemma unlinked_resolve:
  "z_resolve (unlinked t base z w) u ts = (if u = t \<and> ts = zo_ts z \<and> z_resolve w t ts = Some base then None else z_resolve w u ts)"
  by (auto simp: unlinked_def Let_def)

lemma unlinked_gone:
  assumes "world_ok w" "zobjs w base = Some z" "ident_ls (zo_owner z) = t"
  shows "z_resolve (unlinked t base z w) u ts \<noteq> Some base"
proof
  assume l: "z_resolve (unlinked t base z w) u ts = Some base"
  then have "z_resolve w u ts = Some base" by (auto simp: unlinked_resolve split: if_splits)
  then have "u = t" "ts = zo_ts z" using assms world_ok_resolve [OF assms(1)] by fastforce+
  then show False using l \<open>z_resolve w u ts = Some base\<close> by (simp add: unlinked_resolve)
qed

lemma unlinked_world: "world_ok w \<Longrightarrow> zobjs w base = Some z \<Longrightarrow> world_ok (unlinked t base z w)"
  by (auto simp: world_ok_def unlinked_resolve split: if_splits)

text \<open>What the release leaves: \<open>part\<close> is the shared part afterwards.\<close>

definition released :: "addr \<Rightarrow> pmmpthread_zend_object_t \<Rightarrow> 'h pmmpthread_object_t option \<Rightarrow> 'h world \<Rightarrow> 'h world \<Rightarrow> bool" where
  "released base z part w w' \<longleftrightarrow>
     ts_objs w' = (ts_objs w)(zo_ts z := part) \<and> zobjs w' = (zobjs w)(base := None) \<and> g_objects w' = g_objects w - {base} \<and>
     monitors w' = monitors w \<and> g_monitor w' = g_monitor w \<and> world_ok w'"

lemma connections_released: "released base z part w w' \<Longrightarrow> connections w' ts = connections w ts - {base}"
  by (auto simp: released_def connections_def)

lemma released_refs:
  assumes "released base z part w w'" "refs_ok w" "zobjs w base = Some z" "ts_objs w (zo_ts z) = Some ob"
    and "part = None \<longleftrightarrow> o_refcount ob = 1" "\<And>p. part = Some p \<Longrightarrow> o_refcount p = o_refcount ob - 1"
  shows "refs_ok w'"
  unfolding refs_ok_def connections_released [OF assms(1)]
proof (intro allI impI)
  fix ts p
  assume p: "ts_objs w' ts = Some p"
  have b: "base \<in> connections w ts \<longleftrightarrow> ts = zo_ts z" using assms(3) by (auto simp: connections_def)
  have c: "finite (connections w (zo_ts z))" "o_refcount ob = card (connections w (zo_ts z))" using assms(2,4) by (auto simp: refs_ok_def)
  show "finite (connections w ts - {base}) \<and> connections w ts - {base} \<noteq> {} \<and> o_refcount p = card (connections w ts - {base})"
  proof (cases "ts = zo_ts z")
    case True
    then have pp: "part = Some p" using p assms(1) by (simp add: released_def)
    then have "o_refcount ob \<noteq> 1" "o_refcount p = o_refcount ob - 1" using assms(5) assms(6) [OF pp] by simp_all
    moreover have "card (connections w ts - {base}) = o_refcount ob - 1" using True b c by (simp add: card_Diff_singleton)
    moreover have "card (connections w ts) \<noteq> 0" using True b c(1) by auto
    ultimately have "o_refcount p = card (connections w ts - {base})" "card (connections w ts - {base}) \<noteq> 0" using True c(2) by auto
    then show ?thesis using c(1) True by auto
  next
    case False
    then have "ts_objs w ts = Some p" using p assms(1) by (simp add: released_def)
    moreover have "connections w ts - {base} = connections w ts" using b False by blast
    ultimately show ?thesis using assms(2) unfolding refs_ok_def by simp
  qed
qed

lemma released_world:
  assumes "world_ok v" "zobjs v base = Some z" "\<And>u s. z_resolve v u s \<noteq> Some base"
    and "part = None \<Longrightarrow> connections v (zo_ts z) = {base}"
    and "zobjs v' = (zobjs v)(base := None)" "ts_objs v' = (ts_objs v)(zo_ts z := part)" "g_objects v' = g_objects v - {base}"
    and "z_resolve v' = z_resolve v" "addrs v' = addrs v" "ts_objs v (zo_ts z) \<noteq> None"
  shows "world_ok v'"
proof -
  have live: "\<exists>y ob. zobjs v' a = Some y \<and> ts_objs v' (zo_ts y) = Some ob" if l: "a \<in> g_objects v'" for a
  proof -
    obtain y ob where y: "zobjs v a = Some y" "ts_objs v (zo_ts y) = Some ob" "a \<noteq> base"
      using l assms(7) world_ok_live [OF assms(1), of a] by auto
    have "part \<noteq> None" if "zo_ts y = zo_ts z" using assms(4) y that by (auto simp: connections_def)
    then show ?thesis using y assms(5,6) by auto
  qed
  have res: "\<exists>y. zobjs v' c = Some y \<and> zo_ts y = s \<and> ident_ls (zo_owner y) = u" if "z_resolve v' u s = Some c" for u s c
  proof -
    have "c \<noteq> base" "z_resolve v u s = Some c" using that assms(3,8) by auto
    then show ?thesis using world_ok_resolve [OF assms(1)] assms(5) by fastforce
  qed
  have "addrs v n \<noteq> zo_ts z" for n using assms(1,10) unfolding world_ok_def by metis
  then have fresh: "inj (addrs v')" "\<forall>n. zobjs v' (addrs v' n) = None \<and> ts_objs v' (addrs v' n) = None"
    using assms(1,5,6,9,10) by (auto simp: world_ok_def)
  show ?thesis unfolding world_ok_def using live res fresh by blast
qed

lemma object_delete_eq:
  "mutex_avail (Suc 0) t (mon_mutex (g_monitor w)) \<Longrightarrow>
   pmmpthread_globals_object_delete t (Some a) w = Ret (a \<notin> g_objects w, w\<lparr>g_objects := g_objects w - {a}\<rparr>)"
  by (auto simp: pmmpthread_globals_object_delete_def intro!: globals_locked_eq)

text \<open>The last steps of the release: the connection leaves the tables and is freed.\<close>

definition closed :: "addr \<Rightarrow> 'h world \<Rightarrow> 'h world" where
  "closed base v =
     (let v1 = v\<lparr>g_objects := g_objects v - {base}\<rparr>;
          v2 = (if g_shared_globals v1 = Some base then v1\<lparr>g_shared_globals := None\<rparr> else v1)
      in v2\<lparr>zobjs := (zobjs v2)(base := None)\<rparr>)"

lemma closed_simps [simp]:
  "zobjs (closed base v) = (zobjs v)(base := None)" "ts_objs (closed base v) = ts_objs v" "g_objects (closed base v) = g_objects v - {base}"
  "monitors (closed base v) = monitors v" "g_monitor (closed base v) = g_monitor v" "addrs (closed base v) = addrs v"
  "z_resolve (closed base v) = z_resolve v"
  by (simp_all add: closed_def Let_def)

text \<open>The release with the choice it makes under the global lock left open.\<close>

lemma base_free_via:
  assumes "zobjs w base = Some z" "ts_objs w (zo_ts z) = Some ob" "mutex_avail (Suc (Suc 0)) t (mon_mutex (g_monitor w))"
    and v: "v = (unlinked t base z w)\<lparr>ts_objs := (ts_objs w)(zo_ts z \<mapsto> ob\<lparr>o_refcount := o_refcount ob - 1\<rparr>)\<rparr>"
    and "(if o_refcount ob = 1 then pmmpthread_ts_object_free E t base v else pmmpthread_store_persist_local_properties E t base v) = Ret ((), v')"
    and "g_monitor v' = g_monitor w"
  shows "pmmpthread_base_free E t base w = Ret (closed base v')"
proof -
  have g: "mutex_avail (Suc 0) t (mon_mutex (g_monitor w))" using avail_mono [OF assms(3), of "Suc 0"] by simp
  let ?body = "\<lambda>w. obind (fetch_ts (zo_ts z) w) (\<lambda>ob.
         obind (upd_ts (zo_ts z) (\<lambda>ob. ob\<lparr>o_refcount := o_refcount ob - 1\<rparr>) w) (\<lambda>w3.
         obind (if o_refcount ob = 1 then pmmpthread_ts_object_free E t base w3
                else pmmpthread_store_persist_local_properties E t base w3) (\<lambda>(_, w4).
         obind (pmmpthread_globals_object_delete t (Some base) w4) (\<lambda>(_, w5).
         Ret ((), if g_shared_globals w5 = Some base then w5\<lparr>g_shared_globals := None\<rparr> else w5)))))"
  let ?w5 = "v'\<lparr>g_objects := g_objects v' - {base}\<rparr>"
  let ?w6 = "if g_shared_globals ?w5 = Some base then ?w5\<lparr>g_shared_globals := None\<rparr> else ?w5"
  have u: "upd_ts (zo_ts z) (\<lambda>ob. ob\<lparr>o_refcount := o_refcount ob - 1\<rparr>) (unlinked t base z w) = Ret v"
    using assms(2) by (simp add: upd_ts_def cell_upd_def v)
  have "?body (unlinked t base z w) = Ret ((), ?w6)"
    using assms(2,5,6) u g by (simp add: object_delete_eq)
  then have "globals_locked t ?body () (unlinked t base z w) = Ret ((), ?w6)"
    by (rule globals_locked_eq [rotated]) (use g assms(6) in auto)
  then show ?thesis
    using assms(1) by (simp add: pmmpthread_base_free_def closed_def Let_def unlinked_def)
qed

definition idle :: "pmmpthread_monitor_t \<Rightarrow> bool" where
  "idle m \<longleftrightarrow> mx_owner (mon_mutex m) = None \<and> mon_cond m = {}"

lemma decremented_world:
  "world_ok w \<Longrightarrow> ts_objs w a = Some ob \<Longrightarrow> world_ok (w\<lparr>ts_objs := (ts_objs w)(a \<mapsto> ob\<lparr>o_refcount := n\<rparr>)\<rparr>)"
  by (rule world_ok_frame [of w]) auto

lemma base_free_last:
  assumes "world_ok w" "refs_ok w" "zobjs w base = Some z" "ts_objs w (zo_ts z) = Some ob" "ident_ls (zo_owner z) = t"
    and "mutex_avail (Suc (Suc 0)) t (mon_mutex (g_monitor w))" "mutex_avail (Suc 0) t (mon_mutex (monitors w (zo_ts z)))"
    and "idle (monitors w (zo_ts z))" "connections w (zo_ts z) = {base}"
  shows "\<exists>w'. pmmpthread_base_free E t base w = Ret w' \<and> released base z None w w' \<and> refs_ok w'"
proof -
  have n: "o_refcount ob = 1" using assms(2,4,9) by (auto simp: refs_ok_def)
  define v where "v = (unlinked t base z w)\<lparr>ts_objs := (ts_objs w)(zo_ts z \<mapsto> ob\<lparr>o_refcount := o_refcount ob - 1\<rparr>)\<rparr>"
  let ?v = "v\<lparr>ts_objs := (ts_objs v)(zo_ts z := None)\<rparr>"
  have f: "pmmpthread_ts_object_free E t base v = Ret ((), ?v)"
    by (rule ts_object_free_eq) (use assms in \<open>auto simp: v_def idle_def\<close>)
  have e: "pmmpthread_base_free E t base w = Ret (closed base ?v)"
    by (rule base_free_via [OF assms(3,4,6) v_def]) (use f n in \<open>auto simp: v_def\<close>)
  have wv: "world_ok v"
    using decremented_world [OF unlinked_world [OF assms(1,3)], of t "zo_ts z" ob "o_refcount ob - 1"] assms(4) by (simp add: v_def)
  have "world_ok (closed base ?v)"
    by (rule released_world [OF wv, of base z None])
      (use assms(3,4,9) unlinked_gone [OF assms(1,3,5)] in \<open>auto simp: v_def connections_def\<close>)
  then have "released base z None w (closed base ?v)" by (simp add: released_def v_def)
  then show ?thesis using e released_refs [OF _ assms(2-4)] n by blast
qed

lemma base_free_shared:
  assumes "zend_hash (e_hash E) slots ok" "ok (st_hash (o_props ob))"
    and "world_ok w" "refs_ok w" "zobjs w base = Some z" "ts_objs w (zo_ts z) = Some ob" "ident_ls (zo_owner z) = t"
    and "mutex_avail (Suc (Suc 0)) t (mon_mutex (g_monitor w))" "mutex_avail (Suc 0) t (mon_mutex (monitors w (zo_ts z)))"
    and "connections w (zo_ts z) \<noteq> {base}"
  shows "\<exists>w' h. pmmpthread_base_free E t base w = Ret w' \<and>
    released base z (Some (ob\<lparr>o_refcount := o_refcount ob - 1, o_props := (o_props ob)\<lparr>st_hash := h\<rparr>\<rparr>)) w w' \<and> refs_ok w' \<and>
    list_all2 (\<lambda>(k, v) (k', v'). k' = k \<and> persisted t v v') (zh_foreach (e_hash E) (st_hash (o_props ob))) (zh_foreach (e_hash E) h)"
proof -
  have b: "base \<in> connections w (zo_ts z)" using assms(5) by (simp add: connections_def)
  have n: "o_refcount ob \<noteq> 1" using assms(4,6,10) b by (auto simp: refs_ok_def card_1_singleton_iff)
  define ob1 where "ob1 = ob\<lparr>o_refcount := o_refcount ob - 1\<rparr>"
  define v where "v = (unlinked t base z w)\<lparr>ts_objs := (ts_objs w)(zo_ts z \<mapsto> ob\<lparr>o_refcount := o_refcount ob - 1\<rparr>)\<rparr>"
  have vs: "zobjs v base = Some z" "ts_objs v (zo_ts z) = Some ob1" "mutex_avail (Suc 0) t (mon_mutex (monitors v (zo_ts z)))"
    "ok (st_hash (o_props ob1))" using assms(2,5,9) by (simp_all add: v_def ob1_def)
  obtain v' h where p: "pmmpthread_store_persist_local_properties E t base v = Ret ((), v')"
    "ts_objs v' = (ts_objs v)(zo_ts z \<mapsto> ob1\<lparr>o_props := (o_props ob1)\<lparr>st_hash := h\<rparr>\<rparr>)" "zobjs v' = zobjs v" "g_objects v' = g_objects v"
    "z_resolve v' = z_resolve v" "g_monitor v' = g_monitor v" "monitors v' = monitors v" "world_ok v \<longrightarrow> world_ok v'"
    "list_all2 (\<lambda>(k, v) (k', v'). k' = k \<and> persisted t v v') (zh_foreach (e_hash E) (st_hash (o_props ob1))) (zh_foreach (e_hash E) h)"
    using persist_frame [OF assms(1) vs(4,1,2,3)] by blast
  have e: "pmmpthread_base_free E t base w = Ret (closed base v')"
    by (rule base_free_via [OF assms(5,6,8) v_def]) (use p(1,6) n in \<open>auto simp: v_def\<close>)
  have wv: "world_ok v'"
    using p(8) decremented_world [OF unlinked_world [OF assms(3,5)], of t "zo_ts z" ob "o_refcount ob - 1"] assms(6) by (simp add: v_def)
  let ?p = "ob\<lparr>o_refcount := o_refcount ob - 1, o_props := (o_props ob)\<lparr>st_hash := h\<rparr>\<rparr>"
  have "world_ok (closed base v')"
    by (rule released_world [OF wv, of base z "Some ?p"])
      (use assms(5,6) p unlinked_gone [OF assms(3,5,7)] in \<open>auto simp: v_def ob1_def\<close>)
  then have rel: "released base z (Some ?p) w (closed base v')" using p by (simp add: released_def v_def ob1_def)
  have "refs_ok (closed base v')" by (rule released_refs [OF rel assms(4-6)]) (use n in auto)
  then show ?thesis using e rel p(9) by (auto simp: ob1_def)
qed

section \<open>Properties\<close>

text \<open>
  C12: A loop over the iterator of a thread-safe object, with more turns than the store has entries, ends and yields
  every entry exactly once, in the order of the store, each with its key and with the value the thread reads for it; the local
  caches stay coherent.
\<close>

theorem object_iteration_complete:
  assumes "iterable E slots ok t th z st w" "length (zh_foreach (e_hash E) (st_hash st)) < n"
  shows "\<exists>it w1 kvs w2. pmmpthread_object_iterator_create E t th False w = Ret (Some it, w1) \<and>
    iterate n E t it w1 = Some (Ret (kvs, w2)) \<and> coherent E w2 \<and>
    list_all2 (\<lambda>(k, s) (kx, x). key_reads k kx \<and> reads_as E t w2 s x) (zh_foreach (e_hash E) (st_hash st)) kvs"
proof -
  note e = iterable_entries [OF assms(1)]
  obtain it p st' z' w1 where c: "pmmpthread_object_iterator_create E t th False w = Ret (Some it, w1)" "it_object it = th"
    "it_position it = (if entries (slots (st_hash st)) = [] then None else Some p)" "st_hash st' = st_hash st"
    "iterable E slots ok t th z' st' w1" "entries (drop p (slots (st_hash st))) = entries (slots (st_hash st))"
    using iterator_create_ok [OF assms(1)] by blast
  have "length (entries (slots (st_hash st))) < n" using assms(2) e by simp
  then show ?thesis
    using iterate_from [OF c(5), of p "entries (slots (st_hash st))" it n] c e by auto
qed

lemma demo_iterable:
  "iterable demo_env bt_slots bt_ok 1 10 (demo_conn 1 3 (Some [(HStr ''k'', Z_STRING (demo_string 50 ''v''))])) (demo_store demo_strings 0 None) demo_kv"
  using demo_hash demo_kv_ready(1) demo_coherent demo_owner(1)
  by (simp add: iterable_def demo_store_def demo_strings_def pmmpthread_store_coerce_def key_zval_def demo_env_def)

theorem object_iteration_complete_witness:
  "\<exists>it w1 k v w2. pmmpthread_object_iterator_create demo_env 1 10 False demo_kv = Ret (Some it, w1) \<and>
     iterate 2 demo_env 1 it w1 = Some (Ret ([(Z_STRING k, Z_STRING v)], w2)) \<and> zs_val k = ''k'' \<and> zs_val v = ''v''"
proof -
  have f: "zh_foreach (e_hash demo_env) (st_hash (demo_store demo_strings 0 None)) =
      [(HStr ''k'', Z_PTR (STORE_TYPE_STRING_PTR (demo_string 50 ''v'') \<lparr>ident_id = 1, ident_ls = 1\<rparr>))]"
    by (simp add: demo_foreach demo_strings_def)
  show ?thesis
    using object_iteration_complete [OF demo_iterable, of 2] unfolding f
    by (auto simp: list_all2_Cons1 key_reads_def reads_as_def demo_string_def)
qed

text \<open>
  C11: Connecting to a registered object returns a connection of the calling thread to the same shared part: the object
  itself if it is the thread's own, the one the thread has already, or a new one. The reference counts stay exact, and
  connecting again returns the same connection and changes nothing.
\<close>

theorem object_connect_counts:
  assumes "world_ok w" "refs_ok w" "mutex_avail 1 t (mon_mutex (g_monitor w))" "a \<in> g_objects w" "zobjs w a = Some z"
  shows "\<exists>c w' zc. pmmpthread_object_connect t oid (Some a) w = Ret (Some c, w') \<and> world_ok w' \<and> refs_ok w' \<and>
    zobjs w' c = Some zc \<and> zo_ts zc = zo_ts z \<and> ident_ls (zo_owner zc) = t \<and>
    connections w' (zo_ts z) = insert c (connections w (zo_ts z)) \<and> pmmpthread_object_connect t oid (Some a) w' = Ret (Some c, w')"
proof -
  have av: "mutex_avail (Suc 0) t (mon_mutex (g_monitor w))" using assms(3) by simp
  obtain ob where ob: "ts_objs w (zo_ts z) = Some ob" using world_ok_live [OF assms(1,4)] assms(5) by auto
  note fresh = world_ok_fresh [OF assms(1), of 0]
  note eq = object_connect_eq [OF av assms(4,5) ob fresh, of oid]
  have mine: "a \<in> connections w (zo_ts z)" using assms(5) by (simp add: connections_def)
  consider (own) "ident_ls (zo_owner z) = t" | (known) c where "ident_ls (zo_owner z) \<noteq> t" "z_resolve w t (zo_ts z) = Some c"
    | (fresh) "ident_ls (zo_owner z) \<noteq> t" "z_resolve w t (zo_ts z) = None" by (cases "z_resolve w t (zo_ts z)") auto
  then show ?thesis
  proof cases
    case own
    then show ?thesis using eq assms(1,2,5) mine by (auto simp: insert_absorb)
  next
    case (known c)
    obtain zc where "zobjs w c = Some zc" "zo_ts zc = zo_ts z" "ident_ls (zo_owner zc) = t"
      using world_ok_resolve [OF assms(1) known(2)] by blast
    moreover from this have "c \<in> connections w (zo_ts z)" by (simp add: connections_def)
    ultimately show ?thesis using eq known assms(1,2) by (auto simp: insert_absorb)
  next
    case fresh
    let ?w = "connected_world t oid z ob w"
    have ok: "world_ok ?w" using connected_world_ok [OF assms(1,5) ob assms(4)] .
    have "mutex_avail (Suc 0) t (mon_mutex (g_monitor ?w))" "a \<in> g_objects ?w" "zobjs ?w a = Some z"
      "ts_objs ?w (zo_ts z) = Some (ob\<lparr>o_refcount := o_refcount ob + 1\<rparr>)" "z_resolve ?w t (zo_ts z) = Some (addrs w 0)"
      using av assms(4,5) \<open>zobjs w (addrs w 0) = None\<close> by (auto simp: connected_world_def)
    note again = object_connect_eq [OF this(1-4) world_ok_fresh [OF ok, of 0], of oid] this(5)
    have "zobjs ?w (addrs w 0) = Some (new_connection t oid z ob)" by (simp add: connected_world_def)
    then show ?thesis
      using eq again fresh ok connected_counts [OF assms(2,5) ob \<open>zobjs w (addrs w 0) = None\<close>, of t oid] by (auto simp: new_connection_def)
  qed
qed

lemma demo_connections: "connections (demo_world p st) ts = (if ts = 20 then {10, 12} else {})"
  by (auto simp: connections_def demo_zobjs demo_conn_def split: if_splits)

lemma demo_refs: "refs_ok (demo_world p st)"
proof -
  have "ts_objs (demo_world p st) ts = (if ts = 20 then Some (demo_object st) else None)" for ts by (simp add: demo_world_def)
  then show ?thesis by (simp add: refs_ok_def demo_connections demo_object_def)
qed

theorem object_connect_counts_witness:
  "refs_ok demo_kv \<and> (\<exists>c w'. pmmpthread_object_connect 3 3 (Some 10) demo_kv = Ret (Some c, w') \<and> refs_ok w' \<and>
     connections w' 20 = {c, 10, 12})"
proof -
  have "mutex_avail 1 3 (mon_mutex (g_monitor demo_kv))" "(10::nat) \<in> g_objects demo_kv"
    "zobjs demo_kv 10 = Some (demo_conn 1 3 (Some [(HStr ''k'', Z_STRING (demo_string 50 ''v''))]))"
    by (simp_all add: demo_world_def)
  from object_connect_counts [OF demo_world_ok demo_refs this, of 3] show ?thesis
    by (auto simp: demo_connections demo_owner demo_refs)
qed

text \<open>
  C10: Releasing a connection keeps the reference counts exact and the tables consistent. The shared part is freed
  exactly when the connection is its last one; otherwise it loses one reference, every string the thread owns in the
  store is replaced by a permanent or persistent copy, and the other connections stay as they are.
\<close>

theorem object_free_counts:
  assumes "zend_hash (e_hash E) slots ok" "store_ready slots ok t base z st w" "refs_ok w" "ident_ls (zo_owner z) = t"
    and "mutex_avail 2 t (mon_mutex (g_monitor w))" "idle (monitors w (zo_ts z))"
  shows "\<exists>w'. pmmpthread_base_free E t base w = Ret w' \<and> world_ok w' \<and> refs_ok w' \<and>
    zobjs w' = (zobjs w)(base := None) \<and> g_objects w' = g_objects w - {base} \<and>
    (ts_objs w' (zo_ts z) = None \<longleftrightarrow> connections w (zo_ts z) = {base}) \<and>
    (\<forall>ob. ts_objs w' (zo_ts z) = Some ob \<longrightarrow>
       list_all2 (\<lambda>(k, v) (k', v'). k' = k \<and> persisted t v v') (zh_foreach (e_hash E) (st_hash st)) (zh_foreach (e_hash E) (st_hash (o_props ob))))"
proof -
  note r = assms(2) [unfolded store_ready_def]
  obtain ob where ob: "ts_objs w (zo_ts z) = Some ob" "o_props ob = st" using store_ready_ts [OF assms(2)] by blast
  have a: "world_ok w" "zobjs w base = Some z" "ok (st_hash (o_props ob))" "mutex_avail (Suc 0) t (mon_mutex (monitors w (zo_ts z)))"
    "mutex_avail (Suc (Suc 0)) t (mon_mutex (g_monitor w))"
    using r ob(2) assms(5) avail_mono [of "Suc (Suc 0)" t _ "Suc 0"] by (auto simp: store_inv_def numeral_2_eq_2)
  show ?thesis
  proof (cases "connections w (zo_ts z) = {base}")
    case True
    then show ?thesis
      using base_free_last [OF a(1) assms(3) a(2) ob(1) assms(4) a(5,4) assms(6) True, of E] by (auto simp: released_def)
  next
    case False
    then show ?thesis
      using base_free_shared [OF assms(1) a(3,1) assms(3) a(2) ob(1) assms(4) a(5,4) False] ob(2) by (auto simp: released_def)
  qed
qed

theorem object_free_counts_witness:
  "refs_ok demo_kv \<and> (\<exists>w'. pmmpthread_base_free demo_env 1 10 demo_kv = Ret w' \<and> refs_ok w' \<and> ts_objs w' 20 \<noteq> None \<and> zobjs w' 10 = None)"
proof -
  let ?p = "Some [(HStr ''k'', Z_STRING (demo_string 50 ''v''))]"
  have m: "mutex_avail 2 1 (mon_mutex (g_monitor demo_kv))" "idle (monitors demo_kv (zo_ts (demo_conn 1 3 ?p)))"
    by (simp_all add: demo_world_def idle_def demo_mon_def mutex_avail_def)
  from object_free_counts [OF demo_hash demo_kv_ready(1) demo_refs demo_owner(1) m] show ?thesis
    by (auto simp: demo_connections demo_owner demo_refs)
qed

end
