(* ===== verification/Handlers.thy ===== *)
theory Handlers
  imports Object_Life
begin

text \<open>
  The object handlers of src/handlers.c: what the engine calls for \<open>$object->property\<close> and \<open>$object[key]\<close>, for \<open>isset\<close> and \<open>unset\<close>,
  for counting, dumping and comparing thread-safe objects. The handlers decide between a magic method, a property hook, an error
  and the property store.
\<close>

unbundle bit_operations_syntax

section \<open>What the handlers use of the engine\<close>

text \<open>
  A hook or a magic method is a function on the world. Of a declared property: its (mangled) name, whether it is static or
  virtual, its hooks, the property it overrides first (\<open>hi_prototype\<close>), the type check (which may convert the value
  and throws when it refuses it), and whether setting it is restricted and allowed here.
\<close>

record 'h hook_info =
  hi_name :: zend_string
  hi_static :: bool
  hi_virtual :: bool
  hi_prototype :: nat
  hi_get :: "('h world \<Rightarrow> (zval \<times> 'h world) outcome) option"
  hi_set :: "(zval \<Rightarrow> 'h world \<Rightarrow> 'h world outcome) option"
  hi_hooked :: bool
  hi_verify :: "(bool \<Rightarrow> zval \<Rightarrow> 'h world \<Rightarrow> (zval option \<times> 'h world) outcome) option"
  hi_set_restricted :: bool
  hi_set_access :: bool

text \<open>The answer of \<open>zend_get_property_info\<close>: an inaccessible property, none, or a declared one.\<close>

datatype 'h info_result = ZEND_WRONG_PROPERTY_INFO | No_info | Info "'h hook_info"

text \<open>The frame that runs: the prototype of the property whose hook it is, its object, and whether it uses strict types.\<close>

record execute_data =
  ex_hook :: "nat option"
  ex_this :: addr
  ex_strict :: bool

text \<open>
  The class of the object and the engine around it. \<open>hc_warn\<close> is what a warning does: an error handler of the program may run.
\<close>

record 'h handler_class =
  hc_get :: "(zval \<Rightarrow> 'h world \<Rightarrow> (zval \<times> 'h world) outcome) option"
  hc_set :: "(zval \<Rightarrow> zval \<Rightarrow> 'h world \<Rightarrow> 'h world outcome) option"
  hc_isset :: "(zval \<Rightarrow> 'h world \<Rightarrow> (zval \<times> 'h world) outcome) option"
  hc_unset :: "(zval \<Rightarrow> 'h world \<Rightarrow> 'h world outcome) option"
  hc_info :: "string \<Rightarrow> 'h info_result"
  hc_frame :: "execute_data option"
  hc_warn :: "'h world \<Rightarrow> 'h world outcome"

definition zend_get_property_info :: "'h handler_class \<Rightarrow> tid \<Rightarrow> string \<Rightarrow> bool \<Rightarrow> 'h world \<Rightarrow> 'h info_result \<times> 'h world" where
  "zend_get_property_info C t member silent w =
     (hc_info C member,
      case hc_info C member of
        ZEND_WRONG_PROPERTY_INFO \<Rightarrow> if silent then w else throw t (InaccessibleProperty member) w
      | _ \<Rightarrow> w)"

section \<open>Guards\<close>

definition IN_SET :: "32 word" where "IN_SET = 2"

definition guard_set :: "addr \<Rightarrow> string \<Rightarrow> 32 word \<Rightarrow> 'h world \<Rightarrow> 'h world" where
  "guard_set object member flag w =
     w\<lparr>guards := (guards w)(object := (guards w object)(member := guards w object member OR flag))\<rparr>"

definition guard_clear :: "addr \<Rightarrow> string \<Rightarrow> 32 word \<Rightarrow> 'h world \<Rightarrow> 'h world" where
  "guard_clear object member flag w =
     w\<lparr>guards := (guards w)(object := (guards w object)(member := guards w object member AND NOT flag))\<rparr>"

text \<open>A magic method runs with the guard of its object, member and kind set.\<close>

definition with_guard :: "addr \<Rightarrow> string \<Rightarrow> 32 word \<Rightarrow> ('h world \<Rightarrow> ('r \<times> 'h world) outcome) \<Rightarrow> 'h world \<Rightarrow> ('r \<times> 'h world) outcome" where
  "with_guard object member flag call w =
     obind (call (guard_set object member flag w)) (\<lambda>(r, w1). Ret (r, guard_clear object member flag w1))"

definition free_to_call :: "addr \<Rightarrow> string \<Rightarrow> 32 word \<Rightarrow> 'h world \<Rightarrow> bool" where
  "free_to_call object member flag w \<longleftrightarrow> guards w object member AND flag = 0"

section \<open>Counting, dumping, dimensions\<close>

definition pmmpthread_count_properties :: "'h store_env \<Rightarrow> tid \<Rightarrow> addr \<Rightarrow> 'h world \<Rightarrow> (nat \<times> 'h world) outcome" where
  "pmmpthread_count_properties E t object w = pmmpthread_store_count E t object w"

definition pmmpthread_read_debug :: "'h store_env \<Rightarrow> tid \<Rightarrow> addr \<Rightarrow> 'h world \<Rightarrow> ((hkey \<times> zval) list \<times> 'h world) outcome" where
  "pmmpthread_read_debug E t object w = pmmpthread_store_tohash E t object (Some []) w"

definition pmmpthread_read_properties :: "'h store_env \<Rightarrow> tid \<Rightarrow> addr \<Rightarrow> 'h world \<Rightarrow> ((hkey \<times> zval) list \<times> 'h world) outcome" where
  "pmmpthread_read_properties E t object w =
     obind (pmmpthread_store_init_local_properties object w) (\<lambda>w1. pmmpthread_store_tohash E t object None w1)"

text \<open>\<open>None\<close> is the null pointer: no direct access to a property.\<close>

definition pmmpthread_get_property_ptr_ptr_stub :: "addr \<Rightarrow> string \<Rightarrow> addr option" where
  "pmmpthread_get_property_ptr_ptr_stub object member = None"

text \<open>The value the returned pointer points to, and what the caller's \<open>rv\<close> holds afterwards.\<close>

definition pmmpthread_read_dimension ::
  "'h store_env \<Rightarrow> tid \<Rightarrow> addr \<Rightarrow> zval \<Rightarrow> fetch_type \<Rightarrow> 'h world \<Rightarrow> ((zval \<times> zval) \<times> 'h world) outcome"
where
  "pmmpthread_read_dimension E t object member type w =
     obind (pmmpthread_store_read E t object member type w) (\<lambda>((ok, rv), w1).
       Ret ((if \<not> ok \<and> exceptions w1 t = None then Z_NULL else rv, rv), w1))"

definition pmmpthread_write_dimension ::
  "'h store_env \<Rightarrow> tid \<Rightarrow> addr \<Rightarrow> zval option \<Rightarrow> zval \<Rightarrow> 'h world \<Rightarrow> 'h world outcome"
where
  "pmmpthread_write_dimension E t object member v w =
     obind (pmmpthread_store_write E t object member v False w) (\<lambda>(ok, w1).
       Ret (if \<not> ok \<and> exceptions w1 t = None then throw t NonThreadSafeValue w1 else w1))"

definition pmmpthread_has_dimension ::
  "'h store_env \<Rightarrow> tid \<Rightarrow> addr \<Rightarrow> zval \<Rightarrow> has_set_exists \<Rightarrow> 'h world \<Rightarrow> (bool \<times> 'h world) outcome"
where
  "pmmpthread_has_dimension E t object member mode w = pmmpthread_store_isset E t object member mode w"

definition pmmpthread_unset_dimension :: "'h store_env \<Rightarrow> tid \<Rightarrow> addr \<Rightarrow> zval \<Rightarrow> 'h world \<Rightarrow> 'h world outcome" where
  "pmmpthread_unset_dimension E t object member w =
     obind (pmmpthread_store_delete E t object member w) (\<lambda>(_, w1). Ret w1)"

section \<open>Hooks\<close>

definition zend_is_in_hook :: "'h handler_class \<Rightarrow> 'h hook_info \<Rightarrow> bool" where
  "zend_is_in_hook C info =
     (case hc_frame C of
        None \<Rightarrow> False
      | Some ex \<Rightarrow> (case ex_hook ex of None \<Rightarrow> False | Some parent \<Rightarrow> hi_prototype info = parent))"

definition zend_should_call_hook :: "'h handler_class \<Rightarrow> 'h hook_info \<Rightarrow> addr \<Rightarrow> bool" where
  "zend_should_call_hook C info object =
     (if \<not> zend_is_in_hook C info then True
      else case hc_frame C of None \<Rightarrow> True | Some ex \<Rightarrow> ex_this ex \<noteq> object)"

definition zend_throw_no_prop_backing_value_access :: "tid \<Rightarrow> string \<Rightarrow> bool \<Rightarrow> 'h world \<Rightarrow> 'h world" where
  "zend_throw_no_prop_backing_value_access t prop is_read w = throw t (VirtualPropertyAccess prop is_read) w"


section \<open>Reading a property\<close>



definition pmmpthread_read_property_deny :: "'h handler_class \<Rightarrow> fetch_type \<Rightarrow> 'h world \<Rightarrow> (zval \<times> 'h world) outcome" where
  "pmmpthread_read_property_deny C type w =
     obind (if type \<noteq> BP_VAR_IS then hc_warn C w else Ret w) (\<lambda>w1. Ret (Z_NULL, w1))"

section \<open>Writing a property\<close>

text \<open>
  The type check and the store. \<open>reported\<close> is the pointer the handler is going to return, \<open>None\<close> for the engine's error value.
\<close>

definition write_verify ::
  "'h handler_class \<Rightarrow> 'h hook_info \<Rightarrow> zval \<Rightarrow> 'h world \<Rightarrow> (zval option \<times> 'h world) outcome"
where
  "write_verify C i v w =
     (case hi_verify i of
        None \<Rightarrow> Ret (Some v, w)
      | Some verify \<Rightarrow> verify (case hc_frame C of None \<Rightarrow> False | Some ex \<Rightarrow> ex_strict ex) v w)"

definition write_plain ::
  "'h store_env \<Rightarrow> tid \<Rightarrow> addr \<Rightarrow> string \<Rightarrow> zend_string \<Rightarrow> zval \<Rightarrow> 'h world \<Rightarrow> 'h world outcome"
where
  "write_plain E t object m key v w =
     obind (pmmpthread_store_write E t object (Some (Z_STRING key)) v False w) (\<lambda>(ok, w1).
       Ret (if \<not> ok \<and> exceptions w1 t = None then throw t (NonThreadSafeProperty m) w1 else w1))"

text \<open>What a hooked property does with a write: \<open>Inl\<close> ends it with the pointer to return, \<open>Inr\<close> leaves it to the store.\<close>

definition write_hook ::
  "'h handler_class \<Rightarrow> tid \<Rightarrow> addr \<Rightarrow> string \<Rightarrow> 'h hook_info \<Rightarrow> zval \<Rightarrow> 'h world \<Rightarrow> ((zval option + unit) \<times> 'h world) outcome"
where
  "write_hook C t object m i v w =
     (if \<not> hi_hooked i then Ret (Inr (), w)
      else case hi_set i of
        None \<Rightarrow> if hi_virtual i then Ret (Inl None, throw t (ReadOnlyProperty m) w) else Ret (Inr (), w)
      | Some hook \<Rightarrow>
          if \<not> zend_should_call_hook C i object then
            if hi_virtual i then Ret (Inl None, zend_throw_no_prop_backing_value_access t m False w) else Ret (Inr (), w)
          else if hi_set_restricted i \<and> \<not> hi_set_access i then Ret (Inl None, throw t (AsymmetricVisibility m) w)
          else obind (hook v w) (\<lambda>w1. Ret (Inl (Some v), w1)))"

definition write_declared ::
  "'h store_env \<Rightarrow> 'h handler_class \<Rightarrow> tid \<Rightarrow> addr \<Rightarrow> string \<Rightarrow> 'h hook_info \<Rightarrow> zval \<Rightarrow> 'h world \<Rightarrow> (zval option \<times> 'h world) outcome"
where
  "write_declared E C t object m i v w =
     obind (write_hook C t object m i v w) (\<lambda>(r, w1).
       case r of
         Inl reported \<Rightarrow> Ret (reported, w1)
       | Inr _ \<Rightarrow>
           obind (write_verify C i v w1) (\<lambda>(coerced, w2).
             case coerced of
               None \<Rightarrow> Ret (Some v, w2)
             | Some c \<Rightarrow> obind (write_plain E t object m (hi_name i) c w2) (\<lambda>w3. Ret (Some v, w3))))"

definition pmmpthread_write_property ::
  "'h store_env \<Rightarrow> 'h handler_class \<Rightarrow> tid \<Rightarrow> addr \<Rightarrow> zend_string \<Rightarrow> zval \<Rightarrow> 'h world \<Rightarrow> (zval option \<times> 'h world) outcome"
where
  "pmmpthread_write_property E C t object member v w =
     (let m = zs_val member;
          finish = (\<lambda>(r, w1). Ret (if exceptions w1 t \<noteq> None then None else r, w1))
      in
      case (hc_set C, free_to_call object m IN_SET w) of
        (Some setter, True) \<Rightarrow>
          obind (with_guard object m IN_SET (\<lambda>w. obind (setter (Z_STRING member) v w) (\<lambda>w1. Ret (Some v, w1))) w) finish
      | _ \<Rightarrow>
          (case zend_get_property_info C t m False w of
             (ZEND_WRONG_PROPERTY_INFO, w1) \<Rightarrow> Ret (None, w1)
           | (No_info, w1) \<Rightarrow> obind (obind (write_plain E t object m member v w1) (\<lambda>w2. Ret (Some v, w2))) finish
           | (Info i, w1) \<Rightarrow>
               if hi_static i then obind (obind (write_plain E t object m member v w1) (\<lambda>w2. Ret (Some v, w2))) finish
               else obind (write_declared E C t object m i v w1) finish))"

definition pmmpthread_write_property_deny :: "tid \<Rightarrow> zend_string \<Rightarrow> 'h world \<Rightarrow> (zval option \<times> 'h world) outcome" where
  "pmmpthread_write_property_deny t member w = Ret (Some Z_NULL, throw t (DynamicProperty (zs_val member)) w)"

section \<open>Testing a property\<close>




definition pmmpthread_has_property_deny :: "'h world \<Rightarrow> (bool \<times> 'h world) outcome" where
  "pmmpthread_has_property_deny w = Ret (False, w)"

section \<open>Removing a property\<close>


definition pmmpthread_unset_property_deny :: "'h world \<Rightarrow> 'h world outcome" where
  "pmmpthread_unset_property_deny w = Ret w"

section \<open>Comparing objects\<close>

definition pmmpthread_compare_objects :: "addr \<Rightarrow> addr \<Rightarrow> 'h world \<Rightarrow> int outcome" where
  "pmmpthread_compare_objects op1 op2 w =
     obind (fetch_object op1 w) (\<lambda>left.
     obind (fetch_object op2 w) (\<lambda>right.
     Ret (if zo_ts left = zo_ts right then 0 else 1)))"

section \<open>Lemmas\<close>


















text \<open>A declared property without hooks and magic methods.\<close>

definition plain_property :: "'h handler_class \<Rightarrow> zend_string \<Rightarrow> 'h hook_info \<Rightarrow> bool" where
  "plain_property C m i \<longleftrightarrow> hc_get C = None \<and> hc_set C = None \<and> hc_info C (zs_val m) = Info i \<and> \<not> hi_static i \<and> \<not> hi_hooked i"

lemma plain_write:
  assumes "plain_property C m i" "write_verify C i v w = Ret (Some c, w)"
  shows "pmmpthread_write_property E C t th m v w =
    obind (write_plain E t th (zs_val m) (hi_name i) c w) (\<lambda>w1. Ret (if exceptions w1 t \<noteq> None then None else Some v, w1))"
  using assms by (cases "write_plain E t th (zs_val m) (hi_name i) c w")
    (auto simp: plain_property_def pmmpthread_write_property_def Let_def zend_get_property_info_def write_declared_def write_hook_def)








section \<open>Properties\<close>



text \<open>
  C14: Assigning a value that cannot be shared between threads to a property or under a key leaves every store and every
  connection as it was, and an exception is pending afterwards; the assignment to the property returns the engine's error value.
\<close>

theorem handler_write_refused:
  assumes "store_ready slots ok t th z st w" "\<not> shareable c" "exceptions w t = None"
    and "plain_property C m i" "write_verify C i v w = Ret (Some c, w)"
  shows "(\<exists>w1. pmmpthread_write_property E C t th m v w = Ret (None, w1) \<and> exceptions w1 t \<noteq> None \<and>
      props_of w1 = props_of w \<and> zobjs w1 = zobjs w) \<and>
    (\<exists>w1. pmmpthread_write_dimension E t th key c w = Ret w1 \<and> exceptions w1 t \<noteq> None \<and> props_of w1 = props_of w \<and> zobjs w1 = zobjs w)"
proof (intro conjI)
  have r: "\<exists>w'. pmmpthread_store_write E t th key c False w = Ret (False, w') \<and> props_of w' = props_of w \<and> zobjs w' = zobjs w" for key
    using write_refused_ok [OF assms(1,2), of E key] by blast
  obtain w1 where w1: "pmmpthread_store_write E t th (Some (Z_STRING (hi_name i))) c False w = Ret (False, w1)"
    "props_of w1 = props_of w" "zobjs w1 = zobjs w" using r by blast
  show "\<exists>w1. pmmpthread_write_property E C t th m v w = Ret (None, w1) \<and> exceptions w1 t \<noteq> None \<and> props_of w1 = props_of w \<and> zobjs w1 = zobjs w"
    using w1 by (simp add: plain_write [OF assms(4,5)] write_plain_def throw_def props_of_def fun_eq_iff)
  obtain w2 where w2: "pmmpthread_store_write E t th key c False w = Ret (False, w2)" "props_of w2 = props_of w" "zobjs w2 = zobjs w"
    using r by blast
  show "\<exists>w1. pmmpthread_write_dimension E t th key c w = Ret w1 \<and> exceptions w1 t \<noteq> None \<and> props_of w1 = props_of w \<and> zobjs w1 = zobjs w"
    using w2 by (simp add: pmmpthread_write_dimension_def throw_def props_of_def fun_eq_iff)
qed

text \<open>A class with one declared property \<open>k\<close> whose magic methods access the property themselves.\<close>

definition demo_info :: "zval btable hook_info" where
  "demo_info = \<lparr>hi_name = demo_string 70 ''k'', hi_static = False, hi_virtual = False, hi_prototype = 0, hi_get = None, hi_set = None,
     hi_hooked = False, hi_verify = None, hi_set_restricted = False, hi_set_access = True\<rparr>"

definition demo_class :: "zval btable handler_class" where
  "demo_class = \<lparr>hc_get = None, hc_set = None, hc_isset = None, hc_unset = None,
     hc_info = (\<lambda>m. if m = ''k'' then Info demo_info else No_info), hc_frame = None, hc_warn = Ret\<rparr>"


lemma demo_plain: "plain_property demo_class (demo_string a ''k'') demo_info"
  by (simp add: plain_property_def demo_class_def demo_info_def demo_string_def)

lemma demo_verify: "write_verify demo_class demo_info v w = Ret (Some v, w)"
  by (simp add: write_verify_def demo_info_def)



theorem handler_write_refused_witness:
  "\<not> shareable (Z_ARRAY []) \<and>
   (\<exists>w1. pmmpthread_write_property demo_env demo_class 1 10 (demo_string 71 ''k'') (Z_ARRAY []) demo_kv = Ret (None, w1) \<and> zobjs w1 = zobjs demo_kv)"
proof -
  have a: "\<not> shareable (Z_ARRAY [])" "exceptions demo_kv 1 = None" by (simp_all add: shareable_def demo_world_def)
  show ?thesis
    using handler_write_refused [OF demo_kv_ready(1) a demo_plain demo_verify, of demo_env 71] a by blast
qed

end
