(* ===== verification/Thread_Safe.thy ===== *)
theory Thread_Safe
  imports Handlers
begin

text \<open>
  The methods of ThreadSafe and ThreadSafeArray (src/classes/thread_safe.c, src/classes/thread_safe_array.c): waiting and notifying,
  the synchronized block, and the array operations over the property store.
\<close>

section \<open>ThreadSafe\<close>

text \<open>
  The beginning of a wait: the deadline is computed and the thread leaves the monitor; it blocks until it is notified and has the
  mutex again. The result is the code of the call that waits.
\<close>

definition ThreadSafe_wait :: "tid \<Rightarrow> addr \<Rightarrow> timeval option \<Rightarrow> int \<Rightarrow> 'h world \<Rightarrow> ((wait_call \<times> int) \<times> 'h world) outcome" where
  "ThreadSafe_wait t this now timeout w =
     obind (fetch_object this w) (\<lambda>z.
       case pmmpthread_monitor_wait now timeout of
         WaitError e \<Rightarrow> Ret ((WaitError e, e), w)
       | call \<Rightarrow>
           (case pthread_cond_wait t (monitors w (zo_ts z)) of
              (r, m) \<Rightarrow> Ret ((call, r), w\<lparr>monitors := (monitors w)(zo_ts z := m)\<rparr>)))"

definition ThreadSafe_notify :: "addr \<Rightarrow> 'h world \<Rightarrow> (bool \<times> 'h world) outcome" where
  "ThreadSafe_notify this w =
     obind (fetch_object this w) (\<lambda>z.
       Ret (True, w\<lparr>monitors := (monitors w)(zo_ts z := pmmpthread_monitor_notify (monitors w (zo_ts z)))\<rparr>))"

definition ThreadSafe_notifyOne :: "tid \<Rightarrow> addr \<Rightarrow> 'h world \<Rightarrow> (bool \<times> 'h world) outcome" where
  "ThreadSafe_notifyOne u this w =
     obind (fetch_object this w) (\<lambda>z.
       Ret (True, w\<lparr>monitors := (monitors w)(zo_ts z := pmmpthread_monitor_notify_one u (monitors w (zo_ts z)))\<rparr>))"

text \<open>
  The block runs with the lock taken, and may wait and notify. \<open>call\<close> is the call of the function; \<open>None\<close> is a bailout of
  the engine, which is caught. The return value stays null when the lock cannot be taken.
\<close>

definition ThreadSafe_synchronized ::
  "'h store_env \<Rightarrow> tid \<Rightarrow> addr \<Rightarrow> ('h world \<Rightarrow> (zval option \<times> 'h world) outcome) \<Rightarrow> 'h world \<Rightarrow> (zval \<times> 'h world) outcome"
where
  "ThreadSafe_synchronized E t this call w =
     obind (fetch_object this w) (\<lambda>z.
     obind (pmmpthread_monitor_lock t (monitors w (zo_ts z))) (\<lambda>(locked, m).
       let w1 = w\<lparr>monitors := (monitors w)(zo_ts z := m)\<rparr> in
       if \<not> locked then Ret (Z_NULL, w1)
       else
         obind (pmmpthread_store_sync_local_properties E t this w1) (\<lambda>w2.
         obind (call w2) (\<lambda>(r, w3).
           Ret (case r of Some v \<Rightarrow> v | None \<Rightarrow> Z_UNDEF,
                w3\<lparr>monitors := (monitors w3)(zo_ts z := snd (pmmpthread_monitor_unlock t (monitors w3 (zo_ts z))))\<rparr>)))))"

section \<open>ThreadSafeArray\<close>

definition ThreadSafeArray_merge :: "'h store_env \<Rightarrow> tid \<Rightarrow> addr \<Rightarrow> zval \<Rightarrow> bool \<Rightarrow> 'h world \<Rightarrow> (bool \<times> 'h world) outcome" where
  "ThreadSafeArray_merge E t this from overwrite w = pmmpthread_store_merge E t this from overwrite True w"

text \<open>A return value that is not written is null.\<close>

definition ThreadSafeArray_shift :: "'h store_env \<Rightarrow> tid \<Rightarrow> addr \<Rightarrow> 'h world \<Rightarrow> (zval \<times> 'h world) outcome" where
  "ThreadSafeArray_shift E t this w =
     obind (pmmpthread_store_shift E t this w) (\<lambda>(r, w1). Ret (case r of Some v \<Rightarrow> v | None \<Rightarrow> Z_NULL, w1))"

definition ThreadSafeArray_pop :: "'h store_env \<Rightarrow> tid \<Rightarrow> addr \<Rightarrow> 'h world \<Rightarrow> (zval \<times> 'h world) outcome" where
  "ThreadSafeArray_pop E t this w =
     obind (pmmpthread_store_pop E t this w) (\<lambda>(r, w1). Ret (case r of Some v \<Rightarrow> v | None \<Rightarrow> Z_NULL, w1))"

definition ThreadSafeArray_chunk :: "'h store_env \<Rightarrow> tid \<Rightarrow> addr \<Rightarrow> int \<Rightarrow> bool \<Rightarrow> 'h world \<Rightarrow> (zval \<times> 'h world) outcome" where
  "ThreadSafeArray_chunk E t this sz preserve w =
     obind (pmmpthread_store_chunk E t this sz preserve w) (\<lambda>(r, w1). Ret (case r of Some es \<Rightarrow> Z_ARRAY es | None \<Rightarrow> Z_NULL, w1))"

definition ThreadSafeArray_count :: "'h store_env \<Rightarrow> tid \<Rightarrow> addr \<Rightarrow> 'h world \<Rightarrow> (zval \<times> 'h world) outcome" where
  "ThreadSafeArray_count E t this w = obind (pmmpthread_store_count E t this w) (\<lambda>(n, w1). Ret (Z_LONG (int n), w1))"

definition ThreadSafeArray_fromArray :: "'h store_env \<Rightarrow> tid \<Rightarrow> zval \<Rightarrow> 'h world \<Rightarrow> (zval \<times> 'h world) outcome" where
  "ThreadSafeArray_fromArray E t input w =
     obind (pmmpthread_threaded_array_new (e_hash E) t (e_self E t) (e_monitor E) w) (\<lambda>(a, w1).
     obind (pmmpthread_store_merge E t a input True True w1) (\<lambda>(_, w2). Ret (Z_THREADSAFE a, w2)))"

text \<open>The method passes its return value as \<open>rv\<close> and drops the pointer the handler returns.\<close>

definition ThreadSafeArray_offsetGet :: "'h store_env \<Rightarrow> tid \<Rightarrow> addr \<Rightarrow> zval \<Rightarrow> 'h world \<Rightarrow> (zval \<times> 'h world) outcome" where
  "ThreadSafeArray_offsetGet E t this key w =
     obind (pmmpthread_read_dimension E t this key BP_VAR_R w) (\<lambda>((_, rv), w1). Ret (rv, w1))"

definition ThreadSafeArray_offsetSet :: "'h store_env \<Rightarrow> tid \<Rightarrow> addr \<Rightarrow> zval \<Rightarrow> zval \<Rightarrow> 'h world \<Rightarrow> 'h world outcome" where
  "ThreadSafeArray_offsetSet E t this key v w = pmmpthread_write_dimension E t this (Some key) v w"

definition ThreadSafeArray_offsetExists :: "'h store_env \<Rightarrow> tid \<Rightarrow> addr \<Rightarrow> zval \<Rightarrow> 'h world \<Rightarrow> (bool \<times> 'h world) outcome" where
  "ThreadSafeArray_offsetExists E t this key w = pmmpthread_has_dimension E t this key ZEND_PROPERTY_ISSET w"

definition ThreadSafeArray_offsetUnset :: "'h store_env \<Rightarrow> tid \<Rightarrow> addr \<Rightarrow> zval \<Rightarrow> 'h world \<Rightarrow> 'h world outcome" where
  "ThreadSafeArray_offsetUnset E t this key w = pmmpthread_unset_dimension E t this key w"

section \<open>Properties\<close>

lemma coherent_monitors: "coherent E w \<Longrightarrow> coherent E (w\<lparr>monitors := f\<rparr>)"
  by (erule coherent_same_objects) (simp_all add: grows_def props_of_def fun_eq_iff)

lemma world_ok_monitors: "world_ok w \<Longrightarrow> world_ok (w\<lparr>monitors := f\<rparr>)"
  by (simp add: world_ok_def)

lemma props_of_monitors [simp]: "props_of (w\<lparr>monitors := f\<rparr>) = props_of w"
  by (simp add: props_of_def fun_eq_iff)

text \<open>
  C16: A synchronized block runs in a world in which the thread holds the monitor of the object, so that no other thread can take it, and
  in which the local cache is coherent and in step with the store, whose content is the one before. When the block gives back
  what it takes, the method returns its result and leaves the monitor at the level it had before, with the waiters the block left.
\<close>

theorem synchronized_exclusive:
  assumes "store_ready slots ok t this z st w" "coherent E w" "ident_ls (zo_owner z) = t"
  shows "\<exists>w2 z2. coherent E w2 \<and> world_ok w2 \<and> props_of w2 = props_of w \<and>
    zobjs w2 this = Some z2 \<and> zo_ts z2 = zo_ts z \<and> zo_local_modcount z2 = st_modcount st \<and>
    mx_owner (mon_mutex (monitors w2 (zo_ts z))) = Some t \<and>
    (\<forall>u. u \<noteq> t \<longrightarrow> pmmpthread_monitor_lock u (monitors w2 (zo_ts z)) = Block) \<and>
    (\<forall>call r w3. call w2 = Ret (r, w3) \<longrightarrow> mon_mutex (monitors w3 (zo_ts z)) = mon_mutex (monitors w2 (zo_ts z)) \<longrightarrow>
      ThreadSafe_synchronized E t this call w =
        Ret (case r of Some v \<Rightarrow> v | None \<Rightarrow> Z_UNDEF,
             w3\<lparr>monitors := (monitors w3)(zo_ts z := (monitors w3 (zo_ts z))\<lparr>mon_mutex := mon_mutex (monitors w (zo_ts z))\<rparr>)\<rparr>))"
proof -
  have r: "world_ok w" "zobjs w this = Some z" "props_of w (zo_ts z) = Some st" "mutex_avail (Suc 0) t (mon_mutex (g_monitor w))"
    "mutex_avail (Suc (Suc 0)) t (mon_mutex (monitors w (zo_ts z)))" using assms(1) by (auto simp: store_ready_def)
  let ?m = "(monitors w (zo_ts z))\<lparr>mon_mutex := mutex_take t (mon_mutex (monitors w (zo_ts z)))\<rparr>"
  define w1 where "w1 = w\<lparr>monitors := (monitors w)(zo_ts z := ?m)\<rparr>"
  have lock: "pmmpthread_monitor_lock t (monitors w (zo_ts z)) = Ret (True, ?m)" by (rule lock_avail_eq [OF r(5)])
  obtain w2 where w2: "pmmpthread_store_sync_local_properties E t this w1 = Ret w2"
    "w2 = w1\<lparr>zobjs := (zobjs w1)(this \<mapsto> synced E t w1 st z)\<rparr>" "world_ok w2" "coherent E w2"
    using sync_coherent [OF world_ok_monitors _ _ _ coherent_monitors assms(3), of w _ this st E] r assms(2) unfolding w1_def by auto
  have m2: "monitors w2 (zo_ts z) = ?m" using w2(2) by (simp add: w1_def)
  have block: "pmmpthread_monitor_lock u (monitors w2 (zo_ts z)) = Block" if "u \<noteq> t" for u
    unfolding m2 using that r(5) by (auto simp: monitor_defs mutex_take_def mutex_avail_def)
  have run: "ThreadSafe_synchronized E t this call w =
      Ret (case x of Some v \<Rightarrow> v | None \<Rightarrow> Z_UNDEF,
           w3\<lparr>monitors := (monitors w3)(zo_ts z := (monitors w3 (zo_ts z))\<lparr>mon_mutex := mon_mutex (monitors w (zo_ts z))\<rparr>)\<rparr>)"
    if "call w2 = Ret (x, w3)" "mon_mutex (monitors w3 (zo_ts z)) = mon_mutex (monitors w2 (zo_ts z))" for call x w3
  proof -
    have "mon_mutex (monitors w3 (zo_ts z)) = mutex_take t (mon_mutex (monitors w (zo_ts z)))" using that(2) m2 by simp
    note u = unlock_taken_eq [OF r(5) this]
    show ?thesis
      unfolding ThreadSafe_synchronized_def Let_def by (simp add: r(2) lock w1_def [symmetric] w2(1) that(1) u del: fun_upd_apply)
  qed
  have "props_of w2 = props_of w" "zobjs w2 this = Some (synced E t w1 st z)" "mx_owner (mon_mutex (monitors w2 (zo_ts z))) = Some t"
    using w2(2) by (simp_all add: w1_def mutex_take_def)
  then show ?thesis using w2(3,4) block run by (intro exI [of _ w2] exI [of _ "synced E t w1 st z"]) simp
qed

theorem synchronized_exclusive_witness:
  "\<exists>w4. ThreadSafe_synchronized demo_env 1 10 (\<lambda>w. Ret (Some (Z_LONG 7), w)) demo_kv = Ret (Z_LONG 7, w4) \<and> mon_mutex (monitors w4 20) = mon_mutex demo_mon"
proof -
  from synchronized_exclusive [OF demo_kv_ready(1) demo_coherent demo_owner(1)] show ?thesis
    by (clarsimp simp: demo_owner) (auto simp: demo_world_def)
qed

text \<open>
  Reading a key that is not there through \<open>ArrayAccess::offsetGet\<close> leaves the return value undefined: the null that the handler returns
  in its place is dropped.
\<close>

lemma array_offsetGet_missing:
  assumes "store_ready slots ok t this z st w" "coherent E w" "ident_ls (zo_owner z) = t"
    and "zh_find (e_hash E) (fst (pmmpthread_store_coerce E key)) (st_hash st) = None"
  shows "\<exists>w1. ThreadSafeArray_offsetGet E t this key w = Ret (Z_UNDEF, w1)"
  using read_absent [OF assms(1-3) refl assms(4)]
  by (auto simp: ThreadSafeArray_offsetGet_def pmmpthread_read_dimension_def)

end
