(* ===== verification/Code_Data.thy ===== *)
theory Code_Data
  imports Thread_Safe
begin

text \<open>
  The engine's data that the extension copies from thread to thread, as far as src/copy.c and src/prepare.c read and write it: strings, values,
  constant expressions, functions, classes; the state of a thread that copies and what it sees of the origin.
\<close>

section \<open>Data\<close>

text \<open>Strings with the engine's interned flag.\<close>

record zstr = zend_string +
  zs_interned :: bool

datatype vkey = K_INT int | K_STR zstr

text \<open>
  The values that are copied. \<open>V_UNINIT\<close> is memory nobody has written. Closures, objects and classes are addresses; an enum case is
  its class and its name. A constant expression (\<open>zend_ast\<close>) is a tree; a child may be missing.
\<close>

datatype val =
    V_UNDEF
  | V_NULL
  | V_FALSE
  | V_TRUE
  | V_LONG int
  | V_DOUBLE "64 word"
  | V_STRING zstr
  | V_ARRAY bool "(vkey \<times> val) list"
  | V_THREADSAFE addr
  | V_CLOSURE addr
  | V_ENUM addr zstr
  | V_OBJECT addr
  | V_AST ast
  | V_INDIRECT val
  | V_REFERENCE val
  | V_RESOURCE int
  | V_UNINIT
and ast =
    AST_ZVAL nat val
  | AST_CONSTANT nat zstr
  | AST_LIST nat nat "ast option list"
  | AST_NODE nat nat "ast option list"

text \<open>
  The result of copying: a fatal error of the engine ends the process; \<open>Stuck\<close> is a lock that cannot be taken, an invalid access or a failed assertion,
  \<open>No_fuel\<close> is running out of fuel.
\<close>

datatype fatal_error =
    NonCopyableAttribute string
  | NonCopyableLiteral string
  | NonCopyableClassConstant string string
  | NonCopyableConstant string

datatype 'a copied = Copied 'a | Fatal fatal_error | Stuck | No_fuel

fun cbind :: "'a copied \<Rightarrow> ('a \<Rightarrow> 'b copied) \<Rightarrow> 'b copied" where
  "cbind (Copied x) f = f x"
| "cbind (Fatal e) f = Fatal e"
| "cbind Stuck f = Stuck"
| "cbind No_fuel f = No_fuel"

fun of_outcome :: "'a outcome \<Rightarrow> 'a copied" where
  "of_outcome (Ret x) = Copied x"
| "of_outcome Block = Stuck"
| "of_outcome Fault = Stuck"

section \<open>Functions\<close>

text \<open>
  An operand is a constant, given by its address relative to its opline or absolutely, or a jump target, or something else. The opcodes
  are sorted by the operand that holds a jump address.
\<close>

datatype op_jump = Jmp_op1 | Jmp_op2 | Jmp_catch | Jmp_none

record zend_op =
  op_jump_kind :: op_jump
  op_last_catch :: bool
  op1_const :: bool
  op1 :: int
  op2_const :: bool
  op2 :: int

text \<open>A type: a list of types (in the compiler's arena or not) with a mask of built-in types, a class name with such a mask, or only a mask.\<close>

datatype zend_type = Type_list bool nat "zend_type list" | Type_name zstr nat | Type_mask nat

record zend_arg_info =
  ai_name :: "zstr option"
  ai_type :: zend_type

record zend_attribute =
  at_name :: zstr
  at_flags :: nat
  at_args :: "(zstr option \<times> val) list"

text \<open>
  \<open>fn_refcount\<close> is \<open>None\<close> for an op_array whose parts are in shared memory. \<open>fn_args\<close> has the return type first when there is one and the
  variadic argument last. Nested functions are addresses; \<open>fn_prop_info\<close> is the property a hook belongs to.
\<close>

record zend_function =
  fn_user :: bool
  fn_immutable :: bool
  fn_closure :: bool
  fn_fake_closure :: bool
  fn_heap_rt_cache :: bool
  fn_arena :: bool
  fn_has_return_type :: bool
  fn_variadic :: bool
  fn_pass_two :: bool
  fn_refcount :: "nat option"
  fn_name :: zstr
  fn_name_refs :: nat
  fn_doc :: "zstr option"
  fn_filename :: zstr
  fn_scope :: "addr option"
  fn_prop_info :: "addr option"
  fn_opcodes_at :: int
  fn_opcodes :: "zend_op list"
  fn_literals_at :: int
  fn_literals :: "val list option"
  fn_num_args :: nat
  fn_args :: "zend_arg_info list option"
  fn_live_range :: "nat list option"
  fn_try_catch :: "nat list option"
  fn_vars :: "zstr list option"
  fn_attributes :: "zend_attribute list option"
  fn_dynamic :: "addr list"
  fn_statics :: "(zstr \<times> val) list option"

text \<open>
  A closure object: its function, the object it is bound to, the class it was called on, and the table of its bound variables,
  \<open>Same\<close> when it is the one of the function.
\<close>

datatype statics_ptr = Statics_none | Statics_same | Statics_own "(zstr \<times> val) list"

record closure_object =
  co_function :: zend_function
  co_this :: val
  co_called_scope :: "addr option"
  co_statics_ptr :: statics_ptr

section \<open>Classes\<close>

text \<open>
  A class of a thread. The parent and the interfaces are pointers when the class is linked and names before that. Functions and property
  infos are addresses. A static member is a value or leads to the slot of the class that declares it.
\<close>

datatype class_parent = No_parent | Parent addr | Parent_name zstr

datatype class_interfaces = Interfaces "ptr list" | Interface_names "(zstr \<times> zstr) list"

record zend_trait_method_reference =
  tm_method_name :: "zstr option"
  tm_class_name :: "zstr option"

record zend_trait_alias =
  ta_trait_method :: zend_trait_method_reference
  ta_alias :: "zstr option"
  ta_modifiers :: nat

record zend_trait_precedence =
  tp_trait_method :: zend_trait_method_reference
  tp_exclude_class_names :: "zstr list"

text \<open>The handlers the engine calls for objects of the class, by address.\<close>

record class_handlers =
  h_create_object :: ptr
  h_serialize :: ptr
  h_unserialize :: ptr
  h_get_iterator :: ptr
  h_interface_gets_implemented :: ptr
  h_get_static_method :: ptr

datatype interceptor =
    I_constructor | I_clone | I_get | I_set | I_unset | I_isset | I_call | I_callstatic | I_serialize | I_unserialize | I_tostring
  | I_destructor

text \<open>
  A constant of a class. A resolved enum case is an object: its class and name are the value \<open>V_ENUM\<close>, its backing value is \<open>cc_backing\<close>.
\<close>

record zend_class_constant =
  cc_value :: val
  cc_is_case :: bool
  cc_backing :: "val option"
  cc_ce :: ptr
  cc_doc :: "zstr option"
  cc_attributes :: "zend_attribute list option"
  cc_type :: zend_type

record property_info =
  pi_prop_name :: zstr
  pi_static :: bool
  pi_virtual :: bool
  pi_num :: nat
  pi_doc :: "zstr option"
  pi_ce :: ptr
  pi_type :: zend_type
  pi_attributes :: "zend_attribute list option"
  pi_prototype :: ptr
  pi_hooks :: "ptr list option"

datatype static_slot = Slot val | Slot_indirect addr nat

record class_entry =
  cl_name :: zstr
  cl_internal :: bool
  cl_linked :: bool
  cl_anon :: bool
  cl_immutable :: bool
  cl_preloaded :: bool
  cl_enum :: bool
  cl_refcount :: nat
  cl_parent :: class_parent
  cl_interfaces :: class_interfaces
  cl_trait_names :: "(zstr \<times> zstr) list"
  cl_trait_aliases :: "zend_trait_alias list option"
  cl_trait_precedences :: "zend_trait_precedence list option"
  cl_handlers :: class_handlers
  cl_function_table :: "(zstr \<times> addr) list"
  cl_interceptors :: "interceptor \<Rightarrow> ptr"
  cl_iterator_funcs :: "(string \<times> ptr) list option"
  cl_arrayaccess_funcs :: "(string \<times> ptr) list option"
  cl_constants :: "(zstr \<times> zend_class_constant) list"
  cl_static_members :: "static_slot list"
  cl_properties_info :: "(zstr \<times> addr) list"
  cl_default_properties :: "val list"
  cl_properties_info_table :: "ptr list option"
  cl_enum_backing_type :: nat
  cl_backed_enum_table :: "(vkey \<times> val) list option"
  cl_filename :: "zstr option"
  cl_doc :: "zstr option"
  cl_attributes :: "zend_attribute list option"
  cl_num_hooked :: "nat \<times> nat"

text \<open>Looking a string up in a table of the engine, whose keys are strings.\<close>

definition str_find_entry :: "string \<Rightarrow> (zstr \<times> 'a) list \<Rightarrow> (zstr \<times> 'a) option" where
  "str_find_entry s t = find (\<lambda>(k, x). zs_val k = s) t"

definition str_find :: "string \<Rightarrow> (zstr \<times> 'a) list \<Rightarrow> 'a option" where
  "str_find s t = map_option snd (str_find_entry s t)"

section \<open>State and environment\<close>

text \<open>
  The copying thread: the process it belongs to, the next free address (everything from it on is free), the interned strings it sees,
  its tables of copied file names, functions and property infos (\<open>resolve\<close>) and closure definitions, the functions, closures, classes and
  property infos it owns, its tables of classes and functions by name, and the size of its map of run-time pointers.
\<close>

record 'h copy_state =
  cs_world :: "'h world"
  cs_next :: addr
  cs_interned :: "string \<rightharpoonup> zstr"
  cs_filenames :: "string \<rightharpoonup> zstr"
  cs_resolve :: "addr \<rightharpoonup> addr"
  cs_closures :: "int \<rightharpoonup> addr"
  cs_functions :: "addr \<rightharpoonup> zend_function"
  cs_closure_objects :: "addr \<rightharpoonup> closure_object"
  cs_classes :: "addr \<rightharpoonup> class_entry"
  cs_prop_infos :: "addr \<rightharpoonup> property_info"
  cs_class_table :: "(string \<times> addr) list"
  cs_function_table :: "(string \<times> addr) list"
  cs_map_ptr_last :: nat

text \<open>
  The thread and its name; the class of this thread for a class of the origin, which may have to be made
  (\<open>pmmpthread_prepare_single_class\<close>); the functions, closures, classes and property infos of the origin; the sizes of the
  structures of a constant expression and of opcodes and literals; whether the engine was built with absolute operand addresses.
\<close>

record 'h copy_env =
  ce_tid :: tid
  ce_oid :: nat
  ce_class :: "addr \<Rightarrow> 'h copy_state \<Rightarrow> (ptr \<times> 'h copy_state) copied"
  ce_functions :: "addr \<rightharpoonup> zend_function"
  ce_closures :: "addr \<rightharpoonup> closure_object"
  ce_classes :: "addr \<rightharpoonup> class_entry"
  ce_prop_infos :: "addr \<rightharpoonup> property_info"
  ce_sizeof_ast_zval :: nat
  ce_sizeof_ast_list :: nat
  ce_sizeof_ast :: nat
  ce_sizeof_ptr :: nat
  ce_sizeof_ast_ref :: nat
  ce_sizeof_op :: nat
  ce_sizeof_zval :: nat
  ce_abs_const :: bool
  ce_abs_jmp :: bool

text \<open>
  What is at an address this thread knows: something of its own, or something in shared memory that it uses together with the origin.
\<close>

definition class_at :: "'h copy_env \<Rightarrow> 'h copy_state \<Rightarrow> addr \<Rightarrow> class_entry option" where
  "class_at X st a = (case cs_classes st a of Some c \<Rightarrow> Some c | None \<Rightarrow> ce_classes X a)"

definition function_at :: "'h copy_env \<Rightarrow> 'h copy_state \<Rightarrow> addr \<Rightarrow> zend_function option" where
  "function_at X st a = (case cs_functions st a of Some f \<Rightarrow> Some f | None \<Rightarrow> ce_functions X a)"

definition prop_info_at :: "'h copy_env \<Rightarrow> 'h copy_state \<Rightarrow> addr \<Rightarrow> property_info option" where
  "prop_info_at X st a = (case cs_prop_infos st a of Some i \<Rightarrow> Some i | None \<Rightarrow> ce_prop_infos X a)"

end
