(* ===== verification/Copy.thy ===== *)
theory Copy
  imports Code_Data
begin

text \<open>
  The deep copies of src/copy.c: strings, values, arrays, constant expressions, opcodes, types and functions of one thread copied
  onto another. Copy_Correct shows that a copy has the content of the original and shares no memory with it but permanent
  strings, that the copy of a constant expression exactly fills the block allocated for it, that operands of
  copied opcodes refer to the same literals and targets, and that a function is copied once per thread.
\<close>

section \<open>Allocation\<close>

text \<open>A new string; interning it returns the interned string with that content if there is one.\<close>

definition new_string :: "string \<Rightarrow> bool \<Rightarrow> bool \<Rightarrow> 'h copy_state \<Rightarrow> zstr \<times> 'h copy_state" where
  "new_string s persistent interned st =
     (\<lparr>zs_ptr = cs_next st, zs_val = s, zs_permanent = False, zs_persistent = persistent, zs_interned = interned\<rparr>,
      st\<lparr>cs_next := cs_next st + 1\<rparr>)"

definition zend_new_interned_string :: "string \<Rightarrow> bool \<Rightarrow> 'h copy_state \<Rightarrow> zstr \<times> 'h copy_state" where
  "zend_new_interned_string s persistent st =
     (case cs_interned st s of
        Some i \<Rightarrow> (i, st)
      | None \<Rightarrow> (case new_string s persistent True st of (i, st1) \<Rightarrow> (i, st1\<lparr>cs_interned := (cs_interned st1)(s \<mapsto> i)\<rparr>)))"

definition alloc :: "nat \<Rightarrow> 'h copy_state \<Rightarrow> addr \<times> 'h copy_state" where
  "alloc n st = (cs_next st, st\<lparr>cs_next := cs_next st + Suc n\<rparr>)"

section \<open>Strings and values\<close>

definition pmmpthread_copy_string :: "zstr \<Rightarrow> 'h copy_state \<Rightarrow> zstr \<times> 'h copy_state" where
  "pmmpthread_copy_string s st =
     (if zs_interned s then
        if zs_permanent s then (s, st)
        else zend_new_interned_string (zs_val s) (zs_persistent s) st
      else new_string (zs_val s) (zs_persistent s) False st)"

definition copy_opt_string :: "zstr option \<Rightarrow> 'h copy_state \<Rightarrow> zstr option \<times> 'h copy_state" where
  "copy_opt_string s st =
     (case s of None \<Rightarrow> (None, st) | Some x \<Rightarrow> (case pmmpthread_copy_string x st of (y, st1) \<Rightarrow> (Some y, st1)))"

fun key_eq :: "vkey \<Rightarrow> vkey \<Rightarrow> bool" where
  "key_eq (K_INT m) (K_INT n) = (m = n)"
| "key_eq (K_STR s) (K_STR u) = (zs_val s = zs_val u)"
| "key_eq _ _ = False"

text \<open>\<open>zend_hash_update\<close>: a key that is there keeps its place.\<close>

fun ht_update :: "vkey \<Rightarrow> val \<Rightarrow> (vkey \<times> val) list \<Rightarrow> (vkey \<times> val) list" where
  "ht_update k v [] = [(k, v)]"
| "ht_update k v ((l, x) # es) = (if key_eq l k then (l, v) # es else (l, x) # ht_update k v es)"

definition copy_key :: "vkey \<Rightarrow> 'h copy_state \<Rightarrow> vkey \<times> 'h copy_state" where
  "copy_key k st =
     (case k of
        K_INT n \<Rightarrow> (K_INT n, st)
      | K_STR s \<Rightarrow> (case pmmpthread_copy_string s st of (u, st1) \<Rightarrow> (K_STR u, st1)))"

text \<open>The class of this thread for a class of the origin that may be missing (\<open>pmmpthread_prepare_single_class\<close>).\<close>

definition prepare_opt_class :: "'h copy_env \<Rightarrow> ptr \<Rightarrow> 'h copy_state \<Rightarrow> (ptr \<times> 'h copy_state) copied" where
  "prepare_opt_class X c st = (case c of None \<Rightarrow> Copied (None, st) | Some a \<Rightarrow> ce_class X a st)"

text \<open>The enum case of this thread; a class that is not there is dereferenced for the message.\<close>

definition pmmpthread_resolve_enum_reference :: "'h copy_env \<Rightarrow> ptr \<Rightarrow> zstr \<Rightarrow> 'h copy_state \<Rightarrow> (val option \<times> 'h copy_state) copied" where
  "pmmpthread_resolve_enum_reference X enum_ce case_name st =
     (case enum_ce of
        None \<Rightarrow> Stuck
      | Some ce \<Rightarrow>
          (case class_at X st ce of
             None \<Rightarrow> Stuck
           | Some c \<Rightarrow>
               (case (if cl_enum c then str_find_entry (zs_val case_name) (cl_constants c) else None) of
                  Some (name, _) \<Rightarrow> Copied (Some (V_ENUM ce name), st)
                | None \<Rightarrow> Copied (None, st\<lparr>cs_world := throw (ce_tid X) (EnumCaseMissing (zs_val case_name)) (cs_world st)\<rparr>))))"

text \<open>The sizes of the blocks of a constant expression.\<close>

definition zend_ast_list_size :: "'h copy_env \<Rightarrow> nat \<Rightarrow> nat" where
  "zend_ast_list_size X children = ce_sizeof_ast_list X - ce_sizeof_ptr X + ce_sizeof_ptr X * children"

definition zend_ast_size :: "'h copy_env \<Rightarrow> nat \<Rightarrow> nat" where
  "zend_ast_size X children = ce_sizeof_ast X - ce_sizeof_ptr X + ce_sizeof_ptr X * children"

fun zend_ast_tree_size :: "'h copy_env \<Rightarrow> ast \<Rightarrow> nat"
and ast_children_size :: "'h copy_env \<Rightarrow> ast option list \<Rightarrow> nat" where
  "zend_ast_tree_size X (AST_ZVAL attr v) = ce_sizeof_ast_zval X"
| "zend_ast_tree_size X (AST_CONSTANT attr s) = ce_sizeof_ast_zval X"
| "zend_ast_tree_size X (AST_LIST kind attr cs) = zend_ast_list_size X (length cs) + ast_children_size X cs"
| "zend_ast_tree_size X (AST_NODE kind attr cs) = zend_ast_size X (length cs) + ast_children_size X cs"
| "ast_children_size X [] = 0"
| "ast_children_size X (None # cs) = ast_children_size X cs"
| "ast_children_size X (Some c # cs) = zend_ast_tree_size X c + ast_children_size X cs"

text \<open>
  What is written into the block of a copied constant expression: a node at an offset, of a size, with the offsets of its children.
  \<open>Leaf\<close> is a node that holds a value.
\<close>

datatype cell_kind = Leaf | Leaf_constant | Inner nat

record ast_cell =
  cell_at :: nat
  cell_size :: nat
  cell_kind :: cell_kind
  cell_attr :: nat
  cell_children :: "nat option list"

text \<open>
  The copy of values, arrays and constant expressions. \<open>cl\<close> is the copy of a closure, defined below. The result of connecting to a
  thread-safe object is not looked at, nor is the result of copying a value inside a constant expression.
\<close>

fun pmmpthread_copy_zval ::
  "'h copy_env \<Rightarrow> (addr \<Rightarrow> 'h copy_state \<Rightarrow> (val option \<times> 'h copy_state) copied) \<Rightarrow> val \<Rightarrow> 'h copy_state \<Rightarrow> (val option \<times> 'h copy_state) copied"
and pmmpthread_copy_hash ::
  "'h copy_env \<Rightarrow> (addr \<Rightarrow> 'h copy_state \<Rightarrow> (val option \<times> 'h copy_state) copied) \<Rightarrow> (vkey \<times> val) list \<Rightarrow> (vkey \<times> val) list \<Rightarrow> 'h copy_state \<Rightarrow>
     ((vkey \<times> val) list \<times> 'h copy_state) copied"
and pmmpthread_copy_ast_tree ::
  "'h copy_env \<Rightarrow> (addr \<Rightarrow> 'h copy_state \<Rightarrow> (val option \<times> 'h copy_state) copied) \<Rightarrow> ast \<Rightarrow> nat \<Rightarrow> 'h copy_state \<Rightarrow>
     ((ast \<times> ast_cell list \<times> nat) \<times> 'h copy_state) copied"
and copy_ast_children ::
  "'h copy_env \<Rightarrow> (addr \<Rightarrow> 'h copy_state \<Rightarrow> (val option \<times> 'h copy_state) copied) \<Rightarrow> ast option list \<Rightarrow> nat \<Rightarrow> 'h copy_state \<Rightarrow>
     ((ast option list \<times> nat option list \<times> ast_cell list \<times> nat) \<times> 'h copy_state) copied"
where
  "pmmpthread_copy_zval X cl (V_INDIRECT v) st = pmmpthread_copy_zval X cl v st"
| "pmmpthread_copy_zval X cl (V_REFERENCE v) st = pmmpthread_copy_zval X cl v st"
| "pmmpthread_copy_zval X cl V_NULL st = Copied (Some V_NULL, st)"
| "pmmpthread_copy_zval X cl V_TRUE st = Copied (Some V_TRUE, st)"
| "pmmpthread_copy_zval X cl V_FALSE st = Copied (Some V_FALSE, st)"
| "pmmpthread_copy_zval X cl (V_LONG n) st = Copied (Some (V_LONG n), st)"
| "pmmpthread_copy_zval X cl (V_DOUBLE d) st = Copied (Some (V_DOUBLE d), st)"
| "pmmpthread_copy_zval X cl (V_STRING s) st =
     (case pmmpthread_copy_string s st of (u, st1) \<Rightarrow> Copied (Some (V_STRING u), st1))"
| "pmmpthread_copy_zval X cl (V_ARRAY persistent es) st =
     cbind (pmmpthread_copy_hash X cl es [] st) (\<lambda>(ht, st1). Copied (Some (V_ARRAY persistent ht), st1))"
| "pmmpthread_copy_zval X cl (V_THREADSAFE a) st =
     cbind (of_outcome (pmmpthread_object_connect (ce_tid X) (ce_oid X) (Some a) (cs_world st))) (\<lambda>(c, w).
       Copied (Some (case c of None \<Rightarrow> V_UNINIT | Some b \<Rightarrow> V_THREADSAFE b), st\<lparr>cs_world := w\<rparr>))"
| "pmmpthread_copy_zval X cl (V_CLOSURE a) st = cl a st"
| "pmmpthread_copy_zval X cl (V_ENUM ce name) st =
     cbind (ce_class X ce st) (\<lambda>(enum_ce, st1). pmmpthread_resolve_enum_reference X enum_ce name st1)"
| "pmmpthread_copy_zval X cl (V_AST a) st =
     cbind (pmmpthread_copy_ast_tree X cl a (ce_sizeof_ast_ref X) st) (\<lambda>((b, _, _), st1). Copied (Some (V_AST b), st1))"
| "pmmpthread_copy_zval X cl _ st = Copied (None, st)"
| "pmmpthread_copy_hash X cl [] ht st = Copied (ht, st)"
| "pmmpthread_copy_hash X cl ((k, v) # es) ht st =
     cbind (pmmpthread_copy_zval X cl v st) (\<lambda>(r, st1).
       case r of
         None \<Rightarrow> pmmpthread_copy_hash X cl es ht st1
       | Some newzval \<Rightarrow>
           (case copy_key k st1 of (key, st2) \<Rightarrow> pmmpthread_copy_hash X cl es (ht_update key newzval ht) st2))"
| "pmmpthread_copy_ast_tree X cl (AST_ZVAL attr v) buf st =
     cbind (pmmpthread_copy_zval X cl v st) (\<lambda>(r, st1).
       Copied ((AST_ZVAL attr (case r of None \<Rightarrow> V_UNINIT | Some newval \<Rightarrow> newval),
                [\<lparr>cell_at = buf, cell_size = ce_sizeof_ast_zval X, cell_kind = Leaf, cell_attr = attr, cell_children = []\<rparr>],
                buf + ce_sizeof_ast_zval X), st1))"
| "pmmpthread_copy_ast_tree X cl (AST_CONSTANT attr s) buf st =
     (case pmmpthread_copy_string s st of
        (u, st1) \<Rightarrow>
          Copied ((AST_CONSTANT attr u,
                   [\<lparr>cell_at = buf, cell_size = ce_sizeof_ast_zval X, cell_kind = Leaf_constant, cell_attr = attr, cell_children = []\<rparr>],
                   buf + ce_sizeof_ast_zval X), st1))"
| "pmmpthread_copy_ast_tree X cl (AST_LIST kind attr cs) buf st =
     cbind (copy_ast_children X cl cs (buf + zend_ast_list_size X (length cs)) st) (\<lambda>((ds, ptrs, cells, buf1), st1).
       Copied ((AST_LIST kind attr ds,
                \<lparr>cell_at = buf, cell_size = zend_ast_list_size X (length cs), cell_kind = Inner kind, cell_attr = attr, cell_children = ptrs\<rparr> # cells,
                buf1), st1))"
| "pmmpthread_copy_ast_tree X cl (AST_NODE kind attr cs) buf st =
     cbind (copy_ast_children X cl cs (buf + zend_ast_size X (length cs)) st) (\<lambda>((ds, ptrs, cells, buf1), st1).
       Copied ((AST_NODE kind attr ds,
                \<lparr>cell_at = buf, cell_size = zend_ast_size X (length cs), cell_kind = Inner kind, cell_attr = attr, cell_children = ptrs\<rparr> # cells,
                buf1), st1))"
| "copy_ast_children X cl [] buf st = Copied (([], [], [], buf), st)"
| "copy_ast_children X cl (None # cs) buf st =
     cbind (copy_ast_children X cl cs buf st) (\<lambda>((ds, ptrs, cells, buf1), st1). Copied ((None # ds, None # ptrs, cells, buf1), st1))"
| "copy_ast_children X cl (Some c # cs) buf st =
     cbind (pmmpthread_copy_ast_tree X cl c buf st) (\<lambda>((d, cells, buf1), st1).
     cbind (copy_ast_children X cl cs buf1 st1) (\<lambda>((ds, ptrs, cells2, buf2), st2).
       Copied ((Some d # ds, Some buf # ptrs, cells @ cells2, buf2), st2)))"

text \<open>The block: its size, the cells in it behind the header, the tree.\<close>

definition pmmpthread_copy_ast ::
  "'h copy_env \<Rightarrow> (addr \<Rightarrow> 'h copy_state \<Rightarrow> (val option \<times> 'h copy_state) copied) \<Rightarrow> ast \<Rightarrow> 'h copy_state \<Rightarrow>
     ((nat \<times> ast_cell list \<times> ast) \<times> 'h copy_state) copied"
where
  "pmmpthread_copy_ast X cl a st =
     (let tree_size = zend_ast_tree_size X a + ce_sizeof_ast_ref X in
      cbind (pmmpthread_copy_ast_tree X cl a (ce_sizeof_ast_ref X) st) (\<lambda>((b, cells, _), st1).
        Copied ((tree_size, cells, b), st1)))"

section \<open>Attributes, static variables, literals\<close>

type_synonym 'h closure_copy = "addr \<Rightarrow> 'h copy_state \<Rightarrow> (val option \<times> 'h copy_state) copied"

fun copy_attribute_args ::
  "'h copy_env \<Rightarrow> 'h closure_copy \<Rightarrow> string \<Rightarrow> (zstr option \<times> val) list \<Rightarrow> 'h copy_state \<Rightarrow> ((zstr option \<times> val) list \<times> 'h copy_state) copied"
where
  "copy_attribute_args X cl name [] st = Copied ([], st)"
| "copy_attribute_args X cl name ((n, v) # args) st =
     cbind (pmmpthread_copy_zval X cl v st) (\<lambda>(r, st1).
       case r of
         None \<Rightarrow> Fatal (NonCopyableAttribute name)
       | Some u \<Rightarrow>
           (case copy_opt_string n st1 of
              (m, st2) \<Rightarrow> cbind (copy_attribute_args X cl name args st2) (\<lambda>(args1, st3). Copied ((m, u) # args1, st3))))"

definition pmmpthread_copy_attribute :: "'h copy_env \<Rightarrow> 'h closure_copy \<Rightarrow> zend_attribute \<Rightarrow> 'h copy_state \<Rightarrow> (zend_attribute \<times> 'h copy_state) copied" where
  "pmmpthread_copy_attribute X cl a st =
     (case pmmpthread_copy_string (at_name a) st of
        (name, st1) \<Rightarrow>
          cbind (copy_attribute_args X cl (zs_val (at_name a)) (at_args a) st1) (\<lambda>(args, st2).
            Copied (\<lparr>at_name = name, at_flags = at_flags a, at_args = args\<rparr>, st2)))"

fun pmmpthread_copy_attributes :: "'h copy_env \<Rightarrow> 'h closure_copy \<Rightarrow> zend_attribute list \<Rightarrow> 'h copy_state \<Rightarrow> (zend_attribute list \<times> 'h copy_state) copied" where
  "pmmpthread_copy_attributes X cl [] st = Copied ([], st)"
| "pmmpthread_copy_attributes X cl (a # as) st =
     cbind (pmmpthread_copy_attribute X cl a st) (\<lambda>(b, st1).
     cbind (pmmpthread_copy_attributes X cl as st1) (\<lambda>(bs, st2). Copied (b # bs, st2)))"

fun strip_refs :: "val \<Rightarrow> val" where
  "strip_refs (V_REFERENCE v) = strip_refs v"
| "strip_refs v = v"

text \<open>\<open>zend_hash_add\<close>: a key that is there keeps its value.\<close>

definition statics_add :: "zstr \<Rightarrow> val \<Rightarrow> (zstr \<times> val) list \<Rightarrow> (zstr \<times> val) list" where
  "statics_add s v es = (if \<exists>(u, _) \<in> set es. zs_val u = zs_val s then es else es @ [(s, v)])"

fun pmmpthread_copy_statics ::
  "'h copy_env \<Rightarrow> 'h closure_copy \<Rightarrow> (zstr \<times> val) list \<Rightarrow> (zstr \<times> val) list \<Rightarrow> 'h copy_state \<Rightarrow> ((zstr \<times> val) list \<times> 'h copy_state) copied"
where
  "pmmpthread_copy_statics X cl [] statics st = Copied (statics, st)"
| "pmmpthread_copy_statics X cl ((s, v) # old) statics st =
     (case pmmpthread_copy_string s st of
        (name, st1) \<Rightarrow>
          cbind (pmmpthread_copy_zval X cl (strip_refs v) st1) (\<lambda>(r, st2).
            pmmpthread_copy_statics X cl old (statics_add name (case r of Some u \<Rightarrow> u | None \<Rightarrow> V_NULL) statics) st2))"

fun pmmpthread_copy_variables :: "zstr list \<Rightarrow> 'h copy_state \<Rightarrow> zstr list \<times> 'h copy_state" where
  "pmmpthread_copy_variables [] st = ([], st)"
| "pmmpthread_copy_variables (s # ss) st =
     (case pmmpthread_copy_string s st of
        (u, st1) \<Rightarrow> (case pmmpthread_copy_variables ss st1 of (us, st2) \<Rightarrow> (u # us, st2)))"

definition pmmpthread_copy_try :: "nat list \<Rightarrow> nat list" where
  "pmmpthread_copy_try old = old"

definition pmmpthread_copy_live :: "nat list \<Rightarrow> nat list" where
  "pmmpthread_copy_live old = old"

fun pmmpthread_copy_literals :: "'h copy_env \<Rightarrow> 'h closure_copy \<Rightarrow> string \<Rightarrow> val list \<Rightarrow> 'h copy_state \<Rightarrow> (val list \<times> 'h copy_state) copied" where
  "pmmpthread_copy_literals X cl func_name [] st = Copied ([], st)"
| "pmmpthread_copy_literals X cl func_name (v # vs) st =
     cbind (case v of V_UNDEF \<Rightarrow> Copied (Some V_UNDEF, st) | _ \<Rightarrow> pmmpthread_copy_zval X cl v st) (\<lambda>(r, st1).
       case r of
         None \<Rightarrow> Fatal (NonCopyableLiteral func_name)
       | Some u \<Rightarrow> cbind (pmmpthread_copy_literals X cl func_name vs st1) (\<lambda>(us, st2). Copied (u # us, st2)))"

section \<open>Opcodes, types, arguments\<close>

text \<open>
  The operand of the \<open>i\<close>-th opcode that names a constant, after the opcodes and the literals have moved: by the distance of the
  literals when addresses are absolute, else relative to the opline, as a signed number of 32 bits.
\<close>

definition reloc_const :: "'h copy_env \<Rightarrow> int \<Rightarrow> int \<Rightarrow> int \<Rightarrow> int \<Rightarrow> nat \<Rightarrow> int \<Rightarrow> int" where
  "reloc_const X opcodes literals copy copy_literals i operand =
     (if ce_abs_const X then operand + (copy_literals - literals)
      else
        let old_opline = opcodes + int (i * ce_sizeof_op X);
            opline = copy + int (i * ce_sizeof_op X);
            index = (old_opline + signed_take_bit 31 operand - literals) div int (ce_sizeof_zval X)
        in signed_take_bit 31 (copy_literals + index * int (ce_sizeof_zval X) - opline))"

definition reloc_jump :: "'h copy_env \<Rightarrow> int \<Rightarrow> int \<Rightarrow> int \<Rightarrow> int" where
  "reloc_jump X opcodes copy target = copy + (target - opcodes) div int (ce_sizeof_op X) * int (ce_sizeof_op X)"

definition copy_op :: "'h copy_env \<Rightarrow> bool \<Rightarrow> int \<Rightarrow> int \<Rightarrow> int \<Rightarrow> int \<Rightarrow> nat \<Rightarrow> zend_op \<Rightarrow> zend_op" where
  "copy_op X pass_two opcodes literals copy copy_literals i op =
     (let a = (if op1_const op then op\<lparr>op1 := reloc_const X opcodes literals copy copy_literals i (op1 op)\<rparr> else op);
          b = (if op2_const a then a\<lparr>op2 := reloc_const X opcodes literals copy copy_literals i (op2 a)\<rparr> else a)
      in
      if ce_abs_jmp X \<and> pass_two then
        case op_jump_kind b of
          Jmp_op1 \<Rightarrow> b\<lparr>op1 := reloc_jump X opcodes copy (op1 b)\<rparr>
        | Jmp_op2 \<Rightarrow> b\<lparr>op2 := reloc_jump X opcodes copy (op2 b)\<rparr>
        | Jmp_catch \<Rightarrow> if \<not> op_last_catch b then b\<lparr>op2 := reloc_jump X opcodes copy (op2 b)\<rparr> else b
        | Jmp_none \<Rightarrow> b
      else b)"

definition pmmpthread_copy_opcodes :: "'h copy_env \<Rightarrow> zend_function \<Rightarrow> int \<Rightarrow> int \<Rightarrow> int \<Rightarrow> zend_op list" where
  "pmmpthread_copy_opcodes X f literals memory copy_literals =
     map (\<lambda>(i, op). copy_op X (fn_pass_two f) (fn_opcodes_at f) literals memory copy_literals i op) (enumerate 0 (fn_opcodes f))"

fun pmmpthread_copy_zend_type :: "zend_type \<Rightarrow> 'h copy_state \<Rightarrow> zend_type \<times> 'h copy_state"
and copy_type_list :: "zend_type list \<Rightarrow> 'h copy_state \<Rightarrow> zend_type list \<times> 'h copy_state"
where
  "pmmpthread_copy_zend_type (Type_list arena tmask ts) st = (case copy_type_list ts st of (us, st1) \<Rightarrow> (Type_list arena tmask us, st1))"
| "pmmpthread_copy_zend_type (Type_name s tmask) st = (case pmmpthread_copy_string s st of (u, st1) \<Rightarrow> (Type_name u tmask, st1))"
| "pmmpthread_copy_zend_type (Type_mask tmask) st = (Type_mask tmask, st)"
| "copy_type_list [] st = ([], st)"
| "copy_type_list (t # ts) st =
     (case pmmpthread_copy_zend_type t st of
        (u, st1) \<Rightarrow> (case copy_type_list ts st1 of (us, st2) \<Rightarrow> (u # us, st2)))"

fun copy_arg_infos :: "zend_arg_info list \<Rightarrow> 'h copy_state \<Rightarrow> zend_arg_info list \<times> 'h copy_state" where
  "copy_arg_infos [] st = ([], st)"
| "copy_arg_infos (a # as) st =
     (case copy_opt_string (ai_name a) st of
        (n, st1) \<Rightarrow>
          (case pmmpthread_copy_zend_type (ai_type a) st1 of
             (ty, st2) \<Rightarrow> (case copy_arg_infos as st2 of (bs, st3) \<Rightarrow> (\<lparr>ai_name = n, ai_type = ty\<rparr> # bs, st3))))"

text \<open>The number of entries: the arguments, the return type in front of them and the variadic argument behind them.\<close>

definition arg_info_count :: "zend_function \<Rightarrow> nat" where
  "arg_info_count f = fn_num_args f + (if fn_has_return_type f then 1 else 0) + (if fn_variadic f then 1 else 0)"

definition pmmpthread_copy_arginfo :: "zend_function \<Rightarrow> zend_arg_info list \<Rightarrow> 'h copy_state \<Rightarrow> (zend_arg_info list \<times> 'h copy_state) copied" where
  "pmmpthread_copy_arginfo f old st =
     (if length old < arg_info_count f then Stuck
      else Copied (copy_arg_infos (take (arg_info_count f) old) st))"

section \<open>Functions\<close>

definition upd_function :: "addr \<Rightarrow> (zend_function \<Rightarrow> zend_function) \<Rightarrow> 'h copy_state \<Rightarrow> 'h copy_state" where
  "upd_function a g st = st\<lparr>cs_functions := (cs_functions st)(a := map_option g (cs_functions st a))\<rparr>"

text \<open>The file name of a function, one copy per thread.\<close>

definition copy_filename :: "zstr \<Rightarrow> 'h copy_state \<Rightarrow> zstr \<times> 'h copy_state" where
  "copy_filename s st =
     (case cs_filenames st (zs_val s) of
        Some u \<Rightarrow> (u, st)
      | None \<Rightarrow> (case pmmpthread_copy_string s st of (u, st1) \<Rightarrow> (u, st1\<lparr>cs_filenames := (cs_filenames st1)(zs_val u \<mapsto> u)\<rparr>)))"

text \<open>
  The memory of the copied opcodes and literals: one block, with the literals behind the opcodes at a multiple of 16 bytes, when operands
  are relative and the function is compiled, else a block each.
\<close>

definition aligned16 :: "nat \<Rightarrow> nat" where
  "aligned16 n = (n + 15) div 16 * 16"

definition code_memory :: "'h copy_env \<Rightarrow> zend_function \<Rightarrow> 'h copy_state \<Rightarrow> (addr \<times> addr) \<times> 'h copy_state" where
  "code_memory X f st =
     (let ops = ce_sizeof_op X * length (fn_opcodes f);
          lits = ce_sizeof_zval X * (case fn_literals f of None \<Rightarrow> 0 | Some ls \<Rightarrow> length ls)
      in
      if \<not> ce_abs_const X \<and> fn_pass_two f then
        (case alloc (aligned16 ops + lits) st of (a, st1) \<Rightarrow> ((a, a + aligned16 ops), st1))
      else
        (case alloc ops st of (a, st1) \<Rightarrow> (case alloc lits st1 of (b, st2) \<Rightarrow> ((a, b), st2))))"

definition copy_opt :: "('a \<Rightarrow> 'h copy_state \<Rightarrow> ('b \<times> 'h copy_state) copied) \<Rightarrow> 'a option \<Rightarrow> 'h copy_state \<Rightarrow> ('b option \<times> 'h copy_state) copied" where
  "copy_opt g x st = (case x of None \<Rightarrow> Copied (None, st) | Some y \<Rightarrow> cbind (g y st) (\<lambda>(z, st1). Copied (Some z, st1)))"

fun pmmpthread_copy_dynamic_func_defs ::
  "(addr \<Rightarrow> 'h copy_state \<Rightarrow> (addr \<times> 'h copy_state) copied) \<Rightarrow> addr list \<Rightarrow> 'h copy_state \<Rightarrow> (addr list \<times> 'h copy_state) copied"
where
  "pmmpthread_copy_dynamic_func_defs copy_function [] st = Copied ([], st)"
| "pmmpthread_copy_dynamic_func_defs copy_function (f # fs) st =
     cbind (copy_function f st) (\<lambda>(a, st1).
     cbind (pmmpthread_copy_dynamic_func_defs copy_function fs st1) (\<lambda>(as, st2). Copied (a # as, st2)))"

text \<open>The parts of a function that are not in shared memory.\<close>

definition copy_code ::
  "'h copy_env \<Rightarrow> 'h closure_copy \<Rightarrow> (addr \<Rightarrow> 'h copy_state \<Rightarrow> (addr \<times> 'h copy_state) copied) \<Rightarrow> zend_function \<Rightarrow> 'h copy_state \<Rightarrow>
     (zend_function \<times> 'h copy_state) copied"
where
  "copy_code X cl copy_function f st =
     (case code_memory X f st of
        ((opcodes_memory, literals_memory), st1) \<Rightarrow>
          cbind (copy_opt (pmmpthread_copy_literals X cl (zs_val (fn_name f))) (fn_literals f) st1) (\<lambda>(literals, st2).
          let f1 = f\<lparr>fn_opcodes := pmmpthread_copy_opcodes X f (fn_literals_at f) (int opcodes_memory) (int literals_memory),
                     fn_opcodes_at := int opcodes_memory, fn_literals := literals, fn_literals_at := int literals_memory\<rparr>
          in
          cbind (copy_opt (pmmpthread_copy_arginfo f) (fn_args f) st2) (\<lambda>(args, st3).
          let f2 = f1\<lparr>fn_args := args, fn_live_range := map_option pmmpthread_copy_live (fn_live_range f),
                      fn_try_catch := map_option pmmpthread_copy_try (fn_try_catch f)\<rparr>
          in
          cbind (copy_opt (\<lambda>vs st. Copied (pmmpthread_copy_variables vs st)) (fn_vars f) st3) (\<lambda>(vars, st4).
          cbind (copy_opt (pmmpthread_copy_attributes X cl) (fn_attributes f) st4) (\<lambda>(attributes, st5).
          cbind (pmmpthread_copy_dynamic_func_defs copy_function (fn_dynamic f) st5) (\<lambda>(dynamic, st6).
          Copied (f2\<lparr>fn_vars := vars, fn_attributes := attributes, fn_dynamic := dynamic\<rparr>, st6)))))))"

definition pmmpthread_copy_user_function ::
  "'h copy_env \<Rightarrow> 'h closure_copy \<Rightarrow> (addr \<Rightarrow> 'h copy_state \<Rightarrow> (addr \<times> 'h copy_state) copied) \<Rightarrow> zend_function \<Rightarrow> bool \<Rightarrow> 'h copy_state \<Rightarrow>
     (addr \<times> 'h copy_state) copied"
where
  "pmmpthread_copy_user_function X cl copy_function f copy_static_variables st =
     (case alloc 0 st of
        (copy, st1) \<Rightarrow>
     (case pmmpthread_copy_string (fn_name f) st1 of
        (name, st2) \<Rightarrow>
     (case copy_opt_string (fn_doc f) st2 of
        (doc, st3) \<Rightarrow>
     (case copy_filename (fn_filename f) st3 of
        (filename, st4) \<Rightarrow>
          let f1 = f\<lparr>fn_name := name, fn_name_refs := 1, fn_refcount := map_option (\<lambda>_. 1) (fn_refcount f), fn_heap_rt_cache := False,
                     fn_doc := doc, fn_filename := filename\<rparr>
          in
          cbind (if fn_refcount f1 \<noteq> None then copy_code X cl copy_function f1 st4 else Copied (f1, st4)) (\<lambda>(f2, st5).
          cbind (if copy_static_variables then copy_opt (\<lambda>old. pmmpthread_copy_statics X cl old []) (fn_statics f) st5 else Copied (None, st5))
            (\<lambda>(statics, st6).
              Copied (copy, st6\<lparr>cs_functions := (cs_functions st6)(copy \<mapsto> f2\<lparr>fn_statics := statics\<rparr>)\<rparr>)))))))"

definition pmmpthread_copy_internal_function :: "zend_function \<Rightarrow> 'h copy_state \<Rightarrow> addr \<times> 'h copy_state" where
  "pmmpthread_copy_internal_function f st =
     (case alloc 0 st of (copy, st1) \<Rightarrow> (copy, st1\<lparr>cs_functions := (cs_functions st1)(copy \<mapsto> f\<lparr>fn_arena := True\<rparr>)\<rparr>))"

definition pmmpthread_add_function_ref :: "addr \<Rightarrow> 'h copy_state \<Rightarrow> 'h copy_state" where
  "pmmpthread_add_function_ref a st =
     upd_function a (\<lambda>f. f\<lparr>fn_refcount := (if fn_user f then map_option Suc (fn_refcount f) else fn_refcount f),
                          fn_name_refs := fn_name_refs f + 1\<rparr>) st"

text \<open>
  A function at address \<open>a\<close> (\<open>None\<close> for the one inside a closure object). An immutable function is shared, and its address returned; for the
  one inside a closure object the copy of the closure uses it as it is. Another one is looked up among the copies, by its address or,
  for a closure, by its opcodes.
\<close>

definition function_known :: "addr option \<Rightarrow> zend_function \<Rightarrow> 'h copy_state \<Rightarrow> addr option" where
  "function_known a f st =
     (if \<not> fn_closure f then (case a of None \<Rightarrow> None | Some x \<Rightarrow> cs_resolve st x) else cs_closures st (fn_opcodes_at f))"

definition function_register :: "addr option \<Rightarrow> zend_function \<Rightarrow> addr \<Rightarrow> 'h copy_state \<Rightarrow> 'h copy_state" where
  "function_register a f copy st =
     (if fn_closure f then
        pmmpthread_add_function_ref copy
          (if cs_closures st (fn_opcodes_at f) = None then st\<lparr>cs_closures := (cs_closures st)(fn_opcodes_at f \<mapsto> copy)\<rparr> else st)
      else case a of None \<Rightarrow> st | Some x \<Rightarrow> st\<lparr>cs_resolve := (cs_resolve st)(x \<mapsto> copy)\<rparr>)"

section \<open>Closures\<close>

text \<open>
  The engine's new closure object over a function of this thread, with the classes of this thread. The reference the engine takes to the
  function is given back by \<open>destroy_zend_function\<close> at the end of the copy.
\<close>

definition new_closure ::
  "'h copy_env \<Rightarrow> closure_object \<Rightarrow> zend_function \<Rightarrow> val \<Rightarrow> (zstr \<times> val) list option \<Rightarrow> statics_ptr \<Rightarrow> 'h copy_state \<Rightarrow>
     (val option \<times> 'h copy_state) copied"
where
  "new_closure X co func_def this_zv statics ptr st =
     cbind (prepare_opt_class X (fn_scope (co_function co)) st) (\<lambda>(scope, st1).
     cbind (prepare_opt_class X (co_called_scope co) st1) (\<lambda>(called_scope, st2).
     case alloc 0 st2 of
        (a, st3) \<Rightarrow>
          let f = func_def\<lparr>fn_scope := scope\<rparr>;
              base = \<lparr>co_function = f, co_this = this_zv, co_called_scope = called_scope,
                      co_statics_ptr = (case fn_statics f of None \<Rightarrow> Statics_none | Some es \<Rightarrow> Statics_own es)\<rparr>;
              new = (case statics of
                       None \<Rightarrow> base
                     | Some es \<Rightarrow> base\<lparr>co_function := f\<lparr>fn_statics := Some es\<rparr>, co_statics_ptr := ptr\<rparr>)
          in Copied (Some (V_CLOSURE a), st3\<lparr>cs_closure_objects := (cs_closure_objects st3)(a \<mapsto> new)\<rparr>)))"

text \<open>
  The function of this thread a first-class callable stands for: a method of the class of this thread, or a function. The name is looked up
  as it is written in the declaration.
\<close>

definition fake_closure_function ::
  "'h copy_env \<Rightarrow> closure_object \<Rightarrow> 'h copy_state \<Rightarrow> ((zend_function + pmmpthread_error) \<times> 'h copy_state) copied"
where
  "fake_closure_function X co st =
     (let name = zs_val (fn_name (co_function co)) in
      case (case co_called_scope co of Some c \<Rightarrow> Some c | None \<Rightarrow> fn_scope (co_function co)) of
        Some origin_class \<Rightarrow>
          cbind (ce_class X origin_class st) (\<lambda>(local_class, st1).
            case Option.bind local_class (class_at X st1) of
              None \<Rightarrow> Stuck
            | Some c \<Rightarrow>
                (case str_find name (cl_function_table c) of
                   None \<Rightarrow> Copied (Inr (UnknownMethod name), st1)
                 | Some a \<Rightarrow> (case function_at X st1 a of None \<Rightarrow> Stuck | Some f \<Rightarrow> Copied (Inl f, st1))))
      | None \<Rightarrow>
          (case map_of (cs_function_table st) name of
             None \<Rightarrow> Copied (Inr (UnknownFunction name), st)
           | Some a \<Rightarrow> (case function_at X st a of None \<Rightarrow> Stuck | Some f \<Rightarrow> Copied (Inl f, st))))"

text \<open>The bound variables, copied from the closure object before the new one is made.\<close>

definition closure_statics ::
  "'h copy_env \<Rightarrow> 'h closure_copy \<Rightarrow> closure_object \<Rightarrow> 'h copy_state \<Rightarrow> (((zstr \<times> val) list option \<times> statics_ptr) \<times> 'h copy_state) copied"
where
  "closure_statics X cl co st =
     (if \<not> fn_user (co_function co) then Copied ((None, Statics_none), st)
      else
        cbind (copy_opt (\<lambda>old. pmmpthread_copy_statics X cl old []) (fn_statics (co_function co)) st) (\<lambda>(statics, st1).
          case co_statics_ptr co of
            Statics_none \<Rightarrow> Copied ((statics, Statics_none), st1)
          | Statics_same \<Rightarrow> Copied ((statics, Statics_same), st1)
          | Statics_own old \<Rightarrow>
              cbind (pmmpthread_copy_statics X cl old [] st1) (\<lambda>(es, st2). Copied ((statics, Statics_own es), st2))))"

text \<open>\<open>n\<close> bounds the depth to which functions and closures are nested.\<close>

fun pmmpthread_copy_function_ex ::
  "nat \<Rightarrow> 'h copy_env \<Rightarrow> addr option \<Rightarrow> zend_function \<Rightarrow> bool \<Rightarrow> 'h copy_state \<Rightarrow> (addr \<times> 'h copy_state) copied"
and pmmpthread_copy_closure ::
  "nat \<Rightarrow> 'h copy_env \<Rightarrow> closure_object \<Rightarrow> bool \<Rightarrow> 'h copy_state \<Rightarrow> (val option \<times> 'h copy_state) copied"
where
  "pmmpthread_copy_function_ex n X a f copy_static_variables st =
     (if fn_immutable f then (case a of Some x \<Rightarrow> Copied (x, st) | None \<Rightarrow> Stuck)
      else case function_known a f st of
        Some copy \<Rightarrow> Copied (copy, pmmpthread_add_function_ref copy st)
      | None \<Rightarrow>
          cbind
            (if fn_user f then
               (case n of
                  0 \<Rightarrow> No_fuel
                | Suc m \<Rightarrow>
                    pmmpthread_copy_user_function X
                      (\<lambda>c st. case ce_closures X c of None \<Rightarrow> Stuck | Some co \<Rightarrow> pmmpthread_copy_closure m X co True st)
                      (\<lambda>g st. case ce_functions X g of None \<Rightarrow> Stuck | Some h \<Rightarrow> pmmpthread_copy_function_ex m X (Some g) h True st)
                      f copy_static_variables st)
             else Copied (pmmpthread_copy_internal_function f st))
            (\<lambda>(copy, st1). Copied (copy, function_register a f copy st1)))"
| "pmmpthread_copy_closure n X co silent st =
     cbind
       (case co_this co of
          V_THREADSAFE a \<Rightarrow>
            cbind (of_outcome (pmmpthread_object_connect (ce_tid X) (ce_oid X) (Some a) (cs_world st))) (\<lambda>(c, w).
              Copied (map_option V_THREADSAFE c, st\<lparr>cs_world := w\<rparr>))
        | _ \<Rightarrow> Copied (Some V_UNDEF, st))
       (\<lambda>(this, st1).
         case this of
           None \<Rightarrow> Copied (None, if silent then st1 else st1\<lparr>cs_world := throw (ce_tid X) ClosureThisGone (cs_world st1)\<rparr>)
         | Some this_zv \<Rightarrow>
             if fn_fake_closure (co_function co) then
               cbind (fake_closure_function X co st1) (\<lambda>(func_def, st2).
                 case func_def of
                   Inr e \<Rightarrow> Copied (None, if silent then st2 else st2\<lparr>cs_world := throw (ce_tid X) e (cs_world st2)\<rparr>)
                 | Inl f \<Rightarrow> new_closure X co f this_zv None Statics_none st2)
             else
               (case n of
                  0 \<Rightarrow> No_fuel
                | Suc m \<Rightarrow>
                    cbind (closure_statics X
                        (\<lambda>c st. case ce_closures X c of None \<Rightarrow> Stuck | Some co2 \<Rightarrow> pmmpthread_copy_closure m X co2 True st) co st1)
                      (\<lambda>((statics, statics_ptr), st2).
                    if fn_immutable (co_function co) then new_closure X co (co_function co) this_zv statics statics_ptr st2
                    else
                    cbind (pmmpthread_copy_function_ex m X None (co_function co) False st2) (\<lambda>(func_def, st3).
                    case cs_functions st3 func_def of
                      None \<Rightarrow> Stuck
                    | Some f \<Rightarrow> new_closure X co f this_zv statics statics_ptr st3))))"

definition pmmpthread_copy_function :: "nat \<Rightarrow> 'h copy_env \<Rightarrow> addr \<Rightarrow> 'h copy_state \<Rightarrow> (addr \<times> 'h copy_state) copied" where
  "pmmpthread_copy_function n X a st =
     (case ce_functions X a of None \<Rightarrow> Stuck | Some f \<Rightarrow> pmmpthread_copy_function_ex n X (Some a) f True st)"

end
