(* ===== verification/Copy_Correct.thy ===== *)
theory Copy_Correct
  imports Copy
begin

text \<open>
  What the copies of values, constant expressions, opcodes and functions guarantee: the layout of a copied constant expression,
  equal content, separate memory, operands that keep their meaning, one copy per function.
\<close>

section \<open>Constant expressions fill their block\<close>

text \<open>The cells lie one behind the other from \<open>a\<close> to \<open>b\<close>.\<close>

fun tiles :: "ast_cell list \<Rightarrow> nat \<Rightarrow> nat \<Rightarrow> bool" where
  "tiles [] a b \<longleftrightarrow> a = b"
| "tiles (c # cs) a b \<longleftrightarrow> cell_at c = a \<and> tiles cs (a + cell_size c) b"

text \<open>The cells hold the shape of a tree whose root is at \<open>p\<close>.\<close>

fun lays :: "ast_cell list \<Rightarrow> nat \<Rightarrow> ast \<Rightarrow> bool" and lays_all :: "ast_cell list \<Rightarrow> nat option list \<Rightarrow> ast option list \<Rightarrow> bool" where
  "lays cells p (AST_ZVAL attr v) \<longleftrightarrow> (\<exists>c \<in> set cells. cell_at c = p \<and> cell_kind c = Leaf \<and> cell_attr c = attr)"
| "lays cells p (AST_CONSTANT attr s) \<longleftrightarrow> (\<exists>c \<in> set cells. cell_at c = p \<and> cell_kind c = Leaf_constant \<and> cell_attr c = attr)"
| "lays cells p (AST_LIST kind attr cs) \<longleftrightarrow>
     (\<exists>c \<in> set cells. cell_at c = p \<and> cell_kind c = Inner kind \<and> cell_attr c = attr \<and> lays_all cells (cell_children c) cs)"
| "lays cells p (AST_NODE kind attr cs) \<longleftrightarrow>
     (\<exists>c \<in> set cells. cell_at c = p \<and> cell_kind c = Inner kind \<and> cell_attr c = attr \<and> lays_all cells (cell_children c) cs)"
| "lays_all cells [] [] \<longleftrightarrow> True"
| "lays_all cells (None # ps) (None # cs) \<longleftrightarrow> lays_all cells ps cs"
| "lays_all cells (Some p # ps) (Some c # cs) \<longleftrightarrow> lays cells p c \<and> lays_all cells ps cs"
| "lays_all cells _ _ \<longleftrightarrow> False"

lemma tiles_append: "tiles (xs @ ys) a c \<longleftrightarrow> (\<exists>b. tiles xs a b \<and> tiles ys b c)"
  by (induction xs arbitrary: a) auto

lemma lays_mono:
  "lays cells p a \<Longrightarrow> set cells \<subseteq> set cells2 \<Longrightarrow> lays cells2 p a"
  "lays_all cells ps cs \<Longrightarrow> set cells \<subseteq> set cells2 \<Longrightarrow> lays_all cells2 ps cs"
  by (induction cells p a and cells ps cs rule: lays_lays_all.induct) auto

lemma cbind_Copied: "cbind m f = Copied y \<longleftrightarrow> (\<exists>x. m = Copied x \<and> f x = Copied y)"
  by (cases m) auto

lemma ast_layout:
  "pmmpthread_copy_ast_tree X cl a buf st = Copied ((b, cells, buf1), st1) \<Longrightarrow>
     buf1 = buf + zend_ast_tree_size X a \<and> tiles cells buf buf1 \<and> lays cells buf a"
  "copy_ast_children X cl cs buf st = Copied ((ds, ptrs, cells, buf1), st1) \<Longrightarrow>
     buf1 = buf + ast_children_size X cs \<and> tiles cells buf buf1 \<and> lays_all cells ptrs cs"
proof (induction X a and X cs arbitrary: buf st b cells buf1 st1 and buf st ds ptrs cells buf1 st1 rule: zend_ast_tree_size_ast_children_size.induct)
  case (3 X kind attr cs)
  then obtain ds ptrs cells2 where c: "copy_ast_children X cl cs (buf + zend_ast_list_size X (length cs)) st = Copied ((ds, ptrs, cells2, buf1), st1)"
    "cells = \<lparr>cell_at = buf, cell_size = zend_ast_list_size X (length cs), cell_kind = Inner kind, cell_attr = attr, cell_children = ptrs\<rparr> # cells2"
    by (auto simp: cbind_Copied)
  from "3.IH" [OF c(1)] lays_mono(2) [of cells2 ptrs cs cells] show ?case using c(2) by auto
next
  case (4 X kind attr cs)
  then obtain ds ptrs cells2 where c: "copy_ast_children X cl cs (buf + zend_ast_size X (length cs)) st = Copied ((ds, ptrs, cells2, buf1), st1)"
    "cells = \<lparr>cell_at = buf, cell_size = zend_ast_size X (length cs), cell_kind = Inner kind, cell_attr = attr, cell_children = ptrs\<rparr> # cells2"
    by (auto simp: cbind_Copied)
  from "4.IH" [OF c(1)] lays_mono(2) [of cells2 ptrs cs cells] show ?case using c(2) by auto
next
  case (7 X c cs)
  then obtain d cells1 buf2 st2 ds2 ptrs2 cells2 where
    c: "pmmpthread_copy_ast_tree X cl c buf st = Copied ((d, cells1, buf2), st2)"
      "copy_ast_children X cl cs buf2 st2 = Copied ((ds2, ptrs2, cells2, buf1), st1)" "cells = cells1 @ cells2" "ptrs = Some buf # ptrs2"
    by (auto simp: cbind_Copied)
  from "7.IH"(1) [OF c(1)] "7.IH"(2) [OF c(2)] lays_mono(1) [of cells1 buf c cells] lays_mono(2) [of cells2 ptrs2 cs cells]
  show ?case using c(3,4) by (auto simp: tiles_append)
qed (fastforce simp: cbind_Copied split: prod.splits)+

section \<open>Copies have the content of the original\<close>

fun copyable :: "val \<Rightarrow> bool" where
  "copyable (V_INDIRECT v) = copyable v"
| "copyable (V_REFERENCE v) = copyable v"
| "copyable V_UNDEF = False"
| "copyable (V_RESOURCE n) = False"
| "copyable (V_OBJECT a) = False"
| "copyable V_UNINIT = False"
| "copyable _ = True"

definition key_content :: "vkey \<Rightarrow> int + string" where
  "key_content k = (case k of K_INT n \<Rightarrow> Inl n | K_STR s \<Rightarrow> Inr (zs_val s))"

text \<open>
  Values without thread-safe objects, closures and enum cases, in which the keys of an array are different and the values in a constant
  expression can be copied.
\<close>

fun data_val :: "val \<Rightarrow> bool" and data_entries :: "(vkey \<times> val) list \<Rightarrow> bool" and data_ast :: "ast \<Rightarrow> bool" and data_children :: "ast option list \<Rightarrow> bool"
where
  "data_val (V_INDIRECT v) = data_val v"
| "data_val (V_REFERENCE v) = data_val v"
| "data_val (V_ARRAY persistent es) = data_entries es"
| "data_val (V_AST a) = data_ast a"
| "data_val (V_THREADSAFE a) = False"
| "data_val (V_CLOSURE a) = False"
| "data_val (V_ENUM ce name) = False"
| "data_val _ = True"
| "data_entries [] = True"
| "data_entries ((k, v) # es) \<longleftrightarrow> data_val v \<and> data_entries es \<and> key_content k \<notin> (key_content \<circ> fst) ` set es"
| "data_ast (AST_ZVAL attr v) \<longleftrightarrow> copyable v \<and> data_val v"
| "data_ast (AST_CONSTANT attr s) = True"
| "data_ast (AST_LIST kind attr cs) = data_children cs"
| "data_ast (AST_NODE kind attr cs) = data_children cs"
| "data_children [] = True"
| "data_children (None # cs) = data_children cs"
| "data_children (Some c # cs) \<longleftrightarrow> data_ast c \<and> data_children cs"

text \<open>The content of a value: indirections and references followed, uncopyable entries left out, the identity of strings forgotten.\<close>

definition erase :: "zstr \<Rightarrow> zstr" where
  "erase s = \<lparr>zs_ptr = 0, zs_val = zs_val s, zs_permanent = False, zs_persistent = False, zs_interned = False\<rparr>"

definition erase_key :: "vkey \<Rightarrow> vkey" where
  "erase_key k = (case k of K_INT n \<Rightarrow> K_INT n | K_STR s \<Rightarrow> K_STR (erase s))"

fun content :: "val \<Rightarrow> val" and content_entries :: "(vkey \<times> val) list \<Rightarrow> (vkey \<times> val) list" and content_ast :: "ast \<Rightarrow> ast"
  and content_children :: "ast option list \<Rightarrow> ast option list"
where
  "content (V_INDIRECT v) = content v"
| "content (V_REFERENCE v) = content v"
| "content (V_STRING s) = V_STRING (erase s)"
| "content (V_ARRAY persistent es) = V_ARRAY persistent (content_entries es)"
| "content (V_AST a) = V_AST (content_ast a)"
| "content v = v"
| "content_entries [] = []"
| "content_entries ((k, v) # es) = (if copyable v then [(erase_key k, content v)] else []) @ content_entries es"
| "content_ast (AST_ZVAL attr v) = AST_ZVAL attr (content v)"
| "content_ast (AST_CONSTANT attr s) = AST_CONSTANT attr (erase s)"
| "content_ast (AST_LIST kind attr cs) = AST_LIST kind attr (content_children cs)"
| "content_ast (AST_NODE kind attr cs) = AST_NODE kind attr (content_children cs)"
| "content_children [] = []"
| "content_children (None # cs) = None # content_children cs"
| "content_children (Some c # cs) = Some (content_ast c) # content_children cs"

text \<open>All strings of a value, the keys of its arrays included.\<close>

fun strings_key :: "(zstr \<Rightarrow> bool) \<Rightarrow> vkey \<Rightarrow> bool" where
  "strings_key P (K_INT n) = True"
| "strings_key P (K_STR s) = P s"

fun strings_val :: "(zstr \<Rightarrow> bool) \<Rightarrow> val \<Rightarrow> bool" and strings_entries :: "(zstr \<Rightarrow> bool) \<Rightarrow> (vkey \<times> val) list \<Rightarrow> bool"
  and strings_ast :: "(zstr \<Rightarrow> bool) \<Rightarrow> ast \<Rightarrow> bool" and strings_children :: "(zstr \<Rightarrow> bool) \<Rightarrow> ast option list \<Rightarrow> bool"
where
  "strings_val P (V_INDIRECT v) = strings_val P v"
| "strings_val P (V_REFERENCE v) = strings_val P v"
| "strings_val P (V_STRING s) = P s"
| "strings_val P (V_ARRAY persistent es) = strings_entries P es"
| "strings_val P (V_AST a) = strings_ast P a"
| "strings_val P (V_ENUM ce s) = P s"
| "strings_val P _ = True"
| "strings_entries P [] = True"
| "strings_entries P ((k, v) # es) \<longleftrightarrow> strings_key P k \<and> strings_val P v \<and> strings_entries P es"
| "strings_ast P (AST_ZVAL attr v) = strings_val P v"
| "strings_ast P (AST_CONSTANT attr s) = P s"
| "strings_ast P (AST_LIST kind attr cs) = strings_children P cs"
| "strings_ast P (AST_NODE kind attr cs) = strings_children P cs"
| "strings_children P [] = True"
| "strings_children P (None # cs) = strings_children P cs"
| "strings_children P (Some c # cs) \<longleftrightarrow> strings_ast P c \<and> strings_children P cs"

lemma strings_key_mono: "strings_key P k \<Longrightarrow> (\<And>s. P s \<Longrightarrow> Q s) \<Longrightarrow> strings_key Q k"
  by (cases k) auto

lemma strings_mono:
  "strings_val P v \<Longrightarrow> (\<And>s. P s \<Longrightarrow> Q s) \<Longrightarrow> strings_val Q v"
  "strings_entries P es \<Longrightarrow> (\<And>s. P s \<Longrightarrow> Q s) \<Longrightarrow> strings_entries Q es"
  "strings_ast P a \<Longrightarrow> (\<And>s. P s \<Longrightarrow> Q s) \<Longrightarrow> strings_ast Q a"
  "strings_children P cs \<Longrightarrow> (\<And>s. P s \<Longrightarrow> Q s) \<Longrightarrow> strings_children Q cs"
  by (induction P v and P es and P a and P cs rule: strings_val_strings_entries_strings_ast_strings_children.induct)
    (auto intro: strings_key_mono)

section \<open>Strings of the copying thread\<close>

text \<open>
  A string the thread may keep: permanent, allocated by the copy, or interned on this thread before. \<open>extends\<close> is what copying data may
  change: it allocates, and interns what it allocates.
\<close>

definition own_string :: "'h copy_state \<Rightarrow> 'h copy_state \<Rightarrow> zstr \<Rightarrow> bool" where
  "own_string st st' s \<longleftrightarrow> zs_permanent s \<or> (cs_next st \<le> zs_ptr s \<and> zs_ptr s < cs_next st') \<or> cs_interned st (zs_val s) = Some s"

definition extends :: "'h copy_state \<Rightarrow> 'h copy_state \<Rightarrow> bool" where
  "extends st st' \<longleftrightarrow> cs_next st \<le> cs_next st' \<and>
     (\<forall>s x. cs_interned st' s = Some x \<longrightarrow> zs_val x = s \<and> (cs_interned st s = Some x \<or> (cs_next st \<le> zs_ptr x \<and> zs_ptr x < cs_next st'))) \<and>
     cs_world st' = cs_world st \<and> cs_filenames st' = cs_filenames st \<and> cs_resolve st' = cs_resolve st \<and> cs_closures st' = cs_closures st \<and>
     cs_functions st' = cs_functions st \<and> cs_closure_objects st' = cs_closure_objects st \<and> cs_classes st' = cs_classes st \<and>
     cs_prop_infos st' = cs_prop_infos st \<and> cs_class_table st' = cs_class_table st \<and> cs_function_table st' = cs_function_table st \<and>
     cs_map_ptr_last st' = cs_map_ptr_last st"

definition interned_ok :: "'h copy_state \<Rightarrow> bool" where
  "interned_ok st \<longleftrightarrow> (\<forall>s x. cs_interned st s = Some x \<longrightarrow> zs_val x = s)"

lemma extends_refl: "interned_ok st \<Longrightarrow> extends st st"
  by (simp add: extends_def interned_ok_def)

lemma extends_trans:
  assumes "extends st st1" "extends st1 st2"
  shows "extends st st2"
proof -
  have "zs_val x = s \<and> (cs_interned st s = Some x \<or> (cs_next st \<le> zs_ptr x \<and> zs_ptr x < cs_next st2))" if "cs_interned st2 s = Some x" for s x
  proof -
    have "zs_val x = s" "cs_interned st1 s = Some x \<or> (cs_next st1 \<le> zs_ptr x \<and> zs_ptr x < cs_next st2)"
      using assms(2) that unfolding extends_def by blast+
    moreover have "cs_interned st1 s = Some x \<Longrightarrow> cs_interned st s = Some x \<or> (cs_next st \<le> zs_ptr x \<and> zs_ptr x < cs_next st1)"
      using assms(1) unfolding extends_def by blast
    moreover have "cs_next st \<le> cs_next st1" "cs_next st1 \<le> cs_next st2" using assms by (simp_all add: extends_def)
    ultimately show ?thesis by linarith
  qed
  then show ?thesis using assms by (simp add: extends_def)
qed

lemma extends_interned: "extends st st' \<Longrightarrow> interned_ok st'"
  by (simp add: extends_def interned_ok_def)

lemma own_later: "extends st1 st2 \<Longrightarrow> own_string st st1 s \<Longrightarrow> own_string st st2 s"
  unfolding extends_def own_string_def by linarith

lemma own_earlier:
  assumes "extends st st1" "extends st1 st2" "own_string st1 st2 s"
  shows "own_string st st2 s"
proof -
  have "cs_interned st1 (zs_val s) = Some s \<Longrightarrow> cs_interned st (zs_val s) = Some s \<or> (cs_next st \<le> zs_ptr s \<and> zs_ptr s < cs_next st1)"
    using assms(1) unfolding extends_def by blast
  moreover have "cs_next st \<le> cs_next st1" "cs_next st1 \<le> cs_next st2" using assms(1,2) by (simp_all add: extends_def)
  ultimately show ?thesis using assms(3) unfolding own_string_def by linarith
qed

lemma copy_string_ok:
  assumes "pmmpthread_copy_string s st = (u, st')" "interned_ok st"
  shows "zs_val u = zs_val s" "extends st st'" "own_string st st' u"
  using assms by (auto simp: pmmpthread_copy_string_def zend_new_interned_string_def new_string_def extends_def own_string_def interned_ok_def
      split: if_splits option.splits)

lemma copy_key_ok:
  assumes "copy_key k st = (l, st')" "interned_ok st"
  shows "erase_key l = erase_key k" "key_content l = key_content k" "extends st st'" "strings_key (own_string st st') l"
  using assms copy_string_ok [OF _ assms(2)] extends_refl [OF assms(2)]
  by (auto simp: copy_key_def erase_key_def key_content_def erase_def split: vkey.splits prod.splits)

lemma key_eq_content: "key_eq k l \<longleftrightarrow> key_content k = key_content l"
  by (cases k; cases l) (auto simp: key_content_def)

lemma ht_update_new: "key_content k \<notin> (key_content \<circ> fst) ` set ht \<Longrightarrow> ht_update k v ht = ht @ [(k, v)]"
  by (induction ht) (auto simp: key_eq_content)

lemma entries_snoc:
  "content_entries (xs @ ys) = content_entries xs @ content_entries ys"
  "strings_entries P (xs @ ys) \<longleftrightarrow> strings_entries P xs \<and> strings_entries P ys"
proof -
  show "content_entries (xs @ ys) = content_entries xs @ content_entries ys"
    by (induction xs) auto
  show "strings_entries P (xs @ ys) \<longleftrightarrow> strings_entries P xs \<and> strings_entries P ys"
    by (induction xs) auto
qed

lemma copy_data:
  "data_val v \<Longrightarrow> interned_ok st \<Longrightarrow> \<exists>r st'. pmmpthread_copy_zval X cl v st = Copied (r, st') \<and> extends st st' \<and> (r = None \<longleftrightarrow> \<not> copyable v) \<and>
     (\<forall>u. r = Some u \<longrightarrow> copyable u \<and> content u = content v \<and> strings_val (own_string st st') u)"
  "data_entries es \<Longrightarrow> interned_ok st \<Longrightarrow> (key_content \<circ> fst) ` set es \<inter> (key_content \<circ> fst) ` set ht = {} \<Longrightarrow>
     \<exists>fs st'. pmmpthread_copy_hash X cl es ht st = Copied (ht @ fs, st') \<and> extends st st' \<and> content_entries fs = content_entries es \<and>
       strings_entries (own_string st st') fs"
  "data_ast a \<Longrightarrow> interned_ok st \<Longrightarrow> \<exists>b cells buf1 st'. pmmpthread_copy_ast_tree X cl a buf st = Copied ((b, cells, buf1), st') \<and> extends st st' \<and>
     content_ast b = content_ast a \<and> strings_ast (own_string st st') b"
  "data_children cs \<Longrightarrow> interned_ok st \<Longrightarrow> \<exists>ds ptrs cells buf1 st'. copy_ast_children X cl cs buf st = Copied ((ds, ptrs, cells, buf1), st') \<and>
     extends st st' \<and> content_children ds = content_children cs \<and> strings_children (own_string st st') ds"
proof (induction v and es and a and cs arbitrary: st and st ht and st buf and st buf rule: data_val_data_entries_data_ast_data_children.induct)
  case (3 p es)
  from "3.IH" [of st "[]"] "3.prems" show ?case by fastforce
next
  case (4 a)
  from "4.IH" [of st "ce_sizeof_ast_ref X"] "4.prems" show ?case by fastforce
next
  case (10 k v es)
  from "10.IH"(1) [of st] "10.prems" obtain r st1 where v: "pmmpthread_copy_zval X cl v st = Copied (r, st1)" "extends st st1"
    "r = None \<longleftrightarrow> \<not> copyable v" "\<And>u. r = Some u \<Longrightarrow> copyable u \<and> content u = content v \<and> strings_val (own_string st st1) u" by auto
  note i1 = extends_interned [OF v(2)]
  show ?case
  proof (cases r)
    case None
    from "10.IH"(2) [of st1 ht] "10.prems" i1 obtain fs st2 where f: "pmmpthread_copy_hash X cl es ht st1 = Copied (ht @ fs, st2)" "extends st1 st2"
      "content_entries fs = content_entries es" "strings_entries (own_string st1 st2) fs" by auto
    then show ?thesis
      using None v extends_trans [OF v(2) f(2)] strings_mono(2) [OF f(4) own_earlier [OF v(2) f(2)]] by auto
  next
    case (Some u)
    obtain l st2 where l: "copy_key k st1 = (l, st2)" by fastforce
    note lk = copy_key_ok [OF l i1]
    have d: "key_content l \<notin> (key_content \<circ> fst) ` set ht" using "10.prems"(3) lk(2) by auto
    from "10.IH"(2) [of st2 "ht @ [(l, u)]"] "10.prems" lk(2) extends_interned [OF lk(3)]
    obtain fs st3 where f: "pmmpthread_copy_hash X cl es (ht @ [(l, u)]) st2 = Copied ((ht @ [(l, u)]) @ fs, st3)" "extends st2 st3"
      "content_entries fs = content_entries es" "strings_entries (own_string st2 st3) fs" by auto
    have e: "extends st st2" "extends st st3" using extends_trans [OF v(2) lk(3)] extends_trans [OF extends_trans [OF v(2) lk(3)] f(2)] by auto
    have "strings_val (own_string st st3) u"
      using v(4) [OF Some] strings_mono(1) [of "own_string st st1" u "own_string st st3"] own_later [OF extends_trans [OF lk(3) f(2)]] by blast
    moreover have "strings_key (own_string st st3) l"
      using strings_key_mono [OF lk(4)] own_later [OF f(2)] own_earlier [OF v(2) lk(3)] by blast
    moreover have "strings_entries (own_string st st3) fs" using strings_mono(2) [OF f(4)] own_earlier [OF e(1) f(2)] by blast
    ultimately show ?thesis
      using v(1,3) Some l f(1,3) e(2) ht_update_new [OF d] v(4) [OF Some] lk(1) by (intro exI [of _ "(l, u) # fs"] exI [of _ st3]) simp
  qed
next
  case (11 attr v)
  from "11.IH" [of st] "11.prems" obtain u st1 where "pmmpthread_copy_zval X cl v st = Copied (Some u, st1)" "extends st st1"
    "content u = content v" "strings_val (own_string st st1) u" by auto
  then show ?case by auto
next
  case (12 attr s)
  then show ?case using copy_string_ok [of s st] by (fastforce simp: erase_def split: prod.splits)
next
  case (13 kind attr cs)
  from "13.IH" [of st "buf + zend_ast_list_size X (length cs)"] "13.prems" show ?case by fastforce
next
  case (14 kind attr cs)
  from "14.IH" [of st "buf + zend_ast_size X (length cs)"] "14.prems" show ?case by fastforce
next
  case (16 cs)
  from "16.IH" [of st buf] "16.prems" show ?case by fastforce
next
  case (17 c cs)
  from "17.IH"(1) [of st buf] "17.prems" obtain b cells buf1 st1 where b: "pmmpthread_copy_ast_tree X cl c buf st = Copied ((b, cells, buf1), st1)"
    "extends st st1" "content_ast b = content_ast c" "strings_ast (own_string st st1) b" by auto
  from "17.IH"(2) [of st1 buf1] "17.prems" extends_interned [OF b(2)] obtain ds ptrs cells2 buf2 st2 where
    d: "copy_ast_children X cl cs buf1 st1 = Copied ((ds, ptrs, cells2, buf2), st2)" "extends st1 st2"
      "content_children ds = content_children cs" "strings_children (own_string st1 st2) ds" by auto
  have "strings_ast (own_string st st2) b" "strings_children (own_string st st2) ds"
    using strings_mono(3) [OF b(4)] own_later [OF d(2)] strings_mono(4) [OF d(4)] own_earlier [OF b(2) d(2)] by blast+
  then show ?case using b d extends_trans [OF b(2) d(2)] by auto
qed (use copy_string_ok extends_refl in \<open>fastforce simp: erase_def split: prod.splits\<close>)+

section \<open>Operands\<close>

text \<open>The address an operand of the \<open>i\<close>-th opcode names, when it names a constant.\<close>

definition const_addr :: "'h copy_env \<Rightarrow> int \<Rightarrow> nat \<Rightarrow> int \<Rightarrow> int" where
  "const_addr X opcodes i operand =
     (if ce_abs_const X then operand else opcodes + int (i * ce_sizeof_op X) + signed_take_bit 31 operand)"

text \<open>Opcodes whose constant operands are no jump targets.\<close>

definition op_wf :: "zend_op \<Rightarrow> bool" where
  "op_wf op \<longleftrightarrow> (op1_const op \<longrightarrow> op_jump_kind op \<noteq> Jmp_op1) \<and> (op2_const op \<longrightarrow> op_jump_kind op \<noteq> Jmp_op2 \<and> op_jump_kind op \<noteq> Jmp_catch)"

lemma reloc_const_addr:
  assumes "0 < ce_sizeof_zval X" "const_addr X opcodes i operand = literals + int (j * ce_sizeof_zval X)"
    and "ce_abs_const X \<or> (- (2 ^ 31) \<le> lits + int (j * ce_sizeof_zval X) - (copy + int (i * ce_sizeof_op X)) \<and>
      lits + int (j * ce_sizeof_zval X) - (copy + int (i * ce_sizeof_op X)) < 2 ^ 31)"
  shows "const_addr X copy i (reloc_const X opcodes literals copy lits i operand) = lits + int (j * ce_sizeof_zval X)"
proof (cases "ce_abs_const X")
  case True
  then show ?thesis using assms(2) by (simp add: const_addr_def reloc_const_def)
next
  case False
  have "opcodes + int (i * ce_sizeof_op X) + signed_take_bit 31 operand - literals = int j * int (ce_sizeof_zval X)"
    using False assms(2) by (simp add: const_addr_def)
  then have "(opcodes + int (i * ce_sizeof_op X) + signed_take_bit 31 operand - literals) div int (ce_sizeof_zval X) = int j"
    using assms(1) by simp
  moreover have "signed_take_bit 31 (lits + int j * int (ce_sizeof_zval X) - (copy + int (i * ce_sizeof_op X))) =
      lits + int j * int (ce_sizeof_zval X) - (copy + int (i * ce_sizeof_op X))"
    using False assms(3) by (intro signed_take_bit_int_eq_self) simp_all
  ultimately show ?thesis using False by (simp add: const_addr_def reloc_const_def Let_def)
qed

lemma copy_op_consts:
  assumes "op_wf op"
  shows "op1_const op \<Longrightarrow> op1 (copy_op X p opcodes literals copy lits i op) = reloc_const X opcodes literals copy lits i (op1 op)"
    and "op2_const op \<Longrightarrow> op2 (copy_op X p opcodes literals copy lits i op) = reloc_const X opcodes literals copy lits i (op2 op)"
  using assms by (cases "op_jump_kind op"; simp add: copy_op_def op_wf_def Let_def)+

lemma copy_opcodes_nth:
  "i < length (fn_opcodes f) \<Longrightarrow> pmmpthread_copy_opcodes X f literals memory lits ! i =
     copy_op X (fn_pass_two f) (fn_opcodes_at f) literals memory lits i (fn_opcodes f ! i)"
  by (simp add: pmmpthread_copy_opcodes_def nth_enumerate_eq)

text \<open>The distance between an opcode and a literal of the copy is less than the size of the block.\<close>

lemma code_distance:
  assumes "code_memory X f st = ((ops, lits), st1)" "\<not> ce_abs_const X" "fn_pass_two f" "fn_literals f = Some ls"
    and "i < length (fn_opcodes f)" "j < length ls"
    and "aligned16 (ce_sizeof_op X * length (fn_opcodes f)) + ce_sizeof_zval X * length ls < 2 ^ 31"
  shows "- (2 ^ 31) \<le> int lits + int (j * ce_sizeof_zval X) - (int ops + int (i * ce_sizeof_op X)) \<and>
    int lits + int (j * ce_sizeof_zval X) - (int ops + int (i * ce_sizeof_op X)) < 2 ^ 31"
proof -
  let ?n = "aligned16 (ce_sizeof_op X * length (fn_opcodes f))"
  have l: "lits = ops + ?n" using assms(1-4) by (auto simp: code_memory_def Let_def alloc_def)
  have "j * ce_sizeof_zval X \<le> ce_sizeof_zval X * length ls" "i * ce_sizeof_op X \<le> ce_sizeof_op X * length (fn_opcodes f)"
    using assms(5,6) by (simp_all add: mult.commute)
  moreover have "ce_sizeof_op X * length (fn_opcodes f) \<le> ?n" unfolding aligned16_def by linarith
  moreover have "?n + ce_sizeof_zval X * length ls < 2147483648" using assms(7) by simp
  ultimately have d: "j * ce_sizeof_zval X + ?n < 2147483648" "i * ce_sizeof_op X < 2147483648" by linarith+
  then have "int (j * ce_sizeof_zval X) + int ?n < 2147483648" "int (i * ce_sizeof_op X) < 2147483648" by linarith+
  moreover have "(2::int) ^ 31 = 2147483648" by simp
  moreover have "0 \<le> int (j * ce_sizeof_zval X)" "0 \<le> int ?n" "0 \<le> int (i * ce_sizeof_op X)" by simp_all
  ultimately show ?thesis unfolding l of_nat_add by linarith
qed

lemma copy_code_parts:
  assumes "copy_code X cl cf f st = Copied (f', st')" "fn_literals f = Some ls"
  shows "\<exists>ops lits st1 ls'. code_memory X f st = ((ops, lits), st1) \<and> fn_opcodes_at f' = int ops \<and> fn_literals_at f' = int lits \<and>
    fn_opcodes f' = pmmpthread_copy_opcodes X f (fn_literals_at f) (int ops) (int lits) \<and> fn_literals f' = Some ls' \<and> length ls' = length ls"
proof -
  obtain ops lits st1 where m: "code_memory X f st = ((ops, lits), st1)" by (metis prod.exhaust)
  have "length us = length vs" if "pmmpthread_copy_literals X cl s vs st2 = Copied (us, st3)" for s vs us and st2 st3
    using that
  proof (induction vs arbitrary: us st2)
    case (Cons v vs)
    then show ?case by (auto simp: cbind_Copied split: option.splits)
  qed simp
  then show ?thesis
    using assms m by (auto simp: copy_code_def Let_def cbind_Copied copy_opt_def)
qed

section \<open>Properties\<close>

lemma tiles_bounds: "tiles cells a b \<Longrightarrow> a \<le> b \<and> (\<forall>c \<in> set cells. a \<le> cell_at c \<and> cell_at c + cell_size c \<le> b)"
  by (induction cells arbitrary: a) fastforce+

text \<open>
  C18: The copy of a constant expression exactly fills the block that \<open>zend_ast_tree_size\<close> computes for it: the nodes lie one behind the
  other from the end of the header to the end of the block, none is outside and none overlaps another, the child pointers lead to the
  nodes of the children, and the copy has the content of the original.
\<close>

theorem copy_ast_fits:
  assumes "data_ast a" "interned_ok st"
  shows "\<exists>block cells b st1. pmmpthread_copy_ast X cl a st = Copied ((block, cells, b), st1) \<and>
    block = ce_sizeof_ast_ref X + zend_ast_tree_size X a \<and> tiles cells (ce_sizeof_ast_ref X) block \<and>
    (\<forall>c \<in> set cells. ce_sizeof_ast_ref X \<le> cell_at c \<and> cell_at c + cell_size c \<le> block) \<and>
    lays cells (ce_sizeof_ast_ref X) a \<and> content_ast b = content_ast a"
proof -
  obtain b cells buf1 st1 where c: "pmmpthread_copy_ast_tree X cl a (ce_sizeof_ast_ref X) st = Copied ((b, cells, buf1), st1)"
    "content_ast b = content_ast a" using copy_data(3) [OF assms, of X cl "ce_sizeof_ast_ref X"] by auto
  have l: "buf1 = ce_sizeof_ast_ref X + zend_ast_tree_size X a" "tiles cells (ce_sizeof_ast_ref X) buf1" "lays cells (ce_sizeof_ast_ref X) a"
    using ast_layout(1) [OF c(1)] by blast+
  have "tiles cells (ce_sizeof_ast_ref X) (ce_sizeof_ast_ref X + zend_ast_tree_size X a)" using l(2) unfolding l(1) .
  from this tiles_bounds [OF this] show ?thesis
    using c l by (simp add: pmmpthread_copy_ast_def add.commute)
qed

text \<open>
  C17: Copying a value without thread-safe objects, closures and enum cases ends. It fails exactly for undefined values, resources and other objects (behind any indirection); otherwise the
  copy has the content of the original, with the entries of arrays that cannot be copied left out, and every string in it, keys
  included, is permanent, newly allocated, or was interned on the copying thread before: the threads share no other memory.
\<close>

theorem copy_value_isolated:
  assumes "data_val v" "interned_ok st"
  shows "\<exists>r st'. pmmpthread_copy_zval X cl v st = Copied (r, st') \<and> extends st st' \<and> (r = None \<longleftrightarrow> \<not> copyable v) \<and>
    (\<forall>u. r = Some u \<longrightarrow> content u = content v \<and> strings_val (own_string st st') u)"
  using copy_data(1) [OF assms, of X cl] by blast

text \<open>
  C19: The constants of copied code: an operand that names the \<open>j\<close>-th literal of a function names the \<open>j\<close>-th literal of the copy in the copy of
  the opcode, for relative operands as long as the block of opcodes and literals is smaller than two gigabytes.
\<close>

theorem copy_code_constants:
  assumes "copy_code X cl cf f st = Copied (f', st')" "fn_literals f = Some ls" "0 < ce_sizeof_zval X"
    and "i < length (fn_opcodes f)" "op_wf (fn_opcodes f ! i)" "j < length ls"
    and "ce_abs_const X \<or> fn_pass_two f \<and> aligned16 (ce_sizeof_op X * length (fn_opcodes f)) + ce_sizeof_zval X * length ls < 2 ^ 31"
  shows "(op1_const (fn_opcodes f ! i) \<longrightarrow>
      const_addr X (fn_opcodes_at f) i (op1 (fn_opcodes f ! i)) = fn_literals_at f + int (j * ce_sizeof_zval X) \<longrightarrow>
      const_addr X (fn_opcodes_at f') i (op1 (fn_opcodes f' ! i)) = fn_literals_at f' + int (j * ce_sizeof_zval X)) \<and>
    (op2_const (fn_opcodes f ! i) \<longrightarrow>
      const_addr X (fn_opcodes_at f) i (op2 (fn_opcodes f ! i)) = fn_literals_at f + int (j * ce_sizeof_zval X) \<longrightarrow>
      const_addr X (fn_opcodes_at f') i (op2 (fn_opcodes f' ! i)) = fn_literals_at f' + int (j * ce_sizeof_zval X))"
proof -
  obtain ops lits st1 where p: "code_memory X f st = ((ops, lits), st1)" "fn_opcodes_at f' = int ops" "fn_literals_at f' = int lits"
    "fn_opcodes f' = pmmpthread_copy_opcodes X f (fn_literals_at f) (int ops) (int lits)" using copy_code_parts [OF assms(1,2)] by blast
  have d: "ce_abs_const X \<or> (- (2 ^ 31) \<le> int lits + int (j * ce_sizeof_zval X) - (int ops + int (i * ce_sizeof_op X)) \<and>
      int lits + int (j * ce_sizeof_zval X) - (int ops + int (i * ce_sizeof_op X)) < 2 ^ 31)"
    using code_distance [OF p(1) _ _ assms(2,4,6)] assms(7) by blast
  show ?thesis
    unfolding p(2-4) copy_opcodes_nth [OF assms(4)]
    using copy_op_consts [OF assms(5), where X = X] reloc_const_addr [OF assms(3) _ d] by simp
qed

text \<open>
  C20: A function is copied once per thread. An immutable function is shared; of any other the first copy is the next address the thread
  allocates, and later copies return the same address and only count a reference.
\<close>

theorem copy_function_once:
  assumes "ce_functions X a = Some f" "\<not> fn_closure f" "pmmpthread_copy_function n X a st = Copied (c, st1)"
  shows "(if fn_immutable f then c = a \<and> st1 = st else case cs_resolve st a of Some b \<Rightarrow> c = b | None \<Rightarrow> c = cs_next st) \<and>
    pmmpthread_copy_function m X a st1 = Copied (c, if fn_immutable f then st1 else pmmpthread_add_function_ref c st1)"
  using assms
  by (auto simp: pmmpthread_copy_function_def function_known_def function_register_def cbind_Copied pmmpthread_copy_user_function_def
      pmmpthread_copy_internal_function_def alloc_def Let_def pmmpthread_add_function_ref_def upd_function_def
      split: if_splits option.splits nat.splits prod.splits)

section \<open>Witnesses\<close>

definition demo_zstr :: "addr \<Rightarrow> string \<Rightarrow> bool \<Rightarrow> zstr" where
  "demo_zstr a s i = \<lparr>zs_ptr = a, zs_val = s, zs_permanent = False, zs_persistent = False, zs_interned = i\<rparr>"

text \<open>A function with one opcode, whose first operand is its only literal, at address 1000; the literal is at 1032.\<close>

definition demo_function :: zend_function where
  "demo_function = \<lparr>fn_user = True, fn_immutable = False, fn_closure = False, fn_fake_closure = False, fn_heap_rt_cache = False, fn_arena = False,
     fn_has_return_type = False, fn_variadic = False, fn_pass_two = True, fn_refcount = Some 1, fn_name = demo_zstr 1 ''f'' True, fn_name_refs = 1,
     fn_doc = None, fn_filename = demo_zstr 2 ''a.php'' True, fn_scope = None, fn_prop_info = None, fn_opcodes_at = 1000,
     fn_opcodes = [\<lparr>op_jump_kind = Jmp_none, op_last_catch = False, op1_const = True, op1 = 32, op2_const = False, op2 = 0\<rparr>],
     fn_literals_at = 1032, fn_literals = Some [V_STRING (demo_zstr 3 ''x'' False)], fn_num_args = 0, fn_args = None, fn_live_range = None,
     fn_try_catch = None, fn_vars = None, fn_attributes = None, fn_dynamic = [], fn_statics = None\<rparr>"

definition demo_copy_env :: "zval btable copy_env" where
  "demo_copy_env = \<lparr>ce_tid = 2, ce_oid = 2, ce_class = (\<lambda>_ st. Copied (None, st)), ce_functions = [500 \<mapsto> demo_function],
     ce_closures = (\<lambda>_. None), ce_classes = (\<lambda>_. None), ce_prop_infos = (\<lambda>_. None), ce_sizeof_ast_zval = 24, ce_sizeof_ast_list = 24,
     ce_sizeof_ast = 16, ce_sizeof_ptr = 8, ce_sizeof_ast_ref = 8, ce_sizeof_op = 32, ce_sizeof_zval = 16, ce_abs_const = False, ce_abs_jmp = False\<rparr>"

definition demo_copy_state :: "zval btable copy_state" where
  "demo_copy_state = \<lparr>cs_world = demo_kv, cs_next = 2000, cs_interned = (\<lambda>_. None), cs_filenames = (\<lambda>_. None), cs_resolve = (\<lambda>_. None),
     cs_closures = (\<lambda>_. None), cs_functions = (\<lambda>_. None), cs_closure_objects = (\<lambda>_. None), cs_classes = (\<lambda>_. None),
     cs_prop_infos = (\<lambda>_. None), cs_class_table = [], cs_function_table = [], cs_map_ptr_last = 0\<rparr>"

lemma demo_interned: "interned_ok demo_copy_state"
  by (simp add: interned_ok_def demo_copy_state_def)

definition demo_ast :: ast where
  "demo_ast = AST_LIST 1 0 [Some (AST_ZVAL 0 (V_LONG 7)), None, Some (AST_NODE 2 0 [Some (AST_CONSTANT 0 (demo_zstr 4 ''M_PI'' True))])]"

theorem copy_ast_fits_witness:
  "data_ast demo_ast \<and>
   (\<exists>cells b st1. pmmpthread_copy_ast demo_copy_env (\<lambda>_ st. Stuck) demo_ast demo_copy_state = Copied ((112, cells, b), st1) \<and> tiles cells 8 112)"
proof -
  have d: "data_ast demo_ast" by (simp add: demo_ast_def)
  have "zend_ast_tree_size demo_copy_env demo_ast = 104"
    by (simp add: demo_ast_def demo_copy_env_def zend_ast_list_size_def zend_ast_size_def)
  then show ?thesis
    using copy_ast_fits [OF d demo_interned, of demo_copy_env "\<lambda>_ st. Stuck"] d by (auto simp: demo_copy_env_def)
qed

theorem copy_value_isolated_witness:
  "\<exists>u st'. pmmpthread_copy_zval demo_copy_env (\<lambda>_ st. Stuck) (V_ARRAY False [(K_STR (demo_zstr 5 ''k'' True), V_STRING (demo_zstr 6 ''v'' False)), (K_INT 0, V_RESOURCE 3)])
       demo_copy_state = Copied (Some u, st') \<and>
     content u = V_ARRAY False [(K_STR (demo_zstr 0 ''k'' False), V_STRING (demo_zstr 0 ''v'' False))] \<and> strings_val (own_string demo_copy_state st') u"
proof -
  let ?v = "V_ARRAY False [(K_STR (demo_zstr 5 ''k'' True), V_STRING (demo_zstr 6 ''v'' False)), (K_INT 0, V_RESOURCE 3)]"
  have "data_val ?v" by (simp add: key_content_def)
  from copy_value_isolated [OF this demo_interned, of demo_copy_env "\<lambda>_ st. Stuck"] show ?thesis
    by (fastforce simp: erase_key_def erase_def demo_zstr_def)
qed

definition demo_copied :: "(zend_function \<times> zval btable copy_state) copied" where
  "demo_copied = copy_code demo_copy_env (\<lambda>_ st. Stuck) (\<lambda>_ st. Stuck) demo_function demo_copy_state"

theorem copy_code_constants_witness:
  "\<exists>f' st'. demo_copied = Copied (f', st') \<and>
     const_addr demo_copy_env (fn_opcodes_at demo_function) 0 (op1 (fn_opcodes demo_function ! 0)) = fn_literals_at demo_function + int (0 * 16) \<and>
     const_addr demo_copy_env (fn_opcodes_at f') 0 (op1 (fn_opcodes f' ! 0)) = fn_literals_at f' + int (0 * 16)"
proof -
  obtain f' st' where c: "demo_copied = Copied (f', st')"
    by (simp add: demo_copied_def copy_code_def code_memory_def demo_copy_env_def demo_function_def alloc_def Let_def copy_opt_def
        pmmpthread_copy_string_def demo_zstr_def new_string_def)
  have f: "fn_literals demo_function = Some [V_STRING (demo_zstr 3 ''x'' False)]" "0 < ce_sizeof_zval demo_copy_env" "0 < length (fn_opcodes demo_function)"
    "op_wf (fn_opcodes demo_function ! 0)" "0 < length [V_STRING (demo_zstr 3 ''x'' False)]"
    "ce_abs_const demo_copy_env \<or> fn_pass_two demo_function \<and>
      aligned16 (ce_sizeof_op demo_copy_env * length (fn_opcodes demo_function)) + ce_sizeof_zval demo_copy_env * length [V_STRING (demo_zstr 3 ''x'' False)] < 2 ^ 31"
    by (simp_all add: demo_function_def demo_copy_env_def op_wf_def aligned16_def)
  have a: "const_addr demo_copy_env (fn_opcodes_at demo_function) 0 (op1 (fn_opcodes demo_function ! 0)) = fn_literals_at demo_function"
    "op1_const (fn_opcodes demo_function ! 0)" by (simp_all add: const_addr_def demo_copy_env_def demo_function_def signed_take_bit_int_eq_self)
  show ?thesis
    using copy_code_constants [OF c [unfolded demo_copied_def] f] c a by auto
qed

theorem copy_function_once_witness:
  "\<exists>st1. pmmpthread_copy_function 1 demo_copy_env 500 demo_copy_state = Copied (2000, st1) \<and>
     pmmpthread_copy_function 1 demo_copy_env 500 st1 = Copied (2000, pmmpthread_add_function_ref 2000 st1)"
proof -
  have e: "ce_functions demo_copy_env 500 = Some demo_function" "\<not> fn_closure demo_function" "\<not> fn_immutable demo_function"
    by (simp_all add: demo_copy_env_def demo_function_def)
  obtain c st1 where c: "pmmpthread_copy_function 1 demo_copy_env 500 demo_copy_state = Copied (c, st1)"
    by (simp add: pmmpthread_copy_function_def demo_copy_env_def demo_function_def demo_copy_state_def function_known_def
        pmmpthread_copy_user_function_def copy_code_def code_memory_def alloc_def Let_def copy_opt_def copy_opt_string_def copy_filename_def
        pmmpthread_copy_string_def zend_new_interned_string_def demo_zstr_def new_string_def)
  show ?thesis
    using copy_function_once [OF e(1,2) c, of 1] c e(3) by (simp add: demo_copy_state_def)
qed

end
