(* ===== verification/Prepare.thy ===== *)
theory Prepare
  imports Copy_Correct
begin

text \<open>
  The classes of a new thread (src/prepare.c): a class of the creator is copied with its parent, its interfaces, traits, methods, properties, static
  members and constants, once per thread, and the parts that refer to other classes are bound when the class is registered. The engine is
  that of PHP 8.4; giving memory back is not modelled. Theorems: Prepare_Correct.
\<close>

section \<open>Names, options and updates\<close>

text \<open>\<open>zend_string_tolower\<close>.\<close>

definition lower_char :: "char \<Rightarrow> char" where
  "lower_char c = (let k = of_char c :: nat in if 65 \<le> k \<and> k \<le> 90 then char_of (k + 32) else c)"

definition zend_string_tolower :: "string \<Rightarrow> string" where
  "zend_string_tolower s = map lower_char s"

definition PMMPTHREAD_INHERIT_INI :: "64 word" where "PMMPTHREAD_INHERIT_INI = 0x00000001"
definition PMMPTHREAD_INHERIT_CONSTANTS :: "64 word" where "PMMPTHREAD_INHERIT_CONSTANTS = 0x00000010"
definition PMMPTHREAD_INHERIT_FUNCTIONS :: "64 word" where "PMMPTHREAD_INHERIT_FUNCTIONS = 0x00000100"
definition PMMPTHREAD_INHERIT_CLASSES :: "64 word" where "PMMPTHREAD_INHERIT_CLASSES = 0x00001000"
definition PMMPTHREAD_INHERIT_INCLUDES :: "64 word" where "PMMPTHREAD_INHERIT_INCLUDES = 0x00010000"
definition PMMPTHREAD_INHERIT_COMMENTS :: "64 word" where "PMMPTHREAD_INHERIT_COMMENTS = 0x00100000"
definition PMMPTHREAD_INHERIT_ALL :: "64 word" where "PMMPTHREAD_INHERIT_ALL = 0x00111111"
definition PMMPTHREAD_ALLOW_HEADERS :: "64 word" where "PMMPTHREAD_ALLOW_HEADERS = 0x10000000"

unbundle bit_operations_syntax

definition has_option :: "64 word \<Rightarrow> 64 word \<Rightarrow> bool" where
  "has_option options flag \<longleftrightarrow> options AND flag \<noteq> 0"

text \<open>
  What a thread sees of its creator: the data it copies from, the options it was started with, the classes of the creator by name and the size
  of its map of run-time pointers.
\<close>

record 'h prep_env =
  pe_copy :: "'h copy_env"
  pe_options :: "64 word"
  pe_class_table :: "(string \<times> addr) list"
  pe_map_ptr_last :: nat

text \<open>A table update by name keeps the place of a name that is there; an insertion keeps its value.\<close>

fun table_update :: "string \<Rightarrow> 'a \<Rightarrow> (string \<times> 'a) list \<Rightarrow> (string \<times> 'a) list" where
  "table_update k x [] = [(k, x)]"
| "table_update k x ((l, y) # t) = (if l = k then (l, x) # t else (l, y) # table_update k x t)"

definition str_add :: "zstr \<Rightarrow> 'a \<Rightarrow> (zstr \<times> 'a) list \<Rightarrow> (zstr \<times> 'a) list" where
  "str_add k x t = (if str_find (zs_val k) t = None then t @ [(k, x)] else t)"

definition upd_class :: "addr \<Rightarrow> (class_entry \<Rightarrow> class_entry) \<Rightarrow> 'h copy_state \<Rightarrow> 'h copy_state copied" where
  "upd_class p g st =
     (case cs_classes st p of
        None \<Rightarrow> Stuck
      | Some c \<Rightarrow> Copied (st\<lparr>cs_classes := (cs_classes st)(p \<mapsto> g c)\<rparr>))"

definition upd_prop_info :: "addr \<Rightarrow> (property_info \<Rightarrow> property_info) \<Rightarrow> 'h copy_state \<Rightarrow> 'h copy_state copied" where
  "upd_prop_info p g st =
     (case cs_prop_infos st p of
        None \<Rightarrow> Stuck
      | Some i \<Rightarrow> Copied (st\<lparr>cs_prop_infos := (cs_prop_infos st)(p \<mapsto> g i)\<rparr>))"

text \<open>A write to a function. One in shared memory may only be written with what it holds.\<close>

definition write_function :: "'h copy_env \<Rightarrow> addr \<Rightarrow> (zend_function \<Rightarrow> zend_function) \<Rightarrow> 'h copy_state \<Rightarrow> 'h copy_state copied" where
  "write_function X a g st =
     (case cs_functions st a of
        Some f \<Rightarrow> Copied (st\<lparr>cs_functions := (cs_functions st)(a \<mapsto> g f)\<rparr>)
      | None \<Rightarrow> (case ce_functions X a of None \<Rightarrow> Stuck | Some f \<Rightarrow> if g f = f then Copied st else Stuck))"

text \<open>The copies of values and closures, to the depth \<open>n\<close>.\<close>

definition closure_copier :: "nat \<Rightarrow> 'h copy_env \<Rightarrow> 'h closure_copy" where
  "closure_copier n X = (\<lambda>c st. case ce_closures X c of None \<Rightarrow> Stuck | Some co \<Rightarrow> pmmpthread_copy_closure n X co True st)"

definition copy_value :: "nat \<Rightarrow> 'h copy_env \<Rightarrow> val \<Rightarrow> 'h copy_state \<Rightarrow> (val option \<times> 'h copy_state) copied" where
  "copy_value n X v st = pmmpthread_copy_zval X (closure_copier n X) v st"

text \<open>A loop over a list that changes the state.\<close>

fun each :: "('a \<Rightarrow> 's \<Rightarrow> 's copied) \<Rightarrow> 'a list \<Rightarrow> 's \<Rightarrow> 's copied" where
  "each f [] st = Copied st"
| "each f (x # xs) st = cbind (f x st) (each f xs)"

section \<open>Constants\<close>

text \<open>
  The object of an enum case on this thread: its class, its name and its backing value. A backing value that cannot be copied leaves the
  property unset.
\<close>

definition prepare_enum_constant ::
  "nat \<Rightarrow> 'h copy_env \<Rightarrow> addr \<Rightarrow> zstr \<Rightarrow> val option \<Rightarrow> 'h copy_state \<Rightarrow> ((val \<times> val option) \<times> 'h copy_state) copied"
where
  "prepare_enum_constant n X prepared name backing st =
     (case cs_classes st prepared of
        None \<Rightarrow> Stuck
      | Some p \<Rightarrow>
          (case pmmpthread_copy_string name st of
             (new_name, st1) \<Rightarrow>
               if cl_enum_backing_type p \<noteq> 0 then
                 (case backing of
                    None \<Rightarrow> Copied ((V_ENUM prepared new_name, None), st1)
                  | Some v \<Rightarrow> cbind (copy_value n X v st1) (\<lambda>(r, st2). Copied ((V_ENUM prepared new_name, r), st2)))
               else Copied ((V_ENUM prepared new_name, None), st1)))"

definition upd_constant :: "addr \<Rightarrow> string \<Rightarrow> (zend_class_constant \<Rightarrow> zend_class_constant) \<Rightarrow> 'h copy_state \<Rightarrow> 'h copy_state copied" where
  "upd_constant p key g st =
     upd_class p (\<lambda>c. c\<lparr>cl_constants := map (\<lambda>(k, x). if zs_val k = key then (k, g x) else (k, x)) (cl_constants c)\<rparr>) st"

definition copy_constant_value ::
  "nat \<Rightarrow> 'h copy_env \<Rightarrow> addr \<Rightarrow> class_entry \<Rightarrow> string \<Rightarrow> zend_class_constant \<Rightarrow> 'h copy_state \<Rightarrow> ((val \<times> val option) \<times> 'h copy_state) copied"
where
  "copy_constant_value n X prepared p name zc st =
     (case (if cc_is_case zc then cc_value zc else V_UNDEF) of
        V_ENUM ce case_name \<Rightarrow> prepare_enum_constant n X prepared case_name (cc_backing zc) st
      | _ \<Rightarrow>
          cbind (copy_value n X (cc_value zc) st) (\<lambda>(r, st1).
            case r of
              None \<Rightarrow> Fatal (NonCopyableClassConstant (zs_val (cl_name p)) name)
            | Some v \<Rightarrow> Copied ((v, None), st1)))"

definition prepare_class_constant ::
  "nat \<Rightarrow> 'h copy_env \<Rightarrow> addr \<Rightarrow> zstr \<times> zend_class_constant \<Rightarrow> 'h copy_state \<Rightarrow> 'h copy_state copied"
where
  "prepare_class_constant n X prepared kc st =
     (case kc of
        (key, zc) \<Rightarrow>
     (case cs_classes st prepared of
        None \<Rightarrow> Stuck
      | Some p \<Rightarrow>
          if str_find (zs_val key) (cl_constants p) \<noteq> None then Copied st
          else
            (case pmmpthread_copy_string key st of
               (name, st1) \<Rightarrow>
                 cbind (copy_constant_value n X prepared p (zs_val name) zc st1) (\<lambda>((v, backing), st2).
                 cbind (prepare_opt_class X (cc_ce zc) st2) (\<lambda>(ce, st3).
                 cbind (upd_class prepared (\<lambda>c. c\<lparr>cl_constants := str_add name (zc\<lparr>cc_value := v, cc_backing := backing, cc_ce := ce\<rparr>) (cl_constants c)\<rparr>) st3) (\<lambda>st4.
                 case copy_opt_string (cc_doc zc) st4 of
                   (doc, st5) \<Rightarrow>
                     cbind (upd_constant prepared (zs_val name) (\<lambda>c. c\<lparr>cc_doc := doc\<rparr>) st5) (\<lambda>st6.
                     cbind (copy_opt (pmmpthread_copy_attributes X (closure_copier n X)) (cc_attributes zc) st6) (\<lambda>(attributes, st7).
                     cbind (upd_constant prepared (zs_val name) (\<lambda>c. c\<lparr>cc_attributes := attributes\<rparr>) st7) (\<lambda>st8.
                     case pmmpthread_copy_zend_type (cc_type zc) st8 of
                       (ty, st9) \<Rightarrow> upd_constant prepared (zs_val name) (\<lambda>c. c\<lparr>cc_type := ty\<rparr>) st9))))))))) "

definition prepare_class_constants :: "nat \<Rightarrow> 'h copy_env \<Rightarrow> class_entry \<Rightarrow> addr \<Rightarrow> 'h copy_state \<Rightarrow> 'h copy_state copied" where
  "prepare_class_constants n X candidate prepared st = each (prepare_class_constant n X prepared) (cl_constants candidate) st"

section \<open>Static members\<close>

text \<open>
  The static members a class declares itself are copied, from the last to the first; one that cannot be copied is a failed assertion. Slots
  inherited from a parent lead to the slots of the class that declares them: \<open>link_statics k\<close> goes up at most \<open>k\<close> classes, with the slots from \<open>hi\<close> on done.
\<close>

fun copy_zval_slot :: "nat \<Rightarrow> 'h copy_env \<Rightarrow> static_slot \<Rightarrow> 'h copy_state \<Rightarrow> (static_slot \<times> 'h copy_state) copied" where
  "copy_zval_slot n X (Slot v) st =
     cbind (copy_value n X v st) (\<lambda>(r, st1). case r of None \<Rightarrow> Stuck | Some u \<Rightarrow> Copied (Slot u, st1))"
| "copy_zval_slot n X (Slot_indirect c i) st =
     (case Option.bind (ce_classes X c) (\<lambda>ce. if i < length (cl_static_members ce) then Some (cl_static_members ce ! i) else None) of
        Some (Slot v) \<Rightarrow> cbind (copy_value n X v st) (\<lambda>(r, st1). case r of None \<Rightarrow> Stuck | Some u \<Rightarrow> Copied (Slot u, st1))
      | _ \<Rightarrow> Stuck)"

definition set_static :: "addr \<Rightarrow> nat \<Rightarrow> static_slot \<Rightarrow> 'h copy_state \<Rightarrow> 'h copy_state copied" where
  "set_static p i s st =
     upd_class p (\<lambda>c. c\<lparr>cl_static_members := (cl_static_members c)[i := s]\<rparr>) st"

definition prepare_static :: "nat \<Rightarrow> 'h copy_env \<Rightarrow> class_entry \<Rightarrow> addr \<Rightarrow> nat \<Rightarrow> 'h copy_state \<Rightarrow> 'h copy_state copied" where
  "prepare_static n X candidate p i st =
     cbind (copy_zval_slot n X (cl_static_members candidate ! i) st) (\<lambda>(s, st1). set_static p i s st1)"

definition class_parent_ptr :: "class_entry \<Rightarrow> ptr" where
  "class_parent_ptr c = (case cl_parent c of Parent a \<Rightarrow> Some a | _ \<Rightarrow> None)"

definition statics_count :: "'h copy_env \<Rightarrow> 'h copy_state \<Rightarrow> ptr \<Rightarrow> nat copied" where
  "statics_count X st c =
     (case c of
        None \<Rightarrow> Copied 0
      | Some a \<Rightarrow> (case class_at X st a of None \<Rightarrow> Stuck | Some ce \<Rightarrow> Copied (length (cl_static_members ce))))"

fun link_statics :: "nat \<Rightarrow> 'h copy_env \<Rightarrow> addr \<Rightarrow> ptr \<Rightarrow> nat \<Rightarrow> 'h copy_state \<Rightarrow> 'h copy_state copied" where
  "link_statics k X p None hi st = Copied st"
| "link_statics 0 X p (Some parent) hi st = No_fuel"
| "link_statics (Suc k) X p (Some parent) hi st =
     (case class_at X st parent of
        None \<Rightarrow> Stuck
      | Some pa \<Rightarrow>
          if cl_static_members pa = [] then Copied st
          else
            cbind (statics_count X st (class_parent_ptr pa)) (\<lambda>lo.
            cbind (each (\<lambda>i. set_static p i (Slot_indirect parent i)) (rev [lo..<hi]) st) (\<lambda>st1.
            link_statics k X p (class_parent_ptr pa) (min hi lo) st1)))"

definition prepare_class_statics :: "nat \<Rightarrow> 'h copy_env \<Rightarrow> class_entry \<Rightarrow> addr \<Rightarrow> 'h copy_state \<Rightarrow> 'h copy_state copied" where
  "prepare_class_statics n X candidate p st =
     (case cs_classes st p of
        None \<Rightarrow> Stuck
      | Some pr \<Rightarrow>
          if cl_static_members candidate = [] then upd_class p (\<lambda>c. c\<lparr>cl_static_members := []\<rparr>) st
          else
            let parent = (if cl_linked pr then class_parent_ptr pr else None); count = length (cl_static_members candidate) in
            cbind (upd_class p (\<lambda>c. c\<lparr>cl_static_members := cl_static_members candidate\<rparr>) st) (\<lambda>st1.
            cbind (statics_count X st1 parent) (\<lambda>lo.
            cbind (each (prepare_static n X candidate p) (rev [lo..<count]) st1) (\<lambda>st2.
            link_statics n X p parent (min count lo) st2))))"

section \<open>Functions\<close>

definition prepare_class_function :: "nat \<Rightarrow> 'h copy_env \<Rightarrow> addr \<Rightarrow> zstr \<times> addr \<Rightarrow> 'h copy_state \<Rightarrow> 'h copy_state copied" where
  "prepare_class_function n X prepared kf st =
     (case kf of
        (key, value) \<Rightarrow>
     (case cs_classes st prepared of
        None \<Rightarrow> Stuck
      | Some p \<Rightarrow>
          if str_find (zs_val key) (cl_function_table p) \<noteq> None then Copied st
          else
            (case pmmpthread_copy_string key st of
               (name, st1) \<Rightarrow>
                 cbind (pmmpthread_copy_function n X value st1) (\<lambda>(f, st2).
                   upd_class prepared (\<lambda>c. c\<lparr>cl_function_table := str_add name f (cl_function_table c)\<rparr>) st2))))"

definition prepare_class_function_table :: "nat \<Rightarrow> 'h copy_env \<Rightarrow> class_entry \<Rightarrow> addr \<Rightarrow> 'h copy_state \<Rightarrow> 'h copy_state copied" where
  "prepare_class_function_table n X candidate prepared st = each (prepare_class_function n X prepared) (cl_function_table candidate) st"

definition pmmpthread_update_function_scope :: "'h copy_env \<Rightarrow> addr \<Rightarrow> addr \<Rightarrow> addr \<Rightarrow> 'h copy_state \<Rightarrow> 'h copy_state copied" where
  "pmmpthread_update_function_scope X function candidate prepared st =
     (case function_at X st function of
        None \<Rightarrow> Stuck
      | Some f \<Rightarrow>
          if fn_scope f = Some candidate then write_function X function (\<lambda>f. f\<lparr>fn_scope := Some prepared\<rparr>) st
          else
            (case fn_scope f of
               None \<Rightarrow> Copied st
             | Some s \<Rightarrow>
                 (case class_at X st s of
                    None \<Rightarrow> Stuck
                  | Some sc \<Rightarrow>
                      if \<not> cl_internal sc then
                        cbind (ce_class X s st) (\<lambda>(scope, st1). write_function X function (\<lambda>f. f\<lparr>fn_scope := scope\<rparr>) st1)
                      else Copied st)))"

section \<open>Properties\<close>

text \<open>
  A property info is copied once, and registered before the parts of it that may lead back to it: the property it overrides and its hooks.
  \<open>k\<close> bounds how far these lead.
\<close>

definition copy_hook ::
  "nat \<Rightarrow> 'h copy_env \<Rightarrow> (addr \<Rightarrow> 'h copy_state \<Rightarrow> (addr \<times> 'h copy_state) copied) \<Rightarrow> addr \<Rightarrow> addr \<Rightarrow> addr \<Rightarrow> 'h copy_state \<Rightarrow> (addr \<times> 'h copy_state) copied"
where
  "copy_hook n X copy_info candidate prepared original_hook st =
     (case ce_functions X original_hook of
        None \<Rightarrow> Stuck
      | Some f \<Rightarrow>
          cbind (pmmpthread_copy_function n X original_hook st) (\<lambda>(copy_hook, st1).
          cbind
            (if fn_user f then
               (case fn_prop_info f of
                  None \<Rightarrow> Stuck
                | Some i \<Rightarrow>
                    cbind (copy_info i st1) (\<lambda>(d, st2). write_function X copy_hook (\<lambda>f. f\<lparr>fn_prop_info := Some d\<rparr>) st2))
             else Copied st1)
            (\<lambda>st3.
          cbind (pmmpthread_update_function_scope X copy_hook candidate prepared st3) (\<lambda>st4. Copied (copy_hook, st4)))))"

fun copy_hooks ::
  "(addr \<Rightarrow> 'h copy_state \<Rightarrow> (addr \<times> 'h copy_state) copied) \<Rightarrow> ptr list \<Rightarrow> 'h copy_state \<Rightarrow> (ptr list \<times> 'h copy_state) copied"
where
  "copy_hooks copy [] st = Copied ([], st)"
| "copy_hooks copy (None # hs) st = cbind (copy_hooks copy hs st) (\<lambda>(ds, st1). Copied (None # ds, st1))"
| "copy_hooks copy (Some h # hs) st =
     cbind (copy h st) (\<lambda>(d, st1). cbind (copy_hooks copy hs st1) (\<lambda>(ds, st2). Copied (Some d # ds, st2)))"

definition copy_property_info_parts ::
  "nat \<Rightarrow> 'h copy_env \<Rightarrow> bool \<Rightarrow> (addr \<Rightarrow> 'h copy_state \<Rightarrow> (addr \<times> 'h copy_state) copied) \<Rightarrow> addr \<Rightarrow> addr \<Rightarrow> property_info \<Rightarrow> addr \<Rightarrow>
     'h copy_state \<Rightarrow> 'h copy_state copied"
where
  "copy_property_info_parts n X comments copy_info candidate prepared info dup st =
     (case pmmpthread_copy_string (pi_prop_name info) st of
        (name, st1) \<Rightarrow>
     (case (if comments then copy_opt_string (pi_doc info) st1 else (None, st1)) of
        (doc, st2) \<Rightarrow>
     cbind (upd_prop_info dup (\<lambda>i. i\<lparr>pi_prop_name := name, pi_doc := doc\<rparr>) st2) (\<lambda>st3.
     cbind (if pi_ce info = Some candidate then Copied (Some prepared, st3) else prepare_opt_class X (pi_ce info) st3) (\<lambda>(ce, st4).
     case pmmpthread_copy_zend_type (pi_type info) st4 of
        (ty, st5) \<Rightarrow>
     cbind (upd_prop_info dup (\<lambda>i. i\<lparr>pi_ce := ce, pi_type := ty\<rparr>) st5) (\<lambda>st6.
     cbind (copy_opt (pmmpthread_copy_attributes X (closure_copier n X)) (pi_attributes info) st6) (\<lambda>(attributes, st7).
     cbind (copy_opt copy_info (pi_prototype info) st7) (\<lambda>(prototype, st8).
     cbind (upd_prop_info dup (\<lambda>i. i\<lparr>pi_attributes := attributes, pi_prototype := prototype\<rparr>) st8) (\<lambda>st9.
     cbind (copy_opt (copy_hooks (copy_hook n X copy_info candidate prepared)) (pi_hooks info) st9) (\<lambda>(hooks, st10).
     upd_prop_info dup (\<lambda>i. i\<lparr>pi_hooks := hooks\<rparr>) st10)))))))))"

primrec copy_property_info ::
  "nat \<Rightarrow> nat \<Rightarrow> 'h copy_env \<Rightarrow> bool \<Rightarrow> addr \<Rightarrow> addr \<Rightarrow> addr \<Rightarrow> 'h copy_state \<Rightarrow> (addr \<times> 'h copy_state) copied"
where
  "copy_property_info 0 n X comments candidate prepared info st = No_fuel"
| "copy_property_info (Suc k) n X comments candidate prepared info st =
     (case cs_resolve st info of
        Some dup \<Rightarrow> Copied (dup, st)
      | None \<Rightarrow>
          (case prop_info_at X st info of
             None \<Rightarrow> Stuck
           | Some i \<Rightarrow>
               if pi_ce i = None then Stuck
               else
                 (case alloc 0 st of
                    (dup, st1) \<Rightarrow>
                      cbind (copy_property_info_parts n X comments (copy_property_info k n X comments candidate prepared) candidate prepared i dup
                          (st1\<lparr>cs_prop_infos := (cs_prop_infos st1)(dup \<mapsto> i), cs_resolve := (cs_resolve st1)(info \<mapsto> dup)\<rparr>)) (\<lambda>st2.
                        Copied (dup, st2)))))"

definition prepare_class_property ::
  "nat \<Rightarrow> 'h copy_env \<Rightarrow> bool \<Rightarrow> addr \<Rightarrow> addr \<Rightarrow> zstr \<times> addr \<Rightarrow> 'h copy_state \<Rightarrow> 'h copy_state copied"
where
  "prepare_class_property n X comments candidate prepared ki st =
     (case ki of
        (name, info) \<Rightarrow>
     (case cs_classes st prepared of
        None \<Rightarrow> Stuck
      | Some p \<Rightarrow>
          (case str_find (zs_val name) (cl_properties_info p) of
             Some dup \<Rightarrow> Copied st
           | None \<Rightarrow>
               cbind (copy_property_info n n X comments candidate prepared info st) (\<lambda>(dup, st1).
               case new_string (zs_val name) False False st1 of
                 (key, st2) \<Rightarrow> upd_class prepared (\<lambda>c. c\<lparr>cl_properties_info := str_add key dup (cl_properties_info c)\<rparr>) st2))))"

text \<open>
  The default values: what is counted by reference is copied, everything else, an interned string too, is taken over as it is. Arrays are
  counted by reference.
\<close>

fun refcounted :: "val \<Rightarrow> bool" where
  "refcounted (V_STRING s) = (\<not> zs_interned s)"
| "refcounted (V_ARRAY p es) = True"
| "refcounted (V_THREADSAFE a) = True"
| "refcounted (V_CLOSURE a) = True"
| "refcounted (V_ENUM ce name) = True"
| "refcounted (V_OBJECT a) = True"
| "refcounted (V_AST a) = True"
| "refcounted (V_REFERENCE v) = True"
| "refcounted (V_RESOURCE r) = True"
| "refcounted _ = False"

fun copy_defaults :: "nat \<Rightarrow> 'h copy_env \<Rightarrow> val list \<Rightarrow> 'h copy_state \<Rightarrow> (val list \<times> 'h copy_state) copied" where
  "copy_defaults n X [] st = Copied ([], st)"
| "copy_defaults n X (v # vs) st =
     cbind (if refcounted v then copy_value n X v st else Copied (Some v, st)) (\<lambda>(r, st1).
       case r of
         None \<Rightarrow> Stuck
       | Some u \<Rightarrow> cbind (copy_defaults n X vs st1) (\<lambda>(us, st2). Copied (u # us, st2)))"

text \<open>
  The table of the infos by slot: the part of the parent, then what the class declares itself, static and virtual properties left out.
\<close>

definition parent_property_infos :: "'h copy_env \<Rightarrow> 'h copy_state \<Rightarrow> class_entry \<Rightarrow> ptr list copied" where
  "parent_property_infos X st p =
     (case class_parent_ptr p of
        None \<Rightarrow> Copied []
      | Some a \<Rightarrow>
          (case class_at X st a of
             None \<Rightarrow> Stuck
           | Some pa \<Rightarrow>
               if cl_default_properties pa = [] then Copied []
               else
                 (case cl_properties_info_table pa of
                    None \<Rightarrow> Stuck
                  | Some t \<Rightarrow>
                      if length t < length (cl_default_properties pa) then Stuck
                      else Copied (take (length (cl_default_properties pa)) t))))"

fun own_property_infos :: "'h copy_env \<Rightarrow> 'h copy_state \<Rightarrow> addr \<Rightarrow> (zstr \<times> addr) list \<Rightarrow> ptr list \<Rightarrow> ptr list copied" where
  "own_property_infos X st prepared [] t = Copied t"
| "own_property_infos X st prepared ((_, a) # is) t =
     (case prop_info_at X st a of
        None \<Rightarrow> Stuck
      | Some i \<Rightarrow>
          if pi_ce i = Some prepared \<and> \<not> pi_static i \<and> \<not> pi_virtual i then
            if pi_num i < length t then own_property_infos X st prepared is (t[pi_num i := Some a]) else Stuck
          else own_property_infos X st prepared is t)"

definition property_info_table :: "'h copy_env \<Rightarrow> nat \<Rightarrow> addr \<Rightarrow> 'h copy_state \<Rightarrow> 'h copy_state copied" where
  "property_info_table X count prepared st =
     (case cs_classes st prepared of
        None \<Rightarrow> Stuck
      | Some p \<Rightarrow>
          if cl_linked p then
            cbind (parent_property_infos X st p) (\<lambda>inherited.
            if count < length inherited then Stuck
            else
              cbind (own_property_infos X st prepared (cl_properties_info p) (inherited @ replicate (count - length inherited) None)) (\<lambda>t.
              upd_class prepared (\<lambda>c. c\<lparr>cl_properties_info_table := Some t\<rparr>) st))
          else upd_class prepared (\<lambda>c. c\<lparr>cl_properties_info_table := None\<rparr>) st)"

definition prepare_class_property_table ::
  "nat \<Rightarrow> 'h copy_env \<Rightarrow> bool \<Rightarrow> addr \<Rightarrow> class_entry \<Rightarrow> addr \<Rightarrow> 'h copy_state \<Rightarrow> 'h copy_state copied"
where
  "prepare_class_property_table n X comments candidate ca prepared st =
     cbind (each (prepare_class_property n X comments candidate prepared) (cl_properties_info ca) st) (\<lambda>st1.
     if cl_default_properties ca \<noteq> [] then
       cbind (copy_defaults n X (cl_default_properties ca) st1) (\<lambda>(vs, st2).
       cbind (upd_class prepared (\<lambda>c. c\<lparr>cl_default_properties := vs\<rparr>) st2) (\<lambda>st3.
       property_info_table X (length (cl_default_properties ca)) prepared st3))
     else upd_class prepared (\<lambda>c. c\<lparr>cl_default_properties := []\<rparr>) st1)"

section \<open>Handlers, interceptors, traits\<close>

definition prepare_class_handlers :: "class_entry \<Rightarrow> class_entry \<Rightarrow> class_entry" where
  "prepare_class_handlers candidate prepared = prepared\<lparr>cl_handlers := cl_handlers candidate\<rparr>"

fun interceptor_name :: "interceptor \<Rightarrow> string" where
  "interceptor_name I_constructor = ''__construct''"
| "interceptor_name I_clone = ''__clone''"
| "interceptor_name I_get = ''__get''"
| "interceptor_name I_set = ''__set''"
| "interceptor_name I_unset = ''__unset''"
| "interceptor_name I_isset = ''__isset''"
| "interceptor_name I_call = ''__call''"
| "interceptor_name I_callstatic = ''__callstatic''"
| "interceptor_name I_serialize = ''__serialize''"
| "interceptor_name I_unserialize = ''__unserialize''"
| "interceptor_name I_tostring = ''__tostring''"
| "interceptor_name I_destructor = ''__destruct''"

text \<open>A constructor may also have the name of the class, as it is written.\<close>

definition find_interceptor :: "class_entry \<Rightarrow> interceptor \<Rightarrow> ptr" where
  "find_interceptor prepared f =
     (case cl_interceptors prepared f of
        Some a \<Rightarrow> Some a
      | None \<Rightarrow>
          (case str_find (interceptor_name f) (cl_function_table prepared) of
             Some a \<Rightarrow> Some a
           | None \<Rightarrow> if f = I_constructor then str_find (zs_val (cl_name prepared)) (cl_function_table prepared) else None))"

definition set_func_refs :: "string list \<Rightarrow> (string \<times> ptr) list option \<Rightarrow> class_entry \<Rightarrow> (string \<times> ptr) list option" where
  "set_func_refs names funcs prepared =
     (case funcs of None \<Rightarrow> None | Some _ \<Rightarrow> Some (map (\<lambda>s. (s, str_find s (cl_function_table prepared))) names))"

definition prepare_class_interceptors :: "class_entry \<Rightarrow> class_entry \<Rightarrow> class_entry" where
  "prepare_class_interceptors candidate prepared =
     prepared\<lparr>cl_interceptors := find_interceptor prepared,
       cl_iterator_funcs :=
         set_func_refs [''new_iterator'', ''valid'', ''current'', ''key'', ''next'', ''rewind''] (cl_iterator_funcs candidate) prepared,
       cl_arrayaccess_funcs :=
         set_func_refs [''offsetget'', ''offsetexists'', ''offsetset'', ''offsetunset''] (cl_arrayaccess_funcs candidate) prepared\<rparr>"

definition pmmpthread_preparation_copy_trait_method_reference ::
  "zend_trait_method_reference \<Rightarrow> 'h copy_state \<Rightarrow> zend_trait_method_reference \<times> 'h copy_state"
where
  "pmmpthread_preparation_copy_trait_method_reference reference st =
     (case copy_opt_string (tm_method_name reference) st of
        (m, st1) \<Rightarrow>
          (case copy_opt_string (tm_class_name reference) st1 of
             (c, st2) \<Rightarrow> (\<lparr>tm_method_name = m, tm_class_name = c\<rparr>, st2)))"

definition pmmpthread_preparation_copy_trait_alias :: "zend_trait_alias \<Rightarrow> 'h copy_state \<Rightarrow> zend_trait_alias \<times> 'h copy_state" where
  "pmmpthread_preparation_copy_trait_alias a st =
     (case pmmpthread_preparation_copy_trait_method_reference (ta_trait_method a) st of
        (m, st1) \<Rightarrow>
          (case copy_opt_string (ta_alias a) st1 of
             (s, st2) \<Rightarrow> (\<lparr>ta_trait_method = m, ta_alias = s, ta_modifiers = ta_modifiers a\<rparr>, st2)))"

definition pmmpthread_preparation_copy_trait_precedence :: "zend_trait_precedence \<Rightarrow> 'h copy_state \<Rightarrow> zend_trait_precedence \<times> 'h copy_state" where
  "pmmpthread_preparation_copy_trait_precedence p st =
     (case pmmpthread_preparation_copy_trait_method_reference (tp_trait_method p) st of
        (m, st1) \<Rightarrow>
          (case pmmpthread_copy_variables (tp_exclude_class_names p) st1 of
             (ss, st2) \<Rightarrow> (\<lparr>tp_trait_method = m, tp_exclude_class_names = ss\<rparr>, st2)))"

text \<open>A list whose elements are copied one after the other.\<close>

fun copy_each :: "('a \<Rightarrow> 'h copy_state \<Rightarrow> 'b \<times> 'h copy_state) \<Rightarrow> 'a list \<Rightarrow> 'h copy_state \<Rightarrow> 'b list \<times> 'h copy_state" where
  "copy_each f [] st = ([], st)"
| "copy_each f (x # xs) st = (case f x st of (y, st1) \<Rightarrow> (case copy_each f xs st1 of (ys, st2) \<Rightarrow> (y # ys, st2)))"

definition copy_name_pair :: "zstr \<times> zstr \<Rightarrow> 'h copy_state \<Rightarrow> (zstr \<times> zstr) \<times> 'h copy_state" where
  "copy_name_pair ab st =
     (case pmmpthread_copy_string (fst ab) st of
        (a, st1) \<Rightarrow> (case pmmpthread_copy_string (snd ab) st1 of (b, st2) \<Rightarrow> ((a, b), st2)))"

definition copy_opt_list :: "('a \<Rightarrow> 'h copy_state \<Rightarrow> 'b \<times> 'h copy_state) \<Rightarrow> 'a list option \<Rightarrow> 'h copy_state \<Rightarrow> 'b list option \<times> 'h copy_state" where
  "copy_opt_list f xs st = (case xs of None \<Rightarrow> (None, st) | Some ys \<Rightarrow> (case copy_each f ys st of (zs, st1) \<Rightarrow> (Some zs, st1)))"

text \<open>The names are pairs of the lower-case name and the name.\<close>

definition prepare_class_traits :: "class_entry \<Rightarrow> addr \<Rightarrow> 'h copy_state \<Rightarrow> 'h copy_state copied" where
  "prepare_class_traits candidate prepared st =
     (case copy_each copy_name_pair (cl_trait_names candidate) st of
        (names, st1) \<Rightarrow>
     (case copy_opt_list pmmpthread_preparation_copy_trait_alias (cl_trait_aliases candidate) st1 of
        (aliases, st2) \<Rightarrow>
     (case copy_opt_list pmmpthread_preparation_copy_trait_precedence (cl_trait_precedences candidate) st2 of
        (precedences, st3) \<Rightarrow>
          upd_class prepared (\<lambda>c. c\<lparr>cl_trait_names := names, cl_trait_aliases := aliases, cl_trait_precedences := precedences\<rparr>) st3)))"

section \<open>Class entries\<close>

fun prepare_interfaces :: "'h copy_env \<Rightarrow> ptr list \<Rightarrow> 'h copy_state \<Rightarrow> (ptr list \<times> 'h copy_state) copied" where
  "prepare_interfaces X [] st = Copied ([], st)"
| "prepare_interfaces X (i # is) st =
     cbind (prepare_opt_class X i st) (\<lambda>(j, st1). cbind (prepare_interfaces X is st1) (\<lambda>(js, st2). Copied (j # js, st2)))"

definition copy_ce_flags :: "class_entry \<Rightarrow> class_entry \<Rightarrow> class_entry" where
  "copy_ce_flags candidate prepared =
     prepared\<lparr>cl_linked := cl_linked candidate, cl_anon := cl_anon candidate, cl_immutable := cl_immutable candidate,
       cl_preloaded := cl_preloaded candidate, cl_enum := cl_enum candidate\<rparr>"

definition complete_parent :: "'h copy_env \<Rightarrow> class_entry \<Rightarrow> addr \<Rightarrow> 'h copy_state \<Rightarrow> 'h copy_state copied" where
  "complete_parent X candidate prepared st =
     (if cl_linked candidate then
        (case class_parent_ptr candidate of
           None \<Rightarrow> Copied st
         | Some a \<Rightarrow>
             cbind (ce_class X a st) (\<lambda>(parent, st1).
               upd_class prepared (\<lambda>c. c\<lparr>cl_parent := (case parent of None \<Rightarrow> No_parent | Some b \<Rightarrow> Parent b)\<rparr>) st1))
      else
        (case cl_parent candidate of
           Parent_name s \<Rightarrow>
             (case pmmpthread_copy_string s st of (u, st1) \<Rightarrow> upd_class prepared (\<lambda>c. c\<lparr>cl_parent := Parent_name u\<rparr>) st1)
         | _ \<Rightarrow> Copied st))"

definition complete_interfaces :: "'h copy_env \<Rightarrow> class_entry \<Rightarrow> addr \<Rightarrow> 'h copy_state \<Rightarrow> 'h copy_state copied" where
  "complete_interfaces X candidate prepared st =
     (case cl_interfaces candidate of
        Interfaces is \<Rightarrow>
          cbind (prepare_interfaces X is st) (\<lambda>(js, st1). upd_class prepared (\<lambda>c. c\<lparr>cl_interfaces := Interfaces js\<rparr>) st1)
      | Interface_names ns \<Rightarrow>
          (case copy_each copy_name_pair ns st of (ms, st1) \<Rightarrow> upd_class prepared (\<lambda>c. c\<lparr>cl_interfaces := Interface_names ms\<rparr>) st1))"

definition pmmpthread_complete_entry :: "nat \<Rightarrow> 'h copy_env \<Rightarrow> class_entry \<Rightarrow> addr \<Rightarrow> 'h copy_state \<Rightarrow> 'h copy_state copied" where
  "pmmpthread_complete_entry n X candidate prepared st =
     cbind (upd_class prepared (copy_ce_flags candidate) st) (\<lambda>st1.
     cbind (complete_parent X candidate prepared st1) (\<lambda>st2.
     cbind (complete_interfaces X candidate prepared st2) (\<lambda>st3.
     cbind (prepare_class_traits candidate prepared st3) (\<lambda>st4.
     cbind (upd_class prepared (prepare_class_handlers candidate) st4) (\<lambda>st5.
     cbind (prepare_class_function_table n X candidate prepared st5) (\<lambda>st6.
     upd_class prepared (prepare_class_interceptors candidate) st6))))))"

text \<open>The copy of a key is made and dropped; the key of the origin goes into the table.\<close>

fun prepare_backed_enum_table :: "nat \<Rightarrow> 'h copy_env \<Rightarrow> (vkey \<times> val) list \<Rightarrow> 'h copy_state \<Rightarrow> ((vkey \<times> val) list \<times> 'h copy_state) copied" where
  "prepare_backed_enum_table n X [] st = Copied ([], st)"
| "prepare_backed_enum_table n X ((key, v) # es) st =
     cbind (copy_value n X v st) (\<lambda>(r, st1).
       case r of
         None \<Rightarrow> Stuck
       | Some new_val \<Rightarrow>
           (case copy_key key st1 of
              (new_key, st2) \<Rightarrow>
                cbind (prepare_backed_enum_table n X es st2) (\<lambda>(fs, st3). Copied ((key, new_val) # fs, st3))))"

text \<open>A class entry as \<open>zend_initialize_class_data\<close> leaves it.\<close>

definition zend_initialize_class_data :: "zstr \<Rightarrow> bool \<Rightarrow> class_entry" where
  "zend_initialize_class_data name internal =
     \<lparr>cl_name = name, cl_internal = internal, cl_linked = False, cl_anon = False, cl_immutable = False, cl_preloaded = False, cl_enum = False,
      cl_refcount = 1, cl_parent = No_parent, cl_interfaces = Interfaces [], cl_trait_names = [], cl_trait_aliases = None,
      cl_trait_precedences = None,
      cl_handlers = \<lparr>h_create_object = None, h_serialize = None, h_unserialize = None, h_get_iterator = None,
        h_interface_gets_implemented = None, h_get_static_method = None\<rparr>,
      cl_function_table = [], cl_interceptors = (\<lambda>_. None), cl_iterator_funcs = None, cl_arrayaccess_funcs = None, cl_constants = [],
      cl_static_members = [], cl_properties_info = [], cl_default_properties = [], cl_properties_info_table = None, cl_enum_backing_type = 0,
      cl_backed_enum_table = None, cl_filename = None, cl_doc = None, cl_attributes = None, cl_num_hooked = (0, 0)\<rparr>"

definition copy_opt_filename :: "zstr option \<Rightarrow> 'h copy_state \<Rightarrow> zstr option \<times> 'h copy_state" where
  "copy_opt_filename s st = (case s of None \<Rightarrow> (None, st) | Some x \<Rightarrow> (case copy_filename x st of (u, st1) \<Rightarrow> (Some u, st1)))"

definition pmmpthread_copy_entry :: "nat \<Rightarrow> 'h copy_env \<Rightarrow> bool \<Rightarrow> class_entry \<Rightarrow> 'h copy_state \<Rightarrow> (addr \<times> 'h copy_state) copied" where
  "pmmpthread_copy_entry n X comments candidate st =
     (case alloc 0 st of
        (prepared, st1) \<Rightarrow>
     (case pmmpthread_copy_string (cl_name candidate) st1 of
        (name, st2) \<Rightarrow>
     (case (if comments then copy_opt_string (cl_doc candidate) st2 else (None, st2)) of
        (doc, st3) \<Rightarrow>
          let entry = copy_ce_flags candidate (zend_initialize_class_data name (cl_internal candidate))
                \<lparr>cl_filename := cl_filename candidate, cl_doc := doc, cl_num_hooked := cl_num_hooked candidate,
                 cl_enum_backing_type := cl_enum_backing_type candidate\<rparr>
          in
          cbind (copy_opt (pmmpthread_copy_attributes X (closure_copier n X)) (cl_attributes candidate) (st3\<lparr>cs_classes := (cs_classes st3)(prepared \<mapsto> entry)\<rparr>)) (\<lambda>(attributes, st4).
          cbind (upd_class prepared (\<lambda>c. c\<lparr>cl_attributes := attributes\<rparr>) st4) (\<lambda>st5.
          cbind (copy_opt (prepare_backed_enum_table n X) (cl_backed_enum_table candidate) st5) (\<lambda>(table, st6).
          case copy_opt_filename (cl_filename candidate) st6 of
            (filename, st7) \<Rightarrow>
              cbind (upd_class prepared (\<lambda>c. c\<lparr>cl_backed_enum_table := table, cl_filename := filename\<rparr>) st7) (\<lambda>st8.
              cbind (pmmpthread_complete_entry n X candidate prepared st8) (\<lambda>st9. Copied (prepared, st9)))))))))"

text \<open>Late bindings: what may lead to the class itself, done when the class is in the class table.\<close>

definition pmmpthread_prepared_entry_late_bindings ::
  "nat \<Rightarrow> 'h copy_env \<Rightarrow> bool \<Rightarrow> addr \<Rightarrow> class_entry \<Rightarrow> addr \<Rightarrow> 'h copy_state \<Rightarrow> 'h copy_state copied"
where
  "pmmpthread_prepared_entry_late_bindings n X comments candidate ca prepared st =
     (if \<not> cl_immutable ca then
        cbind (prepare_class_property_table n X comments candidate ca prepared st) (\<lambda>st1.
        cbind (prepare_class_statics n X ca prepared st1) (\<lambda>st2.
        prepare_class_constants n X ca prepared st2))
      else Copied st)"

section \<open>Creating a class\<close>

fun type_names :: "zend_type \<Rightarrow> string list" where
  "type_names (Type_list arena m ts) = concat (map (\<lambda>t. case t of Type_name s m \<Rightarrow> [zs_val s] | _ \<Rightarrow> []) ts)"
| "type_names (Type_name s m) = [zs_val s]"
| "type_names (Type_mask m) = []"

definition type_dependency ::
  "'h prep_env \<Rightarrow> (addr \<Rightarrow> 'h copy_state \<Rightarrow> (ptr \<times> 'h copy_state) copied) \<Rightarrow> string \<Rightarrow> 'h copy_state \<Rightarrow> 'h copy_state copied"
where
  "type_dependency E create name st =
     (case map_of (pe_class_table E) (zend_string_tolower name) of
        None \<Rightarrow> Copied st
      | Some ce \<Rightarrow> cbind (create ce st) (\<lambda>(_, st1). Copied st1))"

definition property_dependencies ::
  "'h prep_env \<Rightarrow> (addr \<Rightarrow> 'h copy_state \<Rightarrow> (ptr \<times> 'h copy_state) copied) \<Rightarrow> zstr \<times> addr \<Rightarrow> 'h copy_state \<Rightarrow> 'h copy_state copied"
where
  "property_dependencies E create ki st =
     (case prop_info_at (pe_copy E) st (snd ki) of
        None \<Rightarrow> Stuck
      | Some i \<Rightarrow> each (type_dependency E create) (type_names (pi_type i)) st)"

definition class_interface_ptrs :: "class_entry \<Rightarrow> addr list" where
  "class_interface_ptrs c = (case cl_interfaces c of Interfaces is \<Rightarrow> concat (map (\<lambda>i. case i of None \<Rightarrow> [] | Some a \<Rightarrow> [a]) is) | Interface_names ns \<Rightarrow> [])"

definition pmmpthread_prepare_immutable_class_dependencies ::
  "'h prep_env \<Rightarrow> (addr \<Rightarrow> 'h copy_state \<Rightarrow> (ptr \<times> 'h copy_state) copied) \<Rightarrow> class_entry \<Rightarrow> 'h copy_state \<Rightarrow> 'h copy_state copied"
where
  "pmmpthread_prepare_immutable_class_dependencies E create ca st =
     cbind
       (if cl_linked ca then
          each (\<lambda>a st. cbind (create a st) (\<lambda>(_, st1). Copied st1))
            ((case class_parent_ptr ca of None \<Rightarrow> [] | Some a \<Rightarrow> [a]) @ class_interface_ptrs ca) st
        else Copied st)
       (each (property_dependencies E create) (cl_properties_info ca))"

text \<open>An anonymous class that was copied before its declaration was reached, and has been linked since.\<close>

definition newly_linked :: "class_entry \<Rightarrow> class_entry \<Rightarrow> bool" where
  "newly_linked ca p \<longleftrightarrow> (cl_anon p \<and> \<not> cl_linked p) \<and> (cl_anon ca \<and> cl_linked ca)"

definition register_class :: "string \<Rightarrow> addr \<Rightarrow> 'h copy_state \<Rightarrow> 'h copy_state" where
  "register_class name a st = st\<lparr>cs_class_table := table_update name a (cs_class_table st)\<rparr>"

definition zend_map_ptr_extend :: "nat \<Rightarrow> 'h copy_state \<Rightarrow> 'h copy_state" where
  "zend_map_ptr_extend n st = st\<lparr>cs_map_ptr_last := max (cs_map_ptr_last st) n\<rparr>"

text \<open>
  A class that is not in the class table. \<open>create\<close> creates other classes, with the late bindings as this one; \<open>X\<close> creates classes with them.
\<close>

definition create_new_entry ::
  "nat \<Rightarrow> 'h prep_env \<Rightarrow> 'h copy_env \<Rightarrow> (addr \<Rightarrow> 'h copy_state \<Rightarrow> (ptr \<times> 'h copy_state) copied) \<Rightarrow> addr \<Rightarrow> class_entry \<Rightarrow> bool \<Rightarrow>
     'h copy_state \<Rightarrow> (ptr \<times> 'h copy_state) copied"
where
  "create_new_entry n E X create candidate ca do_late_bindings st =
     (let lookup = zend_string_tolower (zs_val (cl_name ca)); st1 = zend_map_ptr_extend (pe_map_ptr_last E) st;
          comments = has_option (pe_options E) PMMPTHREAD_INHERIT_COMMENTS
      in
      if cl_immutable ca then
        cbind (pmmpthread_prepare_immutable_class_dependencies E create ca (register_class lookup candidate st1)) (\<lambda>st2.
        cbind (if do_late_bindings then pmmpthread_prepared_entry_late_bindings n X comments candidate ca candidate st2 else Copied st2) (\<lambda>st3.
        Copied (Some candidate, st3)))
      else
        cbind (pmmpthread_copy_entry n X comments ca st1) (\<lambda>(prepared, st2).
        let st3 = register_class lookup prepared st2 in
        cbind (if do_late_bindings then pmmpthread_prepared_entry_late_bindings n X comments candidate ca prepared st3 else Copied st3) (\<lambda>st4.
        case cs_classes st4 prepared of
          None \<Rightarrow> Stuck
        | Some p \<Rightarrow>
            cbind (each (\<lambda>(_, f). pmmpthread_update_function_scope X f candidate prepared) (cl_function_table p) st4) (\<lambda>st5.
            Copied (Some prepared, st5)))))"

text \<open>
  Internal and preloaded classes are in the class table of every thread. \<open>n\<close> bounds the depth to which classes lead to other classes, and functions and
  closures are nested.
\<close>

primrec pmmpthread_create_entry :: "nat \<Rightarrow> 'h prep_env \<Rightarrow> addr \<Rightarrow> bool \<Rightarrow> 'h copy_state \<Rightarrow> (ptr \<times> 'h copy_state) copied" where
  "pmmpthread_create_entry 0 E candidate do_late_bindings st = No_fuel"
| "pmmpthread_create_entry (Suc n) E candidate do_late_bindings st =
     (let X = (pe_copy E)\<lparr>ce_class := (\<lambda>c. pmmpthread_create_entry n E c True)\<rparr> in
      case class_at X st candidate of
        None \<Rightarrow> Stuck
      | Some ca \<Rightarrow>
          let lookup = zend_string_tolower (zs_val (cl_name ca)) in
          if cl_internal ca \<or> cl_preloaded ca then Copied (map_of (cs_class_table st) lookup, st)
          else
            (case map_of (cs_class_table st) lookup of
               None \<Rightarrow> create_new_entry n E X (\<lambda>c. pmmpthread_create_entry n E c do_late_bindings) candidate ca do_late_bindings st
             | Some prepared \<Rightarrow>
                 (case class_at X st prepared of
                    None \<Rightarrow> Stuck
                  | Some p \<Rightarrow>
                      if newly_linked ca p then
                        if cl_immutable p then
                          create_new_entry n E X (\<lambda>c. pmmpthread_create_entry n E c do_late_bindings) candidate ca do_late_bindings st
                        else
                          cbind (pmmpthread_complete_entry n X ca prepared st) (\<lambda>st1.
                          cbind (if do_late_bindings then
                                   pmmpthread_prepared_entry_late_bindings n X (has_option (pe_options E) PMMPTHREAD_INHERIT_COMMENTS) candidate ca prepared st1
                                 else Copied st1) (\<lambda>st2.
                          Copied (Some prepared, st2)))
                      else Copied (Some prepared, st))))"

definition prepared_env :: "nat \<Rightarrow> 'h prep_env \<Rightarrow> 'h copy_env" where
  "prepared_env n E = (pe_copy E)\<lparr>ce_class := (\<lambda>c. pmmpthread_create_entry n E c True)\<rparr>"

definition pmmpthread_prepared_entry :: "nat \<Rightarrow> 'h prep_env \<Rightarrow> ptr \<Rightarrow> 'h copy_state \<Rightarrow> (ptr \<times> 'h copy_state) copied" where
  "pmmpthread_prepared_entry n E candidate st =
     (case candidate of None \<Rightarrow> Copied (None, st) | Some c \<Rightarrow> pmmpthread_create_entry n E c True st)"

definition pmmpthread_prepare_single_class :: "nat \<Rightarrow> 'h prep_env \<Rightarrow> ptr \<Rightarrow> 'h copy_state \<Rightarrow> (ptr \<times> 'h copy_state) copied" where
  "pmmpthread_prepare_single_class n E candidate st = pmmpthread_prepared_entry n E candidate st"

text \<open>All classes that are in the class table when the loop starts.\<close>

definition context_late_binding :: "nat \<Rightarrow> 'h prep_env \<Rightarrow> string \<times> addr \<Rightarrow> 'h copy_state \<Rightarrow> 'h copy_state copied" where
  "context_late_binding n E ne st =
     (case ne of
        (name, entry) \<Rightarrow>
     (case class_at (pe_copy E) st entry of
        None \<Rightarrow> Stuck
      | Some e \<Rightarrow>
          if \<not> cl_internal e then
            (case map_of (pe_class_table E) name of
               None \<Rightarrow> Stuck
             | Some c \<Rightarrow>
                 (case ce_classes (pe_copy E) c of
                    None \<Rightarrow> Stuck
                  | Some ca \<Rightarrow>
                      pmmpthread_prepared_entry_late_bindings n (prepared_env n E) (has_option (pe_options E) PMMPTHREAD_INHERIT_COMMENTS) c ca entry st))
          else Copied st))"

definition pmmpthread_context_late_bindings :: "nat \<Rightarrow> 'h prep_env \<Rightarrow> 'h copy_state \<Rightarrow> 'h copy_state copied" where
  "pmmpthread_context_late_bindings n E st = each (context_late_binding n E) (cs_class_table st) st"

end
