(* ===== verification/Startup.thy ===== *)
theory Startup
  imports Prepare
begin

text \<open>
  The environment of a new thread (the second half of src/prepare.c): configuration directives, constants, functions, classes and included files
  of the creator, as the options of the thread say, and the two ends of the life of a thread, \<open>pmmpthread_prepared_startup\<close> and
  \<open>pmmpthread_prepared_shutdown\<close>. The request start-up and shutdown of the engine and the callbacks of directives are parameters.
\<close>

section \<open>Data\<close>

text \<open>A directive; \<open>ie_on_modify\<close> says that it has a callback.\<close>

record zend_ini_entry =
  ie_value :: "zstr option"
  ie_orig_value :: "zstr option"
  ie_modified :: bool
  ie_modifiable :: nat
  ie_orig_modifiable :: nat
  ie_on_modify :: bool

record zend_constant =
  zc_name :: "zstr option"
  zc_value :: val
  zc_flags :: nat
  zc_module :: nat

text \<open>An automatic global variable; its callback tells whether it stays armed.\<close>

record zend_auto_global =
  ag_jit :: bool
  ag_armed :: bool
  ag_callback :: "(string \<Rightarrow> bool) option"

text \<open>A function pointer: the engine's own function for the slot, one of the extension, or none.\<close>

datatype handler = Std_handler string | Own_handler string | Null_handler

type_synonym handler_table = "string \<Rightarrow> handler"

text \<open>The handlers of sockets that are kept per thread: those of the first socket, and a copy with the function that releases it replaced.\<close>

record socket_globals =
  sg_original :: "handler_table option"
  sg_custom :: handler_table

text \<open>
  The globals of the engine on one thread that the preparation writes. \<open>th_code\<close> is the state of copying, \<open>th_on_modify\<close> records the callbacks of
  directives with the new value.
\<close>

record 'h php_thread =
  th_code :: "'h copy_state"
  th_options :: "64 word"
  th_ini :: "(string \<times> zend_ini_entry) list"
  th_modified_ini :: "string list"
  th_on_modify :: "(string \<times> string) list"
  th_constants :: "(string \<times> zend_constant) list"
  th_included_files :: "string list"
  th_auto_globals :: "(string \<times> zend_auto_global) list"
  th_server_context :: ptr
  th_argc :: nat
  th_argv :: ptr
  th_expose_php :: bool
  th_auto_globals_jit :: bool
  th_during_request_startup :: bool
  th_sapi_started :: bool
  th_headers_sent :: bool
  th_no_headers :: bool
  th_in_shutdown :: bool
  th_current_execute_data :: ptr
  th_observer_enabled :: bool
  th_modules_activated :: bool
  th_report_memleaks :: bool
  th_sockets :: socket_globals

text \<open>
  What the engine does: altering a directive from code, the name under which a constant is registered (\<open>None\<close> when it is refused), starting
  and ending a request, ending observed calls (\<open>zend_observer_fcall_end_all\<close>), and calling and freeing the registered shutdown functions
  (\<open>php_call_shutdown_functions\<close>, \<open>php_free_shutdown_functions\<close>).
\<close>

record 'h engine =
  en_alter_ini :: "string \<Rightarrow> string \<Rightarrow> 'h php_thread \<Rightarrow> 'h php_thread"
  en_constant_key :: "string \<Rightarrow> string option"
  en_request_startup :: "'h php_thread \<Rightarrow> 'h php_thread"
  en_request_shutdown :: "'h php_thread \<Rightarrow> 'h php_thread"
  en_observer_end_all :: "'h php_thread \<Rightarrow> 'h php_thread"
  en_call_shutdown_functions :: "'h php_thread \<Rightarrow> 'h php_thread"
  en_free_shutdown_functions :: "'h php_thread \<Rightarrow> 'h php_thread"

text \<open>
  The names of directives, constants, functions, classes and files are modelled by their content; copying one allocates a string. An operation on the
  copying state of the thread:
\<close>

definition on_code :: "('h copy_state \<Rightarrow> 'h copy_state copied) \<Rightarrow> 'h php_thread \<Rightarrow> 'h php_thread copied" where
  "on_code f th = cbind (f (th_code th)) (\<lambda>st. Copied (th\<lparr>th_code := st\<rparr>))"

section \<open>Directives\<close>

text \<open>What \<open>strcmp\<close> sees of a string.\<close>

definition c_str :: "string \<Rightarrow> string" where
  "c_str s = takeWhile (\<lambda>c. c \<noteq> CHR 0x00) s"

definition set_ini :: "string \<Rightarrow> zend_ini_entry \<Rightarrow> 'h php_thread \<Rightarrow> 'h php_thread" where
  "set_ini name e th = th\<lparr>th_ini := table_update name e (th_ini th)\<rparr>"

text \<open>An access level kept in a \<open>zend_bool\<close>, which is \<open>bool\<close> since PHP 8: every level but 0 becomes 1, the level of scripts.\<close>

definition as_zend_bool :: "nat \<Rightarrow> nat" where
  "as_zend_bool n = (if n = 0 then 0 else 1)"

text \<open>Giving one directive the value of the creator. Its callback is called without a test: the null pointer is \<open>Stuck\<close>.\<close>

definition inherit_ini_value :: "string \<Rightarrow> zend_ini_entry \<Rightarrow> zstr \<Rightarrow> 'h php_thread \<Rightarrow> 'h php_thread copied" where
  "inherit_ini_value name e1 v0 th =
     (if \<not> ie_on_modify e1 then Stuck else
      case new_string name False False (th_code th) of
        (name_copy, st1) \<Rightarrow>
     (case pmmpthread_copy_string v0 st1 of
        (v, st2) \<Rightarrow>
          let resmod = as_zend_bool (ie_modifiable e1);
              first = \<not> ie_modified e1;
              e2 = (if first then e1\<lparr>ie_orig_value := ie_value e1, ie_orig_modifiable := ie_modifiable e1, ie_modified := True\<rparr> else e1)
          in
          Copied (set_ini name (e2\<lparr>ie_value := Some v, ie_modifiable := resmod\<rparr>)
            (th\<lparr>th_code := st2,
                th_modified_ini := (if first \<and> name \<notin> set (th_modified_ini th) then th_modified_ini th @ [name] else th_modified_ini th),
                th_on_modify := th_on_modify th @ [(name, zs_val v0)]\<rparr>))))"

definition prepare_ini_entry :: "string \<times> zend_ini_entry \<Rightarrow> 'h php_thread \<Rightarrow> 'h php_thread copied" where
  "prepare_ini_entry ne th =
     (case ne of
        (name, e0) \<Rightarrow>
     (case map_of (th_ini th) name of
        None \<Rightarrow> Copied th
      | Some e1 \<Rightarrow>
          (case (ie_value e0, ie_value e1) of
             (Some v0, Some v1) \<Rightarrow> if c_str (zs_val v0) \<noteq> c_str (zs_val v1) then inherit_ini_value name e1 v0 th else Copied th
           | _ \<Rightarrow> Copied th)))"

text \<open>A thread that may not send headers gets no cookies and no caching from sessions.\<close>

definition restrict_session :: "'h engine \<Rightarrow> 'h php_thread \<Rightarrow> 'h php_thread" where
  "restrict_session G th =
     (if \<not> has_option (th_options th) PMMPTHREAD_ALLOW_HEADERS then
        en_alter_ini G ''session.use_cookies'' ''0'' (en_alter_ini G ''session.cache_limiter'' ''nocache'' th)
      else th)"

definition pmmpthread_prepare_ini :: "'h engine \<Rightarrow> 'h php_thread \<Rightarrow> 'h php_thread \<Rightarrow> 'h php_thread copied" where
  "pmmpthread_prepare_ini G creator th = each prepare_ini_entry (th_ini creator) (restrict_session G th)"

section \<open>Constants, functions, classes, included files\<close>

definition pmmpthread_constant_exists :: "string \<Rightarrow> 'h php_thread \<Rightarrow> bool" where
  "pmmpthread_constant_exists name th \<longleftrightarrow>
     name \<in> fst ` set (th_constants th) \<or> zend_string_tolower name \<in> fst ` set (th_constants th)"

text \<open>\<open>zend_register_constant\<close>: a name that is taken or that the engine refuses is not registered.\<close>

definition zend_register_constant :: "'h engine \<Rightarrow> string \<Rightarrow> zend_constant \<Rightarrow> 'h php_thread \<Rightarrow> 'h php_thread" where
  "zend_register_constant G name c th =
     (case en_constant_key G name of
        None \<Rightarrow> th
      | Some key \<Rightarrow> if key \<in> fst ` set (th_constants th) then th else th\<lparr>th_constants := th_constants th @ [(key, c)]\<rparr>)"

definition prepare_constant ::
  "nat \<Rightarrow> 'h prep_env \<Rightarrow> 'h engine \<Rightarrow> string \<times> zend_constant \<Rightarrow> 'h php_thread \<Rightarrow> 'h php_thread copied"
where
  "prepare_constant n E G nc th =
     (case nc of
        (name, zconstant) \<Rightarrow>
     (case zc_name zconstant of
        None \<Rightarrow> Copied th
      | Some zname \<Rightarrow>
          (case zc_value zconstant of
             V_RESOURCE r \<Rightarrow> Copied th
           | _ \<Rightarrow>
               if pmmpthread_constant_exists name th then Copied th
               else
                 (case new_string name False False (th_code th) of
                    (new_name, st1) \<Rightarrow>
                      cbind (copy_value n (prepared_env n E) (zc_value zconstant) st1) (\<lambda>(r, st2).
                        case r of
                          None \<Rightarrow> Fatal (NonCopyableConstant (zs_val zname))
                        | Some v \<Rightarrow>
                            Copied (zend_register_constant G name (zconstant\<lparr>zc_name := Some new_name, zc_value := v\<rparr>) (th\<lparr>th_code := st2\<rparr>)))))))"

definition pmmpthread_prepare_constants :: "nat \<Rightarrow> 'h prep_env \<Rightarrow> 'h engine \<Rightarrow> 'h php_thread \<Rightarrow> 'h php_thread \<Rightarrow> 'h php_thread copied" where
  "pmmpthread_prepare_constants n E G creator th = each (prepare_constant n E G) (th_constants creator) th"

definition prepare_function :: "nat \<Rightarrow> 'h prep_env \<Rightarrow> string \<times> addr \<Rightarrow> 'h copy_state \<Rightarrow> 'h copy_state copied" where
  "prepare_function n E kf st =
     (case kf of
        (key, value) \<Rightarrow>
     (case ce_functions (pe_copy E) value of
        None \<Rightarrow> Stuck
      | Some f \<Rightarrow>
          if \<not> fn_user f \<or> map_of (cs_function_table st) key \<noteq> None then Copied st
          else
            (case new_string key False False st of
               (name, st1) \<Rightarrow>
                 cbind (pmmpthread_copy_function n (prepared_env n E) value st1) (\<lambda>(prepared, st2).
                   Copied (if map_of (cs_function_table st2) key = None then
                             st2\<lparr>cs_function_table := cs_function_table st2 @ [(key, prepared)]\<rparr>
                           else st2)))))"

definition pmmpthread_prepare_functions :: "nat \<Rightarrow> 'h prep_env \<Rightarrow> (string \<times> addr) list \<Rightarrow> 'h copy_state \<Rightarrow> 'h copy_state copied" where
  "pmmpthread_prepare_functions n E fs st = each (prepare_function n E) fs st"

text \<open>A class whose name starts with a zero byte is declared at run time and has no place in the table of the new thread yet.\<close>

definition prepare_class :: "nat \<Rightarrow> 'h prep_env \<Rightarrow> string \<times> addr \<Rightarrow> 'h copy_state \<Rightarrow> 'h copy_state copied" where
  "prepare_class n E ne st =
     (case ne of
        (name, entry) \<Rightarrow>
          if map_of (cs_class_table st) name = None \<and> take 1 name \<noteq> [CHR 0x00] then
            cbind (pmmpthread_create_entry n E entry False st) (\<lambda>(_, st1). Copied st1)
          else Copied st)"

definition pmmpthread_prepare_classes :: "nat \<Rightarrow> 'h prep_env \<Rightarrow> 'h copy_state \<Rightarrow> 'h copy_state copied" where
  "pmmpthread_prepare_classes n E st =
     cbind (each (prepare_class n E) (pe_class_table E) st) (pmmpthread_context_late_bindings n E)"

definition prepare_include :: "string \<Rightarrow> 'h php_thread \<Rightarrow> 'h php_thread" where
  "prepare_include file th =
     (case new_string file False False (th_code th) of
        (name, st1) \<Rightarrow>
          th\<lparr>th_code := st1, th_included_files := (if file \<in> set (th_included_files th) then th_included_files th else th_included_files th @ [file])\<rparr>)"

definition pmmpthread_prepare_includes :: "'h php_thread \<Rightarrow> 'h php_thread \<Rightarrow> 'h php_thread" where
  "pmmpthread_prepare_includes creator th = fold prepare_include (th_included_files creator) th"

definition pmmpthread_prepare_sapi :: "'h php_thread \<Rightarrow> 'h php_thread" where
  "pmmpthread_prepare_sapi th =
     (let th1 = th\<lparr>th_sapi_started := False\<rparr> in
      if \<not> has_option (th_options th) PMMPTHREAD_ALLOW_HEADERS then th1\<lparr>th_headers_sent := True, th_no_headers := True\<rparr> else th1)"

section \<open>Start-up and shutdown\<close>

definition arm_auto_global :: "string \<times> zend_auto_global \<Rightarrow> string \<times> zend_auto_global" where
  "arm_auto_global na =
     (case na of
        (name, a) \<Rightarrow>
          (name,
           if ag_jit a \<and> ag_armed a then
             a\<lparr>ag_armed := (case ag_callback a of Some f \<Rightarrow> f name | None \<Rightarrow> False)\<rparr>
           else a))"

text \<open>What is inherited; \<open>thread_ce\<close> is the class of the thread.\<close>

definition inherit_environment ::
  "nat \<Rightarrow> 'h prep_env \<Rightarrow> 'h engine \<Rightarrow> 'h php_thread \<Rightarrow> addr \<Rightarrow> 'h php_thread \<Rightarrow> 'h php_thread copied"
where
  "inherit_environment n E G creator thread_ce th =
     (let options = th_options th;
          th1 = pmmpthread_prepare_sapi th
      in
      cbind (if has_option options PMMPTHREAD_INHERIT_INI then pmmpthread_prepare_ini G creator th1 else Copied th1) (\<lambda>th2.
      cbind (if has_option options PMMPTHREAD_INHERIT_CONSTANTS then pmmpthread_prepare_constants n E G creator th2 else Copied th2) (\<lambda>th3.
      let th4 = th3\<lparr>th_code := zend_map_ptr_extend (pe_map_ptr_last E) (th_code th3)\<rparr> in
      cbind (if has_option options PMMPTHREAD_INHERIT_FUNCTIONS then
               on_code (pmmpthread_prepare_functions n E (cs_function_table (th_code creator))) th4
             else Copied th4) (\<lambda>th5.
      cbind (if has_option options PMMPTHREAD_INHERIT_CLASSES then on_code (pmmpthread_prepare_classes n E) th5
             else
               on_code (\<lambda>st. cbind (pmmpthread_create_entry n E thread_ce False st) (\<lambda>(_, st1). pmmpthread_context_late_bindings n E st1)) th5) (\<lambda>th6.
      Copied (if has_option options PMMPTHREAD_INHERIT_INCLUDES then pmmpthread_prepare_includes creator th6 else th6))))))"

text \<open>
  The new thread \<open>t\<close>, with the name \<open>oid\<close>, enters itself into its object \<open>thread\<close> and prepares itself inside the global lock, then reports to its creator through the monitor \<open>ready\<close> and counts itself.
\<close>

definition pmmpthread_prepared_startup ::
  "nat \<Rightarrow> tid \<Rightarrow> nat \<Rightarrow> 'h prep_env \<Rightarrow> 'h engine \<Rightarrow> 'h php_thread \<Rightarrow> addr \<Rightarrow> addr \<Rightarrow> 64 word \<Rightarrow> pmmpthread_monitor_t \<Rightarrow> 'h php_thread \<Rightarrow>
     (pmmpthread_monitor_t \<times> 'h php_thread) copied"
where
  "pmmpthread_prepared_startup n t oid E G creator thread thread_ce thread_options ready th =
     cbind (of_outcome (pmmpthread_globals_lock t (cs_world (th_code th)))) (\<lambda>(_, w0).
     cbind (of_outcome (upd_ts thread (\<lambda>ob. ob\<lparr>o_local := \<lparr>ident_id = oid, ident_ls = t\<rparr>\<rparr>) w0)) (\<lambda>w.
     let th1 = th\<lparr>th_code := (th_code th)\<lparr>cs_world := w\<rparr>, th_server_context := th_server_context creator, th_argc := th_argc creator,
                  th_argv := th_argv creator, th_expose_php := False, th_auto_globals_jit := False\<rparr>;
         th2 = (en_request_startup G th1)\<lparr>th_during_request_startup := False\<rparr>;
         th3 = th2\<lparr>th_auto_globals := map arm_auto_global (th_auto_globals th2), th_options := thread_options\<rparr>
     in
     cbind (inherit_environment n (E\<lparr>pe_options := thread_options\<rparr>) G creator thread_ce th3) (\<lambda>th4.
     cbind (of_outcome (pmmpthread_monitor_add t ready PMMPTHREAD_MONITOR_READY)) (\<lambda>m.
     let w1 = cs_world (th_code th4);
         w2 = pmmpthread_globals_unlock t (w1\<lparr>g_thread_count := g_thread_count w1 + 1\<rparr>)
     in Copied (m, th4\<lparr>th_code := (th_code th4)\<lparr>cs_world := w2\<rparr>\<rparr>)))))"

text \<open>Before a thread waits to be joined; the engine calls the functions and frees them, so that the end of the request does not call them again.\<close>

definition pmmpthread_call_shutdown_functions :: "'h engine \<Rightarrow> 'h php_thread \<Rightarrow> 'h php_thread" where
  "pmmpthread_call_shutdown_functions G th =
     (let th1 = th\<lparr>th_in_shutdown := True, th_current_execute_data := None\<rparr>;
          th2 = (if th_observer_enabled th1 then en_observer_end_all G th1 else th1);
          th3 = (if th_modules_activated th2 then en_call_shutdown_functions G th2 else th2)
      in if th_modules_activated th3 then en_free_shutdown_functions G th3 else th3)"

definition pmmpthread_prepared_shutdown :: "tid \<Rightarrow> 'h engine \<Rightarrow> 'h php_thread \<Rightarrow> 'h world copied" where
  "pmmpthread_prepared_shutdown t G th =
     cbind (of_outcome (pmmpthread_globals_lock t (cs_world (th_code th)))) (\<lambda>(_, w).
     let th1 = en_request_shutdown G (th\<lparr>th_code := (th_code th)\<lparr>cs_world := w\<rparr>, th_report_memleaks := False\<rparr>);
         w1 = cs_world (th_code th1)
     in Copied (pmmpthread_globals_unlock t (w1\<lparr>g_thread_count := g_thread_count w1 - 1\<rparr>)))"

end
