(* ===== verification/Prepare_Frame.thy ===== *)
theory Prepare_Frame
  imports Prepare
begin

text \<open>
  The steps of copying and of preparing a class, as seen from outside: a relation on states that the small steps respect is respected by all operations of
  src/copy.c and src/prepare.c. Two locales carry it, \<open>copy_frame\<close> for the copies and \<open>class_frame\<close> for the preparation of one class; Class_Tables
  instantiates them.
\<close>

section \<open>Relations kept by copying\<close>

text \<open>\<open>same_code\<close>: copying may allocate, intern strings and register functions and property infos; it touches no class and no table.\<close>

definition same_code :: "'h copy_state \<Rightarrow> 'h copy_state \<Rightarrow> bool" where
  "same_code st st' \<longleftrightarrow> cs_next st \<le> cs_next st' \<and> cs_classes st' = cs_classes st \<and> cs_class_table st' = cs_class_table st \<and>
     cs_function_table st' = cs_function_table st \<and> (interned_ok st \<longrightarrow> interned_ok st')"

definition keeps :: "('s \<Rightarrow> 's \<Rightarrow> bool) \<Rightarrow> 's \<Rightarrow> ('a \<times> 's) copied \<Rightarrow> bool" where
  "keeps R st m \<longleftrightarrow> (\<forall>x st'. m = Copied (x, st') \<longrightarrow> R st st')"

definition keeps_state :: "('s \<Rightarrow> 's \<Rightarrow> bool) \<Rightarrow> 's \<Rightarrow> 's copied \<Rightarrow> bool" where
  "keeps_state R st m \<longleftrightarrow> (\<forall>st'. m = Copied st' \<longrightarrow> R st st')"

lemma keepsD: "keeps R st m \<Longrightarrow> m = Copied (x, st') \<Longrightarrow> R st st'"
  by (simp add: keeps_def)

lemma keeps_stateD: "keeps_state R st m \<Longrightarrow> m = Copied st' \<Longrightarrow> R st st'"
  by (simp add: keeps_state_def)

lemma keeps_failed [simp]:
  "keeps R st (Fatal e)" "keeps R st Stuck" "keeps R st No_fuel" "keeps_state R st (Fatal e)" "keeps_state R st Stuck" "keeps_state R st No_fuel"
  by (simp_all add: keeps_def keeps_state_def)

lemma same_code_refl [simp]: "same_code st st"
  by (simp add: same_code_def)

lemma same_code_trans: "same_code a b \<Longrightarrow> same_code b c \<Longrightarrow> same_code a c"
  by (auto simp: same_code_def)

lemma same_code_fields [simp]:
  "same_code st (st\<lparr>cs_world := w\<rparr>)" "same_code st (st\<lparr>cs_filenames := fs\<rparr>)" "same_code st (st\<lparr>cs_resolve := r\<rparr>)"
  "same_code st (st\<lparr>cs_closures := c\<rparr>)" "same_code st (st\<lparr>cs_functions := f\<rparr>)" "same_code st (st\<lparr>cs_closure_objects := co\<rparr>)"
  "same_code st (st\<lparr>cs_prop_infos := i\<rparr>)" "same_code st (st\<lparr>cs_map_ptr_last := m\<rparr>)"
  by (simp_all add: same_code_def interned_ok_def)

lemma same_code_copy_string: "pmmpthread_copy_string s st = (u, st') \<Longrightarrow> same_code st st'"
  by (auto simp: pmmpthread_copy_string_def zend_new_interned_string_def new_string_def same_code_def interned_ok_def split: if_splits option.splits)

lemma same_code_new_string: "new_string s p i st = (u, st') \<Longrightarrow> same_code st st'"
  by (auto simp: new_string_def same_code_def interned_ok_def)

lemma same_code_opt_string: "copy_opt_string s st = (u, st') \<Longrightarrow> same_code st st'"
  by (auto simp: copy_opt_string_def split: option.splits prod.splits dest: same_code_copy_string)

lemma same_code_alloc: "alloc n st = (a, st') \<Longrightarrow> same_code st st'"
  by (auto simp: alloc_def same_code_def interned_ok_def)

lemma same_code_key: "copy_key k st = (l, st') \<Longrightarrow> same_code st st'"
  by (auto simp: copy_key_def split: vkey.splits prod.splits dest: same_code_copy_string)

lemma same_code_filename: "copy_filename s st = (u, st') \<Longrightarrow> same_code st st'"
  by (auto simp: copy_filename_def split: option.splits prod.splits dest: same_code_copy_string intro: same_code_trans)

lemma same_code_variables: "pmmpthread_copy_variables ss st = (us, st') \<Longrightarrow> same_code st st'"
  by (induction ss arbitrary: us st) (auto split: prod.splits dest: same_code_copy_string intro: same_code_trans)

lemma same_code_type:
  "pmmpthread_copy_zend_type t st = (u, st') \<Longrightarrow> same_code st st'"
  "copy_type_list ts st = (us, st') \<Longrightarrow> same_code st st'"
  by (induction t st and ts st arbitrary: u st' and us st' rule: pmmpthread_copy_zend_type_copy_type_list.induct)
    (auto split: prod.splits dest: same_code_copy_string intro: same_code_trans)

lemma same_code_arg_infos: "copy_arg_infos as st = (bs, st') \<Longrightarrow> same_code st st'"
  by (induction as arbitrary: bs st)
    (auto split: prod.splits dest!: same_code_opt_string same_code_type(1) intro: same_code_trans)

lemma same_code_memory: "code_memory X f st = (ab, st') \<Longrightarrow> same_code st st'"
  by (auto simp: code_memory_def Let_def split: if_splits prod.splits dest!: same_code_alloc intro: same_code_trans)

lemma same_code_add_ref: "same_code st (pmmpthread_add_function_ref a st)"
  by (simp add: pmmpthread_add_function_ref_def upd_function_def)

lemma same_code_register: "same_code st (function_register a f c st)"
  by (auto simp: function_register_def pmmpthread_add_function_ref_def upd_function_def split: option.splits
      intro: same_code_trans [OF same_code_fields(4) same_code_fields(5)])

lemma same_code_internal: "pmmpthread_copy_internal_function f st = (a, st') \<Longrightarrow> same_code st st'"
  by (auto simp: pmmpthread_copy_internal_function_def split: prod.splits dest!: same_code_alloc intro: same_code_trans)

lemmas same_code_steps =
  same_code_copy_string same_code_new_string same_code_opt_string same_code_alloc same_code_key same_code_filename same_code_variables
  same_code_type same_code_arg_infos same_code_memory same_code_internal

text \<open>
  \<open>copy_frame\<close>: a transitive relation that holds whenever only code changed and that preparing a class respects is respected by every
  copying operation.
\<close>

locale copy_frame =
  fixes R :: "'h copy_state \<Rightarrow> 'h copy_state \<Rightarrow> bool" and X :: "'h copy_env"
  assumes code: "same_code st st' \<Longrightarrow> R st st'"
    and step: "R st st1 \<Longrightarrow> R st1 st2 \<Longrightarrow> R st st2"
    and prepares: "keeps R st (ce_class X c st)"
begin

lemma refl [simp]: "R st st"
  by (rule code) simp

lemma keeps_ret: "R st st' \<Longrightarrow> keeps R st (Copied (x, st'))"
  by (simp add: keeps_def)

lemma keeps_ret_state: "R st st' \<Longrightarrow> keeps_state R st (Copied st')"
  by (simp add: keeps_state_def)

lemma keeps_bind:
  assumes "keeps R st m" and "\<And>x st1. m = Copied (x, st1) \<Longrightarrow> R st st1 \<Longrightarrow> keeps R st1 (f (x, st1))"
  shows "keeps R st (cbind m f)"
  using assms step unfolding keeps_def by (fastforce simp: cbind_Copied)

lemma keeps_bind_to_state:
  assumes "keeps R st m" and "\<And>x st1. m = Copied (x, st1) \<Longrightarrow> R st st1 \<Longrightarrow> keeps_state R st1 (f (x, st1))"
  shows "keeps_state R st (cbind m f)"
  using assms step unfolding keeps_def keeps_state_def by (fastforce simp: cbind_Copied)

lemma keeps_state_bind:
  assumes "keeps_state R st m" and "\<And>st1. m = Copied st1 \<Longrightarrow> R st st1 \<Longrightarrow> keeps_state R st1 (f st1)"
  shows "keeps_state R st (cbind m f)"
  using assms step unfolding keeps_state_def by (fastforce simp: cbind_Copied)

lemma keeps_state_bind_to:
  assumes "keeps_state R st m" and "\<And>st1. m = Copied st1 \<Longrightarrow> R st st1 \<Longrightarrow> keeps R st1 (f st1)"
  shows "keeps R st (cbind m f)"
  using assms step unfolding keeps_def keeps_state_def by (fastforce simp: cbind_Copied)

lemma keeps_from: "R st st1 \<Longrightarrow> keeps R st1 m \<Longrightarrow> keeps R st m"
  using step unfolding keeps_def by blast

lemma keeps_state_from: "R st st1 \<Longrightarrow> keeps_state R st1 m \<Longrightarrow> keeps_state R st m"
  using step unfolding keeps_state_def by blast

lemma keeps_opt_class: "keeps R st (prepare_opt_class X c st)"
  by (auto simp: prepare_opt_class_def prepares keeps_ret split: option.splits)

lemma keeps_resolve_enum: "keeps R st (pmmpthread_resolve_enum_reference X c s st)"
  by (auto simp: pmmpthread_resolve_enum_reference_def code keeps_ret split: option.splits)

lemma keeps_connect:
  assumes "\<And>c w. keeps R st (f (c, w))"
  shows "keeps R st (cbind (of_outcome m) f)"
  using assms by (cases m) auto

lemma keeps_pair: "(\<And>x st1. m = (x, st1) \<Longrightarrow> R st st1 \<and> keeps R st1 (f x st1)) \<Longrightarrow> keeps R st (case m of (x, st1) \<Rightarrow> f x st1)"
  by (cases m) (auto intro: keeps_from)

lemma keeps_pair_state: "(\<And>x st1. m = (x, st1) \<Longrightarrow> R st st1 \<and> keeps_state R st1 (f x st1)) \<Longrightarrow> keeps_state R st (case m of (x, st1) \<Rightarrow> f x st1)"
  by (cases m) (auto intro: keeps_state_from)

lemma keeps_zval_of:
  assumes cl: "\<And>c st. keeps R st (cl c st)"
  shows "Y = X \<Longrightarrow> cl' = cl \<Longrightarrow> keeps R st (pmmpthread_copy_zval Y cl' v st)"
    "Y = X \<Longrightarrow> cl' = cl \<Longrightarrow> keeps R st (pmmpthread_copy_hash Y cl' es ht st)"
    "Y = X \<Longrightarrow> cl' = cl \<Longrightarrow> keeps R st (pmmpthread_copy_ast_tree Y cl' a buf st)"
    "Y = X \<Longrightarrow> cl' = cl \<Longrightarrow> keeps R st (copy_ast_children Y cl' cs buf st)"
proof (induction Y cl' v st and Y cl' es ht st and Y cl' a buf st and Y cl' cs buf st
    rule: pmmpthread_copy_zval_pmmpthread_copy_hash_pmmpthread_copy_ast_tree_copy_ast_children.induct)
  case (16 Y cl' k v es ht st)
  have "keeps R st2 (pmmpthread_copy_hash X cl es (ht_update l u ht) st2)" if "copy_key k st1 = (l, st2)" for u l st1 st2
    using "16.IH"(3) "16.prems" that by metis
  then show ?case
    using "16.IH"(1,2) "16.prems" by (auto intro!: keeps_bind keeps_pair code same_code_key split: option.splits)
qed (auto intro!: keeps_bind keeps_connect keeps_pair keeps_ret code prepares keeps_resolve_enum cl
    split: option.splits dest: same_code_steps)

lemmas keeps_zval = keeps_zval_of [OF _ HOL.refl HOL.refl]

lemmas keeps_intros = keeps_bind keeps_pair keeps_ret code keeps_opt_class

lemma keeps_opt: "(\<And>x st. keeps R st (g x st)) \<Longrightarrow> keeps R st (copy_opt g y st)"
  by (auto simp: copy_opt_def intro!: keeps_bind keeps_ret split: option.splits)

lemma keeps_attribute_args:
  assumes "\<And>c st. keeps R st (cl c st)"
  shows "keeps R st (copy_attribute_args X cl name args st)"
proof (induction args arbitrary: st)
  case (Cons a args)
  then show ?case
    by (cases a) (auto intro!: keeps_intros keeps_zval assms split: option.splits dest: same_code_opt_string)
qed (simp add: keeps_ret)

lemma keeps_attributes:
  assumes "\<And>c st. keeps R st (cl c st)"
  shows "keeps R st (pmmpthread_copy_attributes X cl as st)"
proof (induction as arbitrary: st)
  case (Cons a as)
  have "keeps R st (pmmpthread_copy_attribute X cl a st)" for st
    by (auto simp: pmmpthread_copy_attribute_def intro!: keeps_intros keeps_attribute_args assms dest: same_code_copy_string)
  with Cons show ?case by (auto intro!: keeps_intros)
qed (simp add: keeps_ret)

lemma keeps_statics:
  assumes "\<And>c st. keeps R st (cl c st)"
  shows "keeps R st (pmmpthread_copy_statics X cl old statics st)"
proof (induction old arbitrary: statics st)
  case (Cons a old)
  then show ?case
    by (cases a) (auto intro!: keeps_intros keeps_zval assms dest: same_code_copy_string)
qed (simp add: keeps_ret)

lemma keeps_literals:
  assumes "\<And>c st. keeps R st (cl c st)"
  shows "keeps R st (pmmpthread_copy_literals X cl name vs st)"
proof (induction vs arbitrary: st)
  case (Cons v vs)
  have "keeps R st (case v of V_UNDEF \<Rightarrow> Copied (Some V_UNDEF, st) | _ \<Rightarrow> pmmpthread_copy_zval X cl v st)" for st
    using keeps_zval(1) [of cl st v, OF assms] by (cases v) (simp_all add: keeps_ret del: pmmpthread_copy_zval.simps)
  with Cons show ?case by (auto intro!: keeps_intros split: option.splits)
qed (simp add: keeps_ret)

lemma keeps_dynamic:
  assumes "\<And>a st. keeps R st (cf a st)"
  shows "keeps R st (pmmpthread_copy_dynamic_func_defs cf fs st)"
  by (induction fs arbitrary: st) (auto intro!: keeps_intros assms)

lemma keeps_arginfo: "keeps R st (pmmpthread_copy_arginfo f old st)"
  using same_code_arg_infos [of "take (arg_info_count f) old" st] by (auto simp: pmmpthread_copy_arginfo_def keeps_def code)

lemma keeps_code:
  assumes "\<And>c st. keeps R st (cl c st)" "\<And>a st. keeps R st (cf a st)"
  shows "keeps R st (copy_code X cl cf f st)"
proof -
  have v: "keeps R st (copy_opt (\<lambda>vs st. Copied (pmmpthread_copy_variables vs st)) vs st)" for vs st
    by (rule keeps_opt) (simp add: keeps_def code same_code_variables)
  obtain ab st1 where m: "code_memory X f st = (ab, st1)" by fastforce
  show ?thesis
    unfolding copy_code_def m prod.case Let_def
    by (cases ab) (auto intro!: keeps_from [OF code [OF same_code_memory [OF m]]] keeps_bind keeps_ret keeps_opt keeps_literals keeps_arginfo v
        keeps_attributes keeps_dynamic assms)
qed

lemma keeps_user_function:
  assumes "\<And>c st. keeps R st (cl c st)" "\<And>a st. keeps R st (cf a st)"
  shows "keeps R st (pmmpthread_copy_user_function X cl cf f b st)"
proof -
  show ?thesis
    unfolding pmmpthread_copy_user_function_def Let_def
    by (intro keeps_pair conjI)
      (auto intro!: keeps_bind keeps_ret code keeps_code keeps_opt keeps_statics assms dest: same_code_steps)
qed

lemma keeps_new_closure: "keeps R st (new_closure X co f this statics ptr st)"
proof -
  have "keeps R st (case alloc 0 st of (a, st1) \<Rightarrow> Copied (g a, st1\<lparr>cs_closure_objects := h a st1\<rparr>))" for st g h
    by (auto intro!: keeps_pair keeps_ret code dest: same_code_alloc)
  then show ?thesis
    unfolding new_closure_def Let_def by (auto intro!: keeps_bind keeps_opt_class)
qed

lemma keeps_fake: "keeps R st (fake_closure_function X co st)"
  unfolding fake_closure_function_def Let_def by (auto intro!: keeps_bind keeps_ret prepares split: option.splits)

lemma keeps_closure_statics:
  assumes "\<And>c st. keeps R st (cl c st)"
  shows "keeps R st (closure_statics X cl co st)"
  unfolding closure_statics_def
  by (auto intro!: keeps_bind keeps_ret keeps_opt keeps_statics assms split: statics_ptr.splits)

lemma keeps_function_closure:
  "keeps R st (pmmpthread_copy_function_ex n X a f b st)"
  "keeps R st (pmmpthread_copy_closure n X co silent st)"
proof (induction n arbitrary: st a f b co silent)
  case 0
  {
    case 1
    show ?case
      by (auto intro!: keeps_bind keeps_pair keeps_ret code same_code_add_ref same_code_register split: option.splits dest: same_code_internal)
  next
    case 2
    show ?case
      by (auto intro!: keeps_bind keeps_connect keeps_ret code keeps_fake keeps_new_closure
          split: val.splits option.splits sum.splits)
  }
next
  case (Suc n)
  {
    case 1
    show ?case
      unfolding pmmpthread_copy_function_ex.simps [of "Suc n"]
      by (auto simp del: pmmpthread_copy_function_ex.simps pmmpthread_copy_closure.simps intro!: keeps_bind keeps_pair keeps_ret code same_code_add_ref same_code_register keeps_user_function Suc.IH
          split: option.splits dest: same_code_internal)
  next
    case 2
    show ?case
      unfolding pmmpthread_copy_closure.simps [of "Suc n"]
      by (auto simp del: pmmpthread_copy_function_ex.simps pmmpthread_copy_closure.simps intro!: keeps_bind keeps_connect keeps_ret code keeps_fake keeps_new_closure keeps_closure_statics Suc.IH
          split: val.splits option.splits sum.splits)
  }
qed

lemma keeps_each: "(\<And>x st. keeps_state R st (f x st)) \<Longrightarrow> keeps_state R st (each f xs st)"
  by (induction xs arbitrary: st) (auto intro!: keeps_ret_state keeps_state_bind)

end

section \<open>Relations kept by the preparation of one class\<close>

lemma same_code_trait_reference: "pmmpthread_preparation_copy_trait_method_reference r st = (u, st') \<Longrightarrow> same_code st st'"
  by (auto simp: pmmpthread_preparation_copy_trait_method_reference_def split: prod.splits dest!: same_code_opt_string intro: same_code_trans)

lemma same_code_trait_alias: "pmmpthread_preparation_copy_trait_alias a st = (u, st') \<Longrightarrow> same_code st st'"
  by (auto simp: pmmpthread_preparation_copy_trait_alias_def split: prod.splits dest!: same_code_opt_string same_code_trait_reference
      intro: same_code_trans)

lemma same_code_trait_precedence: "pmmpthread_preparation_copy_trait_precedence a st = (u, st') \<Longrightarrow> same_code st st'"
  by (auto simp: pmmpthread_preparation_copy_trait_precedence_def split: prod.splits dest!: same_code_variables same_code_trait_reference
      intro: same_code_trans)

lemma same_code_name_pair: "copy_name_pair ab st = (u, st') \<Longrightarrow> same_code st st'"
  by (auto simp: copy_name_pair_def split: prod.splits dest!: same_code_copy_string intro: same_code_trans)

lemma same_code_each:
  assumes "\<And>x st u st'. f x st = (u, st') \<Longrightarrow> same_code st st'"
  shows "copy_each f xs st = (us, st') \<Longrightarrow> same_code st st'"
  by (induction xs arbitrary: us st) (auto split: prod.splits dest: assms intro: same_code_trans)

lemma same_code_opt_list:
  assumes "\<And>x st u st'. f x st = (u, st') \<Longrightarrow> same_code st st'"
  shows "copy_opt_list f xs st = (us, st') \<Longrightarrow> same_code st st'"
  using same_code_each [of f, OF assms] by (auto simp: copy_opt_list_def split: option.splits prod.splits)

lemmas same_code_lists =
  same_code_each [OF same_code_name_pair] same_code_opt_list [OF same_code_trait_alias] same_code_opt_list [OF same_code_trait_precedence]

lemma same_code_comment: "(if comments then copy_opt_string s st else (None, st)) = (u, st') \<Longrightarrow> same_code st st'"
  by (auto split: if_splits dest: same_code_opt_string)

lemma same_code_opt_filename: "copy_opt_filename s st = (u, st') \<Longrightarrow> same_code st st'"
  by (auto simp: copy_opt_filename_def split: option.splits prod.splits dest: same_code_filename)

text \<open>
  \<open>class_frame\<close>: the relation also allows the entry of the class \<open>p\<close> to be updated along \<open>K\<close>. Every operation on \<open>p\<close> respects it if \<open>K\<close> allows the fields
  of the entry that the operation writes.
\<close>

locale class_frame = copy_frame R X for R :: "'h copy_state \<Rightarrow> 'h copy_state \<Rightarrow> bool" and X :: "'h copy_env" +
  fixes p :: addr and K :: "class_entry \<Rightarrow> class_entry \<Rightarrow> bool"
  assumes updates: "cs_classes st p = Some c \<Longrightarrow> K c c' \<Longrightarrow> R st (st\<lparr>cs_classes := (cs_classes st)(p \<mapsto> c')\<rparr>)"
begin

lemma keeps_upd_class: "(\<And>c. K c (g c)) \<Longrightarrow> keeps_state R st (upd_class p g st)"
  by (auto simp: upd_class_def keeps_state_def updates split: option.splits)

lemma keeps_upd_info: "keeps_state R st (upd_prop_info a g st)"
  by (auto simp: upd_prop_info_def keeps_state_def code split: option.splits)

lemma keeps_write_function: "keeps_state R st (write_function X a g st)"
  by (auto simp: write_function_def keeps_state_def code split: option.splits if_splits)

lemma keeps_closure_copier: "keeps R st (closure_copier n X c st)"
  by (auto simp: closure_copier_def keeps_function_closure simp del: pmmpthread_copy_closure.simps split: option.splits)

lemma keeps_value: "keeps R st (copy_value n X v st)"
  unfolding copy_value_def by (rule keeps_zval) (rule keeps_closure_copier)

lemma keeps_class_attributes: "keeps R st (copy_opt (pmmpthread_copy_attributes X (closure_copier n X)) as st)"
  by (rule keeps_opt) (rule keeps_attributes [OF keeps_closure_copier])

lemma keeps_function: "keeps R st (pmmpthread_copy_function n X a st)"
  by (auto simp: pmmpthread_copy_function_def keeps_function_closure simp del: pmmpthread_copy_function_ex.simps split: option.splits)

lemmas class_intros =
  keeps_bind keeps_bind_to_state keeps_state_bind keeps_state_bind_to keeps_pair keeps_pair_state keeps_ret keeps_ret_state code
  keeps_opt_class keeps_upd_class keeps_upd_info keeps_write_function keeps_value keeps_class_attributes keeps_function

lemma keeps_enum_constant: "keeps R st (prepare_enum_constant n X p name backing st)"
  by (auto simp: prepare_enum_constant_def intro!: class_intros split: option.splits dest: same_code_copy_string)

lemma keeps_constant_value: "keeps R st (copy_constant_value n X p pe name zc st)"
proof -
  have "keeps R st (cbind (copy_value n X v st) (\<lambda>(r, st1). case r of None \<Rightarrow> Fatal e | Some v \<Rightarrow> Copied ((v, None), st1)))" for v e st
    by (auto intro!: class_intros split: option.splits)
  then show ?thesis
    unfolding copy_constant_value_def by (auto intro: keeps_enum_constant split: val.split)
qed

lemma keeps_upd_constant:
  assumes "\<And>c x. K c (c\<lparr>cl_constants := x\<rparr>)"
  shows "keeps_state R st (upd_constant p key g st)"
  unfolding upd_constant_def by (rule keeps_upd_class) (rule assms)

lemma keeps_constant:
  assumes "\<And>c x. K c (c\<lparr>cl_constants := x\<rparr>)"
  shows "keeps_state R st (prepare_class_constant n X p kc st)"
  unfolding prepare_class_constant_def
  by (cases kc) (auto intro!: class_intros keeps_constant_value keeps_upd_constant assms split: option.splits
      dest: same_code_copy_string same_code_opt_string same_code_type)

lemma keeps_constants:
  assumes "\<And>c x. K c (c\<lparr>cl_constants := x\<rparr>)"
  shows "keeps_state R st (prepare_class_constants n X ca p st)"
  unfolding prepare_class_constants_def by (intro keeps_each keeps_constant assms)

lemma keeps_set_static:
  assumes "\<And>c x. K c (c\<lparr>cl_static_members := x\<rparr>)"
  shows "keeps_state R st (set_static p i s st)"
  unfolding set_static_def by (rule keeps_upd_class) (rule assms)

lemma keeps_slot: "keeps R st (copy_zval_slot n X s st)"
  by (cases s) (auto intro!: class_intros split: option.splits static_slot.splits)

lemma keeps_static:
  assumes "\<And>c x. K c (c\<lparr>cl_static_members := x\<rparr>)"
  shows "keeps_state R st (prepare_static n X ca p i st)"
  unfolding prepare_static_def by (auto intro!: keeps_bind_to_state keeps_slot keeps_set_static assms)

lemma statics_count_bind:
  "(\<And>m. keeps_state R st (f m)) \<Longrightarrow> keeps_state R st (cbind (statics_count X st1 c) f)"
  by (auto simp: statics_count_def split: option.splits)

lemma keeps_link:
  assumes "\<And>c x. K c (c\<lparr>cl_static_members := x\<rparr>)"
  shows "keeps_state R st (link_statics k X p parent hi st)"
proof (induction k arbitrary: parent hi st)
  case 0
  then show ?case by (cases parent) (auto intro: keeps_ret_state)
next
  case (Suc k)
  then show ?case
    by (cases parent) (auto intro!: keeps_ret_state statics_count_bind keeps_state_bind keeps_each keeps_set_static assms split: option.splits)
qed

lemma keeps_statics_table:
  assumes "\<And>c x. K c (c\<lparr>cl_static_members := x\<rparr>)"
  shows "keeps_state R st (prepare_class_statics n X ca p st)"
  unfolding prepare_class_statics_def Let_def
  by (auto intro!: keeps_state_bind statics_count_bind keeps_each keeps_static keeps_link keeps_upd_class assms split: option.splits)

lemma keeps_class_function:
  assumes "\<And>c x. K c (c\<lparr>cl_function_table := x\<rparr>)"
  shows "keeps_state R st (prepare_class_function n X p kf st)"
  unfolding prepare_class_function_def
  by (cases kf) (auto intro!: class_intros assms split: option.splits dest: same_code_copy_string)

lemma keeps_function_table:
  assumes "\<And>c x. K c (c\<lparr>cl_function_table := x\<rparr>)"
  shows "keeps_state R st (prepare_class_function_table n X ca p st)"
  unfolding prepare_class_function_table_def by (intro keeps_each keeps_class_function assms)

lemma keeps_scope: "keeps_state R st (pmmpthread_update_function_scope X f c q st)"
  unfolding pmmpthread_update_function_scope_def
  by (auto intro!: class_intros prepares split: option.splits)

lemma keeps_hook:
  assumes "\<And>i st. keeps R st (copy_info i st)"
  shows "keeps R st (copy_hook n X copy_info c q h st)"
  unfolding copy_hook_def by (auto intro!: class_intros assms keeps_scope split: option.splits)

lemma keeps_hooks:
  assumes "\<And>h st. keeps R st (copy h st)"
  shows "keeps R st (copy_hooks copy hs st)"
proof (induction hs arbitrary: st)
  case (Cons h hs)
  then show ?case by (cases h) (auto intro!: keeps_bind keeps_ret assms)
qed (simp add: keeps_ret)

lemma keeps_info_parts:
  assumes "\<And>i st. keeps R st (copy_info i st)"
  shows "keeps_state R st (copy_property_info_parts n X comments copy_info c q i dup st)"
proof -
  have i: "keeps R st (if pi_ce i = Some c then Copied (Some q, st) else prepare_opt_class X (pi_ce i) st)" for st
    by (simp add: keeps_ret keeps_opt_class)
  show ?thesis
    unfolding copy_property_info_parts_def
    by (auto intro!: class_intros i keeps_opt keeps_hooks keeps_hook assms dest: same_code_copy_string same_code_type same_code_comment)
qed

lemma keeps_info: "keeps R st (copy_property_info k n X comments c q i st)"
proof (induction k arbitrary: i st)
  case (Suc k)
  have s: "same_code st1 (st1\<lparr>cs_prop_infos := infos, cs_resolve := r\<rparr>)" for st1 :: "'h copy_state" and infos r
    by (simp add: same_code_def interned_ok_def)
  have new: "keeps R st (case alloc 0 st of (dup, st1) \<Rightarrow> cbind (f dup (st1\<lparr>cs_prop_infos := infos dup st1, cs_resolve := r dup st1\<rparr>)) (\<lambda>st2. Copied (dup, st2)))"
    if "\<And>dup st. keeps_state R st (f dup st)" for f infos r and st :: "'h copy_state"
  proof (intro keeps_pair conjI)
    fix dup st1 assume "alloc 0 st = (dup, st1)"
    then show "R st st1" by (rule code [OF same_code_alloc])
    show "keeps R st1 (cbind (f dup (st1\<lparr>cs_prop_infos := infos dup st1, cs_resolve := r dup st1\<rparr>)) (\<lambda>st2. Copied (dup, st2)))"
      by (rule keeps_from [OF code [OF s]], rule keeps_state_bind_to [OF that], rule keeps_ret, rule refl)
  qed
  show ?case
    unfolding copy_property_info.simps
    by (auto split: option.split intro!: keeps_ret new keeps_info_parts [OF Suc.IH])
qed simp

lemma keeps_property:
  assumes "\<And>c x. K c (c\<lparr>cl_properties_info := x\<rparr>)"
  shows "keeps_state R st (prepare_class_property n X comments c p ki st)"
  unfolding prepare_class_property_def
  by (cases ki) (auto intro!: class_intros keeps_info assms split: option.splits dest: same_code_new_string)

lemma keeps_defaults: "keeps R st (copy_defaults n X vs st)"
proof (induction vs arbitrary: st)
  case (Cons v vs)
  have "keeps R st (if refcounted v then copy_value n X v st else Copied (Some v, st))" for st
    by (simp add: keeps_value keeps_ret)
  with Cons show ?case by (auto intro!: keeps_bind keeps_ret split: option.splits)
qed (simp add: keeps_ret)

lemma keeps_read: "(\<And>x. keeps_state R st (f x)) \<Longrightarrow> keeps_state R st (cbind m f)"
  by (cases m) auto

lemma keeps_info_table:
  assumes "\<And>c x. K c (c\<lparr>cl_properties_info_table := x\<rparr>)"
  shows "keeps_state R st (property_info_table X count p st)"
  unfolding property_info_table_def by (auto intro!: keeps_upd_class keeps_read assms split: option.splits)

lemma keeps_property_table:
  assumes "\<And>c x. K c (c\<lparr>cl_properties_info := x\<rparr>)" "\<And>c x. K c (c\<lparr>cl_default_properties := x\<rparr>)" "\<And>c x. K c (c\<lparr>cl_properties_info_table := x\<rparr>)"
  shows "keeps_state R st (prepare_class_property_table n X comments c ca p st)"
  unfolding prepare_class_property_table_def
  by (auto intro!: class_intros keeps_each keeps_property keeps_defaults keeps_info_table assms)

lemma keeps_late_bindings:
  assumes "\<And>c x. K c (c\<lparr>cl_properties_info := x\<rparr>)" "\<And>c x. K c (c\<lparr>cl_default_properties := x\<rparr>)" "\<And>c x. K c (c\<lparr>cl_properties_info_table := x\<rparr>)"
    "\<And>c x. K c (c\<lparr>cl_static_members := x\<rparr>)" "\<And>c x. K c (c\<lparr>cl_constants := x\<rparr>)"
  shows "keeps_state R st (pmmpthread_prepared_entry_late_bindings n X comments c ca p st)"
  unfolding pmmpthread_prepared_entry_late_bindings_def
  by (auto intro!: keeps_state_bind keeps_ret_state keeps_property_table keeps_statics_table keeps_constants assms)

lemma keeps_traits:
  assumes "\<And>c x y z. K c (c\<lparr>cl_trait_names := x, cl_trait_aliases := y, cl_trait_precedences := z\<rparr>)"
  shows "keeps_state R st (prepare_class_traits ca p st)"
  unfolding prepare_class_traits_def
  by (auto intro!: keeps_pair_state code keeps_upd_class assms intro: same_code_lists)

lemma keeps_interfaces: "keeps R st (prepare_interfaces X is st)"
  by (induction "is" arbitrary: st) (auto intro!: keeps_intros)

lemma keeps_parent:
  assumes "\<And>c x. K c (c\<lparr>cl_parent := x\<rparr>)"
  shows "keeps_state R st (complete_parent X ca p st)"
  unfolding complete_parent_def
  by (auto intro!: class_intros prepares assms split: option.splits class_parent.splits dest: same_code_copy_string)

lemma keeps_class_interfaces:
  assumes "\<And>c x. K c (c\<lparr>cl_interfaces := x\<rparr>)"
  shows "keeps_state R st (complete_interfaces X ca p st)"
  unfolding complete_interfaces_def
  by (auto intro!: class_intros keeps_interfaces assms split: class_interfaces.splits intro: same_code_lists)

text \<open>Completing an entry, after the flags.\<close>

lemma keeps_rest_of_entry:
  assumes "\<And>c x. K c (c\<lparr>cl_parent := x\<rparr>)" "\<And>c x. K c (c\<lparr>cl_interfaces := x\<rparr>)"
    "\<And>c x y z. K c (c\<lparr>cl_trait_names := x, cl_trait_aliases := y, cl_trait_precedences := z\<rparr>)"
    "\<And>c. K c (prepare_class_handlers ca c)" "\<And>c x. K c (c\<lparr>cl_function_table := x\<rparr>)" "\<And>c. K c (prepare_class_interceptors ca c)"
  shows "keeps_state R st (cbind (complete_parent X ca p st) (\<lambda>st2.
     cbind (complete_interfaces X ca p st2) (\<lambda>st3.
     cbind (prepare_class_traits ca p st3) (\<lambda>st4.
     cbind (upd_class p (prepare_class_handlers ca) st4) (\<lambda>st5.
     cbind (prepare_class_function_table n X ca p st5) (\<lambda>st6.
     upd_class p (prepare_class_interceptors ca) st6))))))"
  by (auto intro!: keeps_state_bind keeps_parent keeps_class_interfaces keeps_traits keeps_function_table keeps_upd_class assms)

lemma keeps_backed: "keeps R st (prepare_backed_enum_table n X es st)"
proof (induction es arbitrary: st)
  case (Cons e es)
  then show ?case
    by (cases e) (auto intro!: class_intros split: option.splits dest: same_code_key)
qed (simp add: keeps_ret)

end

end
