(* ===== verification/Class_Tables.thy ===== *)
theory Class_Tables
  imports Prepare_Frame
begin

text \<open>
  How the classes of a thread may change while classes are prepared. \<open>class_wf\<close> is the invariant of the class table, \<open>class_rel\<close> relates the states
  before and after a step: it is shown for every step of the preparation, once for all through the locales \<open>copy_frame\<close> and \<open>class_frame\<close>,
  and for the creation of a class to any depth.
\<close>

section \<open>Well-formed class tables\<close>

text \<open>
  An anonymous class that is not linked is unfinished: it may still be completed. An immutable class of the creator that is unfinished cannot be
  completed and is replaced in the class table when the linked class comes; no other entry of the table is replaced. The own
  classes of a thread are at addresses of its own, and the class table has a name once and leads from the lower-case name of a class to the class.
\<close>

definition finished :: "class_entry \<Rightarrow> bool" where
  "finished c \<longleftrightarrow> \<not> (cl_anon c \<and> \<not> cl_linked c)"

definition settled :: "class_entry \<Rightarrow> bool" where
  "settled c \<longleftrightarrow> finished c \<or> \<not> cl_immutable c"

definition replaceable :: "'h prep_env \<Rightarrow> addr \<Rightarrow> bool" where
  "replaceable E a \<longleftrightarrow> (case ce_classes (pe_copy E) a of None \<Rightarrow> False | Some c \<Rightarrow> \<not> settled c)"

definition class_wf :: "'h prep_env \<Rightarrow> 'h copy_state \<Rightarrow> bool" where
  "class_wf E st \<longleftrightarrow> interned_ok st \<and> distinct (map fst (cs_class_table st)) \<and>
     (\<forall>a c. cs_classes st a = Some c \<longrightarrow> a < cs_next st \<and> settled c \<and>
        (cl_immutable c \<longrightarrow> (\<exists>b. map_of (cs_class_table st) (zend_string_tolower (zs_val (cl_name c))) = Some b \<and> \<not> replaceable E b))) \<and>
     (\<forall>a. ce_classes (pe_copy E) a \<noteq> None \<longrightarrow> a < cs_next st \<and> cs_classes st a = None) \<and>
     (\<forall>s a. map_of (cs_class_table st) s = Some a \<longrightarrow>
        (\<exists>c. class_at (pe_copy E) st a = Some c \<and> zend_string_tolower (zs_val (cl_name c)) = s))"

lemma class_wfD:
  assumes "class_wf E st"
  shows "interned_ok st" "distinct (map fst (cs_class_table st))"
    "cs_classes st a = Some c \<Longrightarrow> a < cs_next st \<and> settled c"
    "cs_classes st a = Some c \<Longrightarrow> cl_immutable c \<Longrightarrow>
      \<exists>b. map_of (cs_class_table st) (zend_string_tolower (zs_val (cl_name c))) = Some b \<and> \<not> replaceable E b"
    "ce_classes (pe_copy E) a = Some c \<Longrightarrow> a < cs_next st \<and> cs_classes st a = None"
    "map_of (cs_class_table st) s = Some a \<Longrightarrow>
      \<exists>c. class_at (pe_copy E) st a = Some c \<and> zend_string_tolower (zs_val (cl_name c)) = s"
  using assms unfolding class_wf_def by blast+

lemma own_not_replaceable: "class_wf E st \<Longrightarrow> cs_classes st a = Some c \<Longrightarrow> \<not> replaceable E a"
  using class_wfD(5) [of E st a] by (auto simp: replaceable_def split: option.splits)

text \<open>A class that is immutable and unfinished is one of the creator.\<close>

lemma unsettled_replaceable: "class_wf E st \<Longrightarrow> class_at (pe_copy E) st a = Some c \<Longrightarrow> \<not> settled c \<Longrightarrow> replaceable E a"
  using class_wfD(3) [of E st a] by (auto simp: class_at_def replaceable_def split: option.splits)

lemma replaceable_at: "class_wf E st \<Longrightarrow> class_at (pe_copy E) st a = Some c \<Longrightarrow> replaceable E a \<longleftrightarrow> \<not> settled c"
  using unsettled_replaceable [of E st a c] class_wfD(3,5) [of E st a] by (auto simp: class_at_def replaceable_def split: option.splits)

definition registered :: "'h copy_state \<Rightarrow> addr \<Rightarrow> bool" where
  "registered st a \<longleftrightarrow> a \<in> snd ` set (cs_class_table st)"

text \<open>What no update of a class entry changes but the one that copies the flags.\<close>

definition same_kind :: "class_entry \<Rightarrow> class_entry \<Rightarrow> bool" where
  "same_kind c c' \<longleftrightarrow> cl_name c' = cl_name c \<and> cl_internal c' = cl_internal c \<and> cl_linked c' = cl_linked c \<and> cl_anon c' = cl_anon c \<and>
     cl_immutable c' = cl_immutable c \<and> cl_preloaded c' = cl_preloaded c \<and> cl_enum c' = cl_enum c"

text \<open>
  \<open>class_rel E P\<close>: how the classes of a well-formed state may change. Names stay registered, for the same class unless it may be replaced; classes stay and
  keep their names. A class that is
  finished or not registered yet keeps its kind, and is not changed at all if it is not in \<open>P\<close>.
\<close>

definition later_class :: "class_entry \<Rightarrow> class_entry \<Rightarrow> bool" where
  "later_class c c' \<longleftrightarrow> cl_name c' = cl_name c \<and> (cl_linked c \<longrightarrow> cl_linked c') \<and> (finished c \<longrightarrow> finished c')"

definition class_step :: "addr set \<Rightarrow> 'h copy_state \<Rightarrow> 'h copy_state \<Rightarrow> addr \<Rightarrow> class_entry \<Rightarrow> class_entry \<Rightarrow> bool" where
  "class_step P st st' a c c' \<longleftrightarrow> later_class c c' \<and> (finished c \<or> \<not> registered st a \<longrightarrow> same_kind c c' \<and> (a \<notin> P \<longrightarrow> c' = c)) \<and>
     (\<not> registered st a \<longrightarrow> \<not> registered st' a)"

definition class_rel :: "'h prep_env \<Rightarrow> addr set \<Rightarrow> 'h copy_state \<Rightarrow> 'h copy_state \<Rightarrow> bool" where
  "class_rel E P st st' \<longleftrightarrow> (class_wf E st \<longrightarrow>
     class_wf E st' \<and> cs_next st \<le> cs_next st' \<and> cs_function_table st' = cs_function_table st \<and>
     (\<forall>s a. map_of (cs_class_table st) s = Some a \<longrightarrow>
        map_of (cs_class_table st') s = Some a \<or> replaceable E a \<and> map_of (cs_class_table st') s \<noteq> None) \<and>
     (\<forall>a c. cs_classes st a = Some c \<longrightarrow> (\<exists>c'. cs_classes st' a = Some c' \<and> class_step P st st' a c c')))"

lemma same_kind_refl [simp]: "same_kind c c"
  by (simp add: same_kind_def)

lemma same_kind_trans: "same_kind a b \<Longrightarrow> same_kind b c \<Longrightarrow> same_kind a c"
  by (simp add: same_kind_def)

lemma same_kind_finished: "same_kind c c' \<Longrightarrow> finished c' = finished c" "same_kind c c' \<Longrightarrow> settled c' = settled c"
  by (simp_all add: same_kind_def finished_def settled_def)

lemma same_kind_later: "same_kind c c' \<Longrightarrow> later_class c c'"
  by (simp add: same_kind_def later_class_def finished_def)

lemma class_step_trans:
  assumes "class_step P st st1 a c c1" "class_step P st1 st2 a c1 c2"
  shows "class_step P st st2 a c c2"
proof -
  have l: "later_class c c2" using assms by (auto simp: class_step_def later_class_def)
  have "same_kind c c2 \<and> (a \<notin> P \<longrightarrow> c2 = c)" if h: "finished c \<or> \<not> registered st a"
  proof -
    have "finished c1 \<or> \<not> registered st1 a" "same_kind c c1" "a \<notin> P \<longrightarrow> c1 = c"
      using assms(1) h by (auto simp: class_step_def later_class_def)
    then show ?thesis using assms(2) same_kind_trans by (auto simp: class_step_def)
  qed
  with l assms show ?thesis by (auto simp: class_step_def)
qed

lemma class_relD:
  assumes "class_rel E P st st'" "class_wf E st"
  shows "class_wf E st'" "cs_next st \<le> cs_next st'" "cs_function_table st' = cs_function_table st"
    "map_of (cs_class_table st) s = Some a \<Longrightarrow>
      map_of (cs_class_table st') s = Some a \<or> replaceable E a \<and> map_of (cs_class_table st') s \<noteq> None"
    "cs_classes st a = Some c \<Longrightarrow> \<exists>c'. cs_classes st' a = Some c' \<and> class_step P st st' a c c'"
  using assms unfolding class_rel_def by blast+

lemma class_names_trans:
  assumes "x = Some a \<or> replaceable E a \<and> x \<noteq> None" "\<And>b. x = Some b \<Longrightarrow> y = Some b \<or> replaceable E b \<and> y \<noteq> None"
  shows "y = Some a \<or> replaceable E a \<and> y \<noteq> None"
  using assms by (cases x) auto

lemma class_rel_trans:
  assumes "class_rel E P st st1" "class_rel E P st1 st2"
  shows "class_rel E P st st2"
proof (cases "class_wf E st")
  case True
  note d = class_relD [OF assms(1) True]
  note e = class_relD [OF assms(2) d(1)]
  have "\<exists>c2. cs_classes st2 a = Some c2 \<and> class_step P st st2 a c c2" if "cs_classes st a = Some c" for a c
    using d(5) [OF that] e(5) class_step_trans by blast
  moreover have "map_of (cs_class_table st2) s = Some a \<or> replaceable E a \<and> map_of (cs_class_table st2) s \<noteq> None"
    if "map_of (cs_class_table st) s = Some a" for s a
    using class_names_trans [OF d(4) [OF that] e(4)] .
  ultimately show ?thesis using d(2,3) e(1-3) by (simp add: class_rel_def)
qed (simp add: class_rel_def)

lemma class_step_refl [simp]: "cs_class_table st' = cs_class_table st \<Longrightarrow> class_step P st st' a c c"
  by (simp add: class_step_def same_kind_later registered_def)

lemma class_rel_code: "same_code st st' \<Longrightarrow> class_rel E P st st'"
  unfolding class_rel_def class_wf_def class_at_def same_code_def by (fastforce intro: class_step_refl)

lemma class_rel_weaken: "class_rel E Q st st' \<Longrightarrow> Q \<subseteq> P \<Longrightarrow> class_rel E P st st'"
  unfolding class_rel_def class_step_def by (meson subsetD)

lemma class_rel_put:
  assumes "cs_classes st p = Some c" "cl_name c' = cl_name c" "settled c \<Longrightarrow> settled c'" "cl_immutable c' \<Longrightarrow> cl_immutable c \<or> registered st p"
    and "later_class c c'" "finished c \<or> \<not> registered st p \<Longrightarrow> same_kind c c'"
  shows "class_rel E {p} st (st\<lparr>cs_classes := (cs_classes st)(p \<mapsto> c')\<rparr>)"
proof -
  let ?st = "st\<lparr>cs_classes := (cs_classes st)(p \<mapsto> c')\<rparr>"
  have "class_wf E ?st" if w: "class_wf E st"
  proof -
    have n: "zend_string_tolower (zs_val (cl_name c)) = s" if "map_of (cs_class_table st) s = Some p" for s
      using w assms(1) that by (fastforce simp: class_wf_def class_at_def)
    have "\<exists>b. map_of (cs_class_table st) (zend_string_tolower (zs_val (cl_name c'))) = Some b \<and> \<not> replaceable E b" if "cl_immutable c'"
    proof (cases "registered st p")
      case True
      then obtain s where "map_of (cs_class_table st) s = Some p" using w by (auto simp: registered_def class_wf_def)
      then show ?thesis using n assms(2) own_not_replaceable [OF w assms(1)] by auto
    next
      case False
      then show ?thesis using class_wfD(4) [OF w assms(1)] assms(2,4) that by auto
    qed
    then show ?thesis
      using w n assms(1-3) unfolding class_wf_def by (auto simp: class_at_def interned_ok_def)
  qed
  moreover have "class_step {p} st ?st p c c'"
    using assms(5,6) by (auto simp: class_step_def registered_def)
  ultimately show ?thesis
    using assms(1) unfolding class_rel_def by (auto simp: registered_def)
qed

lemma class_rel_update:
  assumes "cs_classes st p = Some c" "same_kind c c'"
  shows "class_rel E {p} st (st\<lparr>cs_classes := (cs_classes st)(p \<mapsto> c')\<rparr>)"
  using assms same_kind_finished(2) [OF assms(2)] by (intro class_rel_put) (auto simp: same_kind_def intro: same_kind_later [unfolded same_kind_def])

text \<open>
  \<open>class_rel_on\<close> also follows the entry of \<open>p\<close>: it changes along \<open>K\<close> while it is finished or not registered. Preparing other classes does not touch it.
\<close>

definition class_rel_on :: "'h prep_env \<Rightarrow> addr \<Rightarrow> (class_entry \<Rightarrow> class_entry \<Rightarrow> bool) \<Rightarrow> 'h copy_state \<Rightarrow> 'h copy_state \<Rightarrow> bool" where
  "class_rel_on E p K st st' \<longleftrightarrow> class_rel E {p} st st' \<and>
     (\<forall>c. class_wf E st \<and> cs_classes st p = Some c \<and> (finished c \<or> \<not> registered st p) \<longrightarrow> (\<exists>c'. cs_classes st' p = Some c' \<and> K c c'))"

lemma class_rel_onD: "class_rel_on E p K st st' \<Longrightarrow> class_rel E {p} st st'"
  by (simp add: class_rel_on_def)

definition entry_relation :: "(class_entry \<Rightarrow> class_entry \<Rightarrow> bool) \<Rightarrow> bool" where
  "entry_relation K \<longleftrightarrow> (\<forall>c. K c c) \<and> (\<forall>a b c. K a b \<longrightarrow> K b c \<longrightarrow> K a c) \<and> (\<forall>a b. K a b \<longrightarrow> same_kind a b)"

lemma class_rel_on_unchanged: "entry_relation K \<Longrightarrow> class_rel E {} st st' \<Longrightarrow> class_rel_on E p K st st'"
  using class_relD(5) [of E "{}" st st' p] class_rel_weaken [of E "{}" st st' "{p}"]
  by (auto simp: class_rel_on_def class_step_def entry_relation_def)

lemma class_rel_on_code: "entry_relation K \<Longrightarrow> same_code st st' \<Longrightarrow> class_rel_on E p K st st'"
  by (simp add: class_rel_on_unchanged class_rel_code)

lemma class_rel_on_trans:
  assumes K: "entry_relation K" and "class_rel_on E p K st st1" "class_rel_on E p K st1 st2"
  shows "class_rel_on E p K st st2"
proof -
  have "\<exists>c'. cs_classes st2 p = Some c' \<and> K c c'"
    if w: "class_wf E st" and c: "cs_classes st p = Some c" and f: "finished c \<or> \<not> registered st p" for c
  proof -
    note d = class_relD [OF class_rel_onD [OF assms(2)] w]
    obtain c1 where c1: "cs_classes st1 p = Some c1" "K c c1" using assms(2) w c f unfolding class_rel_on_def by blast
    have "class_step {p} st st1 p c c1" using d(5) [OF c] c1(1) by auto
    then have "finished c1 \<or> \<not> registered st1 p" using f by (auto simp: class_step_def later_class_def)
    then obtain c2 where "cs_classes st2 p = Some c2" "K c1 c2" using assms(3) d(1) c1(1) unfolding class_rel_on_def by blast
    with c1 K show ?thesis unfolding entry_relation_def by blast
  qed
  then show ?thesis
    using class_rel_trans [OF assms(2,3) [THEN class_rel_onD]] unfolding class_rel_on_def by blast
qed

lemma class_rel_on_frame:
  assumes K: "entry_relation K" and X: "\<And>c st. keeps (class_rel E {}) st (ce_class X c st)"
  shows "class_frame (class_rel_on E p K) X p K"
proof
  show "keeps (class_rel_on E p K) st (ce_class X c st)" for c st
    using X [of st c] class_rel_on_unchanged [OF K] unfolding keeps_def by blast
  show "class_rel_on E p K st (st\<lparr>cs_classes := (cs_classes st)(p \<mapsto> c')\<rparr>)" if "cs_classes st p = Some c" "K c c'" for st c c'
    using class_rel_update [OF that(1)] that K unfolding class_rel_on_def entry_relation_def by simp
qed (auto intro: class_rel_on_code [OF K] class_rel_on_trans [OF K])

lemma same_kind_relation: "entry_relation same_kind"
  by (auto simp: entry_relation_def same_kind_def)

lemmas class_rel_frame = class_rel_on_frame [OF same_kind_relation]

section \<open>Creating classes keeps the others\<close>

lemma class_rel_exempt:
  assumes "class_rel E {p} st st'" and "\<And>c. cs_classes st p = Some c \<Longrightarrow> \<not> finished c \<and> registered st p"
  shows "class_rel E {} st st'"
  using assms unfolding class_rel_def class_step_def by (metis insertE emptyE)

lemma table_update_None: "map_of t k = None \<Longrightarrow> table_update k x t = t @ [(k, x)]"
  by (induction t) (auto split: if_splits)

lemma map_of_table_update: "map_of (table_update k x t) s = (if s = k then Some x else map_of t s)"
  by (induction t) auto

lemma set_table_update: "snd ` set (table_update k x t) \<subseteq> insert x (snd ` set t)"
  by (induction k x t rule: table_update.induct) auto

lemma table_update_keys: "map fst (table_update k x t) = (if k \<in> fst ` set t then map fst t else map fst t @ [k])"
  by (induction k x t rule: table_update.induct) (auto simp: image_iff)

lemma distinct_table_update: "distinct (map fst t) \<Longrightarrow> distinct (map fst (table_update k x t))"
  by (simp add: table_update_keys)

text \<open>Registering a class under a name that was free at the start, or led to a class that may be replaced.\<close>

lemma class_wf_register:
  assumes w: "class_wf E st" "class_wf E st1" and s: "\<And>a. map_of (cs_class_table st) s = Some a \<Longrightarrow> replaceable E a"
    and p: "class_at (pe_copy E) st1 p = Some c" "zend_string_tolower (zs_val (cl_name c)) = s" "replaceable E p \<Longrightarrow> same_code st st1"
  shows "class_wf E (register_class s p st1)"
proof -
  let ?st = "register_class s p st1"
  have "\<exists>b. map_of (cs_class_table ?st) (zend_string_tolower (zs_val (cl_name d))) = Some b \<and> \<not> replaceable E b"
    if d: "cs_classes st1 a = Some d" "cl_immutable d" for a d
  proof (cases "zend_string_tolower (zs_val (cl_name d)) = s \<and> replaceable E p")
    case True
    then have "cs_classes st a = Some d" using d(1) p(3) by (simp add: same_code_def)
    then show ?thesis using class_wfD(4) [OF w(1) _ d(2)] s True by blast
  next
    case False
    then show ?thesis using class_wfD(4) [OF w(2) d] by (auto simp: register_class_def map_of_table_update)
  qed
  then show ?thesis
    using w(2) p(1,2) unfolding class_wf_def register_class_def
    by (auto simp: map_of_table_update class_at_def interned_ok_def distinct_table_update)
qed

lemma class_rel_register:
  assumes "class_rel E {} st st1" "\<And>a. map_of (cs_class_table st) s = Some a \<Longrightarrow> replaceable E a" "class_at (pe_copy E) st1 p = Some c"
    and "zend_string_tolower (zs_val (cl_name c)) = s" "replaceable E p \<Longrightarrow> same_code st st1" "cs_classes st p = None"
  shows "class_rel E {} st (register_class s p st1)"
proof (cases "class_wf E st")
  case True
  note d = class_relD [OF assms(1) True]
  let ?st = "register_class s p st1"
  have w: "class_wf E ?st" by (rule class_wf_register [OF True d(1) assms(2-5)])
  have "class_step {} st ?st a c c'" if "class_step {} st st1 a c c'" "cs_classes st a = Some c" for a c c'
  proof -
    have "a \<noteq> p" using that(2) assms(6) by auto
    then show ?thesis using that(1) set_table_update [of s p "cs_class_table st1"] by (auto simp: class_step_def registered_def register_class_def)
  qed
  then have "\<exists>c'. cs_classes ?st a = Some c' \<and> class_step {} st ?st a c c'" if "cs_classes st a = Some c" for a c
    using d(5) [OF that] that by (auto simp: register_class_def)
  moreover have "map_of (cs_class_table ?st) k = Some a \<or> replaceable E a \<and> map_of (cs_class_table ?st) k \<noteq> None"
    if "map_of (cs_class_table st) k = Some a" for k a
    using d(4) [OF that] assms(2) that by (auto simp: register_class_def map_of_table_update)
  ultimately show ?thesis
    using w d(2,3) by (simp add: class_rel_def register_class_def)
qed (simp add: class_rel_def)

text \<open>Steps on a class that did not exist at the start.\<close>

lemma class_rel_fresh:
  assumes "class_rel E {} st st1" "class_rel E {p} st1 st2" "cs_classes st p = None"
  shows "class_rel E {} st st2"
proof (cases "class_wf E st")
  case True
  note d = class_relD [OF assms(1) True]
  note e = class_relD [OF assms(2) d(1)]
  have "\<exists>c2. cs_classes st2 a = Some c2 \<and> class_step {} st st2 a c c2" if h: "cs_classes st a = Some c" for a c
  proof -
    have p: "a \<noteq> p" using h assms(3) by auto
    obtain c1 where c1: "cs_classes st1 a = Some c1" "class_step {} st st1 a c c1" using d(5) [OF h] by auto
    obtain c2 where c2: "cs_classes st2 a = Some c2" "class_step {p} st1 st2 a c1 c2" using e(5) [OF c1(1)] by auto
    have "class_step {} st1 st2 a c1 c2" using c2(2) p by (simp add: class_step_def)
    with c1 c2 show ?thesis using class_step_trans by blast
  qed
  moreover have "map_of (cs_class_table st2) s = Some a \<or> replaceable E a \<and> map_of (cs_class_table st2) s \<noteq> None"
    if "map_of (cs_class_table st) s = Some a" for s a
    using class_names_trans [OF d(4) [OF that] e(4)] .
  ultimately show ?thesis using d(2,3) e(1-3) by (simp add: class_rel_def)
qed (simp add: class_rel_def)

text \<open>A new class entry.\<close>

lemma class_wf_fresh:
  assumes "class_wf E st" "cs_next st \<le> p"
  shows "cs_classes st p = None" "ce_classes (pe_copy E) p = None" "\<not> registered st p"
proof -
  show n: "cs_classes st p = None" "ce_classes (pe_copy E) p = None"
    using assms class_wfD(3,5) [OF assms(1), of p] by (meson leD not_Some_eq)+
  have "map_of (cs_class_table st) k \<noteq> Some p" for k
    using class_wfD(6) [OF assms(1), of k p] n by (auto simp: class_at_def)
  then show "\<not> registered st p" using class_wfD(2) [OF assms(1)] by (auto simp: registered_def)
qed

lemma class_rel_new:
  assumes "cs_next st \<le> p" "p < cs_next st1" "same_code st st1" "\<not> cl_immutable c"
  shows "class_rel E {} st (st1\<lparr>cs_classes := (cs_classes st1)(p \<mapsto> c)\<rparr>)"
proof (cases "class_wf E st")
  case True
  let ?st = "st1\<lparr>cs_classes := (cs_classes st1)(p \<mapsto> c)\<rparr>"
  note n = class_wf_fresh [OF True assms(1)]
  have "\<exists>e. class_at (pe_copy E) ?st a = Some e \<and> zend_string_tolower (zs_val (cl_name e)) = s"
    if h: "map_of (cs_class_table st) s = Some a" for s a
  proof -
    obtain e where e: "class_at (pe_copy E) st a = Some e" "zend_string_tolower (zs_val (cl_name e)) = s"
      using True h unfolding class_wf_def by blast
    then have "a \<noteq> p" using n by (auto simp: class_at_def)
    then show ?thesis using e assms(3) by (simp add: class_at_def same_code_def)
  qed
  moreover have "a < cs_next st1 \<and> settled e \<and>
      (cl_immutable e \<longrightarrow> (\<exists>b. map_of (cs_class_table st) (zend_string_tolower (zs_val (cl_name e))) = Some b \<and> \<not> replaceable E b))"
    if "cs_classes ?st a = Some e" for a e
  proof (cases "a = p")
    case False
    then have "cs_classes st a = Some e" using assms(3) that by (simp add: same_code_def)
    then have "a < cs_next st" "settled e"
      "cl_immutable e \<longrightarrow> (\<exists>b. map_of (cs_class_table st) (zend_string_tolower (zs_val (cl_name e))) = Some b \<and> \<not> replaceable E b)"
      using class_wfD(3,4) [OF True] by blast+
    moreover have "a < cs_next st1" using calculation(1) assms(1,2) by linarith
    ultimately show ?thesis by blast
  qed (use that assms in \<open>simp add: settled_def\<close>)
  moreover have "a < cs_next st1 \<and> cs_classes ?st a = None" if "ce_classes (pe_copy E) a \<noteq> None" for a
  proof -
    have "a < cs_next st \<and> cs_classes st a = None" "a \<noteq> p" using True that n by (auto simp: class_wf_def)
    then show ?thesis using assms(1-3) by (simp add: same_code_def)
  qed
  ultimately have w: "class_wf E ?st"
    using True assms(3) unfolding class_wf_def same_code_def by (simp add: interned_ok_def)
  have "\<exists>c'. cs_classes ?st a = Some c' \<and> class_step {} st ?st a e c'" if "cs_classes st a = Some e" for a e
    using that n(1) assms(3) by (auto simp: same_code_def)
  then show ?thesis
    using w assms(3) n(1) by (auto simp: class_rel_def same_code_def)
qed (simp add: class_rel_def)

definition same_flags :: "class_entry \<Rightarrow> class_entry \<Rightarrow> bool" where
  "same_flags ca c \<longleftrightarrow> cl_linked c = cl_linked ca \<and> cl_anon c = cl_anon ca \<and> cl_immutable c = cl_immutable ca \<and>
     cl_preloaded c = cl_preloaded ca \<and> cl_enum c = cl_enum ca"

lemma same_flags_finished: "same_flags ca c \<Longrightarrow> finished c = finished ca" "same_flags ca c \<Longrightarrow> settled c = settled ca"
  by (simp_all add: same_flags_def finished_def settled_def)

lemma same_flags_kind: "same_flags ca c \<Longrightarrow> same_kind c c' \<Longrightarrow> same_flags ca c'"
  by (simp add: same_flags_def same_kind_def)

lemma copy_flags_same: "same_flags ca c \<Longrightarrow> copy_ce_flags ca c = c"
  by (simp add: same_flags_def copy_ce_flags_def)

text \<open>Completing a class that is the same kind already, or one that is unfinished and registered.\<close>

lemma complete_entry_rel:
  assumes X: "\<And>c st. keeps (class_rel E {}) st (ce_class X c st)" and c: "cs_classes st p = Some c"
    and f: "same_flags ca c \<or> newly_linked ca c \<and> registered st p" and r: "pmmpthread_complete_entry n X ca p st = Copied st'"
  shows "class_rel E {p} st st'"
proof -
  note fr = class_rel_frame [OF X, of p]
  let ?st = "st\<lparr>cs_classes := (cs_classes st)(p \<mapsto> copy_ce_flags ca c)\<rparr>"
  have 1: "class_rel E {p} st ?st"
  proof (cases "same_flags ca c")
    case True
    show ?thesis unfolding copy_flags_same [OF True] by (rule class_rel_update [OF c]) simp
  next
    case False
    then have "newly_linked ca c" "registered st p" using f by auto
    then show ?thesis
      by (intro class_rel_put [OF c]) (auto simp: copy_ce_flags_def newly_linked_def settled_def finished_def later_class_def)
  qed
  have 2: "keeps_state (class_rel_on E p same_kind) ?st (pmmpthread_complete_entry n X ca p st)"
    using class_frame.keeps_rest_of_entry [OF fr, of ca ?st n] c
    by (simp add: pmmpthread_complete_entry_def upd_class_def same_kind_def prepare_class_interceptors_def prepare_class_handlers_def)
  show ?thesis using class_rel_trans [OF 1 class_rel_onD [OF keeps_stateD [OF 2 r]]] .
qed

text \<open>
  The copy of a class entry: a new class of the same name and flags, not registered yet, gets its attributes, backed enum table and file name and is
  completed.
\<close>

lemma copy_entry_steps:
  assumes X: "\<And>c st. keeps (class_rel E {}) st (ce_class X c st)" and w: "class_wf E st" and ca: "\<not> cl_immutable ca"
    and r: "pmmpthread_copy_entry n X comments ca st = Copied (p, st')"
  shows "\<exists>entry st3 st8. p = cs_next st \<and> class_rel E {} st st3 \<and> cs_classes st3 p = Some entry \<and> \<not> registered st3 p \<and>
    same_flags ca entry \<and> cl_internal entry = cl_internal ca \<and> zs_val (cl_name entry) = zs_val (cl_name ca) \<and>
    cl_function_table entry = [] \<and> cl_constants entry = [] \<and>
    (\<forall>K. entry_relation K \<and> (\<forall>c x. K c (c\<lparr>cl_attributes := x\<rparr>)) \<and> (\<forall>c x y. K c (c\<lparr>cl_backed_enum_table := x, cl_filename := y\<rparr>)) \<longrightarrow>
       class_rel_on E p K st3 st8) \<and>
    pmmpthread_complete_entry n X ca p st8 = Copied st'"
proof -
  obtain st1 where 0: "alloc 0 st = (cs_next st, st1)" by (simp add: alloc_def)
  obtain name st2 where 2: "pmmpthread_copy_string (cl_name ca) st1 = (name, st2)" by fastforce
  obtain doc st3 where 3: "(if comments then copy_opt_string (cl_doc ca) st2 else (None, st2)) = (doc, st3)" by fastforce
  define entry where "entry = copy_ce_flags ca (zend_initialize_class_data name (cl_internal ca))
    \<lparr>cl_filename := cl_filename ca, cl_doc := doc, cl_num_hooked := cl_num_hooked ca, cl_enum_backing_type := cl_enum_backing_type ca\<rparr>"
  let ?st = "st3\<lparr>cs_classes := (cs_classes st3)(p \<mapsto> entry)\<rparr>"
  note body = r [unfolded pmmpthread_copy_entry_def 0 prod.case 2 3 Let_def, folded entry_def]
  have p: "p = cs_next st" using body by (auto simp: cbind_Copied case_prod_beta)
  note 1 = 0 [folded p]
  have i: "interned_ok st1" using w same_code_alloc [OF 1] by (simp add: class_wf_def same_code_def)
  have e: "same_flags ca entry" "cl_internal entry = cl_internal ca" "zs_val (cl_name entry) = zs_val (cl_name ca)"
    "cl_function_table entry = []" "cl_constants entry = []"
    using copy_string_ok(1) [OF 2 i] by (simp_all add: entry_def same_flags_def copy_ce_flags_def zend_initialize_class_data_def)
  have s: "same_code st st3"
    using same_code_alloc [OF 1] same_code_copy_string [OF 2] same_code_comment [OF 3] same_code_trans by blast
  have n: "p < cs_next st3"
    using 1 p same_code_copy_string [OF 2] same_code_comment [OF 3] by (auto simp: alloc_def same_code_def)
  have new: "class_rel E {} st ?st"
  proof (rule class_rel_new [OF _ n s])
    show "cs_next st \<le> p" by (simp add: p)
    show "\<not> cl_immutable entry" using e(1) ca by (simp add: same_flags_def)
  qed
  have u: "\<not> registered ?st p" using class_wf_fresh(3) [OF w, of p] p s by (simp add: registered_def same_code_def)
  obtain attributes st4 st5 table st6 st8 where b:
    "copy_opt (pmmpthread_copy_attributes X (closure_copier n X)) (cl_attributes ca) ?st = Copied (attributes, st4)"
    "upd_class p (\<lambda>c. c\<lparr>cl_attributes := attributes\<rparr>) st4 = Copied st5"
    "copy_opt (prepare_backed_enum_table n X) (cl_backed_enum_table ca) st5 = Copied (table, st6)"
    "upd_class p (\<lambda>c. c\<lparr>cl_backed_enum_table := table, cl_filename := fst (copy_opt_filename (cl_filename ca) st6)\<rparr>)
      (snd (copy_opt_filename (cl_filename ca) st6)) = Copied st8"
    "pmmpthread_complete_entry n X ca p st8 = Copied st'"
    using body [folded p] by (auto simp: cbind_Copied case_prod_beta)
  have "class_rel_on E p K ?st st8"
    if K: "entry_relation K" and allowed: "\<And>c x. K c (c\<lparr>cl_attributes := x\<rparr>)" "\<And>c x y. K c (c\<lparr>cl_backed_enum_table := x, cl_filename := y\<rparr>)" for K
  proof -
    note fr = class_rel_on_frame [OF K X, of p]
    note tr = class_rel_on_trans [OF K]
    have 4: "class_rel_on E p K ?st st4" by (rule keepsD [OF class_frame.keeps_class_attributes [OF fr] b(1)])
    have 5: "class_rel_on E p K st4 st5" by (rule keeps_stateD [OF class_frame.keeps_upd_class [OF fr] b(2)]) (rule allowed)
    have 6: "class_rel_on E p K st5 st6"
      by (rule keepsD [OF copy_frame.keeps_opt [OF class_frame.axioms(1) [OF fr] class_frame.keeps_backed [OF fr]] b(3)])
    have 7: "class_rel_on E p K st6 (snd (copy_opt_filename (cl_filename ca) st6))"
      by (rule class_rel_on_code [OF K same_code_opt_filename [OF prod.collapse [symmetric]]])
    have 8: "class_rel_on E p K (snd (copy_opt_filename (cl_filename ca) st6)) st8"
      by (rule keeps_stateD [OF class_frame.keeps_upd_class [OF fr] b(4)]) (rule allowed)
    show ?thesis by (rule tr [OF tr [OF tr [OF tr [OF 4 5] 6] 7] 8])
  qed
  then show ?thesis using p new u e b(5) by (intro exI [of _ entry] exI [of _ ?st] exI [of _ st8]) simp
qed

lemma copy_entry_rel:
  assumes X: "\<And>c st. keeps (class_rel E {}) st (ce_class X c st)" and w: "class_wf E st" and ca: "\<not> cl_immutable ca"
    and r: "pmmpthread_copy_entry n X comments ca st = Copied (p, st')"
  shows "p = cs_next st" "class_rel E {} st st'" "\<not> registered st' p"
    "\<exists>c. cs_classes st' p = Some c \<and> same_flags ca c \<and> cl_internal c = cl_internal ca \<and> zs_val (cl_name c) = zs_val (cl_name ca)"
proof -
  obtain entry st3 st8 where s: "p = cs_next st" "class_rel E {} st st3" "cs_classes st3 p = Some entry" "\<not> registered st3 p"
    "same_flags ca entry" "cl_internal entry = cl_internal ca" "zs_val (cl_name entry) = zs_val (cl_name ca)"
    "class_rel_on E p same_kind st3 st8" "pmmpthread_complete_entry n X ca p st8 = Copied st'"
    using copy_entry_steps [OF assms] same_kind_relation by (auto simp: same_kind_def)
  note w3 = class_relD(1) [OF s(2) w]
  obtain c where c: "cs_classes st8 p = Some c" "same_kind entry c" using s(3,4,8) w3 unfolding class_rel_on_def by blast
  have 6: "class_rel E {p} st3 st'"
    using class_rel_trans [OF class_rel_onD [OF s(8)] complete_entry_rel [OF X c(1) _ s(9)]] same_flags_kind [OF s(5) c(2)] by blast
  obtain c' where c': "cs_classes st' p = Some c'" "class_step {p} st3 st' p entry c'" using class_relD(5) [OF 6 w3 s(3)] by auto
  then have k': "same_kind entry c'" and u': "\<not> registered st' p" using s(4) by (auto simp: class_step_def)
  show "p = cs_next st" by (rule s(1))
  show "\<not> registered st' p" by (rule u')
  show "class_rel E {} st st'" using class_rel_fresh [OF s(2) 6] class_wf_fresh(1) [OF w, of p] s(1) by simp
  show "\<exists>c. cs_classes st' p = Some c \<and> same_flags ca c \<and> cl_internal c = cl_internal ca \<and> zs_val (cl_name c) = zs_val (cl_name ca)"
    using c'(1) k' s(6,7) same_flags_kind [OF s(5) k'] by (auto simp: same_kind_def)
qed

lemma class_at_env [simp]: "class_at (X\<lparr>ce_class := f\<rparr>) st a = class_at X st a"
  by (simp add: class_at_def split: option.split)

definition class_name :: "class_entry \<Rightarrow> string" where
  "class_name c = zend_string_tolower (zs_val (cl_name c))"

text \<open>The classes an immutable class depends on.\<close>

lemma dependencies_rel:
  assumes C: "\<And>c st. keeps R st (create c st)" and fr: "copy_frame R X"
  shows "keeps_state R st (pmmpthread_prepare_immutable_class_dependencies E create ca st)"
proof -
  have c: "keeps_state R st (cbind (create a st) (\<lambda>(_, st1). Copied st1))" for a st
    by (auto intro!: copy_frame.keeps_bind_to_state [OF fr] C copy_frame.keeps_ret_state [OF fr] simp: copy_frame.refl [OF fr])
  have t: "keeps_state R st (type_dependency E create name st)" for name st
    using c by (auto simp: type_dependency_def copy_frame.keeps_ret_state [OF fr] copy_frame.refl [OF fr] split: option.splits)
  have p: "keeps_state R st (property_dependencies E create ki st)" for ki st
    by (auto simp: property_dependencies_def intro!: copy_frame.keeps_each [OF fr] t split: option.splits)
  have "keeps_state R st (if cl_linked ca then each (\<lambda>a st. cbind (create a st) (\<lambda>(_, st1). Copied st1)) as st else Copied st)" for as st
    by (auto intro!: copy_frame.keeps_each [OF fr] c copy_frame.keeps_ret_state [OF fr] simp: copy_frame.refl [OF fr])
  then show ?thesis
    unfolding pmmpthread_prepare_immutable_class_dependencies_def
    by (rule copy_frame.keeps_state_bind [OF fr]) (rule copy_frame.keeps_each [OF fr p])
qed

lemma class_rel_copy_frame:
  assumes "\<And>c st. keeps (class_rel E {}) st (ce_class X c st)"
  shows "copy_frame (class_rel E {}) X"
  by standard (auto intro: class_rel_code class_rel_trans assms)

text \<open>
  A class that is not in the table yet, or is there as a class that may be replaced, is registered, and what is registered has the flags and the name of the
  class of the creator; a class that may be replaced itself may be gone again.
\<close>

definition prepared_as :: "'h prep_env \<Rightarrow> 'h copy_state \<Rightarrow> class_entry \<Rightarrow> addr \<Rightarrow> bool" where
  "prepared_as E st ca p \<longleftrightarrow>
     (map_of (cs_class_table st) (class_name ca) = Some p \<or> replaceable E p \<and> \<not> settled ca \<and> map_of (cs_class_table st) (class_name ca) \<noteq> None) \<and>
     (\<exists>e. class_at (pe_copy E) st p = Some e \<and> (finished ca \<longrightarrow> same_flags ca e))"

lemma late_bindings_rel:
  assumes X: "\<And>c st. keeps (class_rel E {}) st (ce_class X c st)"
    and "pmmpthread_prepared_entry_late_bindings n X comments c ca p st = Copied st'"
  shows "class_rel E {p} st st'"
  by (rule class_rel_onD, rule keeps_stateD [OF class_frame.keeps_late_bindings [OF class_rel_frame [OF X]] assms(2)])
    (simp_all add: same_kind_def)

lemma create_new_entry_rel:
  assumes X: "\<And>c st. keeps (class_rel E {}) st (ce_class X c st)" and C: "\<And>c st. keeps (class_rel E {}) st (create c st)"
    and w: "class_wf E st" and ca: "class_at (pe_copy E) st c = Some ca" "\<And>a. map_of (cs_class_table st) (class_name ca) = Some a \<Longrightarrow> replaceable E a"
    and r: "create_new_entry n E X create c ca late st = Copied (q, st')"
  shows "class_rel E {} st st' \<and> (\<exists>p. q = Some p \<and> prepared_as E st' ca p)"
proof (cases "cl_immutable ca")
  case True
  let ?st1 = "zend_map_ptr_extend (pe_map_ptr_last E) st"
  have own: "cs_classes st c = None" using class_wfD(4) [OF w, of c ca] ca True by (fastforce simp: class_at_def class_name_def split: option.splits)
  have s1: "same_code st ?st1" by (simp add: zend_map_ptr_extend_def)
  have c1: "class_at (pe_copy E) ?st1 c = Some ca" using ca(1) by (simp add: class_at_def zend_map_ptr_extend_def)
  have 1: "class_rel E {} st (register_class (class_name ca) c ?st1)"
    by (rule class_rel_register [OF class_rel_code [OF s1] ca(2) c1 _ s1 own]) (simp_all add: class_name_def)
  have d: "pmmpthread_prepare_immutable_class_dependencies E create ca (register_class (class_name ca) c ?st1) = Copied st'" "q = Some c"
    using r True by (auto simp: create_new_entry_def Let_def cbind_Copied pmmpthread_prepared_entry_late_bindings_def class_name_def split: if_splits)
  have 2: "class_rel E {} (register_class (class_name ca) c ?st1) st'"
    by (rule keeps_stateD [OF dependencies_rel [OF C class_rel_copy_frame [OF X]] d(1)])
  have 3: "class_rel E {} st st'" by (rule class_rel_trans [OF 1 2])
  have "map_of (cs_class_table st') (class_name ca) = Some c \<or> replaceable E c \<and> \<not> settled ca \<and> map_of (cs_class_table st') (class_name ca) \<noteq> None"
    using class_relD(4) [OF 2 class_relD(1) [OF 1 w], of "class_name ca" c] replaceable_at [OF w ca(1)]
    by (auto simp: register_class_def map_of_table_update)
  moreover have "class_at (pe_copy E) st' c = Some ca"
    using own ca(1) class_wfD(5) [OF class_relD(1) [OF 3 w], of c] by (auto simp: class_at_def)
  ultimately show ?thesis using 3 d(2) by (auto simp: prepared_as_def same_flags_def)
next
  case False
  let ?st1 = "zend_map_ptr_extend (pe_map_ptr_last E) st"
  have s1: "class_rel E {} st ?st1" by (rule class_rel_code) (simp add: zend_map_ptr_extend_def)
  obtain p st2 st4 c4 where b: "pmmpthread_copy_entry n X (has_option (pe_options E) PMMPTHREAD_INHERIT_COMMENTS) ca ?st1 = Copied (p, st2)"
    "(if late then pmmpthread_prepared_entry_late_bindings n X (has_option (pe_options E) PMMPTHREAD_INHERIT_COMMENTS) c ca p (register_class (class_name ca) p st2)
      else Copied (register_class (class_name ca) p st2)) = Copied st4"
    "cs_classes st4 p = Some c4" "each (\<lambda>(_, f). pmmpthread_update_function_scope X f c p) (cl_function_table c4) st4 = Copied st'" "q = Some p"
    using r False unfolding create_new_entry_def Let_def class_name_def [symmetric]
    by (auto simp: cbind_Copied split: option.splits split del: if_split)
  note ce = copy_entry_rel [OF X class_relD(1) [OF s1 w] False b(1)]
  obtain c2 where c2: "cs_classes st2 p = Some c2" "same_flags ca c2" "zs_val (cl_name c2) = zs_val (cl_name ca)" using ce(4) by blast
  have n: "cs_classes st p = None" using ce(1) class_wf_fresh [OF w] by (simp add: zend_map_ptr_extend_def)
  let ?st3 = "register_class (class_name ca) p st2"
  note w2 = class_relD(1) [OF class_rel_trans [OF s1 ce(2)] w]
  have np: "\<not> replaceable E p" by (rule own_not_replaceable [OF w2 c2(1)])
  have 3: "class_rel E {} st ?st3"
    by (rule class_rel_register [where c = c2, OF class_rel_trans [OF s1 ce(2)] ca(2) _ _ _ n]) (simp_all add: class_at_def c2 class_name_def np)
  note w3 = class_relD(1) [OF 3 w]
  note fr = class_rel_frame [OF X, of p]
  have 4: "class_rel E {p} ?st3 st4"
    using b(2) late_bindings_rel [OF X] class_rel_code [OF same_code_refl] by (auto split: if_splits)
  have 5: "class_rel E {p} st4 st'"
    by (rule class_rel_onD, rule keeps_stateD [OF copy_frame.keeps_each [OF class_frame.axioms(1) [OF fr]] b(4)])
      (auto intro: class_frame.keeps_scope [OF fr])
  have 6: "class_rel E {p} ?st3 st'" by (rule class_rel_trans [OF 4 5])
  have "cs_classes ?st3 p = Some c2" using c2(1) by (simp add: register_class_def)
  from class_relD(5) [OF 6 w3 this] obtain e where e: "cs_classes st' p = Some e" "class_step {p} ?st3 st' p c2 e" by blast
  have "finished ca \<longrightarrow> same_flags ca e"
    using e(2) same_flags_finished(1) [OF c2(2)] same_flags_kind [OF c2(2)] by (auto simp: class_step_def)
  moreover have "map_of (cs_class_table st') (class_name ca) = Some p"
    using class_relD(4) [OF 6 w3, of "class_name ca" p] np by (simp add: register_class_def map_of_table_update)
  ultimately show ?thesis using class_rel_fresh [OF 3 6 n] b(5) e(1) by (auto simp: prepared_as_def class_at_def)
qed

text \<open>Every creation of a class keeps the other classes.\<close>

lemma create_entry_rel: "keeps (class_rel E {}) st (pmmpthread_create_entry n E c late st)"
proof (induction n arbitrary: c late st)
  case (Suc n)
  let ?X = "(pe_copy E)\<lparr>ce_class := (\<lambda>c. pmmpthread_create_entry n E c True)\<rparr>"
  have X: "keeps (class_rel E {}) st (ce_class ?X c st)" for c st by (simp add: Suc.IH)
  show ?case
  proof (cases "class_wf E st")
    case w: True
    have "class_rel E {} st st'" if r: "pmmpthread_create_entry (Suc n) E c late st = Copied (q, st')" for q st'
    proof -
      obtain ca where ca: "class_at (pe_copy E) st c = Some ca" using r by (auto simp: Let_def split: option.splits)
      show ?thesis
      proof (cases "cl_internal ca \<or> cl_preloaded ca")
        case True
        then show ?thesis using r ca class_rel_code [OF same_code_refl] by auto
      next
        case False
        show ?thesis
        proof (cases "map_of (cs_class_table st) (class_name ca)")
          case None
          then show ?thesis
            using r ca False create_new_entry_rel [OF X Suc.IH w ca] by (auto simp: Let_def class_name_def)
        next
          case (Some p)
          obtain e where e: "class_at (pe_copy E) st p = Some e" using class_wfD(6) [OF w Some] by blast
          show ?thesis
          proof (cases "newly_linked ca e")
            case nl: True
            show ?thesis
            proof (cases "cl_immutable e")
              case True
              have "replaceable E p" by (rule unsettled_replaceable [OF w e]) (use nl True in \<open>simp add: settled_def finished_def newly_linked_def\<close>)
              then show ?thesis
                using r ca e False Some nl True create_new_entry_rel [OF X Suc.IH w ca] by (auto simp: Let_def class_name_def)
            next
              case mutable: False
              then obtain st1 where b: "pmmpthread_complete_entry n ?X ca p st = Copied st1"
              "(if late then pmmpthread_prepared_entry_late_bindings n ?X (has_option (pe_options E) PMMPTHREAD_INHERIT_COMMENTS) c ca p st1 else Copied st1) = Copied st'"
              using r ca e False Some nl by (auto simp: Let_def class_name_def cbind_Copied split del: if_split)
            obtain d where d: "cs_classes st p = Some d" using b(1) by (auto simp: pmmpthread_complete_entry_def upd_class_def cbind_Copied split: option.splits)
            have g: "registered st p" using Some by (force simp: registered_def dest: map_of_SomeD)
            have de: "d = e" using d e by (simp add: class_at_def)
            have 1: "class_rel E {p} st st1" by (rule complete_entry_rel [OF X d _ b(1)]) (use nl g de in auto)
            have 2: "class_rel E {p} st1 st'"
              using b(2) late_bindings_rel [OF X] class_rel_code [OF same_code_refl] by (auto split: if_splits)
            show ?thesis
              by (rule class_rel_exempt [OF class_rel_trans [OF 1 2]]) (use d de nl g in \<open>auto simp: newly_linked_def finished_def\<close>)
            qed
          next
            case nl: False
            then show ?thesis using r ca e False Some class_rel_code [OF same_code_refl] by (auto simp: Let_def class_name_def)
          qed
        qed
      qed
    qed
    then show ?thesis by (simp add: keeps_def del: pmmpthread_create_entry.simps)
  qed (simp add: keeps_def class_rel_def del: pmmpthread_create_entry.simps)
qed simp

text \<open>The two locales for the classes of a thread: preparing classes to any depth keeps the relations.\<close>

interpretation copying: copy_frame "class_rel E {}" "prepared_env n E" for E :: "'h prep_env" and n
  by (rule class_rel_copy_frame) (simp add: prepared_env_def create_entry_rel)

interpretation preparing: class_frame "class_rel_on E p same_kind" "prepared_env n E" p same_kind for E :: "'h prep_env" and n p
  by (rule class_rel_frame) (simp add: prepared_env_def create_entry_rel)

section \<open>What is registered\<close>

lemma complete_entry_linked:
  assumes X: "\<And>c st. keeps (class_rel E {}) st (ce_class X c st)" and w: "class_wf E st" and c: "cs_classes st p = Some c"
    and f: "newly_linked ca c" "registered st p" and r: "pmmpthread_complete_entry n X ca p st = Copied st'"
  shows "\<exists>e. cs_classes st' p = Some e \<and> cl_linked e"
proof -
  note fr = class_rel_frame [OF X, of p]
  let ?st = "st\<lparr>cs_classes := (cs_classes st)(p \<mapsto> copy_ce_flags ca c)\<rparr>"
  have w1: "class_wf E ?st"
    by (rule class_relD(1) [OF class_rel_put [OF c] w])
      (use f in \<open>auto simp: copy_ce_flags_def newly_linked_def settled_def finished_def later_class_def\<close>)
  have "keeps_state (class_rel_on E p same_kind) ?st (pmmpthread_complete_entry n X ca p st)"
    using class_frame.keeps_rest_of_entry [OF fr, of ca ?st n] c
    by (simp add: pmmpthread_complete_entry_def upd_class_def same_kind_def prepare_class_interceptors_def prepare_class_handlers_def)
  from class_relD(5) [OF class_rel_onD [OF keeps_stateD [OF this r]] w1, of p "copy_ce_flags ca c"] f show ?thesis
    by (auto simp: class_step_def later_class_def copy_ce_flags_def newly_linked_def)
qed

text \<open>
  The result of creating a class of a user is what the class table has for its name afterwards, and not waiting to be linked; only
  the entry of a class that may be replaced can be gone again.
\<close>

lemma create_entry_result:
  assumes w: "class_wf E st" and ca: "ce_classes (pe_copy E) c = Some ca" "\<not> cl_internal ca" "\<not> cl_preloaded ca"
    and r: "pmmpthread_create_entry n E c late st = Copied (q, st')"
  shows "class_at (pe_copy E) st' c = Some ca \<and>
    (\<exists>p e. q = Some p \<and>
      (map_of (cs_class_table st') (class_name ca) = Some p \<or> replaceable E p \<and> \<not> settled ca \<and> map_of (cs_class_table st') (class_name ca) \<noteq> None) \<and>
      class_at (pe_copy E) st' p = Some e \<and> \<not> newly_linked ca e)"
proof (cases n)
  case (Suc m)
  let ?X = "(pe_copy E)\<lparr>ce_class := (\<lambda>c. pmmpthread_create_entry m E c True)\<rparr>"
  have X: "keeps (class_rel E {}) st (ce_class ?X c st)" for c st by (simp add: create_entry_rel)
  have C: "keeps (class_rel E {}) st (pmmpthread_create_entry m E c late st)" for c late st by (rule create_entry_rel)
  have at: "class_at (pe_copy E) st c = Some ca" using class_wfD(5) [OF w ca(1)] ca(1) by (simp add: class_at_def)
  have rel: "class_rel E {} st st'" by (rule keepsD [OF create_entry_rel r])
  note w' = class_relD(1) [OF rel w]
  have at': "class_at (pe_copy E) st' c = Some ca" using class_wfD(5) [OF w' ca(1)] ca(1) by (simp add: class_at_def)
  have new: ?thesis if "create_new_entry m E ?X (\<lambda>c. pmmpthread_create_entry m E c late) c ca late st = Copied (q, st')"
    and f: "\<And>a. map_of (cs_class_table st) (class_name ca) = Some a \<Longrightarrow> replaceable E a"
  proof -
    from create_new_entry_rel [OF X C w at f that(1)] obtain p e where
      p: "q = Some p" "map_of (cs_class_table st') (class_name ca) = Some p \<or> replaceable E p \<and> \<not> settled ca \<and> map_of (cs_class_table st') (class_name ca) \<noteq> None"
        "class_at (pe_copy E) st' p = Some e"
        "finished ca \<longrightarrow> same_flags ca e"
      unfolding prepared_as_def by blast
    then have "\<not> newly_linked ca e" by (auto simp: newly_linked_def finished_def same_flags_def)
    then show ?thesis using p at' by blast
  qed
  show ?thesis
  proof (cases "map_of (cs_class_table st) (class_name ca)")
    case None
    then show ?thesis using r at ca(2,3) Suc by (intro new) (auto simp: Let_def class_name_def)
  next
    case (Some p)
    obtain e where e: "class_at (pe_copy E) st p = Some e" using class_wfD(6) [OF w Some] by blast
    consider "newly_linked ca e" "cl_immutable e" | "newly_linked ca e" "\<not> cl_immutable e" | "\<not> newly_linked ca e" by blast
    then show ?thesis
    proof cases
      case 1
      have "replaceable E p" by (rule unsettled_replaceable [OF w e]) (use 1 in \<open>simp add: settled_def finished_def newly_linked_def\<close>)
      then show ?thesis using r at e ca(2,3) Some 1 Suc by (intro new) (auto simp: Let_def class_name_def)
    next
      case 2
      then obtain st1 where b: "pmmpthread_complete_entry m ?X ca p st = Copied st1" "q = Some p"
        "(if late then pmmpthread_prepared_entry_late_bindings m ?X (has_option (pe_options E) PMMPTHREAD_INHERIT_COMMENTS) c ca p st1 else Copied st1) = Copied st'"
        using r at e ca(2,3) Some Suc by (auto simp: Let_def class_name_def cbind_Copied split del: if_split)
      obtain d where d: "cs_classes st p = Some d" using b(1) by (auto simp: pmmpthread_complete_entry_def upd_class_def cbind_Copied split: option.splits)
      have t: "map_of (cs_class_table st') (class_name ca) = Some p" using class_relD(4) [OF rel w Some] own_not_replaceable [OF w d] by blast
      have g: "registered st p" using Some by (force simp: registered_def dest: map_of_SomeD)
      have de: "d = e" using d e by (simp add: class_at_def)
      obtain e1 where e1: "cs_classes st1 p = Some e1" "cl_linked e1" using complete_entry_linked [OF X w d _ g b(1)] 2 de by blast
      have 3: "class_rel E {p} st st1" by (rule complete_entry_rel [OF X d _ b(1)]) (use 2 g de in auto)
      have 4: "class_rel E {p} st1 st'" using b(3) late_bindings_rel [OF X] class_rel_code [OF same_code_refl] by (auto split: if_splits)
      obtain e2 where "cs_classes st' p = Some e2" "cl_linked e2"
        using class_relD(5) [OF 4 class_relD(1) [OF 3 w] e1(1)] e1(2) by (auto simp: class_step_def later_class_def)
      then show ?thesis using t at' b(2) by (auto simp: class_at_def newly_linked_def)
    next
      case 3
      then have "q = Some p" "st' = st" using r at e ca(2,3) Some Suc by (auto simp: Let_def class_name_def)
      then show ?thesis using Some at' e 3 by auto
    qed
  qed
qed (use r in simp)

section \<open>Following one entry\<close>

definition tracked :: "'h prep_env \<Rightarrow> addr \<Rightarrow> class_entry \<Rightarrow> 'h copy_state \<Rightarrow> bool" where
  "tracked E p c st \<longleftrightarrow> class_wf E st \<and> cs_classes st p = Some c \<and> (finished c \<or> \<not> registered st p)"

lemma tracked_on:
  assumes "entry_relation K" "class_rel_on E p K st st'" "tracked E p c st"
  shows "\<exists>c'. tracked E p c' st' \<and> K c c'"
proof -
  have w: "class_wf E st" "cs_classes st p = Some c" "finished c \<or> \<not> registered st p" using assms(3) by (simp_all add: tracked_def)
  note d = class_relD [OF class_rel_onD [OF assms(2)] w(1)]
  obtain c' where c': "cs_classes st' p = Some c'" "K c c'" using assms(2) w unfolding class_rel_on_def by blast
  then have "finished c' \<or> \<not> registered st' p" using d(5) [OF w(2)] w(3) by (auto simp: class_step_def later_class_def)
  then show ?thesis using c' d(1) by (auto simp: tracked_def)
qed

lemma tracked_upd:
  assumes "upd_class p g st = Copied st'" "tracked E p c st" "same_kind c (g c)"
  shows "tracked E p (g c) st'"
proof -
  have c: "cs_classes st p = Some c" "class_wf E st" using assms(2) by (simp_all add: tracked_def)
  then have s: "st' = st\<lparr>cs_classes := (cs_classes st)(p \<mapsto> g c)\<rparr>" using assms(1) by (simp add: upd_class_def)
  show ?thesis
    using assms(2) class_relD(1) [OF class_rel_update [OF c(1) assms(3), of E] c(2)] same_kind_finished(1) [OF assms(3)]
    by (auto simp: tracked_def s registered_def)
qed

lemma equal_relation: "entry_relation (=)"
  by (simp add: entry_relation_def)

lemma tracked_unchanged: "class_rel_on E p (=) st st' \<Longrightarrow> tracked E p c st \<Longrightarrow> tracked E p c st'"
  using tracked_on [OF equal_relation] by blast

lemma field_relation: "entry_relation (\<lambda>c c'. same_kind c c' \<and> g c' = g c)"
  using same_kind_relation by (auto simp: entry_relation_def)

lemma tracked_unique: "tracked E p c st \<Longrightarrow> tracked E p c' st \<Longrightarrow> c' = c"
  by (simp add: tracked_def)

definition names :: "(zstr \<times> 'a) list \<Rightarrow> string list" where
  "names t = map (zs_val \<circ> fst) t"

lemma names_Cons [simp]: "names [] = []" "names ((k, x) # t) = zs_val k # names t"
  by (simp_all add: names_def)

lemma str_find_None: "str_find s t = None \<longleftrightarrow> s \<notin> set (names t)"
  by (induction t) (auto simp: str_find_def str_find_entry_def names_def)

end
