(* ===== verification/Prepare_Correct.thy ===== *)
theory Prepare_Correct
  imports Class_Tables
begin

text \<open>
  What the preparation of classes guarantees: a class is made once and stays registered, a class that is complete is never changed again by the
  preparation of another one, a prepared class mirrors the class of the creator, and its inherited static members lead to the slots
  of the class that declares them.
\<close>

text \<open>The methods and the constants get the names they have on the creator, in the same order.\<close>

lemma functions_tracked:
  assumes X: "\<And>c st. keeps (class_rel E {}) st (ce_class X c st)"
  shows "each (prepare_class_function n X p) fs st = Copied st' \<Longrightarrow> tracked E p c st \<Longrightarrow> distinct (names (cl_function_table c) @ names fs) \<Longrightarrow>
    \<exists>c'. tracked E p c' st' \<and> names (cl_function_table c') = names (cl_function_table c) @ names fs"
proof (induction fs arbitrary: st c)
  case (Cons kf fs)
  note fr = class_rel_on_frame [OF equal_relation X, of p]
  obtain key f where kf: "kf = (key, f)" by fastforce
  obtain st1 where 1: "prepare_class_function n X p kf st = Copied st1" "each (prepare_class_function n X p) fs st1 = Copied st'"
    using Cons.prems(1) by (auto simp: cbind_Copied)
  have c: "cs_classes st p = Some c" "interned_ok st" using Cons.prems(2) class_wfD(1) by (auto simp: tracked_def)
  have new: "str_find (zs_val key) (cl_function_table c) = None"
    using Cons.prems(3) by (auto simp: str_find_None kf names_def)
  obtain name st2 where 2: "pmmpthread_copy_string key st = (name, st2)" by fastforce
  obtain a st3 where 3: "pmmpthread_copy_function n X f st2 = Copied (a, st3)"
    "upd_class p (\<lambda>c. c\<lparr>cl_function_table := str_add name a (cl_function_table c)\<rparr>) st3 = Copied st1"
    using 1(1) kf c(1) new 2 by (auto simp: prepare_class_function_def cbind_Copied)
  have "tracked E p c st2" by (rule tracked_unchanged [OF class_rel_on_code [OF equal_relation same_code_copy_string [OF 2]] Cons.prems(2)])
  then have "tracked E p c st3" by (rule tracked_unchanged [OF keepsD [OF class_frame.keeps_function [OF fr] 3(1)]])
  from tracked_upd [OF 3(2) this] have t: "tracked E p (c\<lparr>cl_function_table := str_add name a (cl_function_table c)\<rparr>) st1" by (simp add: same_kind_def)
  have n: "names (str_add name a (cl_function_table c)) = names (cl_function_table c) @ [zs_val key]"
    using new copy_string_ok(1) [OF 2 c(2)] by (simp add: str_add_def names_def)
  from Cons.IH [OF 1(2) t] Cons.prems(3) n kf show ?case by simp
qed auto

lemma names_map: "names (map (\<lambda>(k, x). if P k then (k, g x) else (k, x)) t) = names t"
  by (induction t) (auto simp: names_def)

lemma upd_constant_tracked:
  assumes "upd_constant p key g st = Copied st'" "tracked E p c st"
  shows "\<exists>c'. tracked E p c' st' \<and> names (cl_constants c') = names (cl_constants c)"
  using tracked_upd [OF assms(1) [unfolded upd_constant_def] assms(2)] by (auto simp: same_kind_def names_map)

lemma constants_tracked:
  assumes X: "\<And>c st. keeps (class_rel E {}) st (ce_class X c st)"
  shows "each (prepare_class_constant n X p) cs st = Copied st' \<Longrightarrow> tracked E p c st \<Longrightarrow> distinct (names (cl_constants c) @ names cs) \<Longrightarrow>
    \<exists>c'. tracked E p c' st' \<and> names (cl_constants c') = names (cl_constants c) @ names cs"
proof (induction cs arbitrary: st c)
  case (Cons kc cs)
  note fr = class_rel_on_frame [OF equal_relation X, of p]
  note cf = class_frame.axioms(1) [OF fr]
  obtain key zc where kc: "kc = (key, zc)" by fastforce
  obtain st1 where 1: "prepare_class_constant n X p kc st = Copied st1" "each (prepare_class_constant n X p) cs st1 = Copied st'"
    using Cons.prems(1) by (auto simp: cbind_Copied)
  have c: "cs_classes st p = Some c" "interned_ok st" using Cons.prems(2) class_wfD(1) by (auto simp: tracked_def)
  have new: "str_find (zs_val key) (cl_constants c) = None" using Cons.prems(3) by (auto simp: str_find_None kc names_def)
  obtain name st2 where 2: "pmmpthread_copy_string key st = (name, st2)" by fastforce
  obtain v b st3 ce st4 st5 where 3: "copy_constant_value n X p c (zs_val name) zc st2 = Copied ((v, b), st3)"
    "prepare_opt_class X (cc_ce zc) st3 = Copied (ce, st4)"
    "upd_class p (\<lambda>c. c\<lparr>cl_constants := str_add name (zc\<lparr>cc_value := v, cc_backing := b, cc_ce := ce\<rparr>) (cl_constants c)\<rparr>) st4 = Copied st5"
    and rest: "(case copy_opt_string (cc_doc zc) st5 of
      (doc, st5) \<Rightarrow>
        cbind (upd_constant p (zs_val name) (\<lambda>c. c\<lparr>cc_doc := doc\<rparr>) st5) (\<lambda>st6.
        cbind (copy_opt (pmmpthread_copy_attributes X (closure_copier n X)) (cc_attributes zc) st6) (\<lambda>(attributes, st7).
        cbind (upd_constant p (zs_val name) (\<lambda>c. c\<lparr>cc_attributes := attributes\<rparr>) st7) (\<lambda>st8.
        case pmmpthread_copy_zend_type (cc_type zc) st8 of (ty, st9) \<Rightarrow> upd_constant p (zs_val name) (\<lambda>c. c\<lparr>cc_type := ty\<rparr>) st9)))) = Copied st1"
    using 1(1) kc c(1) new 2 by (auto simp: prepare_class_constant_def cbind_Copied split del: prod.splits)
  obtain doc st6 where d: "copy_opt_string (cc_doc zc) st5 = (doc, st6)" by fastforce
  obtain st7 as st8 st9 where 4: "upd_constant p (zs_val name) (\<lambda>c. c\<lparr>cc_doc := doc\<rparr>) st6 = Copied st7"
    "copy_opt (pmmpthread_copy_attributes X (closure_copier n X)) (cc_attributes zc) st7 = Copied (as, st8)"
    "upd_constant p (zs_val name) (\<lambda>c. c\<lparr>cc_attributes := as\<rparr>) st8 = Copied st9"
    and last: "(case pmmpthread_copy_zend_type (cc_type zc) st9 of (ty, st9) \<Rightarrow> upd_constant p (zs_val name) (\<lambda>c. c\<lparr>cc_type := ty\<rparr>) st9) = Copied st1"
    using rest d by (auto simp: cbind_Copied)
  obtain ty st10 where ty: "pmmpthread_copy_zend_type (cc_type zc) st9 = (ty, st10)" by fastforce
  note code = class_rel_on_code [OF equal_relation]
  have "tracked E p c st2" by (rule tracked_unchanged [OF code [OF same_code_copy_string [OF 2]] Cons.prems(2)])
  then have "tracked E p c st3" by (rule tracked_unchanged [OF keepsD [OF class_frame.keeps_constant_value [OF fr] 3(1)]])
  then have "tracked E p c st4" by (rule tracked_unchanged [OF keepsD [OF copy_frame.keeps_opt_class [OF cf] 3(2)]])
  from tracked_upd [OF 3(3) this] obtain c5 where c5: "tracked E p c5 st5" "names (cl_constants c5) = names (cl_constants c) @ [zs_val key]"
    using new copy_string_ok(1) [OF 2 c(2)] by (auto simp: same_kind_def str_add_def names_def)
  have "tracked E p c5 st6" by (rule tracked_unchanged [OF code [OF same_code_opt_string [OF d]] c5(1)])
  from upd_constant_tracked [OF 4(1) this] obtain c7 where c7: "tracked E p c7 st7" "names (cl_constants c7) = names (cl_constants c5)" by blast
  have "tracked E p c7 st8" by (rule tracked_unchanged [OF keepsD [OF class_frame.keeps_class_attributes [OF fr] 4(2)] c7(1)])
  from upd_constant_tracked [OF 4(3) this] obtain c9 where c9: "tracked E p c9 st9" "names (cl_constants c9) = names (cl_constants c7)" by blast
  have "tracked E p c9 st10" by (rule tracked_unchanged [OF code [OF same_code_type(1) [OF ty]] c9(1)])
  from upd_constant_tracked [OF _ this, of "zs_val name" "\<lambda>c. c\<lparr>cc_type := ty\<rparr>" st1] last ty
  obtain c1 where c1: "tracked E p c1 st1" "names (cl_constants c1) = names (cl_constants c9)" by auto
  from Cons.IH [OF 1(2) c1(1)] Cons.prems(3) c5(2) c7(2) c9(2) c1(2) kc show ?case by simp
qed auto

lemma parent_tracked:
  assumes X: "X = (pe_copy E)\<lparr>ce_class := (\<lambda>c. pmmpthread_create_entry m E c True)\<rparr>"
    and l: "cl_linked ca" and r: "complete_parent X ca p st = Copied st'" and t: "tracked E p c st"
    and a: "class_parent_ptr ca = Some a" "ce_classes (pe_copy E) a = Some pa" "\<not> cl_internal pa" "\<not> cl_preloaded pa"
  shows "\<exists>c' b. tracked E p c' st' \<and> class_parent_ptr c' = Some b \<and> (map_of (cs_class_table st') (class_name pa) = Some b \<or> replaceable E b)"
proof -
  have Y: "keeps (class_rel E {}) st (ce_class X c st)" for c st by (simp add: X create_entry_rel)
  note fr = class_rel_on_frame [OF equal_relation Y, of p]
  have w: "class_wf E st" using t by (simp add: tracked_def)
  obtain q st1 where 1: "ce_class X a st = Copied (q, st1)"
    "upd_class p (\<lambda>c. c\<lparr>cl_parent := (case q of None \<Rightarrow> No_parent | Some b \<Rightarrow> Parent b)\<rparr>) st1 = Copied st'"
    using r l a(1) by (auto simp: complete_parent_def cbind_Copied)
  have "pmmpthread_create_entry m E a True st = Copied (q, st1)" using 1(1) by (simp add: X)
  from create_entry_result [OF w a(2-4) this] obtain b where
    q: "q = Some b" "map_of (cs_class_table st1) (class_name pa) = Some b \<or> replaceable E b" by blast
  have "tracked E p c st1" by (rule tracked_unchanged [OF keepsD [OF copy_frame.prepares [OF class_frame.axioms(1) [OF fr]] 1(1)] t])
  from tracked_upd [OF 1(2) this] have "tracked E p (c\<lparr>cl_parent := Parent b\<rparr>) st'" by (simp add: same_kind_def q(1))
  moreover have "cs_class_table st' = cs_class_table st1" using 1(2) by (auto simp: upd_class_def split: option.splits)
  ultimately show ?thesis using q(2) by (auto simp: class_parent_ptr_def)
qed

lemma tracked_keep:
  assumes "class_rel_on E p (\<lambda>c c'. same_kind c c' \<and> g c' = g c) st st'" "tracked E p c st"
  shows "\<exists>c'. tracked E p c' st' \<and> g c' = g c"
  using tracked_on [OF field_relation [of g] assms] by blast

lemma complete_entry_tracked:
  assumes X: "X = (pe_copy E)\<lparr>ce_class := (\<lambda>c. pmmpthread_create_entry m E c True)\<rparr>"
    and l: "cl_linked ca" and r: "pmmpthread_complete_entry n X ca p st = Copied st'" and t: "tracked E p c st"
    and f: "same_flags ca c" "cl_function_table c = []" "distinct (names (cl_function_table ca))"
  shows "\<exists>c'. tracked E p c' st' \<and> cl_handlers c' = cl_handlers ca \<and> names (cl_function_table c') = names (cl_function_table ca) \<and>
    cl_constants c' = cl_constants c \<and>
    (\<forall>a pa. class_parent_ptr ca = Some a \<and> ce_classes (pe_copy E) a = Some pa \<and> \<not> cl_internal pa \<and> \<not> cl_preloaded pa \<longrightarrow>
      (\<exists>b. class_parent_ptr c' = Some b \<and> (map_of (cs_class_table st') (class_name pa) = Some b \<or> replaceable E b)))"
proof -
  have Y: "keeps (class_rel E {}) st (ce_class X c st)" for c st by (simp add: X create_entry_rel)
  note fr = class_rel_on_frame [OF field_relation Y, of p]
  obtain st1 st2 st3 st4 st5 st6 where s: "upd_class p (copy_ce_flags ca) st = Copied st1" "complete_parent X ca p st1 = Copied st2"
    "complete_interfaces X ca p st2 = Copied st3" "prepare_class_traits ca p st3 = Copied st4" "upd_class p (prepare_class_handlers ca) st4 = Copied st5"
    "each (prepare_class_function n X p) (cl_function_table ca) st5 = Copied st6" "upd_class p (prepare_class_interceptors ca) st6 = Copied st'"
    using r by (auto simp: pmmpthread_complete_entry_def cbind_Copied prepare_class_function_table_def)
  have t1: "tracked E p c st1" using tracked_upd [OF s(1) t] by (simp add: copy_flags_same [OF f(1)])
  obtain c2 where c2: "tracked E p c2 st2" "(cl_function_table c2, cl_constants c2) = (cl_function_table c, cl_constants c)"
    using tracked_keep [OF keeps_stateD [OF class_frame.keeps_parent [OF fr] s(2)] t1, where g = "\<lambda>c. (cl_function_table c, cl_constants c)"]
    by (auto simp: same_kind_def)
  have p2: "\<exists>b. class_parent_ptr c2 = Some b \<and> (map_of (cs_class_table st2) (class_name pa) = Some b \<or> replaceable E b)"
    if "class_parent_ptr ca = Some a" "ce_classes (pe_copy E) a = Some pa" "\<not> cl_internal pa" "\<not> cl_preloaded pa" for a pa
    using parent_tracked [OF X l s(2) t1 that] tracked_unique [OF c2(1)] by blast
  let ?v = "\<lambda>c. (cl_parent c, cl_function_table c, cl_constants c)"
  obtain c3 where c3: "tracked E p c3 st3" "?v c3 = ?v c2"
    using tracked_keep [OF keeps_stateD [OF class_frame.keeps_class_interfaces [OF fr] s(3)] c2(1), where g = ?v] by (auto simp: same_kind_def)
  obtain c4 where c4: "tracked E p c4 st4" "?v c4 = ?v c3"
    using tracked_keep [OF keeps_stateD [OF class_frame.keeps_traits [OF fr] s(4)] c3(1), where g = ?v] by (auto simp: same_kind_def)
  have t5: "tracked E p (prepare_class_handlers ca c4) st5"
    using tracked_upd [OF s(5) c4(1)] by (simp add: same_kind_def prepare_class_handlers_def)
  let ?c5 = "prepare_class_handlers ca c4"
  let ?u = "\<lambda>c. (cl_parent c, cl_handlers c, cl_constants c)"
  have "keeps_state (class_rel_on E p (\<lambda>c c'. same_kind c c' \<and> ?u c' = ?u c)) st5 (prepare_class_function_table n X ca p st5)"
    by (rule class_frame.keeps_function_table [OF fr]) (simp add: same_kind_def)
  from tracked_keep [OF keeps_stateD [OF this s(6) [folded prepare_class_function_table_def]] t5]
  obtain c6 where c6: "tracked E p c6 st6" "?u c6 = ?u ?c5" by blast
  have f5: "cl_function_table ?c5 = []" using c2(2) c3(2) c4(2) f(2) by (simp add: prepare_class_handlers_def)
  have n6: "names (cl_function_table c6) = names (cl_function_table ca)"
    using functions_tracked [OF Y s(6) t5] f5 f(3) tracked_unique [OF c6(1)] by auto
  let ?c' = "prepare_class_interceptors ca c6"
  have t': "tracked E p ?c' st'" using tracked_upd [OF s(7) c6(1)] by (simp add: same_kind_def prepare_class_interceptors_def)
  have parent: "class_parent_ptr ?c' = class_parent_ptr c2" using c3(2) c4(2) c6(2)
    by (simp add: class_parent_ptr_def prepare_class_interceptors_def prepare_class_handlers_def)
  have "class_rel E {p} st2 st'"
  proof -
    note g = class_rel_frame [OF Y, of p]
    have "class_rel E {p} st2 st3" "class_rel E {p} st3 st4" "class_rel E {p} st4 st5" "class_rel E {p} st5 st6" "class_rel E {p} st6 st'"
      using keeps_stateD [OF class_frame.keeps_class_interfaces [OF g] s(3)] keeps_stateD [OF class_frame.keeps_traits [OF g] s(4)]
        keeps_stateD [OF class_frame.keeps_upd_class [OF g] s(5)] keeps_stateD [OF class_frame.keeps_function_table [OF g] s(6) [folded prepare_class_function_table_def]]
        keeps_stateD [OF class_frame.keeps_upd_class [OF g] s(7)]
      by (simp_all add: class_rel_onD same_kind_def prepare_class_handlers_def prepare_class_interceptors_def)
    then show ?thesis using class_rel_trans by blast
  qed
  note rel = this
  have w2: "class_wf E st2" using c2(1) by (simp add: tracked_def)
  have "\<exists>b. class_parent_ptr ?c' = Some b \<and> (map_of (cs_class_table st') (class_name pa) = Some b \<or> replaceable E b)"
    if "class_parent_ptr ca = Some a" "ce_classes (pe_copy E) a = Some pa" "\<not> cl_internal pa" "\<not> cl_preloaded pa" for a pa
    using p2 [OF that] class_relD(4) [OF rel w2] unfolding parent by blast
  then show ?thesis
    using t' n6 c2(2) c3(2) c4(2) c6(2)
    by (intro exI [of _ ?c']) (simp add: prepare_class_interceptors_def prepare_class_handlers_def)
qed

section \<open>Static members\<close>

text \<open>
  \<open>ancestors X st a as\<close>: from the class \<open>a\<close> upwards the classes are \<open>as\<close>, each with its number of static members. A class has all static members
  of its parent and its own behind them, so the class that declares the member in slot \<open>i\<close> is the last one upwards that has the slot.
\<close>

fun ancestors :: "'h copy_env \<Rightarrow> 'h copy_state \<Rightarrow> ptr \<Rightarrow> (addr \<times> nat) list \<Rightarrow> bool" where
  "ancestors X st a [] \<longleftrightarrow> a = None"
| "ancestors X st a ((b, k) # as) \<longleftrightarrow> a = Some b \<and>
     (case class_at X st b of None \<Rightarrow> False | Some c \<Rightarrow> length (cl_static_members c) = k \<and> ancestors X st (class_parent_ptr c) as)"

definition inherited_slots :: "(addr \<times> nat) list \<Rightarrow> nat" where
  "inherited_slots as = (case as of [] \<Rightarrow> 0 | (b, k) # _ \<Rightarrow> k)"

definition slot_owner :: "(addr \<times> nat) list \<Rightarrow> nat \<Rightarrow> addr" where
  "slot_owner as i = fst (last (filter (\<lambda>(b, k). i < k) as))"

text \<open>The second slot holds a copy of the value in the first one, in which every string satisfies \<open>Q\<close>.\<close>

fun copied_slot :: "(zstr \<Rightarrow> bool) \<Rightarrow> static_slot \<Rightarrow> static_slot \<Rightarrow> bool" where
  "copied_slot Q (Slot v) (Slot u) \<longleftrightarrow> content u = content v \<and> strings_val Q u"
| "copied_slot Q _ _ \<longleftrightarrow> False"

lemma copied_slot_mono: "copied_slot Q s u \<Longrightarrow> (\<And>x. Q x \<Longrightarrow> R x) \<Longrightarrow> copied_slot R s u"
  using strings_mono(1) [of Q _ R] by (cases "(Q, s, u)" rule: copied_slot.cases) auto

definition data_slot :: "static_slot \<Rightarrow> bool" where
  "data_slot s \<longleftrightarrow> (case s of Slot v \<Rightarrow> data_val v | Slot_indirect _ _ \<Rightarrow> False)"

definition copyable_slot :: "static_slot \<Rightarrow> bool" where
  "copyable_slot s \<longleftrightarrow> (case s of Slot v \<Rightarrow> copyable v | Slot_indirect _ _ \<Rightarrow> False)"

text \<open>The state in which \<open>p\<close> has the table \<open>t\<close> of static members.\<close>

definition put_statics :: "addr \<Rightarrow> static_slot list \<Rightarrow> 'h copy_state \<Rightarrow> 'h copy_state" where
  "put_statics p t st = st\<lparr>cs_classes := (cs_classes st)(p := map_option (\<lambda>c. c\<lparr>cl_static_members := t\<rparr>) (cs_classes st p))\<rparr>"

lemma put_statics_twice [simp]: "put_statics p t (put_statics p s st) = put_statics p t st"
  by (cases "cs_classes st p") (simp_all add: put_statics_def)

lemma put_statics_class: "cs_classes st p = Some c \<Longrightarrow> cs_classes (put_statics p t st) p = Some (c\<lparr>cl_static_members := t\<rparr>)"
  by (simp add: put_statics_def)

lemma put_statics_same: "cs_classes st p = Some c \<Longrightarrow> put_statics p (cl_static_members c) st = st"
  by (simp add: put_statics_def fun_upd_idem)

lemma ancestors_put:
  assumes "p \<notin> fst ` set as"
  shows "ancestors X st a as \<Longrightarrow> ancestors X (put_statics p t st) a as"
  using assms by (induction X st a as rule: ancestors.induct) (auto simp: class_at_def put_statics_def split: option.splits)

lemma statics_count_ancestors: "ancestors X st a as \<Longrightarrow> statics_count X st a = Copied (inherited_slots as)"
  by (cases as) (auto simp: statics_count_def inherited_slots_def split: option.splits prod.splits)

lemma set_static_eq: "cs_classes st p = Some c \<Longrightarrow> set_static p i s st = Copied (put_statics p ((cl_static_members c)[i := s]) st)"
  by (simp add: set_static_def upd_class_def put_statics_def)

lemma nth_fold_update:
  "length (fold (\<lambda>i t. t[i := f i]) is t) = length t"
  "i < length t \<Longrightarrow> fold (\<lambda>i t. t[i := f i]) is t ! i = (if i \<in> set is then f i else t ! i)"
  by (induction "is" arbitrary: t) (auto simp: nth_list_update)

lemma link_slots:
  "cs_classes st p = Some c \<Longrightarrow> each (\<lambda>i. set_static p i (Slot_indirect b i)) is st =
     Copied (put_statics p (fold (\<lambda>i t. t[i := Slot_indirect b i]) is (cl_static_members c)) st)"
proof (induction "is" arbitrary: st c)
  case (Cons j "is")
  from Cons.IH [OF put_statics_class [OF Cons.prems]] show ?case by (simp add: set_static_eq [OF Cons.prems])
qed (simp add: put_statics_same)

lemma slot_owner_Cons:
  assumes "sorted_wrt (\<ge>) (map snd ((b, k) # as))" "i < k"
  shows "slot_owner ((b, k) # as) i = (if i < inherited_slots as then slot_owner as i else b)"
proof (cases as)
  case (Cons a as')
  obtain b1 k1 where a: "a = (b1, k1)" by fastforce
  show ?thesis
  proof (cases "i < k1")
    case True
    then show ?thesis using assms by (simp add: slot_owner_def inherited_slots_def Cons a)
  next
    case False
    then have "filter (\<lambda>(b, k). i < k) as = []" using assms(1) by (auto simp: Cons a filter_empty_conv)
    then show ?thesis using assms(2) False by (simp add: slot_owner_def inherited_slots_def Cons a)
  qed
qed (use assms in \<open>simp add: slot_owner_def inherited_slots_def\<close>)

lemma link_statics_correct:
  assumes "ancestors X st a as" "sorted_wrt (\<ge>) (map snd as)" "p \<notin> fst ` set as" "length as \<le> k" "cs_classes st p = Some c"
    and "inherited_slots as \<le> length (cl_static_members c)"
  shows "\<exists>t. link_statics k X p a (inherited_slots as) st = Copied (put_statics p t st) \<and> length t = length (cl_static_members c) \<and>
    (\<forall>i < length t. t ! i = (if i < inherited_slots as then Slot_indirect (slot_owner as i) i else cl_static_members c ! i))"
  using assms
proof (induction as arbitrary: k st a c)
  case Nil
  then show ?case by (intro exI [of _ "cl_static_members c"]) (simp add: inherited_slots_def put_statics_same)
next
  case (Cons bk as)
  obtain b m where bk: "bk = (b, m)" by fastforce
  obtain k' where k: "k = Suc k'" using Cons.prems(4) by (cases k) auto
  obtain pa where pa: "a = Some b" "class_at X st b = Some pa" "length (cl_static_members pa) = m" "ancestors X st (class_parent_ptr pa) as"
    using Cons.prems(1) by (auto simp: bk split: option.splits)
  have in_bk: "inherited_slots (bk # as) = m" by (simp add: inherited_slots_def bk)
  show ?case
  proof (cases "m = 0")
    case True
    then show ?thesis
      using pa Cons.prems(5) k by (intro exI [of _ "cl_static_members c"]) (simp add: in_bk put_statics_same)
  next
    case False
    have le: "inherited_slots as \<le> m" using Cons.prems(2) by (cases as) (auto simp: inherited_slots_def bk)
    define t1 where "t1 = fold (\<lambda>i t. t[i := Slot_indirect b i]) (rev [inherited_slots as..<m]) (cl_static_members c)"
    have n1: "length t1 = length (cl_static_members c)"
      "\<And>i. i < length t1 \<Longrightarrow> t1 ! i = (if inherited_slots as \<le> i \<and> i < m then Slot_indirect b i else cl_static_members c ! i)"
      unfolding t1_def by (auto simp: nth_fold_update)
    let ?st = "put_statics p t1 st"
    have an: "ancestors X ?st (class_parent_ptr pa) as" using ancestors_put [OF _ pa(4)] Cons.prems(3) by simp
    have "inherited_slots as \<le> length t1" using le Cons.prems(6) n1(1) in_bk by simp
    with Cons.IH [OF an _ _ _ put_statics_class [OF Cons.prems(5)], of k'] Cons.prems(2-4) k obtain t where
      t: "link_statics k' X p (class_parent_ptr pa) (inherited_slots as) ?st = Copied (put_statics p t st)" "length t = length t1"
        "\<And>i. i < length t \<Longrightarrow> t ! i = (if i < inherited_slots as then Slot_indirect (slot_owner as i) i else t1 ! i)" by auto
    have "link_statics k X p a (inherited_slots (bk # as)) st = Copied (put_statics p t st)"
      using pa t(1) False le link_slots [OF Cons.prems(5), of b "rev [inherited_slots as..<m]", folded t1_def]
      by (auto simp: k in_bk statics_count_ancestors [OF pa(4)] min_absorb2)
    moreover have "t ! i = (if i < m then Slot_indirect (slot_owner (bk # as) i) i else cl_static_members c ! i)" if i: "i < length t" for i
    proof (cases "i < m")
      case True
      then show ?thesis using i t n1 slot_owner_Cons [of b m as i] Cons.prems(2) by (simp add: bk)
    next
      case False
      then show ?thesis using i t n1 le by simp
    qed
    ultimately show ?thesis using n1(1) t(2) by (intro exI [of _ t]) (simp add: in_bk)
  qed
qed

lemma copy_entry_tracked:
  assumes X: "X = (pe_copy E)\<lparr>ce_class := (\<lambda>c. pmmpthread_create_entry m E c True)\<rparr>"
    and w: "class_wf E st" and ca: "\<not> cl_immutable ca" "cl_linked ca" "distinct (names (cl_function_table ca))"
    and r: "pmmpthread_copy_entry n X comments ca st = Copied (p, st')"
  shows "\<exists>c'. tracked E p c' st' \<and> cl_handlers c' = cl_handlers ca \<and> names (cl_function_table c') = names (cl_function_table ca) \<and>
    cl_constants c' = [] \<and>
    (\<forall>a pa. class_parent_ptr ca = Some a \<and> ce_classes (pe_copy E) a = Some pa \<and> \<not> cl_internal pa \<and> \<not> cl_preloaded pa \<longrightarrow>
      (\<exists>b. class_parent_ptr c' = Some b \<and> (map_of (cs_class_table st') (class_name pa) = Some b \<or> replaceable E b)))"
proof -
  have Y: "keeps (class_rel E {}) st (ce_class X c st)" for c st by (simp add: X create_entry_rel)
  let ?g = "\<lambda>c. (cl_function_table c, cl_constants c)"
  obtain entry st3 st8 where s: "class_rel E {} st st3" "cs_classes st3 p = Some entry" "\<not> registered st3 p"
    "same_flags ca entry" "?g entry = ([], [])" "class_rel_on E p (\<lambda>c c'. same_kind c c' \<and> ?g c' = ?g c) st3 st8"
    "pmmpthread_complete_entry n X ca p st8 = Copied st'"
    using copy_entry_steps [OF Y w ca(1) r] field_relation [of ?g] by (auto simp: same_kind_def)
  have "tracked E p entry st3" using s(1-3) class_relD(1) [OF s(1) w] by (simp add: tracked_def)
  from tracked_on [OF field_relation s(6) this] obtain c8 where c8: "tracked E p c8 st8" "same_kind entry c8" "?g c8 = ([], [])" using s(5) by auto
  from complete_entry_tracked [OF X ca(2) s(7) c8(1) same_flags_kind [OF s(4) c8(2)] _ ca(3)] c8(3) show ?thesis by auto
qed

lemma scopes_rel:
  assumes X: "\<And>c st. keeps (class_rel E {}) st (ce_class X c st)"
    and r: "each (\<lambda>(_, f). pmmpthread_update_function_scope X f c p) fs st = Copied st'"
  shows "class_rel E {p} st st'"
  by (rule class_rel_onD, rule keeps_stateD [OF copy_frame.keeps_each [OF class_frame.axioms(1) [OF class_rel_frame [OF X]]] r])
    (auto intro: class_frame.keeps_scope [OF class_rel_frame [OF X]])

lemma late_bound_tracked:
  assumes X: "\<And>c st. keeps (class_rel E {}) st (ce_class X c st)" and i: "\<not> cl_immutable ca"
    and r: "pmmpthread_prepared_entry_late_bindings n X comments c ca p st = Copied st4"
      "each (\<lambda>(_, f). pmmpthread_update_function_scope X f c p) fs st4 = Copied st'"
    and t: "tracked E p c2 st" "cl_constants c2 = []" "distinct (names (cl_constants ca))"
  shows "\<exists>e. tracked E p e st' \<and> same_kind c2 e \<and> cl_parent e = cl_parent c2 \<and> cl_handlers e = cl_handlers c2 \<and>
    cl_function_table e = cl_function_table c2 \<and> names (cl_constants e) = names (cl_constants ca)"
proof -
  let ?g = "\<lambda>c. (cl_parent c, cl_handlers c, cl_function_table c)" and ?h = "\<lambda>c. (cl_parent c, cl_handlers c, cl_function_table c, cl_constants c)"
  note fr = class_rel_on_frame [OF field_relation X, of p]
  obtain st1 st2 where s: "prepare_class_property_table n X comments c ca p st = Copied st1" "prepare_class_statics n X ca p st1 = Copied st2"
    "each (prepare_class_constant n X p) (cl_constants ca) st2 = Copied st4"
    using r(1) i by (auto simp: pmmpthread_prepared_entry_late_bindings_def prepare_class_constants_def cbind_Copied)
  obtain c1 where c1: "tracked E p c1 st1" "same_kind c2 c1" "?h c1 = ?h c2"
    using tracked_on [OF field_relation [of ?h] keeps_stateD [OF class_frame.keeps_property_table [OF fr] s(1)] t(1)] by (auto simp: same_kind_def)
  obtain c3 where c3: "tracked E p c3 st2" "same_kind c1 c3" "?h c3 = ?h c1"
    using tracked_on [OF field_relation [of ?h] keeps_stateD [OF class_frame.keeps_statics_table [OF fr] s(2)] c1(1)] by (auto simp: same_kind_def)
  obtain c4 where c4: "tracked E p c4 st4" "same_kind c3 c4" "?g c4 = ?g c3"
    using tracked_on [OF field_relation [of ?g] keeps_stateD [OF class_frame.keeps_constants [OF fr] s(3) [folded prepare_class_constants_def]] c3(1)]
    by (auto simp: same_kind_def)
  have "names (cl_constants c4) = names (cl_constants ca)"
    using constants_tracked [OF X s(3) c3(1)] c3(3) c1(3) t(2,3) tracked_unique [OF c4(1)] by auto
  moreover have "tracked E p c4 st'"
    by (rule tracked_unchanged [OF keeps_stateD [OF copy_frame.keeps_each [OF class_frame.axioms(1) [OF class_rel_on_frame [OF equal_relation X]]] r(2)] c4(1)])
      (auto intro: class_frame.keeps_scope [OF class_rel_on_frame [OF equal_relation X]])
  ultimately show ?thesis using c1(2,3) c3(2,3) c4(2,3) same_kind_trans by (intro exI [of _ c4]) auto
qed

section \<open>Properties\<close>

text \<open>
  C21: A class is prepared once per thread: whatever creating it does the first time, afterwards it is registered under its name, and creating it again,
  with or without late bindings, returns the registered class and changes nothing. The class is one of a user and is not an immutable anonymous
  class that is still to be linked (\<open>settled\<close>).
\<close>

theorem class_prepared_once:
  assumes "class_wf E st" "ce_classes (pe_copy E) c = Some ca" "\<not> cl_internal ca" "\<not> cl_preloaded ca" "settled ca"
    and "pmmpthread_create_entry n E c late st = Copied (q, st')"
  shows "\<exists>p. q = Some p \<and> map_of (cs_class_table st') (class_name ca) = Some p \<and>
    pmmpthread_create_entry (Suc m) E c late' st' = Copied (Some p, st')"
proof -
  from create_entry_result [OF assms(1-4,6)] assms(5) obtain p e where
    "q = Some p" "map_of (cs_class_table st') (class_name ca) = Some p" "class_at (pe_copy E) st' c = Some ca"
    "class_at (pe_copy E) st' p = Some e" "\<not> newly_linked ca e" by blast
  then show ?thesis using assms(3,4) by (simp add: class_name_def)
qed

text \<open>
  C23: Preparing a class leaves the other classes alone: the class table stays well formed (each name once, leading to a class of that name); names that
  are registered stay registered, and for the same class unless this is an immutable class of the creator that is anonymous and not linked
  (\<open>replaceable\<close>), the one kind of entry that the linked class may overwrite; own classes that are complete or not registered yet are not changed in any
  way, and the table of functions stays as it is.
\<close>

theorem class_preparation_frame:
  assumes "class_wf E st" "pmmpthread_create_entry n E c late st = Copied (q, st')"
  shows "class_wf E st' \<and>
    (\<forall>s a. map_of (cs_class_table st) s = Some a \<longrightarrow>
      map_of (cs_class_table st') s = Some a \<or> replaceable E a \<and> map_of (cs_class_table st') s \<noteq> None) \<and>
    (\<forall>a d. cs_classes st a = Some d \<and> (finished d \<or> \<not> registered st a) \<longrightarrow> cs_classes st' a = Some d) \<and>
    cs_function_table st' = cs_function_table st"
proof -
  note d = class_relD [OF keepsD [OF create_entry_rel assms(2)] assms(1)]
  have "cs_classes st' a = Some e" if "cs_classes st a = Some e" "finished e \<or> \<not> registered st a" for a e
    using d(5) [OF that(1)] that(2) by (auto simp: class_step_def)
  then show ?thesis using d(1,3,4) by blast
qed

text \<open>
  C22: The copy of a linked class mirrors the class of the creator: it is a new class with the name, the flags, the handlers, the methods and the
  constants of the original, by name and in the same order, and its parent is the class that is registered on this thread under the
  name of the parent of the original, or one of the immutable anonymous classes that are not linked (\<open>replaceable\<close>).
\<close>

theorem class_copy_mirrors:
  assumes w: "class_wf E st" and ca: "ce_classes (pe_copy E) c = Some ca" "\<not> cl_internal ca" "\<not> cl_preloaded ca"
    and f: "\<not> cl_immutable ca" "cl_linked ca" "map_of (cs_class_table st) (class_name ca) = None"
    and d: "distinct (names (cl_function_table ca))" "distinct (names (cl_constants ca))"
    and r: "pmmpthread_create_entry n E c True st = Copied (q, st')"
  shows "\<exists>p e. q = Some p \<and> cs_classes st p = None \<and> cs_classes st' p = Some e \<and> zs_val (cl_name e) = zs_val (cl_name ca) \<and> same_flags ca e \<and>
    cl_handlers e = cl_handlers ca \<and> names (cl_function_table e) = names (cl_function_table ca) \<and> names (cl_constants e) = names (cl_constants ca) \<and>
    (\<forall>a pa. class_parent_ptr ca = Some a \<and> ce_classes (pe_copy E) a = Some pa \<and> \<not> cl_internal pa \<and> \<not> cl_preloaded pa \<and>
        class_name pa \<noteq> class_name ca \<longrightarrow>
      (\<exists>b. class_parent_ptr e = Some b \<and> (map_of (cs_class_table st') (class_name pa) = Some b \<or> replaceable E b)))"
proof (cases n)
  case (Suc m)
  define X where "X = (pe_copy E)\<lparr>ce_class := (\<lambda>c. pmmpthread_create_entry m E c True)\<rparr>"
  have Y: "keeps (class_rel E {}) st (ce_class X c st)" for c st by (simp add: X_def create_entry_rel)
  let ?st1 = "zend_map_ptr_extend (pe_map_ptr_last E) st" and ?comments = "has_option (pe_options E) PMMPTHREAD_INHERIT_COMMENTS"
  have at: "class_at (pe_copy E) st c = Some ca" using class_wfD(5) [OF w ca(1)] ca(1) by (simp add: class_at_def)
  obtain p st2 st4 e4 where b: "pmmpthread_copy_entry m X ?comments ca ?st1 = Copied (p, st2)"
    "pmmpthread_prepared_entry_late_bindings m X ?comments c ca p (register_class (class_name ca) p st2) = Copied st4"
    "cs_classes st4 p = Some e4" "each (\<lambda>(_, f). pmmpthread_update_function_scope X f c p) (cl_function_table e4) st4 = Copied st'" "q = Some p"
    using r at ca(2,3) f(1,3) unfolding Suc X_def by (auto simp: Let_def create_new_entry_def class_name_def cbind_Copied split: option.splits)
  have s1: "class_rel E {} st ?st1" by (rule class_rel_code) (simp add: zend_map_ptr_extend_def)
  note w1 = class_relD(1) [OF s1 w]
  note ce = copy_entry_rel [OF Y w1 f(1) b(1)]
  from copy_entry_tracked [OF X_def w1 f(1,2) d(1) b(1)] obtain c2 where c2: "tracked E p c2 st2" "cl_handlers c2 = cl_handlers ca"
    "names (cl_function_table c2) = names (cl_function_table ca)" "cl_constants c2 = []"
    and par: "\<And>a pa. class_parent_ptr ca = Some a \<Longrightarrow> ce_classes (pe_copy E) a = Some pa \<Longrightarrow> \<not> cl_internal pa \<Longrightarrow> \<not> cl_preloaded pa \<Longrightarrow>
      \<exists>b. class_parent_ptr c2 = Some b \<and> (map_of (cs_class_table st2) (class_name pa) = Some b \<or> replaceable E b)" by blast
  let ?st3 = "register_class (class_name ca) p st2"
  have c: "cs_classes st2 p = Some c2" "same_flags ca c2" "zs_val (cl_name c2) = zs_val (cl_name ca)" using ce(4) c2(1) by (auto simp: tracked_def)
  have n: "cs_classes st p = None" using ce(1) class_wf_fresh [OF w] by (simp add: zend_map_ptr_extend_def)
  have np: "\<not> replaceable E p" using own_not_replaceable [of E st2 p c2] c2(1) by (simp add: tracked_def)
  have "class_rel E {} st ?st3"
    by (rule class_rel_register [where c = c2, OF class_rel_trans [OF s1 ce(2)] _ _ _ _ n]) (simp_all add: class_at_def c class_name_def np f(3) [unfolded class_name_def])
  note w3 = class_relD(1) [OF this w]
  have t3: "tracked E p c2 ?st3" using w3 c(1,2) f(2) by (simp add: tracked_def register_class_def finished_def same_flags_def)
  obtain e where e: "tracked E p e st'" "same_kind c2 e" "cl_parent e = cl_parent c2" "cl_handlers e = cl_handlers c2"
    "cl_function_table e = cl_function_table c2" "names (cl_constants e) = names (cl_constants ca)"
    using late_bound_tracked [OF Y f(1) b(2,4) t3 c2(4) d(2)] by blast
  have "class_rel E {p} ?st3 st'"
    by (rule class_rel_trans [OF late_bindings_rel [OF Y b(2)] scopes_rel [OF Y b(4)]])
  note table = class_relD(4) [OF this w3]
  have "\<exists>b. class_parent_ptr e = Some b \<and> (map_of (cs_class_table st') (class_name pa) = Some b \<or> replaceable E b)"
    if "class_parent_ptr ca = Some a" "ce_classes (pe_copy E) a = Some pa" "\<not> cl_internal pa" "\<not> cl_preloaded pa" "class_name pa \<noteq> class_name ca" for a pa
    using par [OF that(1-4)] table [of "class_name pa"] that(5) e(3) by (fastforce simp: register_class_def map_of_table_update class_parent_ptr_def)
  moreover have "cs_classes st' p = Some e" using e(1) by (simp add: tracked_def)
  moreover have "same_flags ca e" by (rule same_flags_kind [OF c(2) e(2)])
  moreover have "zs_val (cl_name e) = zs_val (cl_name ca)" using c(3) e(2) by (simp add: same_kind_def)
  ultimately show ?thesis using b(5) n e(4-6) c2(2,3) by auto
qed (use r in simp)

lemma copy_slot_data:
  assumes "data_slot s" "interned_ok st"
  shows "if copyable_slot s then \<exists>u st'. copy_zval_slot n X s st = Copied (u, st') \<and> extends st st' \<and> copied_slot (own_string st st') s u
    else copy_zval_slot n X s st = Stuck"
proof -
  obtain v where v: "s = Slot v" "data_val v" using assms(1) by (auto simp: data_slot_def split: static_slot.splits)
  obtain r st' where r: "copy_value n X v st = Copied (r, st')" "extends st st'" "r = None \<longleftrightarrow> \<not> copyable v"
    "\<And>u. r = Some u \<Longrightarrow> content u = content v \<and> strings_val (own_string st st') u"
    using copy_data(1) [OF v(2) assms(2), of X "closure_copier n X"] unfolding copy_value_def by blast
  then show ?thesis by (cases r) (auto simp: v(1) copyable_slot_def)
qed

lemma put_statics_extends: "extends st st1 \<Longrightarrow> extends (put_statics p t st) (put_statics p t st1)"
  unfolding extends_def put_statics_def by simp

lemma put_statics_strings [simp]:
  "own_string (put_statics p t st) st1 = own_string st st1" "own_string st (put_statics p t st1) = own_string st st1"
  "interned_ok (put_statics p t st) = interned_ok st"
  by (simp_all add: put_statics_def own_string_def interned_ok_def fun_eq_iff)

lemma copy_slots:
  assumes "cs_classes st p = Some c" "interned_ok st" "\<And>i. i \<in> set is \<Longrightarrow> data_slot (cl_static_members ca ! i) \<and> copyable_slot (cl_static_members ca ! i)"
  shows "\<exists>st' t. each (prepare_static n X ca p) is st = Copied st' \<and> extends (put_statics p t st) st' \<and> length t = length (cl_static_members c) \<and>
    (\<forall>i < length t. if i \<in> set is then copied_slot (own_string st st') (cl_static_members ca ! i) (t ! i) else t ! i = cl_static_members c ! i)"
  using assms
proof (induction "is" arbitrary: st c)
  case Nil
  then show ?case by (intro exI [of _ st] exI [of _ "cl_static_members c"]) (simp add: put_statics_same extends_refl)
next
  case (Cons j "is")
  from copy_slot_data [of "cl_static_members ca ! j" st n X] Cons.prems(2,3) obtain u st1 where
    u: "copy_zval_slot n X (cl_static_members ca ! j) st = Copied (u, st1)" "extends st st1" "copied_slot (own_string st st1) (cl_static_members ca ! j) u" by auto
  let ?t = "(cl_static_members c)[j := u]"
  have c1: "cs_classes st1 p = Some c" using u(2) Cons.prems(1) by (simp add: extends_def)
  have i1: "interned_ok (put_statics p ?t st1)" using extends_interned [OF u(2)] by simp
  have d1: "\<And>i. i \<in> set is \<Longrightarrow> data_slot (cl_static_members ca ! i) \<and> copyable_slot (cl_static_members ca ! i)" by (rule Cons.prems(3)) simp
  from Cons.IH [OF put_statics_class [OF c1] i1 d1] obtain st' t where
    t: "each (prepare_static n X ca p) is (put_statics p ?t st1) = Copied st'" "extends (put_statics p t st1) st'"
      "length t = length (cl_static_members c)"
      "\<And>i. i < length t \<Longrightarrow> if i \<in> set is then copied_slot (own_string st1 st') (cl_static_members ca ! i) (t ! i) else t ! i = ?t ! i" by (auto cong: if_cong)
  have e: "extends (put_statics p t st) (put_statics p t st1)" using u(2) by (rule put_statics_extends)
  have "own_string st st' x" if "own_string st st1 x" for x
    using own_later [OF t(2), of st x] that by simp
  note first = copied_slot_mono [OF u(3) this]
  have "own_string st st' x" if "own_string st1 st' x" for x
    using own_earlier [OF e t(2), of x] that by simp
  then have later: "copied_slot (own_string st1 st') a b \<Longrightarrow> copied_slot (own_string st st') a b" for a b using copied_slot_mono by blast
  have "each (prepare_static n X ca p) (j # is) st = Copied st'"
    using u(1) t(1) set_static_eq [OF c1] by (simp add: prepare_static_def)
  moreover have "if i \<in> set (j # is) then copied_slot (own_string st st') (cl_static_members ca ! i) (t ! i) else t ! i = cl_static_members c ! i" if "i < length t" for i
    using t(4) [OF that] first later t(3) that by (cases "i = j") (auto split: if_splits)
  ultimately show ?case using t(3) extends_trans [OF e t(2)] by (intro exI [of _ st'] exI [of _ t]) auto
qed

lemma copy_slots_stuck:
  assumes "cs_classes st p = Some c" "interned_ok st" "\<And>i. i \<in> set is \<Longrightarrow> data_slot (cl_static_members ca ! i)"
    and "\<exists>i \<in> set is. \<not> copyable_slot (cl_static_members ca ! i)"
  shows "each (prepare_static n X ca p) is st = Stuck"
  using assms
proof (induction "is" arbitrary: st c)
  case (Cons j "is")
  show ?case
  proof (cases "copyable_slot (cl_static_members ca ! j)")
    case True
    from copy_slot_data [of "cl_static_members ca ! j" st n X] Cons.prems(2,3) True obtain u st1 where
      u: "copy_zval_slot n X (cl_static_members ca ! j) st = Copied (u, st1)" "extends st st1" by auto
    have c1: "cs_classes st1 p = Some c" using u(2) Cons.prems(1) by (simp add: extends_def)
    show ?thesis
      using Cons.IH [OF put_statics_class [OF c1], of "(cl_static_members c)[j := u]"] extends_interned [OF u(2)] Cons.prems(3,4) True u(1) set_static_eq [OF c1]
      by (simp add: prepare_static_def)
  next
    case False
    then show ?thesis using copy_slot_data [of "cl_static_members ca ! j" st n X] Cons.prems(2,3) by (simp add: prepare_static_def)
  qed
qed simp

text \<open>
  C24: The static members of a linked class whose own ones hold no thread-safe object, closure or enum case. When each of its own values
  can be copied, preparing them ends: the slots that the class inherits lead to the slot of the same number of the class that
  declares the member, never to another reference, so that the member is shared by the whole hierarchy; the slots it declares itself
  hold copies with the content of the values of the creator, and every string in them is permanent, newly allocated or was interned on the thread
  before, so that no memory of the creator is left in them; no other class changes. When one of its own values cannot be copied, such as
  that of a typed member without a default, an assertion fails.
\<close>

theorem class_statics_shared:
  assumes pr: "cs_classes st p = Some pr" "cl_linked pr" "interned_ok st"
    and an: "ancestors X st (class_parent_ptr pr) as" "sorted_wrt (\<ge>) (map snd as)" "p \<notin> fst ` set as" "length as \<le> n"
    and ca: "inherited_slots as \<le> length (cl_static_members ca)"
    and data: "\<forall>i. inherited_slots as \<le> i \<and> i < length (cl_static_members ca) \<longrightarrow> data_slot (cl_static_members ca ! i)"
  shows "if \<forall>i. inherited_slots as \<le> i \<and> i < length (cl_static_members ca) \<longrightarrow> copyable_slot (cl_static_members ca ! i)
    then \<exists>st' t. prepare_class_statics n X ca p st = Copied st' \<and> cs_classes st' = (cs_classes st)(p \<mapsto> pr\<lparr>cl_static_members := t\<rparr>) \<and>
      length t = length (cl_static_members ca) \<and>
      (\<forall>i < length t. if i < inherited_slots as then t ! i = Slot_indirect (slot_owner as i) i
        else copied_slot (own_string st st') (cl_static_members ca ! i) (t ! i))
    else prepare_class_statics n X ca p st = Stuck"
proof (cases "cl_static_members ca = []")
  case True
  then show ?thesis using pr(1) by (auto simp: prepare_class_statics_def upd_class_def)
next
  case False
  let ?t0 = "cl_static_members ca" and ?lo = "inherited_slots as" and ?is = "rev [inherited_slots as..<length (cl_static_members ca)]"
  let ?st = "put_statics p ?t0 st"
  have i: "interned_ok ?st" using pr(3) by simp
  have d: "\<And>j. j \<in> set ?is \<Longrightarrow> data_slot (?t0 ! j)" using data by simp
  have step: "prepare_class_statics n X ca p st = cbind (each (prepare_static n X ca p) ?is ?st) (\<lambda>st2. link_statics n X p (class_parent_ptr pr) ?lo st2)"
    using pr(1,2) False ca statics_count_ancestors [OF ancestors_put [OF an(3,1)]]
    by (simp add: prepare_class_statics_def Let_def upd_class_def put_statics_def min_absorb2)
  show ?thesis
  proof (cases "\<forall>i. ?lo \<le> i \<and> i < length ?t0 \<longrightarrow> copyable_slot (?t0 ! i)")
    case copy: False
    then have "\<exists>i \<in> set ?is. \<not> copyable_slot (?t0 ! i)" by auto
    from copy_slots_stuck [OF put_statics_class [OF pr(1)] i d this, of n X] show ?thesis using copy step by simp
  next
    case copy: True
    then have d: "\<And>j. j \<in> set ?is \<Longrightarrow> data_slot (?t0 ! j) \<and> copyable_slot (?t0 ! j)" using d by simp
    obtain st1 t1 where 1: "each (prepare_static n X ca p) ?is ?st = Copied st1" "cs_classes st1 = cs_classes (put_statics p t1 st)"
      "length t1 = length ?t0" "\<And>j. j < length t1 \<Longrightarrow> if ?lo \<le> j then copied_slot (own_string st st1) (?t0 ! j) (t1 ! j) else t1 ! j = ?t0 ! j"
      using copy_slots [of ?st p "pr\<lparr>cl_static_members := ?t0\<rparr>" ?is ca n X, OF put_statics_class [OF pr(1)] i d] by (auto simp: extends_def cong: if_cong)
    have c1: "cs_classes st1 p = Some (pr\<lparr>cl_static_members := t1\<rparr>)" using put_statics_class [OF pr(1)] 1(2) by simp
    have "class_at X st1 = class_at X (put_statics p t1 st)" using 1(2) by (intro ext) (simp add: class_at_def)
    then have "ancestors X st1 a bs \<longleftrightarrow> ancestors X (put_statics p t1 st) a bs" for a bs
      by (induction bs arbitrary: a) (auto split: option.splits)
    then have a1: "ancestors X st1 (class_parent_ptr pr) as" using ancestors_put [OF an(3,1)] by blast
    obtain t where t: "link_statics n X p (class_parent_ptr pr) ?lo st1 = Copied (put_statics p t st1)" "length t = length t1"
      "\<And>j. j < length t \<Longrightarrow> t ! j = (if j < ?lo then Slot_indirect (slot_owner as j) j else t1 ! j)"
      using link_statics_correct [OF a1 an(2-4) c1] ca 1(3) by auto
    have "prepare_class_statics n X ca p st = Copied (put_statics p t st1)" using step 1(1) t(1) by simp
    moreover have "cs_classes (put_statics p t st1) = (cs_classes st)(p \<mapsto> pr\<lparr>cl_static_members := t\<rparr>)"
      using 1(2) pr(1) by (simp add: put_statics_def)
    moreover have "if j < ?lo then t ! j = Slot_indirect (slot_owner as j) j else copied_slot (own_string st st1) (?t0 ! j) (t ! j)"
      if "j < length t" for j
      using t(3) [OF that] 1(4) [of j] t(2) that by (auto split: if_splits)
    ultimately show ?thesis
      unfolding if_P [OF copy] using t(2) 1(3) by (intro exI [of _ "put_statics p t st1"] exI [of _ t]) (simp cong: if_cong)
  qed
qed

section \<open>Witnesses\<close>

text \<open>A class with a method and a static member, and a class that extends it, with a static member and a constant of its own.\<close>

definition demo_class :: "string \<Rightarrow> class_entry" where
  "demo_class name = (zend_initialize_class_data (demo_zstr 20 name False) False)\<lparr>cl_linked := True\<rparr>"

definition demo_parent :: class_entry where
  "demo_parent = (demo_class ''Base'')\<lparr>cl_function_table := [(demo_zstr 21 ''run'' False, 500)], cl_static_members := [Slot (V_LONG 7)]\<rparr>"

definition demo_child :: class_entry where
  "demo_child = (demo_class ''Task'')\<lparr>cl_parent := Parent 700, cl_static_members := [Slot_indirect 700 0, Slot (V_LONG 8)],
     cl_constants := [(demo_zstr 22 ''MAX'' False,
       \<lparr>cc_value = V_LONG 9, cc_is_case = False, cc_backing = None, cc_ce = Some 701, cc_doc = None, cc_attributes = None, cc_type = Type_mask 0\<rparr>)]\<rparr>"

definition demo_prep_env :: "zval btable prep_env" where
  "demo_prep_env = \<lparr>pe_copy = demo_copy_env\<lparr>ce_classes := [700 \<mapsto> demo_parent, 701 \<mapsto> demo_child]\<rparr>, pe_options = PMMPTHREAD_INHERIT_ALL,
     pe_class_table = [(''base'', 700), (''task'', 701)], pe_map_ptr_last = 5\<rparr>"

definition demo_prepared :: "(ptr \<times> zval btable copy_state) copied" where
  "demo_prepared = pmmpthread_create_entry 3 demo_prep_env 701 True demo_copy_state"

definition copied_ok :: "'a copied \<Rightarrow> bool" where
  "copied_ok r = (case r of Copied _ \<Rightarrow> True | _ \<Rightarrow> False)"

lemmas prepare_defs =
  create_new_entry_def pmmpthread_copy_entry_def pmmpthread_complete_entry_def pmmpthread_prepared_entry_late_bindings_def
  prepare_class_property_table_def prepare_class_statics_def prepare_class_constants_def prepare_class_constant_def copy_constant_value_def
  prepare_class_function_table_def prepare_class_function_def prepare_class_traits_def prepare_class_handlers_def prepare_class_interceptors_def
  complete_parent_def complete_interfaces_def pmmpthread_update_function_scope_def write_function_def upd_class_def upd_constant_def
  set_static_def prepare_static_def class_parent_ptr_def statics_count_def copy_value_def prepare_opt_class_def register_class_def
  zend_map_ptr_extend_def copy_opt_filename_def copy_opt_list_def copy_ce_flags_def zend_initialize_class_data_def str_add_def str_find_def
  str_find_entry_def class_at_def function_at_def newly_linked_def copy_opt_def copy_opt_string_def alloc_def new_string_def
  pmmpthread_copy_string_def set_func_refs_def find_interceptor_def

lemmas copy_function_defs =
  pmmpthread_copy_function_def function_known_def function_register_def pmmpthread_copy_user_function_def copy_code_def code_memory_def
  copy_filename_def zend_new_interned_string_def

lemma demo_lower: "zend_string_tolower ''Base'' = ''base''" "zend_string_tolower ''Task'' = ''task''"
  by code_simp+

lemma demo_prepared_ok: "copied_ok demo_prepared"
  unfolding demo_prepared_def copied_ok_def numeral_3_eq_3
  by (simp add: demo_prep_env_def demo_copy_env_def demo_parent_def demo_child_def demo_class_def demo_copy_state_def Let_def demo_lower prepare_defs
      copy_function_defs demo_zstr_def demo_function_def)

lemma demo_class_wf: "class_wf demo_prep_env demo_copy_state"
  using demo_interned
  by (auto simp: class_wf_def demo_prep_env_def demo_copy_env_def demo_copy_state_def demo_parent_def demo_child_def
      demo_class_def zend_initialize_class_data_def)

lemma demo_origin: "ce_classes (pe_copy demo_prep_env) 701 = Some demo_child" "ce_classes (pe_copy demo_prep_env) 700 = Some demo_parent"
  "\<not> cl_internal demo_child" "\<not> cl_preloaded demo_child" "\<not> cl_internal demo_parent" "\<not> cl_preloaded demo_parent"
  "class_name demo_child = ''task''" "class_name demo_parent = ''base''" "class_parent_ptr demo_child = Some 700"
  by (simp_all add: demo_prep_env_def demo_child_def demo_parent_def demo_class_def zend_initialize_class_data_def class_name_def demo_zstr_def demo_lower
      class_parent_ptr_def)

theorem class_prepared_once_witness:
  "\<exists>p st'. demo_prepared = Copied (Some p, st') \<and> map_of (cs_class_table st') ''task'' = Some p \<and>
     pmmpthread_create_entry (Suc 0) demo_prep_env 701 False st' = Copied (Some p, st')"
proof -
  obtain q st' where r: "demo_prepared = Copied (q, st')" using demo_prepared_ok by (auto simp: copied_ok_def split: copied.splits)
  have "settled demo_child" by (simp add: settled_def demo_child_def demo_class_def zend_initialize_class_data_def)
  from class_prepared_once [OF demo_class_wf demo_origin(1,3,4) this r [unfolded demo_prepared_def], of 0 False] r demo_origin(7) show ?thesis by auto
qed

text \<open>An immutable anonymous class that is registered before it is linked, and the linked class that replaces it.\<close>

definition demo_unlinked :: class_entry where
  "demo_unlinked = (demo_class ''Base'')\<lparr>cl_anon := True, cl_immutable := True, cl_linked := False\<rparr>"

definition demo_anon_env :: "zval btable prep_env" where
  "demo_anon_env = demo_prep_env\<lparr>pe_copy := demo_copy_env\<lparr>ce_classes := [700 \<mapsto> demo_unlinked, 701 \<mapsto> demo_unlinked\<lparr>cl_linked := True\<rparr>]\<rparr>\<rparr>"

definition demo_anon_state :: "zval btable copy_state" where
  "demo_anon_state = demo_copy_state\<lparr>cs_class_table := [(''base'', 700)]\<rparr>"

lemma demo_anon_wf: "class_wf demo_anon_env demo_anon_state"
  using demo_interned
  by (auto simp: class_wf_def demo_anon_env_def demo_anon_state_def demo_prep_env_def demo_copy_env_def demo_copy_state_def demo_unlinked_def
      demo_class_def zend_initialize_class_data_def class_at_def demo_zstr_def demo_lower interned_ok_def split: if_splits)

theorem class_preparation_frame_witness:
  "(\<exists>q st'. demo_prepared = Copied (q, st') \<and> class_wf demo_prep_env st' \<and> cs_function_table st' = []) \<and>
   (\<exists>st'. pmmpthread_create_entry 1 demo_anon_env 701 False demo_anon_state = Copied (Some 701, st') \<and> class_wf demo_anon_env st' \<and>
      cs_class_table st' = [(''base'', 701)] \<and> replaceable demo_anon_env 700)"
proof -
  obtain q st' where r: "demo_prepared = Copied (q, st')" using demo_prepared_ok by (auto simp: copied_ok_def split: copied.splits)
  have 1: "class_wf demo_prep_env st'" "cs_function_table st' = []"
    using class_preparation_frame [OF demo_class_wf r [unfolded demo_prepared_def]] by (auto simp: demo_copy_state_def)
  obtain st2 where r2: "pmmpthread_create_entry 1 demo_anon_env 701 False demo_anon_state = Copied (Some 701, st2)" "cs_class_table st2 = [(''base'', 701)]"
    by (simp add: demo_anon_env_def demo_anon_state_def demo_prep_env_def demo_copy_env_def demo_copy_state_def demo_unlinked_def demo_class_def
        zend_initialize_class_data_def class_at_def demo_zstr_def demo_lower Let_def newly_linked_def create_new_entry_def register_class_def
        zend_map_ptr_extend_def pmmpthread_prepare_immutable_class_dependencies_def class_parent_ptr_def class_interface_ptrs_def)
  have "replaceable demo_anon_env 700"
    by (simp add: replaceable_def settled_def finished_def demo_anon_env_def demo_unlinked_def)
  then show ?thesis using r 1 r2 class_preparation_frame [OF demo_anon_wf r2(1)] by blast
qed

theorem class_copy_mirrors_witness:
  "\<exists>p e b st'. demo_prepared = Copied (Some p, st') \<and> cs_classes st' p = Some e \<and> zs_val (cl_name e) = ''Task'' \<and> names (cl_constants e) = [''MAX''] \<and>
     class_parent_ptr e = Some b \<and> map_of (cs_class_table st') ''base'' = Some b"
proof -
  obtain q st' where r: "demo_prepared = Copied (q, st')" using demo_prepared_ok by (auto simp: copied_ok_def split: copied.splits)
  have f: "\<not> cl_immutable demo_child" "cl_linked demo_child" "map_of (cs_class_table demo_copy_state) (class_name demo_child) = None"
    "distinct (names (cl_function_table demo_child))" "distinct (names (cl_constants demo_child))" "zs_val (cl_name demo_child) = ''Task''"
    "names (cl_constants demo_child) = [''MAX'']"
    by (simp_all add: demo_child_def demo_class_def zend_initialize_class_data_def demo_copy_state_def demo_zstr_def)
  from class_copy_mirrors [OF demo_class_wf demo_origin(1,3,4) f(1-5) r [unfolded demo_prepared_def]] obtain p e where
    e: "q = Some p" "cs_classes st' p = Some e" "zs_val (cl_name e) = ''Task''" "names (cl_constants e) = [''MAX'']"
    "\<exists>b. class_parent_ptr e = Some b \<and> (map_of (cs_class_table st') ''base'' = Some b \<or> replaceable demo_prep_env b)"
    using demo_origin(2,5-9) f(6,7) by auto
  have "\<not> replaceable demo_prep_env b" for b
    by (simp add: replaceable_def settled_def finished_def demo_prep_env_def demo_parent_def demo_child_def demo_class_def zend_initialize_class_data_def
        split: option.split)
  with e have "\<exists>b. class_parent_ptr e = Some b \<and> map_of (cs_class_table st') ''base'' = Some b" by blast
  with e show ?thesis using r by blast
qed

definition demo_linked_state :: "zval btable copy_state" where
  "demo_linked_state = demo_copy_state\<lparr>cs_classes := [1000 \<mapsto> demo_parent, 1001 \<mapsto> demo_child\<lparr>cl_parent := Parent 1000\<rparr>]\<rparr>"

definition demo_static :: class_entry where
  "demo_static = demo_child\<lparr>cl_static_members := [Slot_indirect 700 0, Slot (V_STRING (demo_zstr 23 ''s'' False))]\<rparr>"

theorem class_statics_shared_witness:
  "\<exists>st' c u. prepare_class_statics 1 demo_copy_env demo_static 1001 demo_linked_state = Copied st' \<and> cs_classes st' 1001 = Some c \<and>
     cl_static_members c = [Slot_indirect 1000 0, Slot u] \<and> content u = V_STRING (erase (demo_zstr 23 ''s'' False)) \<and>
     strings_val (own_string demo_linked_state st') u"
proof -
  let ?pr = "demo_child\<lparr>cl_parent := Parent 1000\<rparr>"
  have pr: "cs_classes demo_linked_state 1001 = Some ?pr" "cl_linked ?pr" "interned_ok demo_linked_state"
    using demo_interned by (simp_all add: demo_linked_state_def demo_child_def demo_class_def interned_ok_def)
  have an: "ancestors demo_copy_env demo_linked_state (class_parent_ptr ?pr) [(1000, 1)]" "sorted_wrt (\<ge>) (map snd [(1000 :: nat, 1 :: nat)])"
    "1001 \<notin> fst ` set [(1000 :: nat, 1 :: nat)]" "length [(1000 :: nat, 1 :: nat)] \<le> 1"
    by (simp_all add: class_parent_ptr_def class_at_def demo_linked_state_def demo_parent_def demo_class_def zend_initialize_class_data_def)
  let ?s = "V_STRING (demo_zstr 23 ''s'' False)"
  have s: "cl_static_members demo_static = [Slot_indirect 700 0, Slot ?s]" by (simp add: demo_static_def)
  have c: "inherited_slots [(1000, 1)] \<le> length (cl_static_members demo_static)"
    "\<forall>j. inherited_slots [(1000, 1)] \<le> j \<and> j < length (cl_static_members demo_static) \<longrightarrow> data_slot (cl_static_members demo_static ! j)"
    and k: "\<forall>j. inherited_slots [(1000, 1)] \<le> j \<and> j < length (cl_static_members demo_static) \<longrightarrow> copyable_slot (cl_static_members demo_static ! j)"
    by (auto simp: inherited_slots_def s data_slot_def copyable_slot_def less_Suc_eq)
  from class_statics_shared [OF pr an c, unfolded if_P [OF k]] obtain st' t where
    t: "prepare_class_statics 1 demo_copy_env demo_static 1001 demo_linked_state = Copied st'"
      "cs_classes st' 1001 = Some (?pr\<lparr>cl_static_members := t\<rparr>)" "length t = 2" "t ! 0 = Slot_indirect 1000 0"
      "copied_slot (own_string demo_linked_state st') (Slot ?s) (t ! 1)"
    by (auto simp: inherited_slots_def slot_owner_def s less_Suc_eq)
  then obtain v where v: "t ! 1 = Slot v" "content v = V_STRING (erase (demo_zstr 23 ''s'' False))" "strings_val (own_string demo_linked_state st') v"
    by (cases "t ! 1") auto
  have "t = [t ! 0, t ! 1]" using t(3) by (auto simp: list_eq_iff_nth_eq less_Suc_eq numeral_2_eq_2)
  then show ?thesis using t v by (intro exI [of _ st'] exI [of _ "?pr\<lparr>cl_static_members := t\<rparr>"] exI [of _ v]) simp
qed

end
