(* ===== verification/Startup_Correct.thy ===== *)
theory Startup_Correct
  imports Startup Prepare_Correct
begin

text \<open>
  What a new thread gets from its creator: the values of the directives, the constants, and, as its options say, functions, classes and included files.
  What the options leave out stays as the start of the request left it.
\<close>

section \<open>Loops\<close>

lemma each_invariant:
  assumes "each f xs st = Copied st'" "J st" "\<And>x st st'. x \<in> set xs \<Longrightarrow> J st \<Longrightarrow> f x st = Copied st' \<Longrightarrow> J st'"
  shows "J st'"
  using assms
proof (induction xs arbitrary: st)
  case (Cons x xs)
  from Cons.prems(1) obtain st1 where "f x st = Copied st1" "each f xs st1 = Copied st'" by (auto simp: cbind_Copied)
  note r = this
  have "J st1" by (rule Cons.prems(3) [OF _ Cons.prems(2) r(1)]) simp
  then show ?case by (rule Cons.IH [OF r(2)]) (rule Cons.prems(3), simp_all)
qed simp

text \<open>What a step establishes for its element and every step keeps holds for all elements at the end.\<close>

lemma each_reached:
  assumes "each f xs st = Copied st'" "J st" "\<And>x st st'. x \<in> set xs \<Longrightarrow> J st \<Longrightarrow> f x st = Copied st' \<Longrightarrow> J st' \<and> P x st'"
    and "\<And>x y st st'. x \<in> set xs \<Longrightarrow> y \<in> set xs \<Longrightarrow> J st \<Longrightarrow> P y st \<Longrightarrow> f x st = Copied st' \<Longrightarrow> P y st'"
  shows "J st' \<and> (\<forall>x. x \<in> set xs \<longrightarrow> P x st')"
  using assms
proof (induction xs arbitrary: st)
  case Nil
  have "st' = st" using Nil.prems(1) by simp
  then show ?case using Nil.prems(2) by simp
next
  case (Cons x xs)
  from Cons.prems(1) obtain st1 where r: "f x st = Copied st1" "each f xs st1 = Copied st'" by (auto simp: cbind_Copied)
  have 1: "J st1" "P x st1" using Cons.prems(2) Cons.prems(3) [of x st st1] r(1) by simp_all
  have "J st' \<and> P x st'"
  proof (rule each_invariant [OF r(2), of "\<lambda>st. J st \<and> P x st"])
    fix y st st' assume "y \<in> set xs" "J st \<and> P x st" "f y st = Copied st'"
    then show "J st' \<and> P x st'" using Cons.prems(3) [of y st st'] Cons.prems(4) [of y x st st'] by simp
  qed (simp add: 1)
  moreover have "J st' \<and> (\<forall>y. y \<in> set xs \<longrightarrow> P y st')"
  proof (rule Cons.IH [OF r(2) 1(1)])
    fix y st st' assume "y \<in> set xs" "J st" "f y st = Copied st'"
    then show "J st' \<and> P y st'" using Cons.prems(3) [of y st st'] by simp
  next
    fix y z st st' assume "y \<in> set xs" "z \<in> set xs" "J st" "P z st" "f y st = Copied st'"
    then show "P z st'" using Cons.prems(4) [of y z st st'] by simp
  qed
  ultimately show ?case by simp
qed

section \<open>Directives\<close>

text \<open>The change that is made to the directives \<open>ini\<close> of a thread for a directive of the creator, and the entry it leaves.\<close>

definition ini_change :: "(string \<times> zend_ini_entry) list \<Rightarrow> string \<times> zend_ini_entry \<Rightarrow> (string \<times> string) option" where
  "ini_change ini ne =
     (case map_of ini (fst ne) of
        None \<Rightarrow> None
      | Some e1 \<Rightarrow>
          (case (ie_value (snd ne), ie_value e1) of
             (Some v0, Some v1) \<Rightarrow> if c_str (zs_val v0) = c_str (zs_val v1) then None else Some (fst ne, zs_val v0)
           | _ \<Rightarrow> None))"

definition ini_changed :: "string \<Rightarrow> zend_ini_entry \<Rightarrow> zend_ini_entry \<Rightarrow> bool" where
  "ini_changed s e1 e' \<longleftrightarrow> (\<exists>v. ie_value e' = Some v \<and> zs_val v = s) \<and> ie_modified e' \<and> ie_modifiable e' = as_zend_bool (ie_modifiable e1) \<and>
     ie_orig_value e' = (if ie_modified e1 then ie_orig_value e1 else ie_value e1) \<and>
     ie_orig_modifiable e' = (if ie_modified e1 then ie_orig_modifiable e1 else ie_modifiable e1)"

definition ini_outcome :: "(string \<times> zend_ini_entry) list \<Rightarrow> 'h php_thread \<Rightarrow> string \<times> zend_ini_entry \<Rightarrow> bool" where
  "ini_outcome ini th' ne =
     (case ini_change ini ne of
        None \<Rightarrow> map_of (th_ini th') (fst ne) = map_of ini (fst ne)
      | Some (name, s) \<Rightarrow> \<exists>e1 e'. map_of ini name = Some e1 \<and> map_of (th_ini th') name = Some e' \<and> ini_changed s e1 e' \<and>
          (\<not> ie_modified e1 \<longrightarrow> name \<in> set (th_modified_ini th')))"

text \<open>A change is possible only if the directive has a callback.\<close>

definition callable_ini :: "(string \<times> zend_ini_entry) list \<Rightarrow> string \<times> zend_ini_entry \<Rightarrow> bool" where
  "callable_ini ini ne \<longleftrightarrow> ini_change ini ne = None \<or> (\<exists>e1. map_of ini (fst ne) = Some e1 \<and> ie_on_modify e1)"

lemma ini_change_name: "ini_change ini ne = Some (name, s) \<Longrightarrow> name = fst ne"
  by (auto simp: ini_change_def split: option.splits if_splits)

lemma ini_entry_step:
  assumes "interned_ok (th_code th)" "callable_ini (th_ini th) ne"
  shows "\<exists>th'. prepare_ini_entry ne th = Copied th' \<and> interned_ok (th_code th') \<and>
    (\<forall>k. k \<noteq> fst ne \<longrightarrow> map_of (th_ini th') k = map_of (th_ini th) k) \<and> set (th_modified_ini th) \<subseteq> set (th_modified_ini th') \<and>
    th_on_modify th' = th_on_modify th @ List.map_filter (ini_change (th_ini th)) [ne] \<and> ini_outcome (th_ini th) th' ne"
proof (cases "ini_change (th_ini th) ne")
  case None
  then have "prepare_ini_entry ne th = Copied th"
    by (auto simp: ini_change_def prepare_ini_entry_def split: option.splits if_splits prod.splits)
  then show ?thesis using assms(1) None by (simp add: ini_outcome_def List.map_filter_def)
next
  case (Some c)
  obtain name e0 where ne: "ne = (name, e0)" by force
  from Some obtain e1 v0 v1 where e: "map_of (th_ini th) name = Some e1" "ie_value e0 = Some v0" "ie_value e1 = Some v1"
    "c_str (zs_val v0) \<noteq> c_str (zs_val v1)" "c = (name, zs_val v0)" unfolding ne by (auto simp: ini_change_def split: option.splits if_splits)
  have m: "ie_on_modify e1" using assms(2) Some e(1) by (simp add: callable_ini_def ne)
  obtain nm st1 where n: "new_string name False False (th_code th) = (nm, st1)" by force
  obtain v st2 where v: "pmmpthread_copy_string v0 st1 = (v, st2)" by force
  have i1: "interned_ok st1" using n assms(1) by (auto simp: new_string_def interned_ok_def)
  note c = copy_string_ok [OF v i1]
  show ?thesis
    using Some e m n v c(1) extends_interned [OF c(2)]
    by (auto simp: prepare_ini_entry_def inherit_ini_value_def set_ini_def map_of_table_update ini_changed_def ini_outcome_def Let_def ne List.map_filter_def)
qed

lemma ini_change_cong: "map_of ini (fst ne) = map_of ini' (fst ne) \<Longrightarrow> ini_change ini ne = ini_change ini' ne"
  by (simp add: ini_change_def)

lemma ini_outcome_cong:
  assumes "map_of ini (fst ne) = map_of ini' (fst ne)" "map_of (th_ini th) (fst ne) = map_of (th_ini th') (fst ne)"
    and "set (th_modified_ini th) \<subseteq> set (th_modified_ini th')" "ini_outcome ini th ne"
  shows "ini_outcome ini' th' ne"
  using assms ini_change_cong [OF assms(1)] ini_change_name [of ini' ne] unfolding ini_outcome_def by (fastforce split: option.splits)

lemma ini_loop:
  assumes "distinct (map fst es)" "interned_ok (th_code th)" "\<And>ne. ne \<in> set es \<Longrightarrow> callable_ini (th_ini th) ne"
  shows "\<exists>th'. each prepare_ini_entry es th = Copied th' \<and>
    (\<forall>k. k \<notin> fst ` set es \<longrightarrow> map_of (th_ini th') k = map_of (th_ini th) k) \<and> set (th_modified_ini th) \<subseteq> set (th_modified_ini th') \<and>
    th_on_modify th' = th_on_modify th @ List.map_filter (ini_change (th_ini th)) es \<and> (\<forall>ne. ne \<in> set es \<longrightarrow> ini_outcome (th_ini th) th' ne)"
  using assms
proof (induction es arbitrary: th)
  case (Cons ne es)
  from ini_entry_step [OF Cons.prems(2), of ne] Cons.prems(3) [of ne] obtain th1 where
    t: "prepare_ini_entry ne th = Copied th1" "interned_ok (th_code th1)" "\<And>k. k \<noteq> fst ne \<Longrightarrow> map_of (th_ini th1) k = map_of (th_ini th) k"
      "set (th_modified_ini th) \<subseteq> set (th_modified_ini th1)"
      "th_on_modify th1 = th_on_modify th @ List.map_filter (ini_change (th_ini th)) [ne]" "ini_outcome (th_ini th) th1 ne"
    by auto
  have k: "map_of (th_ini th1) (fst x) = map_of (th_ini th) (fst x)" if "x \<in> set es" for x
    using that Cons.prems(1) by (intro t(3)) (metis distinct.simps(2) imageI list.map(2) list.set_map)
  note j = ini_change_cong [OF k]
  have c: "callable_ini (th_ini th1) x" if "x \<in> set es" for x
    using Cons.prems(3) [of x] k [OF that] j [OF that] that by (simp add: callable_ini_def)
  have f: "List.map_filter (ini_change (th_ini th1)) es = List.map_filter (ini_change (th_ini th)) es"
    using j by (simp add: List.map_filter_def cong: filter_cong)
  have d: "distinct (map fst es)" "fst ne \<notin> fst ` set es" using Cons.prems(1) by auto
  from Cons.IH [OF d(1) t(2) c] obtain th' where r: "each prepare_ini_entry es th1 = Copied th'"
    "\<forall>k. k \<notin> fst ` set es \<longrightarrow> map_of (th_ini th') k = map_of (th_ini th1) k" "set (th_modified_ini th1) \<subseteq> set (th_modified_ini th')"
    "th_on_modify th' = th_on_modify th1 @ List.map_filter (ini_change (th_ini th)) es"
    "\<And>x. x \<in> set es \<Longrightarrow> ini_outcome (th_ini th1) th' x"
    unfolding f by blast
  have "ini_outcome (th_ini th) th' ne" using ini_outcome_cong [OF refl _ r(3) t(6)] r(2) d(2) by simp
  moreover have "ini_outcome (th_ini th) th' x" if "x \<in> set es" for x by (rule ini_outcome_cong [OF k [OF that] refl order.refl r(5) [OF that]])
  moreover have "map_of (th_ini th') k = map_of (th_ini th) k" if "k \<notin> fst ` set (ne # es)" for k using r(2) t(3) [of k] that by simp
  moreover have "th_on_modify th' = th_on_modify th @ List.map_filter (ini_change (th_ini th)) (ne # es)"
    using r(4) t(5) by (simp add: List.map_filter_def)
  ultimately show ?case using t(1,4) r(1,3) by (intro exI [of _ th']) auto
qed (simp add: List.map_filter_def)

section \<open>Constants\<close>

definition inheritable :: "zend_constant \<Rightarrow> bool" where
  "inheritable c \<longleftrightarrow> zc_name c \<noteq> None \<and> (\<forall>r. zc_value c \<noteq> V_RESOURCE r)"

definition constant_copy :: "string \<Rightarrow> zend_constant \<Rightarrow> zend_constant \<Rightarrow> bool" where
  "constant_copy name c d \<longleftrightarrow> content (zc_value d) = content (zc_value c) \<and> zc_flags d = zc_flags c \<and> zc_module d = zc_module c \<and>
     map_option zs_val (zc_name d) = Some name"

text \<open>
  One constant is registered exactly if it can be inherited and neither its name nor its name in lower case is taken; if such a
  constant cannot be copied the thread ends.
\<close>

lemma constant_step:
  assumes "interned_ok (th_code th)" "inheritable c \<Longrightarrow> data_val (zc_value c)" "en_constant_key G name = Some name"
  shows "if inheritable c \<and> \<not> pmmpthread_constant_exists name th \<and> \<not> copyable (zc_value c)
    then \<exists>z. zc_name c = Some z \<and> prepare_constant n E G (name, c) th = Fatal (NonCopyableConstant (zs_val z))
    else \<exists>th'. prepare_constant n E G (name, c) th = Copied th' \<and> interned_ok (th_code th') \<and>
      (if inheritable c \<and> \<not> pmmpthread_constant_exists name th
       then \<exists>d. th_constants th' = th_constants th @ [(name, d)] \<and> copyable (zc_value c) \<and> constant_copy name c d
       else th_constants th' = th_constants th)"
proof (cases "inheritable c \<and> \<not> pmmpthread_constant_exists name th")
  case True
  then obtain z where z: "zc_name c = Some z" by (auto simp: inheritable_def)
  obtain nm st1 where n: "new_string name False False (th_code th) = (nm, st1)" by force
  have nm: "zs_val nm = name" "interned_ok st1" using n assms(1) by (auto simp: new_string_def interned_ok_def)
  from copy_data(1) [OF _ nm(2), of "zc_value c" "prepared_env n E" "closure_copier n (prepared_env n E)"] assms(2) True obtain r st2 where
    r: "pmmpthread_copy_zval (prepared_env n E) (closure_copier n (prepared_env n E)) (zc_value c) st1 = Copied (r, st2)"
    "extends st1 st2" "r = None \<longleftrightarrow> \<not> copyable (zc_value c)" "\<And>u. r = Some u \<Longrightarrow> content u = content (zc_value c)" by auto
  have e: "prepare_constant n E G (name, c) th = (case r of None \<Rightarrow> Fatal (NonCopyableConstant (zs_val z))
      | Some u \<Rightarrow> Copied (zend_register_constant G name (c\<lparr>zc_name := Some nm, zc_value := u\<rparr>) (th\<lparr>th_code := st2\<rparr>)))"
    using True z n r(1) by (auto simp: prepare_constant_def copy_value_def inheritable_def split: val.splits)
  have "name \<notin> fst ` set (th_constants th)" using True by (simp add: pmmpthread_constant_exists_def)
  then show ?thesis
    using True assms(3) extends_interned [OF r(2)] r(3,4) nm(1) z e
    by (cases r) (auto simp: zend_register_constant_def constant_copy_def)
next
  case False
  then have "prepare_constant n E G (name, c) th = Copied th"
    by (auto simp: prepare_constant_def inheritable_def split: option.splits val.splits)
  then show ?thesis using False assms(1) by auto
qed

text \<open>The constants that are there at the end, and the constant that ends the thread.\<close>

definition constants_added :: "(string \<times> zend_constant) list \<Rightarrow> 'h php_thread \<Rightarrow> 'h php_thread \<Rightarrow> bool" where
  "constants_added cs th th' \<longleftrightarrow> (\<exists>new. th_constants th' = th_constants th @ new \<and>
     (distinct (map fst (th_constants th)) \<longrightarrow> distinct (map fst (th_constants th'))) \<and>
     (\<forall>name d. (name, d) \<in> set new \<longrightarrow> \<not> pmmpthread_constant_exists name th \<and>
        (\<exists>c. (name, c) \<in> set cs \<and> inheritable c \<and> copyable (zc_value c) \<and> constant_copy name c d)) \<and>
     (\<forall>name c. (name, c) \<in> set cs \<and> inheritable c \<longrightarrow> pmmpthread_constant_exists name th'))"

definition constant_fatal :: "(string \<times> zend_constant) list \<Rightarrow> 'h php_thread \<Rightarrow> fatal_error \<Rightarrow> bool" where
  "constant_fatal cs th e \<longleftrightarrow> (\<exists>name c z. (name, c) \<in> set cs \<and> inheritable c \<and> \<not> copyable (zc_value c) \<and>
     \<not> pmmpthread_constant_exists name th \<and> zc_name c = Some z \<and> e = NonCopyableConstant (zs_val z))"

lemma constants_added_step:
  assumes "if inheritable c \<and> \<not> pmmpthread_constant_exists name th
      then \<exists>d. th_constants th1 = th_constants th @ [(name, d)] \<and> copyable (zc_value c) \<and> constant_copy name c d
      else th_constants th1 = th_constants th"
    and "constants_added cs th1 th'"
  shows "constants_added ((name, c) # cs) th th'"
proof -
  from assms(1) obtain one where one: "th_constants th1 = th_constants th @ one"
    "\<And>k d. (k, d) \<in> set one \<Longrightarrow> k = name \<and> inheritable c \<and> copyable (zc_value c) \<and> \<not> pmmpthread_constant_exists name th \<and> constant_copy name c d"
    "length one \<le> 1" by (auto split: if_splits)
  have e1: "inheritable c \<Longrightarrow> pmmpthread_constant_exists name th1" using assms(1) by (auto simp: pmmpthread_constant_exists_def split: if_splits)
  from assms(2) obtain new where r: "th_constants th' = th_constants th1 @ new"
    "distinct (map fst (th_constants th1)) \<longrightarrow> distinct (map fst (th_constants th'))"
    and a: "\<And>k d. (k, d) \<in> set new \<Longrightarrow> \<not> pmmpthread_constant_exists k th1 \<and>
      (\<exists>c. (k, c) \<in> set cs \<and> inheritable c \<and> copyable (zc_value c) \<and> constant_copy k c d)"
    and p: "\<And>k c. (k, c) \<in> set cs \<Longrightarrow> inheritable c \<Longrightarrow> pmmpthread_constant_exists k th'"
    unfolding constants_added_def by blast
  have later: "pmmpthread_constant_exists k th \<Longrightarrow> pmmpthread_constant_exists k th1" "pmmpthread_constant_exists k th1 \<Longrightarrow> pmmpthread_constant_exists k th'" for k
    using one(1) r(1) by (auto simp: pmmpthread_constant_exists_def)
  have d: "distinct (map fst (th_constants th1))" if "distinct (map fst (th_constants th))"
    using that assms(1) by (auto simp: pmmpthread_constant_exists_def split: if_splits)
  have a': "\<not> pmmpthread_constant_exists k th \<and>
      (\<exists>ca. (k, ca) \<in> set ((name, c) # cs) \<and> inheritable ca \<and> copyable (zc_value ca) \<and> constant_copy k ca d)" if "(k, d) \<in> set (one @ new)" for k d
    using that one(2) [of k d] a [of k d] later(1) [of k] by auto
  have p': "pmmpthread_constant_exists k th'" if "(k, d) \<in> set ((name, c) # cs)" "inheritable d" for k d
    using that p [of k d] e1 later(2) by auto
  show ?thesis
    unfolding constants_added_def
  proof (intro exI [of _ "one @ new"] conjI)
    show "th_constants th' = th_constants th @ one @ new" using r(1) one(1) by simp
    show "distinct (map fst (th_constants th)) \<longrightarrow> distinct (map fst (th_constants th'))" using d r(2) by blast
  qed (use a' p' in blast)+
qed

lemma constants_loop:
  assumes "interned_ok (th_code th)"
    and "\<And>name c. (name, c) \<in> set cs \<Longrightarrow> en_constant_key G name = Some name \<and> (inheritable c \<longrightarrow> data_val (zc_value c))"
  shows "(\<exists>th'. each (prepare_constant n E G) cs th = Copied th' \<and> constants_added cs th th') \<or>
    (\<exists>e. each (prepare_constant n E G) cs th = Fatal e \<and> constant_fatal cs th e)"
  using assms
proof (induction cs arbitrary: th)
  case Nil
  then show ?case by (simp add: constants_added_def)
next
  case (Cons x cs)
  obtain name c where x: "x = (name, c)" by force
  have "en_constant_key G name = Some name" "inheritable c \<Longrightarrow> data_val (zc_value c)"
    using Cons.prems(2) [of name c] unfolding x by auto
  note st = constant_step [OF Cons.prems(1) this(2,1), of n E]
  show ?case
  proof (cases "inheritable c \<and> \<not> pmmpthread_constant_exists name th \<and> \<not> copyable (zc_value c)")
    case True
    then obtain z where "zc_name c = Some z" "prepare_constant n E G (name, c) th = Fatal (NonCopyableConstant (zs_val z))" using st by auto
    then have "each (prepare_constant n E G) (x # cs) th = Fatal (NonCopyableConstant (zs_val z))"
      "constant_fatal (x # cs) th (NonCopyableConstant (zs_val z))" using True unfolding x constant_fatal_def by auto
    then show ?thesis by blast
  next
    case False
    from st [unfolded if_not_P [OF False]] obtain th1 where
      t: "prepare_constant n E G (name, c) th = Copied th1" "interned_ok (th_code th1)"
      and s: "if inheritable c \<and> \<not> pmmpthread_constant_exists name th
        then \<exists>d. th_constants th1 = th_constants th @ [(name, d)] \<and> copyable (zc_value c) \<and> constant_copy name c d
        else th_constants th1 = th_constants th" by blast
    have h: "\<And>name c. (name, c) \<in> set cs \<Longrightarrow> en_constant_key G name = Some name \<and> (inheritable c \<longrightarrow> data_val (zc_value c))"
      by (intro Cons.prems(2)) simp
    have l: "each (prepare_constant n E G) (x # cs) th = each (prepare_constant n E G) cs th1" using t(1) unfolding x by simp
    have "\<exists>ys. th_constants th1 = th_constants th @ ys" using s by (auto split: if_splits)
    then have "constant_fatal cs th1 e \<Longrightarrow> constant_fatal (x # cs) th e" for e
      unfolding constant_fatal_def pmmpthread_constant_exists_def by (elim exE) fastforce
    moreover have "constants_added cs th1 th' \<Longrightarrow> constants_added (x # cs) th th'" for th'
      unfolding x by (rule constants_added_step [OF s])
    ultimately show ?thesis unfolding l using Cons.IH [OF t(2) h] by blast
  qed
qed

section \<open>The environment\<close>

text \<open>
  The relation every step keeps: the classes stay well formed, and names of classes and functions keep what they lead to, but for the immutable anonymous
  classes that may be replaced by the linked class.
\<close>

definition code_grows :: "'h prep_env \<Rightarrow> 'h copy_state \<Rightarrow> 'h copy_state \<Rightarrow> bool" where
  "code_grows E st st' \<longleftrightarrow> class_wf E st' \<and>
     (\<forall>s a. map_of (cs_class_table st) s = Some a \<longrightarrow>
        map_of (cs_class_table st') s = Some a \<or> replaceable E a \<and> map_of (cs_class_table st') s \<noteq> None) \<and>
     (\<forall>s a. map_of (cs_function_table st) s = Some a \<longrightarrow> map_of (cs_function_table st') s = Some a)"

lemma code_grows_trans:
  assumes "code_grows E a b" "code_grows E b c"
  shows "code_grows E a c"
proof -
  have "map_of (cs_class_table c) s = Some x \<or> replaceable E x \<and> map_of (cs_class_table c) s \<noteq> None" if "map_of (cs_class_table a) s = Some x" for s x
    by (rule class_names_trans [of "map_of (cs_class_table b) s"]) (use assms that in \<open>simp_all add: code_grows_def\<close>)
  then show ?thesis using assms by (simp add: code_grows_def)
qed

lemma class_rel_grows: "class_rel E P st st' \<Longrightarrow> class_wf E st \<Longrightarrow> code_grows E st st'"
  unfolding code_grows_def using class_relD(1,3,4) by metis

lemma class_rel_any: "class_rel E P st st' \<Longrightarrow> class_rel E UNIV st st'"
  by (rule class_rel_weaken) simp_all

lemma context_late_bindings_rel:
  assumes "pmmpthread_context_late_bindings n E st = Copied st'"
  shows "class_rel E UNIV st st'"
proof (rule each_invariant [OF assms [unfolded pmmpthread_context_late_bindings_def]])
  fix x st1 st2 assume "class_rel E UNIV st st1" and r: "context_late_binding n E x st1 = Copied st2"
  moreover have "class_rel E UNIV st1 st2"
  proof -
    obtain name p where x: "x = (name, p)" by force
    have X: "keeps (class_rel E {}) st (ce_class (prepared_env n E) c st)" for c st by (simp add: prepared_env_def create_entry_rel)
    from r show ?thesis unfolding x
      by (auto simp: context_late_binding_def split: option.splits if_splits intro: class_rel_any [OF late_bindings_rel [OF X]] class_rel_any class_rel_code)
  qed
  ultimately show "class_rel E UNIV st st2" using class_rel_trans by blast
qed (rule class_rel_code, simp)

lemma class_wf_functions:
  assumes "class_wf E st"
  shows "class_wf E (st\<lparr>cs_function_table := t\<rparr>)"
proof -
  let ?st = "st\<lparr>cs_function_table := t\<rparr>"
  have e: "cs_classes ?st = cs_classes st" "cs_class_table ?st = cs_class_table st" "cs_interned ?st = cs_interned st" "cs_next ?st = cs_next st" by simp_all
  show ?thesis using assms unfolding class_wf_def class_at_def interned_ok_def e .
qed

lemma function_grows:
  assumes "prepare_function n E (key, f) st = Copied st'" "class_wf E st"
  shows "code_grows E st st'" and "ce_functions (pe_copy E) f = Some g \<Longrightarrow> fn_user g \<Longrightarrow> map_of (cs_function_table st') key \<noteq> None"
proof -
  have "code_grows E st st' \<and> (ce_functions (pe_copy E) f = Some g \<longrightarrow> fn_user g \<longrightarrow> map_of (cs_function_table st') key \<noteq> None)"
  proof (cases "\<exists>h. ce_functions (pe_copy E) f = Some h \<and> fn_user h \<and> map_of (cs_function_table st) key = None")
    case True
    then obtain h where h: "ce_functions (pe_copy E) f = Some h" "fn_user h" "map_of (cs_function_table st) key = None" by blast
    obtain nm st1 where n: "new_string key False False st = (nm, st1)" by force
    obtain a st2 where c: "pmmpthread_copy_function n (prepared_env n E) f st1 = Copied (a, st2)"
      and r: "st' = (if map_of (cs_function_table st2) key = None then st2\<lparr>cs_function_table := cs_function_table st2 @ [(key, a)]\<rparr> else st2)"
      using assms(1) h n by (auto simp: prepare_function_def cbind_Copied)
    have "class_rel E {} st st1" by (rule class_rel_code [OF same_code_new_string [OF n]])
    moreover have "keeps (class_rel E {}) st1 (pmmpthread_copy_function n (prepared_env n E) f st1)"
      by (auto simp: pmmpthread_copy_function_def copying.keeps_function_closure simp del: pmmpthread_copy_function_ex.simps split: option.splits)
    ultimately have "class_rel E {} st st2" using c class_rel_trans keepsD by metis
    note d = class_relD [OF this assms(2)]
    have "code_grows E st st2" using d(1,3,4) unfolding code_grows_def by metis
    then show ?thesis using class_wf_functions [OF d(1)] r h by (auto simp: code_grows_def map_add_def split: option.splits)
  next
    case False
    then have "st' = st" using assms(1) by (auto simp: prepare_function_def split: option.splits if_splits)
    then show ?thesis using False assms(2) by (auto simp: code_grows_def)
  qed
  then show "code_grows E st st'" "ce_functions (pe_copy E) f = Some g \<Longrightarrow> fn_user g \<Longrightarrow> map_of (cs_function_table st') key \<noteq> None" by auto
qed

text \<open>The steps before the classes; the engine changes only directives when it alters one.\<close>

definition alters_only_ini :: "'h engine \<Rightarrow> bool" where
  "alters_only_ini G \<longleftrightarrow> (\<forall>name v th. en_alter_ini G name v th =
     th\<lparr>th_ini := th_ini (en_alter_ini G name v th), th_modified_ini := th_modified_ini (en_alter_ini G name v th),
        th_on_modify := th_on_modify (en_alter_ini G name v th)\<rparr>)"

definition thread_frame :: "'h prep_env \<Rightarrow> 'h php_thread \<Rightarrow> 'h php_thread \<Rightarrow> bool" where
  "thread_frame E th th' \<longleftrightarrow> class_rel E {} (th_code th) (th_code th') \<and> th_included_files th' = th_included_files th \<and>
     th_headers_sent th' = th_headers_sent th \<and> th_no_headers th' = th_no_headers th"

lemma thread_frame_refl [simp]: "thread_frame E th th"
  by (simp add: thread_frame_def class_rel_code)

lemma thread_frame_trans: "thread_frame E a b \<Longrightarrow> thread_frame E b c \<Longrightarrow> thread_frame E a c"
  using class_rel_trans by (auto simp: thread_frame_def)

lemma alter_frame:
  assumes "alters_only_ini G"
  shows "thread_frame E th (en_alter_ini G name v th) \<and> th_constants (en_alter_ini G name v th) = th_constants th"
proof -
  obtain a b c where "en_alter_ini G name v th = th\<lparr>th_ini := a, th_modified_ini := b, th_on_modify := c\<rparr>"
    using assms unfolding alters_only_ini_def by metis
  then show ?thesis by (simp add: thread_frame_def class_rel_code)
qed

lemma ini_frame:
  assumes "alters_only_ini G" "pmmpthread_prepare_ini G creator th = Copied th'"
  shows "thread_frame E th th' \<and> th_constants th' = th_constants th"
proof (rule each_invariant [OF assms(2) [unfolded pmmpthread_prepare_ini_def]])
  show "thread_frame E th (restrict_session G th) \<and> th_constants (restrict_session G th) = th_constants th"
    using alter_frame [OF assms(1)] thread_frame_trans unfolding restrict_session_def by (auto split: if_splits) blast+
next
  fix x a b assume a: "thread_frame E th a \<and> th_constants a = th_constants th" and r: "prepare_ini_entry x a = Copied b"
  have "thread_frame E a b \<and> th_constants b = th_constants a"
    using r by (auto simp: prepare_ini_entry_def inherit_ini_value_def set_ini_def thread_frame_def Let_def
        intro!: class_rel_code same_code_trans [OF same_code_new_string same_code_copy_string] split: option.splits if_splits prod.splits)
  then show "thread_frame E th b \<and> th_constants b = th_constants th" using a thread_frame_trans by auto
qed

lemma copy_value_rel: "keeps (class_rel E {}) st (copy_value n (prepared_env n E) v st)"
  unfolding copy_value_def
  by (rule copying.keeps_zval) (auto simp: closure_copier_def copying.keeps_function_closure simp del: pmmpthread_copy_closure.simps split: option.splits)

lemma constant_frame:
  assumes "prepare_constant n E G x th = Copied th'"
  shows "thread_frame E th th' \<and> th_ini th' = th_ini th"
proof -
  obtain name c where x: "x = (name, c)" by force
  obtain nm st1 where n: "new_string name False False (th_code th) = (nm, st1)" by force
  consider "th' = th" | v st2 where "copy_value n (prepared_env n E) (zc_value c) st1 = Copied (Some v, st2)"
    "th' = zend_register_constant G name (c\<lparr>zc_name := Some nm, zc_value := v\<rparr>) (th\<lparr>th_code := st2\<rparr>)"
    using assms n unfolding x by (auto simp: prepare_constant_def cbind_Copied split: option.splits val.splits if_splits)
  then show ?thesis
  proof cases
    case 2
    have "class_rel E {} (th_code th) st2"
      using class_rel_trans [OF class_rel_code [OF same_code_new_string [OF n]] keepsD [OF copy_value_rel 2(1)]] .
    then show ?thesis using 2(2) by (auto simp: thread_frame_def zend_register_constant_def split: option.splits)
  qed simp
qed

lemma constants_frame:
  assumes "pmmpthread_prepare_constants n E G creator th = Copied th'"
  shows "thread_frame E th th' \<and> th_ini th' = th_ini th"
proof (rule each_invariant [OF assms [unfolded pmmpthread_prepare_constants_def]])
  fix x a b assume "thread_frame E th a \<and> th_ini a = th_ini th" "prepare_constant n E G x a = Copied b"
  then show "thread_frame E th b \<and> th_ini b = th_ini th" using constant_frame [of n E G x a b] thread_frame_trans by auto
qed simp

lemma functions_grow:
  assumes "pmmpthread_prepare_functions n E fs st = Copied st'" "class_wf E st"
  shows "code_grows E st st' \<and> (\<forall>key f g. (key, f) \<in> set fs \<and> ce_functions (pe_copy E) f = Some g \<and> fn_user g \<longrightarrow> map_of (cs_function_table st') key \<noteq> None)"
proof -
  let ?P = "\<lambda>(key, f) st. \<forall>g. ce_functions (pe_copy E) f = Some g \<and> fn_user g \<longrightarrow> map_of (cs_function_table st) key \<noteq> None"
  have "code_grows E st st' \<and> (\<forall>x. x \<in> set fs \<longrightarrow> ?P x st')"
  proof (rule each_reached [OF assms(1) [unfolded pmmpthread_prepare_functions_def]])
    show "code_grows E st st" using assms(2) by (simp add: code_grows_def)
  next
    fix x a b assume g: "code_grows E st a" and r: "prepare_function n E x a = Copied b"
    obtain key f where x: "x = (key, f)" by force
    have "class_wf E a" using g by (simp add: code_grows_def)
    note d = function_grows [OF r [unfolded x] this]
    show "code_grows E st b \<and> ?P x b" using code_grows_trans [OF g d(1)] d(2) unfolding x by blast
  next
    fix x y a b assume "code_grows E st a" and p: "?P y a" and r: "prepare_function n E x a = Copied b"
    obtain key f where x: "x = (key, f)" by force
    have "class_wf E a" using \<open>code_grows E st a\<close> by (simp add: code_grows_def)
    then have "code_grows E a b" using function_grows(1) r unfolding x by blast
    then show "?P y b" using p unfolding code_grows_def by (auto split: prod.splits)
  qed
  then show ?thesis by auto
qed

text \<open>A class of a user is in the class table under its name after its turn.\<close>

definition user_class :: "'h prep_env \<Rightarrow> string \<Rightarrow> addr \<Rightarrow> bool" where
  "user_class E name c \<longleftrightarrow> (\<exists>ca. ce_classes (pe_copy E) c = Some ca \<and> \<not> cl_internal ca \<and> \<not> cl_preloaded ca \<and> class_name ca = name)"

lemma created_class:
  assumes "class_wf E st" "pmmpthread_create_entry n E c late st = Copied (q, st')"
  shows "class_rel E UNIV st st' \<and> (\<forall>name. user_class E name c \<longrightarrow> map_of (cs_class_table st') name \<noteq> None)"
proof -
  have "class_rel E UNIV st st'" by (rule class_rel_any [OF keepsD [OF create_entry_rel assms(2)]])
  moreover have "map_of (cs_class_table st') name \<noteq> None" if "user_class E name c" for name
    using that create_entry_result [OF assms(1) _ _ _ assms(2)] unfolding user_class_def by fastforce
  ultimately show ?thesis by blast
qed

lemma registered_later: "class_rel E P st st' \<Longrightarrow> class_wf E st \<Longrightarrow> map_of (cs_class_table st) s \<noteq> None \<Longrightarrow> map_of (cs_class_table st') s \<noteq> None"
  using class_relD(4) [of E P st st' s] by auto

lemma classes_prepared:
  assumes "pmmpthread_prepare_classes n E st = Copied st'" "class_wf E st"
  shows "class_rel E UNIV st st' \<and>
    (\<forall>name c. (name, c) \<in> set (pe_class_table E) \<and> user_class E name c \<and> take 1 name \<noteq> [CHR 0x00] \<longrightarrow> map_of (cs_class_table st') name \<noteq> None)"
proof -
  obtain st1 where r: "each (prepare_class n E) (pe_class_table E) st = Copied st1" "pmmpthread_context_late_bindings n E st1 = Copied st'"
    using assms(1) by (auto simp: pmmpthread_prepare_classes_def cbind_Copied)
  let ?P = "\<lambda>(name, c) st. user_class E name c \<and> take 1 name \<noteq> [CHR 0x00] \<longrightarrow> map_of (cs_class_table st) name \<noteq> None"
  have step: "class_rel E UNIV a b \<and> ?P x b" if w: "class_wf E a" and p: "prepare_class n E x a = Copied b" for x a b
  proof -
    obtain name c where x: "x = (name, c)" by force
    show ?thesis
    proof (cases "map_of (cs_class_table a) name = None \<and> take 1 name \<noteq> [CHR 0x00]")
      case True
      then obtain q where "pmmpthread_create_entry n E c False a = Copied (q, b)" using p unfolding x by (auto simp: prepare_class_def cbind_Copied)
      from created_class [OF w this] show ?thesis unfolding x by auto
    next
      case False
      then have "b = a" using p unfolding x by (auto simp: prepare_class_def split: if_splits)
      then show ?thesis using False class_rel_code [OF same_code_refl] unfolding x by auto
    qed
  qed
  let ?J = "\<lambda>a. class_wf E a \<and> class_rel E UNIV st a"
  have 1: "?J st1 \<and> (\<forall>x. x \<in> set (pe_class_table E) \<longrightarrow> ?P x st1)"
  proof (rule each_reached [OF r(1)])
    show "?J st" using assms(2) class_rel_code [OF same_code_refl] by blast
  next
    fix x a b assume "?J a" and p: "prepare_class n E x a = Copied b"
    with step [of a x b] show "?J b \<and> ?P x b" using class_rel_trans class_relD(1) by blast
  next
    fix x y a b assume "?J a" "?P y a" and p: "prepare_class n E x a = Copied b"
    then show "?P y b" using step [of a x b] registered_later [of E UNIV a b] by (auto split: prod.splits)
  qed
  note l = context_late_bindings_rel [OF r(2)]
  have "class_rel E UNIV st st'" using 1 l class_rel_trans by blast
  then show ?thesis using 1 registered_later [OF l] by auto
qed

lemma includes_frame:
  "class_rel E {} (th_code th) (th_code (fold prepare_include fs th)) \<and> th_ini (fold prepare_include fs th) = th_ini th \<and>
   th_constants (fold prepare_include fs th) = th_constants th \<and> th_headers_sent (fold prepare_include fs th) = th_headers_sent th \<and>
   th_no_headers (fold prepare_include fs th) = th_no_headers th \<and>
   set (th_included_files (fold prepare_include fs th)) = set (th_included_files th) \<union> set fs"
proof (induction fs arbitrary: th)
  case Nil
  then show ?case by (simp add: class_rel_code)
next
  case (Cons f fs)
  obtain nm st1 where n: "new_string f False False (th_code th) = (nm, st1)" by force
  have "class_rel E {} (th_code th) (th_code (prepare_include f th))"
    using n class_rel_code [OF same_code_new_string [OF n]] by (simp add: prepare_include_def)
  moreover have "set (th_included_files (prepare_include f th)) = insert f (set (th_included_files th))" using n by (auto simp: prepare_include_def)
  ultimately show ?case
    using Cons.IH [of "prepare_include f th"] class_rel_trans n by (auto simp: prepare_include_def)
qed

text \<open>The steps of the environment, in order.\<close>

lemma environment_steps:
  assumes "inherit_environment n E G creator thread_ce th = Copied th'"
  obtains th2 th3 th5 th6 where
    "(if has_option (th_options th) PMMPTHREAD_INHERIT_INI then pmmpthread_prepare_ini G creator (pmmpthread_prepare_sapi th)
      else Copied (pmmpthread_prepare_sapi th)) = Copied th2"
    "(if has_option (th_options th) PMMPTHREAD_INHERIT_CONSTANTS then pmmpthread_prepare_constants n E G creator th2 else Copied th2) = Copied th3"
    "(if has_option (th_options th) PMMPTHREAD_INHERIT_FUNCTIONS
      then on_code (pmmpthread_prepare_functions n E (cs_function_table (th_code creator))) (th3\<lparr>th_code := zend_map_ptr_extend (pe_map_ptr_last E) (th_code th3)\<rparr>)
      else Copied (th3\<lparr>th_code := zend_map_ptr_extend (pe_map_ptr_last E) (th_code th3)\<rparr>)) = Copied th5"
    "(if has_option (th_options th) PMMPTHREAD_INHERIT_CLASSES then on_code (pmmpthread_prepare_classes n E) th5
      else on_code (\<lambda>st. cbind (pmmpthread_create_entry n E thread_ce False st) (\<lambda>(_, st1). pmmpthread_context_late_bindings n E st1)) th5) = Copied th6"
    "th' = (if has_option (th_options th) PMMPTHREAD_INHERIT_INCLUDES then pmmpthread_prepare_includes creator th6 else th6)"
  using assms unfolding inherit_environment_def Let_def cbind_Copied by (auto split del: if_split)

lemma classes_step:
  assumes "(if b then on_code (pmmpthread_prepare_classes n E) th
      else on_code (\<lambda>st. cbind (pmmpthread_create_entry n E ce False st) (\<lambda>(_, st1). pmmpthread_context_late_bindings n E st1)) th) = Copied th'"
    and w: "class_wf E (th_code th)"
  shows "th' = th\<lparr>th_code := th_code th'\<rparr> \<and> class_rel E UNIV (th_code th) (th_code th') \<and>
    (if b then \<forall>name c. (name, c) \<in> set (pe_class_table E) \<and> user_class E name c \<and> take 1 name \<noteq> [CHR 0x00] \<longrightarrow> map_of (cs_class_table (th_code th')) name \<noteq> None
     else \<forall>name. user_class E name ce \<longrightarrow> map_of (cs_class_table (th_code th')) name \<noteq> None)"
proof (cases b)
  case True
  then obtain st where "pmmpthread_prepare_classes n E (th_code th) = Copied st" "th' = th\<lparr>th_code := st\<rparr>"
    using assms(1) by (auto simp: on_code_def cbind_Copied)
  then show ?thesis using classes_prepared [OF _ w] True by simp
next
  case False
  then obtain q st1 st where r: "pmmpthread_create_entry n E ce False (th_code th) = Copied (q, st1)" "pmmpthread_context_late_bindings n E st1 = Copied st"
    "th' = th\<lparr>th_code := st\<rparr>" using assms(1) by (auto simp: on_code_def cbind_Copied)
  note c = created_class [OF w r(1)] and l = context_late_bindings_rel [OF r(2)]
  have "class_rel E UNIV (th_code th) st" using c l class_rel_trans by blast
  moreover have "map_of (cs_class_table st) name \<noteq> None" if "user_class E name ce" for name
    using c registered_later [OF l] class_relD(1) [OF conjunct1 [OF c] w] that by blast
  ultimately show ?thesis using False r(3) by simp
qed

lemma functions_step:
  assumes "(if b then on_code (pmmpthread_prepare_functions n E fs) th else Copied th) = Copied th'" and w: "class_wf E (th_code th)"
  shows "th' = th\<lparr>th_code := th_code th'\<rparr> \<and> code_grows E (th_code th) (th_code th') \<and>
    (if b then \<forall>key f g. (key, f) \<in> set fs \<and> ce_functions (pe_copy E) f = Some g \<and> fn_user g \<longrightarrow> map_of (cs_function_table (th_code th')) key \<noteq> None
     else cs_function_table (th_code th') = cs_function_table (th_code th))"
proof (cases b)
  case True
  then obtain st where "pmmpthread_prepare_functions n E fs (th_code th) = Copied st" "th' = th\<lparr>th_code := st\<rparr>"
    using assms(1) by (auto simp: on_code_def cbind_Copied)
  then show ?thesis using functions_grow [OF _ w, of n fs st] True by simp
qed (use assms in \<open>simp add: code_grows_def\<close>)

section \<open>Shutdown functions\<close>

text \<open>The environment up to the functions.\<close>

lemma environment_head:
  assumes w: "class_wf E (th_code th)" and a: "alters_only_ini G"
    and s2: "(if b then pmmpthread_prepare_ini G creator (pmmpthread_prepare_sapi th) else Copied (pmmpthread_prepare_sapi th)) = Copied th2"
    and s3: "(if c then pmmpthread_prepare_constants n E G creator th2 else Copied th2) = Copied th3"
  shows "class_rel E {} (th_code th) (zend_map_ptr_extend (pe_map_ptr_last E) (th_code th3))"
    "\<not> b \<longrightarrow> th_ini th3 = th_ini th" "\<not> c \<longrightarrow> th_constants th3 = th_constants th" "th_included_files th3 = th_included_files th"
    "\<not> has_option (th_options th) PMMPTHREAD_ALLOW_HEADERS \<longrightarrow> th_headers_sent th3 \<and> th_no_headers th3"
proof -
  let ?s = "pmmpthread_prepare_sapi th"
  have 1: "th_code ?s = th_code th" "th_ini ?s = th_ini th" "th_constants ?s = th_constants th" "th_included_files ?s = th_included_files th"
    "\<not> has_option (th_options th) PMMPTHREAD_ALLOW_HEADERS \<longrightarrow> th_headers_sent ?s \<and> th_no_headers ?s"
    by (simp_all add: pmmpthread_prepare_sapi_def Let_def)
  have 2: "thread_frame E ?s th2" "th_constants th2 = th_constants ?s" "\<not> b \<longrightarrow> th2 = ?s"
    using s2 ini_frame [OF a, of creator ?s th2 E] by (auto split: if_splits)
  have 3: "thread_frame E th2 th3" "th_ini th3 = th_ini th2" "\<not> c \<longrightarrow> th3 = th2"
    using s3 constants_frame [of n E G creator th2 th3] by (auto split: if_splits)
  have "class_rel E {} (th_code th) (th_code th3)" using thread_frame_trans [OF 2(1) 3(1)] 1(1) by (simp add: thread_frame_def)
  moreover have "class_rel E {} (th_code th3) (zend_map_ptr_extend (pe_map_ptr_last E) (th_code th3))" by (simp add: class_rel_code zend_map_ptr_extend_def)
  ultimately show "class_rel E {} (th_code th) (zend_map_ptr_extend (pe_map_ptr_last E) (th_code th3))" by (rule class_rel_trans)
  show "\<not> b \<longrightarrow> th_ini th3 = th_ini th" "\<not> c \<longrightarrow> th_constants th3 = th_constants th" "th_included_files th3 = th_included_files th"
    "\<not> has_option (th_options th) PMMPTHREAD_ALLOW_HEADERS \<longrightarrow> th_headers_sent th3 \<and> th_no_headers th3"
    using 1 2 3 by (simp_all add: thread_frame_def)
qed

lemma includes_step:
  assumes "th' = (if b then pmmpthread_prepare_includes creator th else th)"
  shows "class_rel E {} (th_code th) (th_code th')" "th_ini th' = th_ini th" "th_constants th' = th_constants th"
    "th_headers_sent th' = th_headers_sent th" "th_no_headers th' = th_no_headers th"
    "set (th_included_files th') = set (th_included_files th) \<union> (if b then set (th_included_files creator) else {})"
  using assms includes_frame [of E th "th_included_files creator"] class_rel_code [OF same_code_refl] by (simp_all add: pmmpthread_prepare_includes_def)

section \<open>Properties\<close>

text \<open>
  C26: A thread inherits the values of the directives: if every directive that differs has a callback, the preparation ends; it changes exactly the
  directives that both threads have with different values, calls their callbacks with the new values in the order of the creator, gives them
  the value of the creator and, whatever their access level was, the level of scripts, and, on their first change, saves the old value and level and lists them
  for the restoration at the end of the request. The settings made for threads that may not send headers are no exception: they are replaced by the values of the creator.
\<close>

theorem ini_inherited:
  assumes "distinct (map fst (th_ini creator))" "interned_ok (th_code (restrict_session G th))"
    and "\<forall>ne. ne \<in> set (th_ini creator) \<longrightarrow> callable_ini (th_ini (restrict_session G th)) ne"
  shows "\<exists>th'. pmmpthread_prepare_ini G creator th = Copied th' \<and>
    th_on_modify th' = th_on_modify (restrict_session G th) @ List.map_filter (ini_change (th_ini (restrict_session G th))) (th_ini creator) \<and>
    (\<forall>name. name \<notin> fst ` set (th_ini creator) \<longrightarrow> map_of (th_ini th') name = map_of (th_ini (restrict_session G th)) name) \<and>
    (\<forall>ne. ne \<in> set (th_ini creator) \<longrightarrow> ini_outcome (th_ini (restrict_session G th)) th' ne)"
  using ini_loop [OF assms(1,2)] assms(3) unfolding pmmpthread_prepare_ini_def by blast

text \<open>
  C27: A thread inherits constants. Let the creator's constants that can be inherited (those with a name that are not resources) hold no thread-safe
  object, closure or enum case, and let the engine register each name of the creator under itself. Then the preparation ends in one of two ways. Either it returns: the
  constants the thread had stay, in place; the new ones are copies, with flags and module, of such constants of the creator whose name was free,
  in the spelling it has and in lower case; no name is registered twice; and afterwards each such constant of the creator is there under its name or
  there is one under its name in lower case. Or it is a fatal error, which names such a constant of the creator that cannot be copied and whose name was free.
\<close>

theorem constants_inherited:
  assumes "interned_ok (th_code th)"
    and "\<forall>name c. (name, c) \<in> set (th_constants creator) \<longrightarrow> en_constant_key G name = Some name \<and> (inheritable c \<longrightarrow> data_val (zc_value c))"
  shows "(\<exists>th' new. pmmpthread_prepare_constants n E G creator th = Copied th' \<and> th_constants th' = th_constants th @ new \<and>
      (distinct (map fst (th_constants th)) \<longrightarrow> distinct (map fst (th_constants th'))) \<and>
      (\<forall>name d. (name, d) \<in> set new \<longrightarrow>
         (\<exists>c. (name, c) \<in> set (th_constants creator) \<and> inheritable c \<and> copyable (zc_value c) \<and> constant_copy name c d) \<and>
         name \<notin> fst ` set (th_constants th) \<and> zend_string_tolower name \<notin> fst ` set (th_constants th)) \<and>
      (\<forall>name c. (name, c) \<in> set (th_constants creator) \<and> inheritable c \<longrightarrow>
         name \<in> fst ` set (th_constants th') \<or> zend_string_tolower name \<in> fst ` set (th_constants th'))) \<or>
    (\<exists>name c z. (name, c) \<in> set (th_constants creator) \<and> inheritable c \<and> zc_name c = Some z \<and> \<not> copyable (zc_value c) \<and>
      name \<notin> fst ` set (th_constants th) \<and> zend_string_tolower name \<notin> fst ` set (th_constants th) \<and>
      pmmpthread_prepare_constants n E G creator th = Fatal (NonCopyableConstant (zs_val z)))"
proof -
  let ?p = "each (prepare_constant n E G) (th_constants creator) th"
  consider (returns) th' where "?p = Copied th'" "constants_added (th_constants creator) th th'"
    | (ends) e where "?p = Fatal e" "constant_fatal (th_constants creator) th e"
    using constants_loop [OF assms(1), of "th_constants creator" G n E] assms(2) by blast
  then show ?thesis
  proof cases
    case returns
    then show ?thesis
      unfolding pmmpthread_prepare_constants_def constants_added_def pmmpthread_constant_exists_def
      by (intro disjI1) (elim exE conjE, intro exI [of _ th'] exI conjI, assumption+, blast+)
  next
    case ends
    then show ?thesis
      unfolding pmmpthread_prepare_constants_def constant_fatal_def pmmpthread_constant_exists_def by (intro disjI2) blast
  qed
qed

text \<open>
  C25: A thread inherits what its options say and nothing else: the class table stays well formed and names of classes and functions keep what they lead to, but for immutable anonymous
  classes that were not linked and may be replaced by the linked class (\<open>code_grows\<close>);
  directives, constants, functions and included files are untouched without their options; with them every function of a user and every included file of the
  creator is there; every named class of a user is there or, without the option for classes, the class of the thread is; and a thread that may
  not send headers regards them as sent.
\<close>

theorem environment_inherited:
  assumes w: "class_wf E (th_code th)" and a: "alters_only_ini G" and r: "inherit_environment n E G creator thread_ce th = Copied th'"
  shows "code_grows E (th_code th) (th_code th') \<and>
    (\<not> has_option (th_options th) PMMPTHREAD_INHERIT_INI \<longrightarrow> th_ini th' = th_ini th) \<and>
    (\<not> has_option (th_options th) PMMPTHREAD_INHERIT_CONSTANTS \<longrightarrow> th_constants th' = th_constants th) \<and>
    (if has_option (th_options th) PMMPTHREAD_INHERIT_FUNCTIONS
     then \<forall>key f g. (key, f) \<in> set (cs_function_table (th_code creator)) \<and> ce_functions (pe_copy E) f = Some g \<and> fn_user g \<longrightarrow>
       map_of (cs_function_table (th_code th')) key \<noteq> None
     else cs_function_table (th_code th') = cs_function_table (th_code th)) \<and>
    (if has_option (th_options th) PMMPTHREAD_INHERIT_CLASSES
     then \<forall>name c. (name, c) \<in> set (pe_class_table E) \<and> user_class E name c \<and> take 1 name \<noteq> [CHR 0x00] \<longrightarrow>
       map_of (cs_class_table (th_code th')) name \<noteq> None
     else \<forall>name. user_class E name thread_ce \<longrightarrow> map_of (cs_class_table (th_code th')) name \<noteq> None) \<and>
    set (th_included_files th') = set (th_included_files th) \<union>
      (if has_option (th_options th) PMMPTHREAD_INHERIT_INCLUDES then set (th_included_files creator) else {}) \<and>
    (\<not> has_option (th_options th) PMMPTHREAD_ALLOW_HEADERS \<longrightarrow> th_headers_sent th' \<and> th_no_headers th')"
proof -
  let ?has = "has_option (th_options th)"
  obtain th2 th3 th5 th6 where
    s2: "(if ?has PMMPTHREAD_INHERIT_INI then pmmpthread_prepare_ini G creator (pmmpthread_prepare_sapi th) else Copied (pmmpthread_prepare_sapi th)) = Copied th2"
    and s3: "(if ?has PMMPTHREAD_INHERIT_CONSTANTS then pmmpthread_prepare_constants n E G creator th2 else Copied th2) = Copied th3"
    and s5: "(if ?has PMMPTHREAD_INHERIT_FUNCTIONS
      then on_code (pmmpthread_prepare_functions n E (cs_function_table (th_code creator))) (th3\<lparr>th_code := zend_map_ptr_extend (pe_map_ptr_last E) (th_code th3)\<rparr>)
      else Copied (th3\<lparr>th_code := zend_map_ptr_extend (pe_map_ptr_last E) (th_code th3)\<rparr>)) = Copied th5"
    and s6: "(if ?has PMMPTHREAD_INHERIT_CLASSES then on_code (pmmpthread_prepare_classes n E) th5
      else on_code (\<lambda>st. cbind (pmmpthread_create_entry n E thread_ce False st) (\<lambda>(_, st1). pmmpthread_context_late_bindings n E st1)) th5) = Copied th6"
    and s7: "th' = (if ?has PMMPTHREAD_INHERIT_INCLUDES then pmmpthread_prepare_includes creator th6 else th6)"
    by (rule environment_steps [OF r])
  note h = environment_head [OF w a s2 s3]
  note w4 = class_relD(1) [OF h(1) w]
  have 5: "th5 = th3\<lparr>th_code := th_code th5\<rparr>" "code_grows E (zend_map_ptr_extend (pe_map_ptr_last E) (th_code th3)) (th_code th5)"
    "if ?has PMMPTHREAD_INHERIT_FUNCTIONS
     then \<forall>key f g. (key, f) \<in> set (cs_function_table (th_code creator)) \<and> ce_functions (pe_copy E) f = Some g \<and> fn_user g \<longrightarrow>
       map_of (cs_function_table (th_code th5)) key \<noteq> None
     else cs_function_table (th_code th5) = cs_function_table (th_code th)"
    using functions_step [OF s5] w4 class_relD(3) [OF h(1) w] by auto
  have w5: "class_wf E (th_code th5)" using 5(2) by (simp add: code_grows_def)
  note 6 = classes_step [OF s6 w5]
  note c6 = class_relD [OF conjunct1 [OF conjunct2 [OF 6]] w5]
  note 7 = includes_step [OF s7]
  note c7 = class_relD [OF 7(1) c6(1)]
  have g: "code_grows E (th_code th) (th_code th')"
    using code_grows_trans [OF class_rel_grows [OF h(1) w] 5(2)] code_grows_trans class_rel_grows [OF conjunct1 [OF conjunct2 [OF 6]] w5] class_rel_grows [OF 7(1) c6(1)]
    by blast
  obtain d where "th6 = th3\<lparr>th_code := d\<rparr>" using 5(1) conjunct1 [OF 6] by (metis php_thread.update_convs(1) php_thread.surjective)
  note f = this 7(2-6)
  have t: "cs_function_table (th_code th') = cs_function_table (th_code th5)" using c7(3) c6(3) by simp
  have v: "map_of (cs_class_table (th_code th6)) s \<noteq> None \<Longrightarrow> map_of (cs_class_table (th_code th')) s \<noteq> None" for s by (rule registered_later [OF 7(1) c6(1)])
  have "if ?has PMMPTHREAD_INHERIT_FUNCTIONS
     then \<forall>key f g. (key, f) \<in> set (cs_function_table (th_code creator)) \<and> ce_functions (pe_copy E) f = Some g \<and> fn_user g \<longrightarrow>
       map_of (cs_function_table (th_code th')) key \<noteq> None
     else cs_function_table (th_code th') = cs_function_table (th_code th)" using 5(3) t by simp
  moreover have "if ?has PMMPTHREAD_INHERIT_CLASSES
     then \<forall>name c. (name, c) \<in> set (pe_class_table E) \<and> user_class E name c \<and> take 1 name \<noteq> [CHR 0x00] \<longrightarrow>
       map_of (cs_class_table (th_code th')) name \<noteq> None
     else \<forall>name. user_class E name thread_ce \<longrightarrow> map_of (cs_class_table (th_code th')) name \<noteq> None" using conjunct2 [OF conjunct2 [OF 6]] v by (auto split: if_splits)
  ultimately show ?thesis using g f h(2-5) by simp
qed

section \<open>Witnesses\<close>

text \<open>
  A thread and its creator. The creator has changed a limit and uses cookies in sessions; it has a constant, a resource, and a constant whose name in lower
  case is a constant of the thread; it has a function, a class and an included file.
\<close>

definition demo_ini :: "string \<Rightarrow> zend_ini_entry" where
  "demo_ini v = \<lparr>ie_value = Some (demo_zstr 30 v False), ie_orig_value = None, ie_modified = False, ie_modifiable = 7, ie_orig_modifiable = 0, ie_on_modify = True\<rparr>"

definition demo_constant :: "string \<Rightarrow> val \<Rightarrow> zend_constant" where
  "demo_constant name v = \<lparr>zc_name = Some (demo_zstr 31 name False), zc_value = v, zc_flags = 1, zc_module = 2\<rparr>"

definition demo_thread :: "zval btable php_thread" where
  "demo_thread = \<lparr>th_code = demo_copy_state, th_options = PMMPTHREAD_INHERIT_ALL,
     th_ini = [(''session.use_cookies'', demo_ini ''1''), (''memory_limit'', demo_ini ''128M'')], th_modified_ini = [], th_on_modify = [],
     th_constants = [(''foo'', demo_constant ''foo'' (V_LONG 1))], th_included_files = [], th_auto_globals = [], th_server_context = None, th_argc = 0,
     th_argv = None, th_expose_php = True, th_auto_globals_jit = True, th_during_request_startup = False, th_sapi_started = True, th_headers_sent = False,
     th_no_headers = False, th_in_shutdown = False, th_current_execute_data = None, th_observer_enabled = False,
     th_modules_activated = True, th_report_memleaks = True,
     th_sockets = \<lparr>sg_original = None, sg_custom = Std_handler\<rparr>\<rparr>"

definition demo_creator :: "zval btable php_thread" where
  "demo_creator = demo_thread\<lparr>th_code := demo_copy_state\<lparr>cs_function_table := [(''f'', 500)]\<rparr>,
     th_ini := [(''session.use_cookies'', demo_ini ''1''), (''memory_limit'', demo_ini ''64M'')],
     th_constants := [(''FOO'', demo_constant ''FOO'' (V_LONG 2)), (''LOG'', demo_constant ''LOG'' (V_RESOURCE 3)), (''LIMIT'', demo_constant ''LIMIT'' (V_LONG 5))],
     th_included_files := [''a.php'']\<rparr>"

definition demo_engine :: "zval btable engine" where
  "demo_engine = \<lparr>en_alter_ini = (\<lambda>name v th. case map_of (th_ini th) name of None \<Rightarrow> th | Some e \<Rightarrow> set_ini name (e\<lparr>ie_value := Some (demo_zstr 32 v False)\<rparr>) th),
     en_constant_key = Some, en_request_startup = (\<lambda>th. th), en_request_shutdown = (\<lambda>th. th),
     en_observer_end_all = (\<lambda>th. th), en_call_shutdown_functions = (\<lambda>th. th), en_free_shutdown_functions = (\<lambda>th. th)\<rparr>"

lemma demo_options:
  "has_option PMMPTHREAD_INHERIT_ALL PMMPTHREAD_INHERIT_INI" "has_option PMMPTHREAD_INHERIT_ALL PMMPTHREAD_INHERIT_CONSTANTS"
  "has_option PMMPTHREAD_INHERIT_ALL PMMPTHREAD_INHERIT_FUNCTIONS" "has_option PMMPTHREAD_INHERIT_ALL PMMPTHREAD_INHERIT_CLASSES"
  "has_option PMMPTHREAD_INHERIT_ALL PMMPTHREAD_INHERIT_INCLUDES" "\<not> has_option PMMPTHREAD_INHERIT_ALL PMMPTHREAD_ALLOW_HEADERS"
  by code_simp+

lemma demo_constants_lower:
  "zend_string_tolower ''FOO'' = ''foo''" "zend_string_tolower ''LIMIT'' = ''limit''" "zend_string_tolower ''LOG'' = ''log''"
  by code_simp+

lemma demo_restricted:
  "restrict_session demo_engine demo_thread =
     demo_thread\<lparr>th_ini := [(''session.use_cookies'', (demo_ini ''1'')\<lparr>ie_value := Some (demo_zstr 32 ''0'' False)\<rparr>), (''memory_limit'', demo_ini ''128M'')]\<rparr>"
  by (simp add: restrict_session_def demo_engine_def demo_thread_def set_ini_def demo_options)

lemma demo_engine_alters: "alters_only_ini demo_engine"
  by (auto simp: alters_only_ini_def demo_engine_def set_ini_def split: option.splits)

theorem ini_inherited_witness:
  "\<exists>th' e. pmmpthread_prepare_ini demo_engine demo_creator demo_thread = Copied th' \<and>
     th_on_modify th' = [(''session.use_cookies'', ''1''), (''memory_limit'', ''64M'')] \<and>
     map_of (th_ini th') ''session.use_cookies'' = Some e \<and> map_option zs_val (ie_value e) = Some ''1'' \<and> ie_modifiable e = 1"
proof -
  have d: "distinct (map fst (th_ini demo_creator))" "interned_ok (th_code (restrict_session demo_engine demo_thread))"
    using demo_interned by (simp_all add: demo_restricted demo_creator_def) (simp add: demo_thread_def)
  let ?ini = "th_ini (restrict_session demo_engine demo_thread)"
  have x: "ini_change ?ini (''session.use_cookies'', demo_ini ''1'') = Some (''session.use_cookies'', ''1'')"
    "ini_change ?ini (''memory_limit'', demo_ini ''64M'') = Some (''memory_limit'', ''64M'')"
    by (simp_all add: demo_restricted ini_change_def demo_ini_def demo_zstr_def c_str_def)
  have i: "th_ini demo_creator = [(''session.use_cookies'', demo_ini ''1''), (''memory_limit'', demo_ini ''64M'')]" by (simp add: demo_creator_def)
  have "\<forall>ne. ne \<in> set (th_ini demo_creator) \<longrightarrow> callable_ini ?ini ne"
    by (auto simp: i callable_ini_def demo_restricted demo_ini_def)
  from ini_inherited [OF d this] obtain th' where t: "pmmpthread_prepare_ini demo_engine demo_creator demo_thread = Copied th'"
    "th_on_modify th' = th_on_modify (restrict_session demo_engine demo_thread) @ List.map_filter (ini_change ?ini) (th_ini demo_creator)"
    "ini_outcome ?ini th' (''session.use_cookies'', demo_ini ''1'')" by (auto simp: i)
  have "th_on_modify th' = [(''session.use_cookies'', ''1''), (''memory_limit'', ''64M'')]"
    using t(2) x by (simp add: i List.map_filter_def demo_restricted) (simp add: demo_thread_def)
  moreover have "\<exists>e. map_of (th_ini th') ''session.use_cookies'' = Some e \<and> map_option zs_val (ie_value e) = Some ''1'' \<and> ie_modifiable e = 1"
    using t(3) x by (auto simp: ini_outcome_def ini_changed_def demo_restricted demo_ini_def as_zend_bool_def)
  ultimately show ?thesis using t(1) by blast
qed

lemma or_left: "P \<or> Q \<Longrightarrow> \<not> Q \<Longrightarrow> P"
  by blast

theorem constants_inherited_witness:
  "(\<exists>th'. pmmpthread_prepare_constants 3 demo_prep_env demo_engine demo_creator demo_thread = Copied th' \<and>
     ''LIMIT'' \<in> fst ` set (th_constants th') \<and> ''FOO'' \<notin> fst ` set (th_constants th')) \<and>
   pmmpthread_prepare_constants 3 demo_prep_env demo_engine (demo_creator\<lparr>th_constants := [(''BAD'', demo_constant ''BAD'' (V_OBJECT 9))]\<rparr>) demo_thread =
     Fatal (NonCopyableConstant ''BAD'')"
proof -
  have i: "interned_ok (th_code demo_thread)" using demo_interned by (simp add: demo_thread_def)
  have c: "th_constants demo_thread = [(''foo'', demo_constant ''foo'' (V_LONG 1))]" by (simp add: demo_thread_def)
  have e: "th_constants demo_creator = [(''FOO'', demo_constant ''FOO'' (V_LONG 2)), (''LOG'', demo_constant ''LOG'' (V_RESOURCE 3)),
    (''LIMIT'', demo_constant ''LIMIT'' (V_LONG 5))]" by (simp add: demo_creator_def)
  have g: "\<forall>name c. (name, c) \<in> set (th_constants demo_creator) \<longrightarrow>
      en_constant_key demo_engine name = Some name \<and> (inheritable c \<longrightarrow> data_val (zc_value c))"
    by (auto simp: e demo_engine_def inheritable_def demo_constant_def)
  have k: "\<not> (\<exists>name c z. (name, c) \<in> set (th_constants demo_creator) \<and> inheritable c \<and> zc_name c = Some z \<and> \<not> copyable (zc_value c) \<and>
      name \<notin> fst ` set (th_constants demo_thread) \<and> zend_string_tolower name \<notin> fst ` set (th_constants demo_thread) \<and>
      pmmpthread_prepare_constants 3 demo_prep_env demo_engine demo_creator demo_thread = Fatal (NonCopyableConstant (zs_val z)))"
    by (auto simp: e inheritable_def demo_constant_def)
  from or_left [OF constants_inherited [OF i g, of 3 demo_prep_env] k] obtain th' new where
    t: "pmmpthread_prepare_constants 3 demo_prep_env demo_engine demo_creator demo_thread = Copied th'" "th_constants th' = th_constants demo_thread @ new"
    and n: "\<forall>name d. (name, d) \<in> set new \<longrightarrow>
         (\<exists>c. (name, c) \<in> set (th_constants demo_creator) \<and> inheritable c \<and> copyable (zc_value c) \<and> constant_copy name c d) \<and>
         name \<notin> fst ` set (th_constants demo_thread) \<and> zend_string_tolower name \<notin> fst ` set (th_constants demo_thread)"
    and p: "\<forall>name c. (name, c) \<in> set (th_constants demo_creator) \<and> inheritable c \<longrightarrow>
      name \<in> fst ` set (th_constants th') \<or> zend_string_tolower name \<in> fst ` set (th_constants th')"
    by (elim exE conjE)
  have "''FOO'' \<notin> fst ` set new" "''limit'' \<notin> fst ` set new" using n [THEN spec, of "''FOO''"] n [THEN spec, of "''limit''"] by (auto simp: c e demo_constants_lower)
  moreover have "''LIMIT'' \<in> fst ` set (th_constants th') \<or> ''limit'' \<in> fst ` set (th_constants th')"
    using p [THEN spec, THEN spec, of "''LIMIT''" "demo_constant ''LIMIT'' (V_LONG 5)"] by (simp add: e inheritable_def demo_constant_def demo_constants_lower)
  ultimately have 1: "''LIMIT'' \<in> fst ` set (th_constants th')" "''FOO'' \<notin> fst ` set (th_constants th')" using t by (auto simp: c)
  let ?bad = "demo_creator\<lparr>th_constants := [(''BAD'', demo_constant ''BAD'' (V_OBJECT 9))]\<rparr>"
  have b: "\<forall>name c. (name, c) \<in> set (th_constants ?bad) \<longrightarrow>
      en_constant_key demo_engine name = Some name \<and> (inheritable c \<longrightarrow> data_val (zc_value c))"
    by (auto simp: demo_engine_def inheritable_def demo_constant_def)
  have "inheritable (demo_constant ''BAD'' (V_OBJECT 9))" "\<not> copyable (zc_value (demo_constant ''BAD'' (V_OBJECT 9)))"
    "zc_name (demo_constant ''BAD'' (V_OBJECT 9)) = Some (demo_zstr 31 ''BAD'' False)" "zs_val (demo_zstr 31 ''BAD'' False) = ''BAD''"
    "zend_string_tolower ''BAD'' = ''bad''"
    by (simp_all add: inheritable_def demo_constant_def demo_zstr_def) code_simp
  then have "pmmpthread_prepare_constants 3 demo_prep_env demo_engine ?bad demo_thread = Fatal (NonCopyableConstant ''BAD'')"
    using constants_inherited [OF i b, of 3 demo_prep_env] by (fastforce simp: c)
  then show ?thesis using t(1) 1 by blast
qed

definition demo_simple_env :: "zval btable prep_env" where
  "demo_simple_env = \<lparr>pe_copy = demo_copy_env\<lparr>ce_classes := [700 \<mapsto> demo_class ''Task'']\<rparr>, pe_options = PMMPTHREAD_INHERIT_ALL,
     pe_class_table = [(''task'', 700)], pe_map_ptr_last = 5\<rparr>"

definition demo_environment :: "zval btable php_thread copied" where
  "demo_environment = inherit_environment 3 demo_simple_env demo_engine demo_creator 700 demo_thread"

lemma cbind_first: "m = m' \<Longrightarrow> cbind m f = cbind m' f"
  by simp

lemma demo_environment_ok: "copied_ok demo_environment"
  unfolding demo_environment_def copied_ok_def numeral_3_eq_3
  by (simp add: inherit_environment_def demo_options pmmpthread_prepare_sapi_def demo_thread_def demo_creator_def demo_engine_def
      pmmpthread_prepare_ini_def restrict_session_def prepare_ini_entry_def inherit_ini_value_def set_ini_def demo_ini_def c_str_def
      pmmpthread_prepare_constants_def prepare_constant_def pmmpthread_constant_exists_def demo_constants_lower zend_register_constant_def demo_constant_def
      pmmpthread_prepare_functions_def prepare_function_def pmmpthread_prepare_classes_def prepare_class_def on_code_def
      pmmpthread_context_late_bindings_def context_late_binding_def prepared_env_def pmmpthread_prepare_includes_def prepare_include_def
      demo_simple_env_def demo_copy_env_def demo_class_def demo_copy_state_def Let_def demo_lower prepare_defs
      copy_function_defs demo_zstr_def demo_function_def cong: cbind_first)

theorem environment_inherited_witness:
  "\<exists>th'. demo_environment = Copied th' \<and> map_of (cs_function_table (th_code th')) ''f'' \<noteq> None \<and>
     map_of (cs_class_table (th_code th')) ''task'' \<noteq> None \<and> th_included_files th' \<noteq> [] \<and> th_headers_sent th'"
proof -
  obtain th' where r: "demo_environment = Copied th'" using demo_environment_ok by (auto simp: copied_ok_def split: copied.splits)
  have w: "class_wf demo_simple_env (th_code demo_thread)"
    using demo_interned
    by (auto simp: class_wf_def demo_simple_env_def demo_copy_env_def demo_copy_state_def demo_thread_def
        demo_class_def zend_initialize_class_data_def)
  have t: "user_class demo_simple_env ''task'' 700" "take 1 ''task'' \<noteq> [CHR 0x00]" "(''task'', 700) \<in> set (pe_class_table demo_simple_env)"
    by (simp_all add: user_class_def demo_simple_env_def demo_class_def zend_initialize_class_data_def class_name_def demo_zstr_def demo_lower)
  have d: "th_options demo_thread = PMMPTHREAD_INHERIT_ALL" "(''f'', 500) \<in> set (cs_function_table (th_code demo_creator))"
    "th_included_files demo_creator = [''a.php'']" "ce_functions (pe_copy demo_simple_env) 500 = Some demo_function" "fn_user demo_function"
    by (simp_all add: demo_thread_def demo_creator_def demo_simple_env_def demo_copy_env_def demo_function_def)
  note e = environment_inherited [OF w demo_engine_alters r [unfolded demo_environment_def], unfolded d(1) if_P [OF demo_options(3)] if_P [OF demo_options(4)] if_P [OF demo_options(5)]]
  have "map_of (cs_function_table (th_code th')) ''f'' \<noteq> None" "map_of (cs_class_table (th_code th')) ''task'' \<noteq> None" using e d t by blast+
  moreover have "th_included_files th' \<noteq> []" "th_headers_sent th'" using e d(3) demo_options(6) by auto
  ultimately show ?thesis using r by blast
qed

end
