(* ===== verification/Queue.thy ===== *)
theory Queue
  imports Prelude
begin

text \<open>
  The doubly linked queue of src/queue.c: items in a heap, the queue header with its size and its
  two end pointers, and the eight operations. \<open>None\<close> as a result stands for an access to memory
  that is not allocated. The reference counts of the queued values are part of the memory, because
  the operations take, move and drop references.
\<close>

section \<open>Data (src/queue.h)\<close>

record 'v pmmpthread_queue_item_t =
  item_next :: ptr
  item_prev :: ptr
  item_value :: 'v

record pmmpthread_queue =
  q_size :: int
  q_head :: ptr
  q_tail :: ptr

text \<open>\<open>cells\<close> is the memory of the items, \<open>refs\<close> the reference count of each value.\<close>

record 'v qmem =
  cells :: "'v pmmpthread_queue_item_t heap"
  refs :: "'v \<Rightarrow> int"

datatype garbage = PMMPTHREAD_STACK_FREE | PMMPTHREAD_STACK_NOTHING

definition empty_queue :: pmmpthread_queue where
  "empty_queue = \<lparr>q_size = 0, q_head = None, q_tail = None\<rparr>"

section \<open>Operations\<close>

definition zval_addref :: "'v \<Rightarrow> 'v qmem \<Rightarrow> 'v qmem" where
  "zval_addref v m = m\<lparr>refs := (refs m)(v := refs m v + 1)\<rparr>"

definition zval_ptr_dtor :: "'v \<Rightarrow> 'v qmem \<Rightarrow> 'v qmem" where
  "zval_ptr_dtor v m = m\<lparr>refs := (refs m)(v := refs m v - 1)\<rparr>"

definition efree :: "addr \<Rightarrow> 'v qmem \<Rightarrow> 'v qmem option" where
  "efree a m = (case cells m a of None \<Rightarrow> None | Some _ \<Rightarrow> Some (m\<lparr>cells := (cells m)(a := None)\<rparr>))"

definition item_upd ::
  "addr \<Rightarrow> ('v pmmpthread_queue_item_t \<Rightarrow> 'v pmmpthread_queue_item_t) \<Rightarrow> 'v qmem \<Rightarrow> 'v qmem option"
where
  "item_upd a f m = map_option (\<lambda>h. m\<lparr>cells := h\<rparr>) (cell_upd a f (cells m))"

text \<open>
  The cleaning loop reads the next pointer of an item before it frees the item. A cyclic list would
  reach a freed item, so the loop has a result only for a list that ends.
\<close>

partial_function (option) queue_clean_loop :: "ptr \<Rightarrow> 'v qmem \<Rightarrow> 'v qmem option" where
  "queue_clean_loop p m =
     (case p of
        None \<Rightarrow> Some m
      | Some a \<Rightarrow>
          (case cells m a of
             None \<Rightarrow> None
           | Some it \<Rightarrow>
               Option.bind (efree a (zval_ptr_dtor (item_value it) m))
                 (\<lambda>m'. queue_clean_loop (item_next it) m')))"

definition pmmpthread_queue_clean :: "pmmpthread_queue \<Rightarrow> 'v qmem \<Rightarrow> 'v qmem option" where
  "pmmpthread_queue_clean q m = queue_clean_loop (q_head q) m"

text \<open>
  \<open>emalloc\<close> is not part of the program: the address it returns is an argument. The links of a new
  item are not initialised by the source; they are arguments too.
\<close>

definition pmmpthread_queue_item_new :: "addr \<Rightarrow> ptr \<Rightarrow> ptr \<Rightarrow> 'v \<Rightarrow> 'v qmem \<Rightarrow> 'v qmem" where
  "pmmpthread_queue_item_new a junk1 junk2 v m =
     zval_addref v
       (m\<lparr>cells := (cells m)(a \<mapsto> \<lparr>item_next = junk1, item_prev = junk2, item_value = v\<rparr>)\<rparr>)"

definition set_prev_and_next :: "addr \<Rightarrow> ptr \<Rightarrow> ptr \<Rightarrow> 'v qmem \<Rightarrow> 'v qmem option" where
  "set_prev_and_next a prev next m = item_upd a (\<lambda>it. it\<lparr>item_prev := prev, item_next := next\<rparr>) m"

definition pmmpthread_queue_push ::
  "pmmpthread_queue \<Rightarrow> addr \<Rightarrow> 'v qmem \<Rightarrow> (pmmpthread_queue \<times> 'v qmem) option"
where
  "pmmpthread_queue_push q a m =
     (case q_tail q of
        None \<Rightarrow>
          do {
            m1 \<leftarrow> set_prev_and_next a None None m;
            Some (q\<lparr>q_tail := Some a, q_head := Some a, q_size := q_size q + 1\<rparr>, m1)
          }
      | Some t \<Rightarrow>
          do {
            m1 \<leftarrow> item_upd t (\<lambda>it. it\<lparr>item_next := Some a\<rparr>) m;
            m2 \<leftarrow> set_prev_and_next a (Some t) None m1;
            Some (q\<lparr>q_tail := Some a, q_size := q_size q + 1\<rparr>, m2)
          })"

definition pmmpthread_queue_push_new ::
  "pmmpthread_queue \<Rightarrow> addr \<Rightarrow> ptr \<Rightarrow> ptr \<Rightarrow> 'v \<Rightarrow> 'v qmem \<Rightarrow> (pmmpthread_queue \<times> 'v qmem) option"
where
  "pmmpthread_queue_push_new q a junk1 junk2 v m =
     pmmpthread_queue_push q a (pmmpthread_queue_item_new a junk1 junk2 v m)"

text \<open>Unlike the push, \<open>pmmpthread_queue_unshift\<close> leaves the size field alone.\<close>

definition pmmpthread_queue_unshift ::
  "pmmpthread_queue \<Rightarrow> addr \<Rightarrow> 'v qmem \<Rightarrow> (pmmpthread_queue \<times> 'v qmem) option"
where
  "pmmpthread_queue_unshift q a m =
     (case q_head q of
        None \<Rightarrow>
          do {
            m1 \<leftarrow> set_prev_and_next a None None m;
            Some (q\<lparr>q_tail := Some a, q_head := Some a\<rparr>, m1)
          }
      | Some f \<Rightarrow>
          do {
            m1 \<leftarrow> item_upd f (\<lambda>it. it\<lparr>item_prev := Some a\<rparr>) m;
            m2 \<leftarrow> set_prev_and_next a None (Some f) m1;
            Some (q\<lparr>q_head := Some a\<rparr>, m2)
          })"

definition pmmpthread_queue_unshift_new ::
  "pmmpthread_queue \<Rightarrow> addr \<Rightarrow> ptr \<Rightarrow> ptr \<Rightarrow> 'v \<Rightarrow> 'v qmem \<Rightarrow> (pmmpthread_queue \<times> 'v qmem) option"
where
  "pmmpthread_queue_unshift_new q a junk1 junk2 v m =
     pmmpthread_queue_unshift q a (pmmpthread_queue_item_new a junk1 junk2 v m)"

text \<open>
  The relinking half of \<open>pmmpthread_queue_remove\<close>, in the order of the source's four branches: the
  only item, the head, the tail, an inner item.
\<close>

definition queue_unlink ::
  "pmmpthread_queue \<Rightarrow> addr \<Rightarrow> 'v pmmpthread_queue_item_t \<Rightarrow> 'v qmem \<Rightarrow>
     (pmmpthread_queue \<times> 'v qmem) option"
where
  "queue_unlink q a it m =
     (if q_head q = Some a \<and> q_tail q = Some a then
        Some (q\<lparr>q_head := None, q_tail := None\<rparr>, m)
      else if q_head q = Some a then
        (case item_next it of
           None \<Rightarrow> None
         | Some n \<Rightarrow>
             do {
               m1 \<leftarrow> item_upd n (\<lambda>i. i\<lparr>item_prev := None\<rparr>) m;
               Some (q\<lparr>q_head := Some n\<rparr>, m1)
             })
      else if q_tail q = Some a then
        (case item_prev it of
           None \<Rightarrow> None
         | Some p \<Rightarrow>
             do {
               m1 \<leftarrow> item_upd p (\<lambda>i. i\<lparr>item_next := None\<rparr>) m;
               Some (q\<lparr>q_tail := Some p\<rparr>, m1)
             })
      else
        (case (item_next it, item_prev it) of
           (Some n, Some p) \<Rightarrow>
             do {
               m1 \<leftarrow> item_upd n (\<lambda>i. i\<lparr>item_prev := Some p\<rparr>) m;
               m2 \<leftarrow> item_upd p (\<lambda>i. i\<lparr>item_next := Some n\<rparr>) m1;
               Some (q, m2)
             }
         | _ \<Rightarrow> None))"

text \<open>
  \<open>want\<close> tells whether the caller passed a place for the value: then the reference of the item moves
  to the caller, otherwise it is dropped. The result is the returned size, the value written to the
  caller's place (if any), the queue and the memory.
\<close>

definition pmmpthread_queue_remove ::
  "pmmpthread_queue \<Rightarrow> ptr \<Rightarrow> bool \<Rightarrow> garbage \<Rightarrow> 'v qmem \<Rightarrow>
     (int \<times> 'v option \<times> pmmpthread_queue \<times> 'v qmem) option"
where
  "pmmpthread_queue_remove q item want g m =
     (case item of
        None \<Rightarrow> Some (0, None, q, m)
      | Some a \<Rightarrow>
          (case cells m a of
             None \<Rightarrow> None
           | Some it \<Rightarrow>
               do {
                 (q1, m1) \<leftarrow> queue_unlink q a it m;
                 let q2 = q1\<lparr>q_size := q_size q1 - 1\<rparr>;
                 let m2 = (if want then m1 else zval_ptr_dtor (item_value it) m1);
                 m3 \<leftarrow> (case g of PMMPTHREAD_STACK_FREE \<Rightarrow> efree a m2
                                | PMMPTHREAD_STACK_NOTHING \<Rightarrow> Some m2);
                 Some (q_size q2, (if want then Some (item_value it) else None), q2, m3)
               }))"

definition pmmpthread_queue_shift ::
  "pmmpthread_queue \<Rightarrow> bool \<Rightarrow> garbage \<Rightarrow> 'v qmem \<Rightarrow>
     (int \<times> 'v option \<times> pmmpthread_queue \<times> 'v qmem) option"
where
  "pmmpthread_queue_shift q want g m = pmmpthread_queue_remove q (q_head q) want g m"

definition pmmpthread_queue_pop ::
  "pmmpthread_queue \<Rightarrow> bool \<Rightarrow> garbage \<Rightarrow> 'v qmem \<Rightarrow>
     (int \<times> 'v option \<times> pmmpthread_queue \<times> 'v qmem) option"
where
  "pmmpthread_queue_pop q want g m = pmmpthread_queue_remove q (q_tail q) want g m"

lemmas queue_op_defs =
  pmmpthread_queue_push_def pmmpthread_queue_remove_def queue_unlink_def set_prev_and_next_def
  item_upd_def efree_def

section \<open>The abstract view\<close>

text \<open>
  \<open>dseg h p c as p' c'\<close>: from the pointer \<open>c\<close>, with \<open>p\<close> before it, the items \<open>as\<close> are linked in both
  directions, and the segment ends after \<open>p'\<close> before \<open>c'\<close>. A queue header represents a list of items
  when the segment spans it from end to end and its size field is the length of the list.
\<close>

primrec dseg :: "'v pmmpthread_queue_item_t heap \<Rightarrow> ptr \<Rightarrow> ptr \<Rightarrow> addr list \<Rightarrow> ptr \<Rightarrow> ptr \<Rightarrow> bool" where
  "dseg h p c [] p' c' \<longleftrightarrow> p' = p \<and> c' = c"
| "dseg h p c (a # as) p' c' \<longleftrightarrow>
     c = Some a \<and> (\<exists>it. h a = Some it \<and> item_prev it = p \<and> dseg h (Some a) (item_next it) as p' c')"

definition queue_rep :: "'v qmem \<Rightarrow> pmmpthread_queue \<Rightarrow> addr list \<Rightarrow> bool" where
  "queue_rep m q as \<longleftrightarrow>
     dseg (cells m) None (q_head q) as (q_tail q) None \<and> distinct as \<and> q_size q = int (length as)"

definition value_at :: "'v qmem \<Rightarrow> addr \<Rightarrow> 'v option" where
  "value_at m a = map_option item_value (cells m a)"

text \<open>The abstraction as functions: the addresses and the values of a queue, and its invariant.\<close>

fun walk :: "nat \<Rightarrow> ptr \<Rightarrow> 'v pmmpthread_queue_item_t heap \<Rightarrow> addr list" where
  "walk 0 p h = []"
| "walk (Suc n) None h = []"
| "walk (Suc n) (Some a) h = a # (case h a of None \<Rightarrow> [] | Some it \<Rightarrow> walk n (item_next it) h)"

definition queue_addrs :: "pmmpthread_queue \<times> 'v qmem \<Rightarrow> addr list" where
  "queue_addrs s = walk (nat (q_size (fst s))) (q_head (fst s)) (cells (snd s))"

definition queue_list :: "pmmpthread_queue \<times> 'v qmem \<Rightarrow> 'v list" where
  "queue_list s = map (\<lambda>a. the (value_at (snd s) a)) (queue_addrs s)"

definition queue_wf :: "pmmpthread_queue \<times> 'v qmem \<Rightarrow> bool" where
  "queue_wf s \<longleftrightarrow> queue_rep (snd s) (fst s) (queue_addrs s)"

definition queue_enq :: "pmmpthread_queue \<times> 'v qmem \<Rightarrow> addr \<Rightarrow> 'v \<Rightarrow> (pmmpthread_queue \<times> 'v qmem) option" where
  "queue_enq s a v = pmmpthread_queue_push_new (fst s) a None None v (snd s)"

definition queue_deq :: "pmmpthread_queue \<times> 'v qmem \<Rightarrow> ('v option \<times> pmmpthread_queue \<times> 'v qmem) option" where
  "queue_deq s = map_option snd (pmmpthread_queue_shift (fst s) True PMMPTHREAD_STACK_FREE (snd s))"

definition queue_used :: "pmmpthread_queue \<times> 'v qmem \<Rightarrow> addr \<Rightarrow> bool" where
  "queue_used s a \<longleftrightarrow> cells (snd s) a \<noteq> None"

fun enq_all :: "('q \<Rightarrow> addr \<Rightarrow> 'v \<Rightarrow> 'q option) \<Rightarrow> (addr \<times> 'v) list \<Rightarrow> 'q \<Rightarrow> 'q option" where
  "enq_all enq [] q = Some q"
| "enq_all enq ((a, v) # avs) q = Option.bind (enq q a v) (enq_all enq avs)"

fun deq_n :: "('q \<Rightarrow> ('v option \<times> 'q) option) \<Rightarrow> nat \<Rightarrow> 'q \<Rightarrow> ('v option list \<times> 'q) option" where
  "deq_n deq 0 q = Some ([], q)"
| "deq_n deq (Suc n) q =
     (case deq q of
        None \<Rightarrow> None
      | Some (v, q1) \<Rightarrow> map_option (\<lambda>(vs, q2). (v # vs, q2)) (deq_n deq n q1))"

section \<open>The queue as an interface\<close>

text \<open>
  What a client of the queue relies on, and what follows from it alone: values leave in the order
  in which they came.
\<close>

locale fifo_queue =
  fixes enq :: "'q \<Rightarrow> addr \<Rightarrow> 'v \<Rightarrow> 'q option"
    and deq :: "'q \<Rightarrow> ('v option \<times> 'q) option"
    and items :: "'q \<Rightarrow> 'v list"
    and wf :: "'q \<Rightarrow> bool"
    and used :: "'q \<Rightarrow> addr \<Rightarrow> bool"
  assumes enq_law: "wf q \<Longrightarrow> \<not> used q a \<Longrightarrow>
      \<exists>q'. enq q a v = Some q' \<and> wf q' \<and> items q' = items q @ [v] \<and> used q' = (used q)(a := True)"
    and deq_nil: "wf q \<Longrightarrow> items q = [] \<Longrightarrow> deq q = Some (None, q)"
    and deq_cons: "wf q \<Longrightarrow> items q = v # vs \<Longrightarrow>
      \<exists>q'. deq q = Some (Some v, q') \<and> wf q' \<and> items q' = vs"
begin

lemma enq_all_items:
  "wf q \<Longrightarrow> distinct (map fst avs) \<Longrightarrow> (\<forall>a \<in> set (map fst avs). \<not> used q a) \<Longrightarrow>
   \<exists>q'. enq_all enq avs q = Some q' \<and> wf q' \<and> items q' = items q @ map snd avs"
proof (induction avs arbitrary: q)
  case Nil
  then show ?case by simp
next
  case (Cons av avs)
  obtain a v where av: "av = (a, v)" by (cases av)
  with Cons.prems obtain q1 where q1: "enq q a v = Some q1" "wf q1" "items q1 = items q @ [v]"
    "used q1 = (used q)(a := True)"
    using enq_law [of q a v] by auto
  with Cons.prems av have "\<forall>b \<in> set (map fst avs). \<not> used q1 b" by auto
  with Cons.IH [OF q1(2)] Cons.prems(2) av obtain q2 where
    "enq_all enq avs q1 = Some q2" "wf q2" "items q2 = items q1 @ map snd avs" by auto
  with q1 av show ?case by simp
qed

lemma deq_all: "wf q \<Longrightarrow> \<exists>q'. deq_n deq (length (items q)) q = Some (map Some (items q), q') \<and> wf q' \<and> items q' = []"
proof (induction "items q" arbitrary: q)
  case Nil
  then show ?case by auto
next
  case (Cons v vs)
  then obtain q1 where q1: "deq q = Some (Some v, q1)" "wf q1" "items q1 = vs"
    using deq_cons [of q v vs] by auto
  with Cons.hyps(1) [of q1] obtain q2 where
    "deq_n deq (length vs) q1 = Some (map Some vs, q2)" "wf q2" "items q2 = []" by auto
  with q1 show ?case unfolding Cons.hyps(2) [symmetric] by simp
qed

lemma first_in_first_out:
  assumes "wf q" and "distinct (map fst avs)" and "\<forall>a \<in> set (map fst avs). \<not> used q a"
  shows "\<exists>q1 q2. enq_all enq avs q = Some q1 \<and>
    deq_n deq (length (items q) + length avs) q1 = Some (map Some (items q @ map snd avs), q2) \<and> items q2 = []"
proof -
  from enq_all_items [OF assms] obtain q1 where
    q1: "enq_all enq avs q = Some q1" "wf q1" "items q1 = items q @ map snd avs" by blast
  with deq_all [of q1] show ?thesis by auto
qed

end

section \<open>List segments\<close>

lemma dseg_append [simp]:
  "dseg h p c (xs @ ys) p' c' \<longleftrightarrow> (\<exists>p1 c1. dseg h p c xs p1 c1 \<and> dseg h p1 c1 ys p' c')"
  by (induction xs arbitrary: p c) auto

lemma dseg_cong: "(\<And>a. a \<in> set as \<Longrightarrow> h' a = h a) \<Longrightarrow> dseg h' p c as p' c' = dseg h p c as p' c'"
  by (induction as arbitrary: p c) auto

lemma dseg_upd_other [simp]: "a \<notin> set as \<Longrightarrow> dseg (h(a := x)) p c as p' c' = dseg h p c as p' c'"
  by (rule dseg_cong) auto

lemma dseg_alloc: "dseg h p c as p' c' \<Longrightarrow> a \<in> set as \<Longrightarrow> \<exists>it. h a = Some it"
  by (induction as arbitrary: p c) auto

lemma dseg_end: "dseg h (Some b) c bs p' c' \<Longrightarrow> p' = Some b \<or> p' \<in> Some ` set bs"
  by (induction bs arbitrary: b c) auto

lemma dseg_end_neq:
  "dseg h p c (xs @ a # n # ys) p' c' \<Longrightarrow> distinct (xs @ a # n # ys) \<Longrightarrow> p' \<noteq> Some a"
  by (auto dest!: dseg_end)

lemma dseg_hd: "dseg h p c as p' c' \<Longrightarrow> as \<noteq> [] \<Longrightarrow> c = Some (hd as)"
  by (cases as) auto

lemma push_rep:
  assumes "queue_rep m q as" and "a \<notin> set as" and "cells m a = Some it"
  shows "\<exists>q' m'. pmmpthread_queue_push q a m = Some (q', m') \<and> queue_rep m' q' (as @ [a]) \<and>
    (\<forall>b. b \<notin> set as \<and> b \<noteq> a \<longrightarrow> cells m' b = cells m b) \<and> value_at m' = value_at m \<and> refs m' = refs m"
proof (cases as rule: rev_cases)
  case Nil
  with assms show ?thesis
    by (auto simp: queue_rep_def queue_op_defs mem_simps value_at_def fun_eq_iff)
next
  case (snoc bs t)
  with assms obtain itt where t: "q_tail q = Some t" "cells m t = Some itt" "t \<noteq> a" "item_next itt = None"
    "dseg (cells m) None (q_head q) bs (item_prev itt) (Some t)"
    by (auto simp: queue_rep_def)
  with assms snoc show ?thesis
    by (auto simp: queue_rep_def queue_op_defs mem_simps value_at_def fun_eq_iff)
qed

lemma unlink_rep:
  assumes "dseg (cells m) None (q_head q) (xs @ a # ys) (q_tail q) None" and "distinct (xs @ a # ys)"
    and "cells m a = Some it"
  shows "\<exists>q' m'. queue_unlink q a it m = Some (q', m') \<and>
    dseg (cells m') None (q_head q') (xs @ ys) (q_tail q') None \<and> q_size q' = q_size q \<and>
    (\<forall>b. b \<notin> set xs \<and> b \<notin> set ys \<longrightarrow> cells m' b = cells m b) \<and> value_at m' = value_at m \<and> refs m' = refs m"
proof -
  consider (only) "xs = []" "ys = []" | (head) n zs where "xs = []" "ys = n # zs"
    | (tail) p zs where "xs = zs @ [p]" "ys = []" | (inner) p us n vs where "xs = us @ [p]" "ys = n # vs"
    by (metis neq_Nil_conv rev_exhaust)
  then show ?thesis
  proof cases
    case only
    with assms show ?thesis by (auto simp: queue_op_defs)
  next
    case head
    with assms have "q_tail q \<noteq> Some a" using dseg_end_neq by blast
    with head assms show ?thesis
      by (auto simp: queue_op_defs mem_simps value_at_def fun_eq_iff)
  next
    case tail
    with assms have "q_head q \<noteq> Some a" by (cases zs) auto
    with tail assms show ?thesis
      by (auto simp: queue_op_defs mem_simps value_at_def fun_eq_iff)
  next
    case inner
    with assms have "q_head q \<noteq> Some a" by (cases us) auto
    moreover have "q_tail q \<noteq> Some a" using inner assms dseg_end_neq by blast
    ultimately show ?thesis using inner assms
      by (auto simp: queue_op_defs mem_simps value_at_def fun_eq_iff)
  qed
qed

lemma remove_rep:
  assumes "queue_rep m q as" and "a \<in> set as" and "value_at m a = Some v"
  shows "\<exists>q' m'. pmmpthread_queue_remove q (Some a) want g m =
      Some (int (length as) - 1, if want then Some v else None, q', m') \<and>
    queue_rep m' q' (remove1 a as) \<and>
    (\<forall>b. b \<notin> set as \<longrightarrow> cells m' b = cells m b) \<and>
    value_at m' = (if g = PMMPTHREAD_STACK_FREE then (value_at m)(a := None) else value_at m) \<and>
    refs m' = (if want then refs m else (refs m)(v := refs m v - 1))"
proof -
  from assms(2) obtain xs ys where as: "as = xs @ a # ys" and "a \<notin> set xs"
    by (meson split_list_first)
  then have rem: "remove1 a as = xs @ ys" by (simp add: remove1_append)
  from assms(3) obtain it where it: "cells m a = Some it" and v: "item_value it = v"
    by (auto simp: value_at_def)
  from assms(1) as have seg: "dseg (cells m) None (q_head q) (xs @ a # ys) (q_tail q) None"
    and dist: "distinct (xs @ a # ys)" and size: "q_size q = int (length as)"
    by (auto simp: queue_rep_def)
  obtain q1 m1 where u: "queue_unlink q a it m = Some (q1, m1)"
    and seg1: "dseg (cells m1) None (q_head q1) (xs @ ys) (q_tail q1) None"
    and size1: "q_size q1 = q_size q"
    and frame: "\<forall>b. b \<notin> set xs \<and> b \<notin> set ys \<longrightarrow> cells m1 b = cells m b"
    and keep: "value_at m1 = value_at m" "refs m1 = refs m"
    using unlink_rep [OF seg dist it] by blast
  have "cells m1 a = Some it" using frame it dist by auto
  then show ?thesis
    using u seg1 size1 frame keep dist size it v as rem
    by (cases g)
      (auto simp: pmmpthread_queue_remove_def queue_rep_def efree_def zval_ptr_dtor_def value_at_def
         fun_eq_iff)
qed

section \<open>The queue implements the interface\<close>

lemma dseg_walk: "dseg h p c as p' None \<Longrightarrow> walk (length as) c h = as"
  by (induction as arbitrary: p c) auto

lemma queue_rep_addrs: "queue_rep m q as \<Longrightarrow> queue_addrs (q, m) = as"
  by (auto simp: queue_rep_def queue_addrs_def dest: dseg_walk)

lemma queue_rep_wf: "queue_rep m q as \<Longrightarrow> queue_wf (q, m)"
  by (simp add: queue_wf_def queue_rep_addrs)

lemma queue_wf_rep: "queue_wf (q, m) \<Longrightarrow> queue_rep m q (queue_addrs (q, m))"
  by (simp add: queue_wf_def)

lemma queue_rep_list: "queue_rep m q as \<Longrightarrow> queue_list (q, m) = map (\<lambda>a. the (value_at m a)) as"
  by (simp add: queue_list_def queue_rep_addrs)

lemma queue_rep_alloc: "queue_rep m q as \<Longrightarrow> a \<in> set as \<Longrightarrow> \<exists>v. value_at m a = Some v"
  by (auto simp: queue_rep_def value_at_def dest: dseg_alloc)

lemma queue_rep_frame:
  "queue_rep m q as \<Longrightarrow> (\<And>a. a \<in> set as \<Longrightarrow> cells m' a = cells m a) \<Longrightarrow> queue_rep m' q as"
  unfolding queue_rep_def by (metis dseg_cong)

lemma queue_rep_fresh: "queue_rep m q as \<Longrightarrow> cells m a = None \<Longrightarrow> a \<notin> set as"
  by (auto simp: value_at_def dest: queue_rep_alloc)

lemma queue_used_value: "queue_used s = (\<lambda>a. value_at (snd s) a \<noteq> None)"
  by (auto simp: queue_used_def value_at_def fun_eq_iff)

lemma push_new_junk: "pmmpthread_queue_push_new q a j1 j2 v m = pmmpthread_queue_push_new q a k1 k2 v m"
  by (auto simp: pmmpthread_queue_push_new_def pmmpthread_queue_item_new_def queue_op_defs
      cell_upd_def zval_addref_def split: option.splits)

lemma push_new_rep:
  assumes "queue_rep m q as" and "cells m a = None"
  shows "\<exists>q' m'. pmmpthread_queue_push_new q a j1 j2 v m = Some (q', m') \<and>
    queue_rep m' q' (as @ [a]) \<and> (\<forall>b. b \<notin> set as \<and> b \<noteq> a \<longrightarrow> cells m' b = cells m b) \<and>
    value_at m' = (value_at m)(a \<mapsto> v) \<and> refs m' = (refs m)(v := refs m v + 1)"
proof -
  let ?m = "pmmpthread_queue_item_new a j1 j2 v m"
  have fresh: "a \<notin> set as" using assms by (rule queue_rep_fresh)
  have c: "cells ?m = (cells m)(a \<mapsto> \<lparr>item_next = j1, item_prev = j2, item_value = v\<rparr>)"
    and r: "refs ?m = (refs m)(v := refs m v + 1)"
    by (simp_all add: pmmpthread_queue_item_new_def zval_addref_def)
  have v: "value_at ?m = (value_at m)(a \<mapsto> v)" by (auto simp: value_at_def c)
  have "queue_rep ?m q as" using assms(1) fresh by (rule_tac queue_rep_frame) (auto simp: c)
  from push_rep [OF this fresh] c show ?thesis
    unfolding pmmpthread_queue_push_new_def v r by fastforce
qed

lemma shift_rep_cons:
  assumes "queue_rep m q (a # as)" and "value_at m a = Some v"
  shows "\<exists>q' m'. pmmpthread_queue_shift q want g m =
      Some (int (length as), if want then Some v else None, q', m') \<and> queue_rep m' q' as \<and>
    (\<forall>b. b \<notin> set (a # as) \<longrightarrow> cells m' b = cells m b) \<and>
    value_at m' = (if g = PMMPTHREAD_STACK_FREE then (value_at m)(a := None) else value_at m) \<and>
    refs m' = (if want then refs m else (refs m)(v := refs m v - 1))"
proof -
  have "q_head q = Some a" using assms(1) by (auto simp: queue_rep_def)
  then show ?thesis
    using remove_rep [OF assms(1) _ assms(2), of want g] by (simp add: pmmpthread_queue_shift_def)
qed

lemma shift_rep_nil:
  "queue_rep m q [] \<Longrightarrow> pmmpthread_queue_shift q want g m = Some (0, None, q, m)"
  by (simp add: queue_rep_def pmmpthread_queue_shift_def pmmpthread_queue_remove_def)

interpretation tq: fifo_queue queue_enq queue_deq queue_list queue_wf queue_used
proof
  fix s :: "pmmpthread_queue \<times> 'v qmem" and a :: addr and v :: 'v
  assume wf: "queue_wf s" and fresh: "\<not> queue_used s a"
  obtain q m where s: "s = (q, m)" by (cases s)
  from wf have rep: "queue_rep m q (queue_addrs s)" unfolding s by (rule queue_wf_rep)
  from push_new_rep [OF rep, of a None None v] fresh obtain q' m' where
    p: "pmmpthread_queue_push_new q a None None v m = Some (q', m')"
      "queue_rep m' q' (queue_addrs s @ [a])" "value_at m' = (value_at m)(a \<mapsto> v)"
      "\<forall>b. b \<notin> set (queue_addrs s) \<and> b \<noteq> a \<longrightarrow> cells m' b = cells m b"
    by (auto simp: queue_used_def s)
  have na: "a \<notin> set (queue_addrs s)" using rep fresh by (auto simp: s queue_used_def dest: queue_rep_fresh)
  have "queue_list (q', m') = queue_list s @ [v]"
    using p(3) na unfolding queue_rep_list [OF p(2)] by (auto simp: queue_list_def s)
  moreover have "queue_used (q', m') = (queue_used s)(a := True)"
    using p(3) by (auto simp: queue_used_value s)
  ultimately show "\<exists>q'. queue_enq s a v = Some q' \<and> queue_wf q' \<and> queue_list q' = queue_list s @ [v] \<and>
     queue_used q' = (queue_used s)(a := True)"
    using p(1) queue_rep_wf [OF p(2)] by (simp add: queue_enq_def s)
next
  fix s :: "pmmpthread_queue \<times> 'v qmem"
  assume "queue_wf s" "queue_list s = []"
  then show "queue_deq s = Some (None, s)"
    by (cases s) (simp add: queue_deq_def queue_wf_def queue_list_def shift_rep_nil)
next
  fix s :: "pmmpthread_queue \<times> 'v qmem" and v vs
  assume wf: "queue_wf s" and l: "queue_list s = v # vs"
  obtain q m where s: "s = (q, m)" by (cases s)
  from wf have rep: "queue_rep m q (queue_addrs s)" unfolding s by (rule queue_wf_rep)
  from l obtain a as where as: "queue_addrs s = a # as" by (auto simp: queue_list_def)
  with rep queue_rep_alloc [of m q "a # as" a] l have va: "value_at m a = Some v"
    by (auto simp: queue_list_def s)
  from shift_rep_cons [OF rep [unfolded as] va, of True PMMPTHREAD_STACK_FREE] obtain q' m' where
    p: "pmmpthread_queue_shift q True PMMPTHREAD_STACK_FREE m = Some (int (length as), Some v, q', m')"
      "queue_rep m' q' as" "value_at m' = (value_at m)(a := None)" by auto
  have "a \<notin> set as" using rep as by (simp add: queue_rep_def)
  then have "queue_list (q', m') = vs"
    using l p(3) unfolding queue_rep_list [OF p(2)] by (auto simp: queue_list_def s as [unfolded s])
  with p(1) queue_rep_wf [OF p(2)] show "\<exists>q'. queue_deq s = Some (Some v, q') \<and> queue_wf q' \<and> queue_list q' = vs"
    by (simp add: queue_deq_def s)
qed

section \<open>Properties\<close>

lemma clean_loop_seg:
  "dseg (cells m) p c as t None \<Longrightarrow> distinct as \<Longrightarrow>
   \<exists>m'. queue_clean_loop c m = Some m' \<and>
     cells m' = (\<lambda>a. if a \<in> set as then None else cells m a) \<and>
     (\<forall>v. refs m' v = refs m v - int (count_list (map (\<lambda>a. the (value_at m a)) as) v))"
proof (induction as arbitrary: m p c)
  case Nil
  then show ?case by (simp add: queue_clean_loop.simps)
next
  case (Cons a as)
  then obtain it where it: "c = Some a" "cells m a = Some it" "dseg (cells m) (Some a) (item_next it) as t None"
    by auto
  let ?m = "(zval_ptr_dtor (item_value it) m)\<lparr>cells := (cells m)(a := None)\<rparr>"
  have free: "efree a (zval_ptr_dtor (item_value it) m) = Some ?m"
    using it by (simp add: efree_def zval_ptr_dtor_def)
  have na: "a \<notin> set as" and "distinct as" using Cons.prems by auto
  then have "dseg (cells ?m) (Some a) (item_next it) as t None" using it by simp
  from Cons.IH [OF this \<open>distinct as\<close>] obtain m' where
    m': "queue_clean_loop (item_next it) ?m = Some m'"
      "cells m' = (\<lambda>b. if b \<in> set as then None else cells ?m b)"
      "\<forall>v. refs m' v = refs ?m v - int (count_list (map (\<lambda>a. the (value_at ?m a)) as) v)" by blast
  have vals: "map (\<lambda>b. the (value_at ?m b)) as = map (\<lambda>b. the (value_at m b)) as"
    using na by (auto simp: value_at_def)
  have va: "the (value_at m a) = item_value it" using it by (simp add: value_at_def)
  have "refs m' v = refs m v - int (count_list (map (\<lambda>a. the (value_at m a)) (a # as)) v)" for v
    using m'(3) unfolding vals by (simp add: va zval_ptr_dtor_def)
  then show ?case using it free m'(1,2)
    by (subst queue_clean_loop.simps) auto
qed

lemma unshift_seg:
  assumes "queue_rep m q as" and "cells m a = None"
  shows "\<exists>q' m'. pmmpthread_queue_unshift_new q a j1 j2 v m = Some (q', m') \<and>
    dseg (cells m') None (q_head q') (a # as) (q_tail q') None \<and> q_size q' = int (length as)"
proof (cases as)
  case Nil
  with assms show ?thesis
    by (simp add: queue_rep_def pmmpthread_queue_unshift_new_def pmmpthread_queue_unshift_def
        pmmpthread_queue_item_new_def zval_addref_def queue_op_defs mem_simps)
next
  case (Cons b bs)
  have "a \<notin> set as" using assms by (rule queue_rep_fresh)
  with Cons assms obtain it where it: "q_head q = Some b" "cells m b = Some it" "b \<noteq> a" "a \<notin> set bs" "b \<notin> set bs"
    "item_prev it = None" "dseg (cells m) (Some b) (item_next it) bs (q_tail q) None" "q_size q = int (length as)"
    by (auto simp: queue_rep_def)
  then show ?thesis using Cons
    by (simp add: pmmpthread_queue_unshift_new_def pmmpthread_queue_unshift_def
        pmmpthread_queue_item_new_def zval_addref_def queue_op_defs mem_simps)
qed

definition demo_qmem :: "nat qmem" where
  "demo_qmem = \<lparr>cells = (\<lambda>_. None), refs = (\<lambda>_. 0)\<rparr>"

lemma demo_queue_wf: "queue_wf (empty_queue, demo_qmem)"
  by (simp add: queue_wf_def queue_rep_def queue_addrs_def empty_queue_def)

definition demo_queue :: "pmmpthread_queue \<times> nat qmem" where
  "demo_queue = (the (enq_all queue_enq [(1, 10), (2, 20), (3, 30)] (empty_queue, demo_qmem)))"

lemmas demo_queue_eval = demo_queue_def queue_enq_def pmmpthread_queue_push_new_def empty_queue_def
  demo_qmem_def pmmpthread_queue_item_new_def zval_addref_def queue_op_defs mem_simps

lemma demo_queue_rep: "queue_rep (snd demo_queue) (fst demo_queue) [1, 2, 3]"
  by (simp add: demo_queue_eval queue_rep_def)

lemma demo_queue_list: "queue_list demo_queue = [10, 20, 30]"
  using queue_rep_list [OF demo_queue_rep] by (simp add: value_at_def) (simp add: demo_queue_eval)

text \<open>
  C29: Values come out of a queue in the order in which they were pushed: pushing any values with
  \<open>pmmpthread_queue_push_new\<close> on a well-formed queue and then shifting until it is empty returns
  the old content followed by the pushed values, and leaves the queue empty. No access to freed or
  unallocated memory happens on the way.
\<close>

theorem queue_first_in_first_out:
  assumes "queue_wf s" and "distinct (map fst avs)" and "\<forall>a \<in> set (map fst avs). \<not> queue_used s a"
  shows "\<exists>s1 s2. enq_all queue_enq avs s = Some s1 \<and>
    deq_n queue_deq (length (queue_list s) + length avs) s1 =
      Some (map Some (queue_list s @ map snd avs), s2) \<and> queue_list s2 = []"
  using assms by (rule tq.first_in_first_out)

theorem queue_first_in_first_out_witness:
  "\<exists>s1 s2. enq_all queue_enq [(4, 40), (7, 70)] demo_queue = Some s1 \<and>
    deq_n queue_deq 5 s1 = Some (map Some [10, 20, 30, 40, 70], s2) \<and> queue_list s2 = []"
proof -
  have "queue_wf demo_queue" using queue_rep_wf [OF demo_queue_rep] by simp
  moreover have "\<forall>a \<in> set (map fst [(4, 40), (7, 70 :: nat)]). \<not> queue_used demo_queue a"
    by (simp add: demo_queue_eval queue_used_def)
  ultimately show ?thesis
    using queue_first_in_first_out [of demo_queue "[(4, 40), (7, 70)]"]
    by (simp add: demo_queue_list eval_nat_numeral del: enq_all.simps deq_n.simps)
qed

text \<open>
  C30: Removing an item, wherever it stands in the queue, relinks its neighbours in both directions,
  decrements the size, hands its value to the caller or drops the reference, frees the item exactly
  when asked to, and touches no item of another list.
\<close>

theorem queue_remove_refines:
  assumes "queue_rep m q as" and "a \<in> set as" and "value_at m a = Some v"
  shows "\<exists>q' m'. pmmpthread_queue_remove q (Some a) want g m =
      Some (int (length as) - 1, if want then Some v else None, q', m') \<and>
    queue_rep m' q' (remove1 a as) \<and>
    (\<forall>b. b \<notin> set as \<longrightarrow> cells m' b = cells m b) \<and>
    value_at m' = (if g = PMMPTHREAD_STACK_FREE then (value_at m)(a := None) else value_at m) \<and>
    refs m' = (if want then refs m else (refs m)(v := refs m v - 1))"
  using assms by (rule remove_rep)

theorem queue_remove_refines_witness:
  "\<exists>q' m'. pmmpthread_queue_remove (fst demo_queue) (Some 2) False PMMPTHREAD_STACK_FREE (snd demo_queue) =
      Some (2, None, q', m') \<and> queue_rep m' q' [1, 3]"
proof -
  have "value_at (snd demo_queue) 2 = Some 20" by (simp add: demo_queue_eval value_at_def)
  from queue_remove_refines [OF demo_queue_rep _ this, of False PMMPTHREAD_STACK_FREE] show ?thesis
    by auto
qed

text \<open>
  C31: Cleaning a queue terminates, frees every item of the queue and no other, and drops exactly one
  reference for every queued occurrence of a value.
\<close>

theorem queue_clean_frees:
  assumes "queue_wf (q, m)"
  shows "\<exists>m'. pmmpthread_queue_clean q m = Some m' \<and>
    cells m' = (\<lambda>a. if a \<in> set (queue_addrs (q, m)) then None else cells m a) \<and>
    (\<forall>v. refs m' v = refs m v - int (count_list (queue_list (q, m)) v))"
proof -
  from assms have "queue_rep m q (queue_addrs (q, m))" by (rule queue_wf_rep)
  then show ?thesis
    using clean_loop_seg [of m None "q_head q" "queue_addrs (q, m)" "q_tail q"]
    by (simp add: queue_rep_def pmmpthread_queue_clean_def queue_list_def)
qed

theorem queue_clean_frees_witness:
  "\<exists>m'. pmmpthread_queue_clean (fst demo_queue) (snd demo_queue) = Some m' \<and>
    cells m' 1 = None \<and> refs m' 10 = refs (snd demo_queue) 10 - 1"
proof -
  have "queue_wf (fst demo_queue, snd demo_queue)" using demo_queue_rep by (rule queue_rep_wf)
  from queue_clean_frees [OF this] queue_rep_addrs [OF demo_queue_rep] show ?thesis
    by (auto simp: demo_queue_list)
qed

text \<open>
  \<open>pmmpthread_queue_unshift\<close> links the new item in front correctly but does not count it: after
  it the size field is one less than the number of linked items, so the queue is no longer
  well-formed.
\<close>

theorem queue_unshift_miscounts:
  assumes "queue_rep m q as" and "cells m a = None"
  shows "\<exists>q' m'. pmmpthread_queue_unshift_new q a j1 j2 v m = Some (q', m') \<and>
    dseg (cells m') None (q_head q') (a # as) (q_tail q') None \<and>
    q_size q' = int (length (a # as)) - 1 \<and> \<not> queue_rep m' q' (a # as)"
  using unshift_seg [OF assms, of j1 j2 v] by (auto simp: queue_rep_def)

theorem queue_unshift_miscounts_witness:
  "\<exists>q' m'. pmmpthread_queue_unshift_new (fst demo_queue) 9 None None 90 (snd demo_queue) = Some (q', m') \<and>
    q_size q' = 3 \<and> \<not> queue_rep m' q' [9, 1, 2, 3]"
proof -
  have "cells (snd demo_queue) 9 = None" by (simp add: demo_queue_eval)
  from queue_unshift_miscounts [OF demo_queue_rep this, of None None 90] show ?thesis by auto
qed

end
