(* ===== verification/Worker.thy ===== *)
theory Worker
  imports Queue Monitor
begin

text \<open>
  The worker of src/worker.c and classes/worker.c: the queue of submitted tasks, the running task,
  the queue of finished tasks, and the operations on them, each a critical section of the worker's
  monitor. The operations refine operations on three lists: pending, running, finished.
\<close>

section \<open>Data\<close>

text \<open>
  \<open>w_mem\<close> is the creator thread's memory, in which the items of both queues live; \<open>w_task_mon\<close> are
  the monitors of the tasks, \<open>w_store\<close> the state of the property tables, which the operations here
  only pass on. \<open>w_monitor\<close> stands for the monitor that the source points to.
\<close>

record ('v, 'o) worker_data =
  w_monitor :: pmmpthread_monitor_t
  w_queue :: pmmpthread_queue
  w_gc :: pmmpthread_queue
  w_running :: ptr
  w_tasks_collected :: nat
  w_mem :: "'v qmem"
  w_task_mon :: "'v \<Rightarrow> pmmpthread_monitor_t"
  w_store :: 'o

text \<open>\<open>done_tasks_cache\<close>: a queue of the worker thread, in the worker thread's own memory.\<close>

type_synonym 'c done_cache = "pmmpthread_queue \<times> 'c qmem"

definition pmmpthread_worker_data_alloc ::
  "pmmpthread_monitor_t \<Rightarrow> 'v qmem \<Rightarrow> ('v \<Rightarrow> pmmpthread_monitor_t) \<Rightarrow> 'o \<Rightarrow> ('v, 'o) worker_data"
where
  "pmmpthread_worker_data_alloc monitor mem tm st =
     \<lparr>w_monitor = monitor, w_queue = empty_queue, w_gc = empty_queue, w_running = None,
      w_tasks_collected = 0, w_mem = mem, w_task_mon = tm, w_store = st\<rparr>"

section \<open>Operations\<close>

text \<open>
  \<open>locked t w body z\<close>: the body under the monitor of the worker, \<open>z\<close> when the lock cannot be taken.
\<close>

definition locked ::
  "tid \<Rightarrow> ('v, 'o) worker_data \<Rightarrow>
   (('v, 'o) worker_data \<Rightarrow> ('r \<times> ('v, 'o) worker_data) outcome) \<Rightarrow> 'r \<Rightarrow>
   ('r \<times> ('v, 'o) worker_data) outcome"
where
  "locked t w body z =
     obind
       (guarded pmmpthread_monitor_lock pmmpthread_monitor_unlock t (w_monitor w) w
         (\<lambda>m w1. obind (body (w1\<lparr>w_monitor := m\<rparr>)) (\<lambda>(r, w2). Ret (r, w_monitor w2, w2))) z)
       (\<lambda>(r, m, w3). Ret (r, w3\<lparr>w_monitor := m\<rparr>))"

definition pmmpthread_worker_task_queue_size ::
  "tid \<Rightarrow> ('v, 'o) worker_data \<Rightarrow> (int \<times> ('v, 'o) worker_data) outcome"
where
  "pmmpthread_worker_task_queue_size t w = locked t w (\<lambda>w. Ret (q_size (w_queue w), w)) 0"

text \<open>
  Freeing the worker's data. The assertion that no task runs is checked by debug builds: violating it
  is a fault here. The freed structure is not used again; what remains is the memory.
\<close>

definition pmmpthread_worker_data_free ::
  "tid \<Rightarrow> ('v, 'o) worker_data \<Rightarrow> (unit \<times> ('v, 'o) worker_data) outcome"
where
  "pmmpthread_worker_data_free t w =
     locked t w
       (\<lambda>w.
         obind (of_mem (pmmpthread_queue_clean (w_queue w) (w_mem w))) (\<lambda>m1.
         obind (of_mem (pmmpthread_queue_clean (w_gc w) m1)) (\<lambda>m2.
         if w_running w = None then Ret ((), w\<lparr>w_mem := m2\<rparr>) else Fault))) ()"

text \<open>
  \<open>a\<close> is the address \<open>emalloc\<close> gives the new item. The worker is notified only when the queue was
  empty.
\<close>

definition pmmpthread_worker_add_task ::
  "tid \<Rightarrow> addr \<Rightarrow> 'v \<Rightarrow> ('v, 'o) worker_data \<Rightarrow> (int \<times> ('v, 'o) worker_data) outcome"
where
  "pmmpthread_worker_add_task t a v w =
     locked t w
       (\<lambda>w.
         let size = q_size (w_queue w) in
         obind (of_mem (pmmpthread_queue_push_new (w_queue w) a None None v (w_mem w))) (\<lambda>(q, m).
         let w1 = w\<lparr>w_queue := q, w_mem := m\<rparr>;
             w2 = (if size = 0 then w1\<lparr>w_monitor := pmmpthread_monitor_notify (w_monitor w1)\<rparr> else w1)
         in Ret (q_size q, w2))) (-1)"

text \<open>
  Handing the running task over: the locked half moves the item to the garbage queue and wakes a
  waiting creator, the second half, outside the lock, keeps the worker's own reference.
\<close>

definition add_garbage_locked ::
  "tid \<Rightarrow> ('v, 'o) worker_data \<Rightarrow> (bool \<times> ('v, 'o) worker_data) outcome"
where
  "add_garbage_locked t w =
     locked t w
       (\<lambda>w.
         case w_running w of
           None \<Rightarrow> Fault
         | Some a \<Rightarrow>
             obind (of_mem (pmmpthread_queue_push (w_gc w) a (w_mem w))) (\<lambda>(q, m).
             Ret (True, w\<lparr>w_gc := q, w_mem := m, w_running := None,
                          w_monitor := pmmpthread_monitor_notify (w_monitor w)\<rparr>))) False"

definition add_garbage_cache :: "addr \<Rightarrow> 'c \<Rightarrow> 'c done_cache \<Rightarrow> 'c done_cache outcome" where
  "add_garbage_cache a c d = of_mem (pmmpthread_queue_push_new (fst d) a None None c (snd d))"

definition pmmpthread_worker_add_garbage ::
  "tid \<Rightarrow> addr \<Rightarrow> 'c \<Rightarrow> ('v, 'o) worker_data \<Rightarrow> 'c done_cache \<Rightarrow>
     (('v, 'o) worker_data \<times> 'c done_cache) outcome"
where
  "pmmpthread_worker_add_garbage t a c w d =
     obind (add_garbage_locked t w) (\<lambda>(ok, w1).
       if ok then obind (add_garbage_cache a c d) (\<lambda>d1. Ret (w1, d1)) else Fault)"

definition pmmpthread_worker_dequeue_task ::
  "tid \<Rightarrow> ('v, 'o) worker_data \<Rightarrow> ((int \<times> 'v option) \<times> ('v, 'o) worker_data) outcome"
where
  "pmmpthread_worker_dequeue_task t w =
     locked t w
       (\<lambda>w.
         obind (of_mem (pmmpthread_queue_shift (w_queue w) True PMMPTHREAD_STACK_FREE (w_mem w)))
           (\<lambda>(n, v, q, m). Ret ((n, v), w\<lparr>w_queue := q, w_mem := m\<rparr>))) (0, None)"

text \<open>
  The collector loop: the properties of a finished task are synchronised (\<open>sync\<close>, of src/store.c), the
  collector decides (\<open>collect\<close>, of the caller), and a collected task leaves the head of the queue. The
  next pointer is read before the item is freed.
\<close>

partial_function (option) collect_loop ::
  "('v \<Rightarrow> 'o \<Rightarrow> 'o) \<Rightarrow> ('v \<Rightarrow> 'o \<Rightarrow> bool \<times> 'o) \<Rightarrow> ptr \<Rightarrow> pmmpthread_queue \<Rightarrow> 'v qmem \<Rightarrow> 'o \<Rightarrow> nat \<Rightarrow>
     (pmmpthread_queue \<times> 'v qmem \<times> 'o \<times> nat) option"
where
  "collect_loop sync collect item gc m st n =
     (case item of
        None \<Rightarrow> Some (gc, m, st, n)
      | Some a \<Rightarrow>
          (case cells m a of
             None \<Rightarrow> None
           | Some it \<Rightarrow>
               (case collect (item_value it) (sync (item_value it) st) of
                  (collected, st1) \<Rightarrow>
                    if collected then
                      (case pmmpthread_queue_shift gc False PMMPTHREAD_STACK_FREE m of
                         None \<Rightarrow> None
                       | Some (_, _, gc1, m1) \<Rightarrow>
                           collect_loop sync collect (item_next it) gc1 m1 st1 (n + 1))
                    else Some (gc, m, st1, n))))"

definition pmmpthread_worker_collect_tasks ::
  "('v \<Rightarrow> 'o \<Rightarrow> 'o) \<Rightarrow> ('v \<Rightarrow> 'o \<Rightarrow> bool \<times> 'o) \<Rightarrow> tid \<Rightarrow> ('v, 'o) worker_data \<Rightarrow>
     (int \<times> ('v, 'o) worker_data) outcome"
where
  "pmmpthread_worker_collect_tasks sync collect t w =
     locked t w
       (\<lambda>w.
         obind (of_mem (collect_loop sync collect (q_head (w_gc w)) (w_gc w) (w_mem w) (w_store w) 0))
           (\<lambda>(gc, m, st, n).
             let w1 = w\<lparr>w_gc := gc, w_mem := m, w_store := st\<rparr> in
             obind
               (if 0 < n then
                  obind (pmmpthread_monitor_add t (w_monitor w1) PMMPTHREAD_MONITOR_COLLECT_GARBAGE)
                    (\<lambda>mon. Ret (w1\<lparr>w_tasks_collected := w_tasks_collected w1 + n, w_monitor := mon\<rparr>))
                else Ret w1)
               (\<lambda>w2. Ret (q_size (w_queue w2) + q_size (w_gc w2) + (if w_running w2 \<noteq> None then 1 else 0), w2)))) 0"

text \<open>Synchronising every finished task, each under the monitor of the task.\<close>

partial_function (option) sync_loop ::
  "('v \<Rightarrow> 'o \<Rightarrow> 'o) \<Rightarrow> tid \<Rightarrow> ptr \<Rightarrow> ('v, 'o) worker_data \<Rightarrow> ('v, 'o) worker_data outcome option"
where
  "sync_loop sync t item w =
     (case item of
        None \<Rightarrow> Some (Ret w)
      | Some a \<Rightarrow>
          (case cells (w_mem w) a of
             None \<Rightarrow> Some Fault
           | Some it \<Rightarrow>
               (let v = item_value it in
                case guarded pmmpthread_monitor_lock pmmpthread_monitor_unlock t (w_task_mon w v) (w_store w)
                       (\<lambda>m st. Ret ((), m, sync v st)) () of
                  Ret (_, m, st) \<Rightarrow>
                    sync_loop sync t (item_next it)
                      (w\<lparr>w_task_mon := (w_task_mon w)(v := m), w_store := st\<rparr>)
                | Block \<Rightarrow> Some Block
                | Fault \<Rightarrow> Some Fault)))"

definition pmmpthread_worker_sync_collectable_tasks ::
  "('v \<Rightarrow> 'o \<Rightarrow> 'o) \<Rightarrow> tid \<Rightarrow> ('v, 'o) worker_data \<Rightarrow> (bool \<times> ('v, 'o) worker_data) outcome"
where
  "pmmpthread_worker_sync_collectable_tasks sync t w =
     locked t w
       (\<lambda>w. case sync_loop sync t (q_head (w_gc w)) w of
              None \<Rightarrow> Fault
            | Some r \<Rightarrow> obind r (\<lambda>w1. Ret (True, w1))) False"

text \<open>
  The worker thread's loop. One pass, with the lock held: drop the references to the tasks that the
  creator has collected, then take the first task, or find that the worker is joined, or wait.
  \<open>WaitForWork\<close> is the pass that ends in the condition variable; the thread then holds no lock and
  starts the next pass by taking it again.
\<close>

datatype 'v next_result = JoinedResult | TaskResult 'v | WaitForWork

fun shift_n :: "nat \<Rightarrow> 'c done_cache \<Rightarrow> 'c done_cache option" where
  "shift_n 0 d = Some d"
| "shift_n (Suc n) d =
     (case pmmpthread_queue_shift (fst d) False PMMPTHREAD_STACK_FREE (snd d) of
        None \<Rightarrow> None
      | Some (_, _, q, m) \<Rightarrow> shift_n n (q, m))"

definition next_task_collect ::
  "tid \<Rightarrow> ('v, 'o) worker_data \<Rightarrow> 'c done_cache \<Rightarrow> (('v, 'o) worker_data \<times> 'c done_cache) outcome"
where
  "next_task_collect t w d =
     obind (pmmpthread_monitor_check t (w_monitor w) PMMPTHREAD_MONITOR_COLLECT_GARBAGE) (\<lambda>(r, m1).
       if r \<noteq> 0 then
         obind (of_mem (shift_n (w_tasks_collected w) d)) (\<lambda>d1.
         obind (pmmpthread_monitor_remove t m1 PMMPTHREAD_MONITOR_COLLECT_GARBAGE) (\<lambda>m2.
         Ret (w\<lparr>w_monitor := m2, w_tasks_collected := 0\<rparr>, d1)))
       else Ret (w\<lparr>w_monitor := m1\<rparr>, d))"

definition next_task_take ::
  "tid \<Rightarrow> ('v, 'o) worker_data \<Rightarrow> ('v next_result \<times> ('v, 'o) worker_data) outcome"
where
  "next_task_take t w =
     (case q_head (w_queue w) of
        None \<Rightarrow>
          obind (pmmpthread_monitor_check t (w_monitor w) PMMPTHREAD_MONITOR_JOINED) (\<lambda>(r, m1).
            if r \<noteq> 0 then Ret (JoinedResult, w\<lparr>w_monitor := m1\<rparr>)
            else Ret (WaitForWork, w\<lparr>w_monitor := m1\<rparr>))
      | Some a \<Rightarrow>
          obind (of_mem (pmmpthread_queue_shift (w_queue w) True PMMPTHREAD_STACK_NOTHING (w_mem w)))
            (\<lambda>(_, v, q, m).
              case v of
                None \<Rightarrow> Fault
              | Some v1 \<Rightarrow> Ret (TaskResult v1, w\<lparr>w_running := Some a, w_queue := q, w_mem := m\<rparr>)))"

definition pmmpthread_worker_next_task ::
  "tid \<Rightarrow> ('v, 'o) worker_data \<Rightarrow> 'c done_cache \<Rightarrow>
     ('v next_result \<times> ('v, 'o) worker_data \<times> 'c done_cache) outcome"
where
  "pmmpthread_worker_next_task t w d =
     obind (pmmpthread_monitor_lock t (w_monitor w)) (\<lambda>(ok, m1).
       if ok then
         obind (next_task_collect t (w\<lparr>w_monitor := m1\<rparr>) d) (\<lambda>(w1, d1).
         obind (next_task_take t w1) (\<lambda>(r, w2).
           case r of
             WaitForWork \<Rightarrow> Ret (r, w2\<lparr>w_monitor := snd (pthread_cond_wait t (w_monitor w2))\<rparr>, d1)
           | _ \<Rightarrow> Ret (r, w2\<lparr>w_monitor := snd (pmmpthread_monitor_unlock t (w_monitor w2))\<rparr>, d1)))
       else Fault)"

text \<open>The values the cycle collector must see: the two queues and the running task.\<close>

partial_function (option) items_from :: "ptr \<Rightarrow> 'v qmem \<Rightarrow> 'v list \<Rightarrow> 'v list option" where
  "items_from p m acc =
     (case p of
        None \<Rightarrow> Some acc
      | Some a \<Rightarrow>
          (case cells m a of
             None \<Rightarrow> None
           | Some it \<Rightarrow> items_from (item_next it) m (acc @ [item_value it])))"

definition pmmpthread_worker_get_gc_extra ::
  "tid \<Rightarrow> ('v, 'o) worker_data \<Rightarrow> ('v list \<times> ('v, 'o) worker_data) outcome"
where
  "pmmpthread_worker_get_gc_extra t w =
     locked t w
       (\<lambda>w.
         obind (of_mem (items_from (q_head (w_queue w)) (w_mem w) [])) (\<lambda>buf.
         obind (case w_running w of
                  None \<Rightarrow> Ret buf
                | Some a \<Rightarrow> obind (of_mem (cells (w_mem w) a)) (\<lambda>it. Ret (buf @ [item_value it]))) (\<lambda>buf1.
         obind (of_mem (items_from (q_head (w_gc w)) (w_mem w) buf1)) (\<lambda>buf2. Ret (buf2, w))))) []"

text \<open>
  The collector callback: \<open>call\<close> is the engine's \<open>zend_call_function\<close> (\<open>None\<close>: it failed; the inner
  option: the returned value, if any) and \<open>truth\<close> its \<open>zend_is_true\<close>.
\<close>

definition pmmpthread_worker_collect_function ::
  "('v \<Rightarrow> 'o \<Rightarrow> 'z option option \<times> 'o) \<Rightarrow> ('z \<Rightarrow> bool) \<Rightarrow> 'v \<Rightarrow> 'o \<Rightarrow> bool \<times> 'o"
where
  "pmmpthread_worker_collect_function call truth v st =
     (case call v st of
        (None, st1) \<Rightarrow> (False, st1)
      | (Some None, st1) \<Rightarrow> (False, st1)
      | (Some (Some r), st1) \<Rightarrow> (truth r, st1))"

section \<open>The methods (classes/worker.c)\<close>

datatype worker_error = OnlyCreator string | NoLongerRunning

definition IN_CREATOR :: "tid \<Rightarrow> tid \<Rightarrow> bool" where
  "IN_CREATOR creator t \<longleftrightarrow> creator = t"

definition stack_refused :: pmmpthread_monitor_state_t where
  "stack_refused =
     PMMPTHREAD_MONITOR_ERROR OR PMMPTHREAD_MONITOR_AWAIT_JOIN OR PMMPTHREAD_MONITOR_JOINED"

definition Worker_stack ::
  "tid \<Rightarrow> tid \<Rightarrow> addr \<Rightarrow> 'v \<Rightarrow> ('v, 'o) worker_data \<Rightarrow>
     ((worker_error + int) \<times> ('v, 'o) worker_data) outcome"
where
  "Worker_stack creator t a v w =
     (if \<not> IN_CREATOR creator t then Ret (Inl (OnlyCreator ''stack''), w)
      else obind (pmmpthread_monitor_check t (w_monitor w) stack_refused) (\<lambda>(r, m1).
        if r \<noteq> 0 then Ret (Inl NoLongerRunning, w\<lparr>w_monitor := m1\<rparr>)
        else obind (pmmpthread_worker_add_task t a v (w\<lparr>w_monitor := m1\<rparr>)) (\<lambda>(n, w1). Ret (Inr n, w1))))"

definition Worker_unstack ::
  "tid \<Rightarrow> tid \<Rightarrow> ('v, 'o) worker_data \<Rightarrow> ((worker_error + 'v option) \<times> ('v, 'o) worker_data) outcome"
where
  "Worker_unstack creator t w =
     (if \<not> IN_CREATOR creator t then Ret (Inl (OnlyCreator ''unstack''), w)
      else obind (pmmpthread_worker_dequeue_task t w) (\<lambda>((n, v), w1). Ret (Inr v, w1)))"

definition Worker_getStacked :: "tid \<Rightarrow> ('v, 'o) worker_data \<Rightarrow> (int \<times> ('v, 'o) worker_data) outcome" where
  "Worker_getStacked t w = pmmpthread_worker_task_queue_size t w"

definition Worker_collector :: "'v \<Rightarrow> bool" where
  "Worker_collector collectable = True"

definition Worker_collect ::
  "('v \<Rightarrow> 'o \<Rightarrow> 'o) \<Rightarrow> ('v \<Rightarrow> 'o \<Rightarrow> bool \<times> 'o) \<Rightarrow> tid \<Rightarrow> tid \<Rightarrow> ('v, 'o) worker_data \<Rightarrow>
     ((worker_error + int) \<times> ('v, 'o) worker_data) outcome"
where
  "Worker_collect sync collect creator t w =
     (if \<not> IN_CREATOR creator t then Ret (Inl (OnlyCreator ''collect''), w)
      else obind (pmmpthread_worker_collect_tasks sync collect t w) (\<lambda>(n, w1). Ret (Inr n, w1)))"

section \<open>The abstract worker\<close>

text \<open>
  What a worker stands for: the list of pending tasks, the running task, the list of finished tasks.
  A worker is well-formed when both queues are, they share no item, and the running item is in
  neither of them.
\<close>

definition pending :: "('v, 'o) worker_data \<Rightarrow> 'v list" where
  "pending w = queue_list (w_queue w, w_mem w)"

definition finished :: "('v, 'o) worker_data \<Rightarrow> 'v list" where
  "finished w = queue_list (w_gc w, w_mem w)"

definition current :: "('v, 'o) worker_data \<Rightarrow> 'v option" where
  "current w = Option.bind (w_running w) (value_at (w_mem w))"

definition worker_rep :: "('v, 'o) worker_data \<Rightarrow> addr list \<Rightarrow> addr list \<Rightarrow> bool" where
  "worker_rep w qs gs \<longleftrightarrow>
     queue_rep (w_mem w) (w_queue w) qs \<and> queue_rep (w_mem w) (w_gc w) gs \<and> set qs \<inter> set gs = {} \<and>
     (case w_running w of None \<Rightarrow> True
      | Some a \<Rightarrow> a \<notin> set qs \<and> a \<notin> set gs \<and> value_at (w_mem w) a \<noteq> None)"

definition worker_wf :: "('v, 'o) worker_data \<Rightarrow> bool" where
  "worker_wf w \<longleftrightarrow> worker_rep w (queue_addrs (w_queue w, w_mem w)) (queue_addrs (w_gc w, w_mem w))"

lemma worker_rep_wf: "worker_rep w qs gs \<Longrightarrow> worker_wf w"
  by (auto simp: worker_wf_def worker_rep_def queue_rep_addrs split: option.splits)

lemma worker_rep_pending: "worker_rep w qs gs \<Longrightarrow> pending w = map (\<lambda>a. the (value_at (w_mem w) a)) qs"
  by (simp add: worker_rep_def pending_def queue_rep_list)

lemma worker_rep_finished: "worker_rep w qs gs \<Longrightarrow> finished w = map (\<lambda>a. the (value_at (w_mem w) a)) gs"
  by (simp add: worker_rep_def finished_def queue_rep_list)

lemma worker_rep_size: "worker_rep w qs gs \<Longrightarrow> q_size (w_queue w) = int (length (pending w))"
  by (simp add: worker_rep_pending) (simp add: worker_rep_def queue_rep_def)

lemma worker_rep_gc_size: "worker_rep w qs gs \<Longrightarrow> q_size (w_gc w) = int (length (finished w))"
  by (simp add: worker_rep_finished) (simp add: worker_rep_def queue_rep_def)

lemma worker_rep_head: "worker_rep w qs gs \<Longrightarrow> q_head (w_queue w) = (case qs of [] \<Rightarrow> None | a # _ \<Rightarrow> Some a)"
  by (auto simp: worker_rep_def queue_rep_def split: list.splits)

lemma worker_rep_monitor [simp]: "worker_rep (w\<lparr>w_monitor := m\<rparr>) qs gs = worker_rep w qs gs"
  by (simp add: worker_rep_def split: option.splits)

lemma worker_abs_monitor [simp]:
  "pending (w\<lparr>w_monitor := m\<rparr>) = pending w" "finished (w\<lparr>w_monitor := m\<rparr>) = finished w"
  "current (w\<lparr>w_monitor := m\<rparr>) = current w" "worker_wf (w\<lparr>w_monitor := m\<rparr>) = worker_wf w"
  by (simp_all add: pending_def finished_def current_def worker_wf_def)

text \<open>The critical sections, through the interface of the monitor.\<close>

lemma locked_runs:
  assumes "mutex_avail 1 t (mon_mutex (w_monitor w))"
    and "body (w\<lparr>w_monitor := (w_monitor w)\<lparr>mon_mutex := mutex_take t (mon_mutex (w_monitor w))\<rparr>\<rparr>) = Ret (r, w2)"
    and "mon_mutex (w_monitor w2) = mutex_take t (mon_mutex (w_monitor w))"
  shows "locked t w body z =
    Ret (r, w2\<lparr>w_monitor := (w_monitor w2)\<lparr>mon_mutex := mon_mutex (w_monitor w)\<rparr>\<rparr>)"
  unfolding locked_def
  by (subst ml.guarded_runs [where r = r and ?m2.0 = "w_monitor w2" and ?s2.0 = w2])
    (simp_all add: assms [simplified])

lemma locked_blocks: "mx_owner (mon_mutex (w_monitor w)) = Some u \<Longrightarrow> u \<noteq> t \<Longrightarrow> locked t w body z = Block"
  unfolding locked_def by (subst ml.guarded_blocks) simp_all

text \<open>What each operation does to the memory and the queues, as facts about the representation.\<close>

lemma push_task_rep:
  assumes "worker_rep w qs gs" "cells (w_mem w) a = None"
  shows "\<exists>q m. pmmpthread_queue_push_new (w_queue w) a None None v (w_mem w) = Some (q, m) \<and>
    worker_rep (w\<lparr>w_queue := q, w_mem := m\<rparr>) (qs @ [a]) gs \<and>
    value_at m = (value_at (w_mem w))(a \<mapsto> v) \<and> refs m = (refs (w_mem w))(v := refs (w_mem w) v + 1)"
proof -
  have q: "queue_rep (w_mem w) (w_queue w) qs" and g: "queue_rep (w_mem w) (w_gc w) gs"
    using assms(1) by (auto simp: worker_rep_def)
  obtain q' m where p: "pmmpthread_queue_push_new (w_queue w) a None None v (w_mem w) = Some (q', m)"
    "queue_rep m q' (qs @ [a])" "\<forall>b. b \<notin> set qs \<and> b \<noteq> a \<longrightarrow> cells m b = cells (w_mem w) b"
    "value_at m = (value_at (w_mem w))(a \<mapsto> v)" "refs m = (refs (w_mem w))(v := refs (w_mem w) v + 1)"
    using push_new_rep [OF q assms(2), of None None v] by blast
  have na: "a \<notin> set gs" using queue_rep_fresh [OF g assms(2)] .
  have "queue_rep m (w_gc w) gs"
    using assms(1) na p(3) by (intro queue_rep_frame [OF g]) (auto simp: worker_rep_def)
  moreover have "value_at (w_mem w) a = None" using assms(2) by (simp add: value_at_def)
  ultimately show ?thesis
    using assms(1) p na by (auto simp: worker_rep_def split: option.splits)
qed

lemma shift_task_rep:
  assumes "worker_rep w (a # qs) gs" "value_at (w_mem w) a = Some v"
  shows "\<exists>q m. pmmpthread_queue_shift (w_queue w) True g (w_mem w) = Some (int (length qs), Some v, q, m) \<and>
    worker_rep (w\<lparr>w_queue := q, w_mem := m\<rparr>) qs gs \<and>
    value_at m = (if g = PMMPTHREAD_STACK_FREE then (value_at (w_mem w))(a := None) else value_at (w_mem w)) \<and>
    refs m = refs (w_mem w)"
proof -
  have q: "queue_rep (w_mem w) (w_queue w) (a # qs)" and g: "queue_rep (w_mem w) (w_gc w) gs"
    using assms(1) by (auto simp: worker_rep_def)
  obtain q' m where p: "pmmpthread_queue_shift (w_queue w) True g (w_mem w) = Some (int (length qs), Some v, q', m)"
    "queue_rep m q' qs" "\<forall>b. b \<notin> set (a # qs) \<longrightarrow> cells m b = cells (w_mem w) b"
    "value_at m = (if g = PMMPTHREAD_STACK_FREE then (value_at (w_mem w))(a := None) else value_at (w_mem w))"
    "refs m = refs (w_mem w)"
    using shift_rep_cons [OF q assms(2), of True g] by auto
  have "queue_rep m (w_gc w) gs"
    using assms(1) p(3) by (intro queue_rep_frame [OF g]) (auto simp: worker_rep_def)
  then show ?thesis
    using assms(1) p by (auto simp: worker_rep_def split: option.splits if_splits)
qed

lemma push_garbage_rep:
  assumes "worker_rep w qs gs" "w_running w = Some a"
  shows "\<exists>q m. pmmpthread_queue_push (w_gc w) a (w_mem w) = Some (q, m) \<and>
    worker_rep (w\<lparr>w_gc := q, w_mem := m, w_running := None\<rparr>) qs (gs @ [a]) \<and>
    value_at m = value_at (w_mem w) \<and> refs m = refs (w_mem w)"
proof -
  have q: "queue_rep (w_mem w) (w_queue w) qs" and g: "queue_rep (w_mem w) (w_gc w) gs"
    and a: "a \<notin> set qs" "a \<notin> set gs" "value_at (w_mem w) a \<noteq> None"
    using assms by (auto simp: worker_rep_def)
  then obtain it where "cells (w_mem w) a = Some it" by (auto simp: value_at_def)
  then obtain q' m where p: "pmmpthread_queue_push (w_gc w) a (w_mem w) = Some (q', m)"
    "queue_rep m q' (gs @ [a])" "\<forall>b. b \<notin> set gs \<and> b \<noteq> a \<longrightarrow> cells m b = cells (w_mem w) b"
    "value_at m = value_at (w_mem w)" "refs m = refs (w_mem w)"
    using push_rep [OF g a(2)] by blast
  have "queue_rep m (w_queue w) qs"
    using assms(1) a p(3) by (intro queue_rep_frame [OF q]) (auto simp: worker_rep_def)
  then show ?thesis using assms(1) p a by (auto simp: worker_rep_def)
qed

text \<open>The collector loop on lists: a prefix is collected, the rest stays in order.\<close>

fun collect_spec ::
  "('v \<Rightarrow> 'o \<Rightarrow> 'o) \<Rightarrow> ('v \<Rightarrow> 'o \<Rightarrow> bool \<times> 'o) \<Rightarrow> 'v list \<Rightarrow> 'o \<Rightarrow> nat \<times> 'o"
where
  "collect_spec sync collect [] st = (0, st)"
| "collect_spec sync collect (v # vs) st =
     (case collect v (sync v st) of
        (True, st1) \<Rightarrow> (case collect_spec sync collect vs st1 of (n, st2) \<Rightarrow> (Suc n, st2))
      | (False, st1) \<Rightarrow> (0, st1))"

lemma collect_spec_le: "collect_spec sync collect vs st = (n, st') \<Longrightarrow> n \<le> length vs"
  by (induction vs arbitrary: st n) (auto split: prod.splits bool.splits)

lemma collect_loop_rep:
  assumes "queue_rep m gc gs" "collect_spec sync collect (map (\<lambda>a. the (value_at m a)) gs) st = (k, st')"
  shows "\<exists>gc' m'. collect_loop sync collect (q_head gc) gc m st n = Some (gc', m', st', n + k) \<and>
    queue_rep m' gc' (drop k gs) \<and> (\<forall>b. b \<notin> set gs \<longrightarrow> cells m' b = cells m b) \<and>
    (\<forall>b \<in> set (drop k gs). value_at m' b = value_at m b)"
  using assms
proof (induction gs arbitrary: m gc st n k)
  case Nil
  then have "q_head gc = None" by (simp add: queue_rep_def)
  with Nil show ?case by (subst collect_loop.simps) simp
next
  case (Cons a gs)
  obtain v where v: "value_at m a = Some v" using queue_rep_alloc [OF Cons.prems(1)] by auto
  then obtain it where it: "cells m a = Some it" "item_value it = v" by (auto simp: value_at_def)
  have h: "q_head gc = Some a" "a \<notin> set gs" using Cons.prems(1) by (auto simp: queue_rep_def)
  obtain b st1 where c: "collect v (sync v st) = (b, st1)" by fastforce
  show ?case
  proof (cases b)
    case False
    with Cons.prems c v it h show ?thesis by (subst collect_loop.simps) auto
  next
    case True
    obtain gc1 m1 where p: "pmmpthread_queue_shift gc False PMMPTHREAD_STACK_FREE m = Some (int (length gs), None, gc1, m1)"
      "queue_rep m1 gc1 gs" "\<forall>b. b \<notin> set (a # gs) \<longrightarrow> cells m1 b = cells m b"
      "value_at m1 = (value_at m)(a := None)"
      using shift_rep_cons [OF Cons.prems(1) v, of False PMMPTHREAD_STACK_FREE] by auto
    have nxt: "item_next it = q_head gc1"
      using Cons.prems(1) p(2) it h(1) by (cases gs) (auto simp: queue_rep_def)
    have vals: "map (\<lambda>a. the (value_at m1 a)) gs = map (\<lambda>a. the (value_at m a)) gs"
      using p(4) h(2) by auto
    obtain j where j: "k = Suc j" "collect_spec sync collect (map (\<lambda>a. the (value_at m1 a)) gs) st1 = (j, st')"
      using Cons.prems(2) c v True unfolding vals by (auto split: prod.splits)
    from Cons.IH [OF p(2) j(2), of "n + 1"] obtain gc' m' where
      r: "collect_loop sync collect (q_head gc1) gc1 m1 st1 (n + 1) = Some (gc', m', st', n + 1 + j)"
        "queue_rep m' gc' (drop j gs)" "\<forall>b. b \<notin> set gs \<longrightarrow> cells m' b = cells m1 b"
        "\<forall>b \<in> set (drop j gs). value_at m' b = value_at m1 b" by blast
    have "collect_loop sync collect (q_head gc) gc m st n = Some (gc', m', st', n + k)"
      using r(1) by (subst collect_loop.simps) (simp add: h it c True p(1) nxt j(1))
    moreover have "\<forall>b \<in> set (drop j gs). value_at m' b = value_at m b"
      using r(4) p(4) h(2) by (auto dest: in_set_dropD)
    ultimately show ?thesis using r p(3) j(1) by auto
  qed
qed

lemma collect_rep:
  assumes "worker_rep w qs gs" "collect_spec sync collect (finished w) (w_store w) = (k, st')"
  shows "\<exists>gc m. collect_loop sync collect (q_head (w_gc w)) (w_gc w) (w_mem w) (w_store w) 0 = Some (gc, m, st', k) \<and>
    worker_rep (w\<lparr>w_gc := gc, w_mem := m\<rparr>) qs (drop k gs) \<and>
    (\<forall>b. b \<notin> set gs \<longrightarrow> value_at m b = value_at (w_mem w) b) \<and>
    (\<forall>b \<in> set (drop k gs). value_at m b = value_at (w_mem w) b)"
proof -
  have q: "queue_rep (w_mem w) (w_queue w) qs" and g: "queue_rep (w_mem w) (w_gc w) gs"
    using assms(1) by (auto simp: worker_rep_def)
  obtain gc m where r: "collect_loop sync collect (q_head (w_gc w)) (w_gc w) (w_mem w) (w_store w) 0 = Some (gc, m, st', k)"
    "queue_rep m gc (drop k gs)" "\<forall>b. b \<notin> set gs \<longrightarrow> cells m b = cells (w_mem w) b"
    "\<forall>b \<in> set (drop k gs). value_at m b = value_at (w_mem w) b"
    using collect_loop_rep [OF g assms(2) [unfolded worker_rep_finished [OF assms(1)]], of 0] by auto
  have "queue_rep m (w_queue w) qs"
    using assms(1) r(3) by (intro queue_rep_frame [OF q]) (auto simp: worker_rep_def)
  then show ?thesis
    using assms(1) r by (auto simp: worker_rep_def value_at_def split: option.splits dest: in_set_dropD)
qed

lemma shift_n_rep:
  "queue_rep m q ds \<Longrightarrow> n \<le> length ds \<Longrightarrow>
   \<exists>q' m'. shift_n n (q, m) = Some (q', m') \<and> queue_rep m' q' (drop n ds)"
proof (induction n arbitrary: q m ds)
  case (Suc n)
  then obtain a ds' where ds: "ds = a # ds'" by (cases ds) auto
  obtain v where "value_at m a = Some v" using queue_rep_alloc Suc.prems(1) ds by fastforce
  with shift_rep_cons [of m q a ds' v False PMMPTHREAD_STACK_FREE] Suc.prems ds
  obtain q1 m1 where "pmmpthread_queue_shift q False PMMPTHREAD_STACK_FREE m = Some (int (length ds'), None, q1, m1)"
    "queue_rep m1 q1 ds'" by auto
  with Suc.IH [of m1 q1 ds'] Suc.prems(2) ds show ?case by auto
qed simp

lemma items_from_seg:
  "dseg (cells m) p c as p' None \<Longrightarrow> items_from c m acc = Some (acc @ map (\<lambda>a. the (value_at m a)) as)"
proof (induction as arbitrary: p c acc)
  case Nil
  then show ?case by (subst items_from.simps) simp
next
  case (Cons a as)
  then obtain it where it: "cells m a = Some it" "c = Some a" "dseg (cells m) (Some a) (item_next it) as p' None"
    by auto
  from Cons.IH [OF it(3), of "acc @ [item_value it]"] it show ?case
    by (subst items_from.simps) (simp add: value_at_def)
qed

lemma items_from_rep: "queue_rep m q as \<Longrightarrow> items_from (q_head q) m acc = Some (acc @ queue_list (q, m))"
  using items_from_seg [of m None "q_head q" as "q_tail q"] by (simp add: queue_rep_list) (simp add: queue_rep_def)

section \<open>The operations refine operations on lists\<close>

definition worker_view :: "('v, 'o) worker_data \<Rightarrow> 'v list \<times> 'v option \<times> 'v list \<times> nat" where
  "worker_view w = (pending w, current w, finished w, w_tasks_collected w)"

lemma worker_view_monitor [simp]: "worker_view (w\<lparr>w_monitor := m\<rparr>) = worker_view w"
  by (simp add: worker_view_def)

lemma worker_wfE:
  assumes "worker_wf w"
  obtains qs gs where "worker_rep w qs gs"
  using assms unfolding worker_wf_def by blast

lemma map_value_cong:
  "(\<And>b. b \<in> set as \<Longrightarrow> f b = g b) \<Longrightarrow> map (\<lambda>a. the (f a)) as = map (\<lambda>a. the (g a)) as"
  by simp

lemma add_task_refines:
  assumes "worker_wf w" "cells (w_mem w) a = None" "mutex_avail 1 t (mon_mutex (w_monitor w))"
  shows "\<exists>w'. pmmpthread_worker_add_task t a v w = Ret (int (length (pending w)) + 1, w') \<and>
    worker_wf w' \<and> worker_view w' = (pending w @ [v], current w, finished w, w_tasks_collected w) \<and>
    w_running w' = w_running w \<and> w_store w' = w_store w \<and>
    w_monitor w' = (if pending w = [] then pmmpthread_monitor_notify (w_monitor w) else w_monitor w)"
proof -
  obtain qs gs where rep: "worker_rep w qs gs" using assms(1) by (rule worker_wfE)
  obtain q m where p: "pmmpthread_queue_push_new (w_queue w) a None None v (w_mem w) = Some (q, m)"
    "worker_rep (w\<lparr>w_queue := q, w_mem := m\<rparr>) (qs @ [a]) gs" "value_at m = (value_at (w_mem w))(a \<mapsto> v)"
    using push_task_rep [OF rep assms(2)] by blast
  let ?w = "w\<lparr>w_queue := q, w_mem := m\<rparr>"
  have new: "a \<notin> set qs" "a \<notin> set gs" "w_running w \<noteq> Some a"
    using rep assms(2) by (auto simp: worker_rep_def value_at_def dest: queue_rep_fresh)
  have pend: "pending ?w = pending w @ [v]"
    using new p(3) by (simp add: worker_rep_pending [OF p(2)] worker_rep_pending [OF rep])
  moreover have "finished ?w = finished w"
    using new p(3) by (simp add: worker_rep_finished [OF p(2)] worker_rep_finished [OF rep])
  moreover have "current ?w = current w"
    using new p(3) by (cases "w_running w") (auto simp: current_def)
  ultimately have view: "worker_view ?w = (pending w @ [v], current w, finished w, w_tasks_collected w)"
    by (simp add: worker_view_def)
  have sizes: "q_size (w_queue w) = int (length (pending w))" "q_size q = int (length (pending w)) + 1"
    using worker_rep_size [OF rep] worker_rep_size [OF p(2)] pend by simp_all
  let ?mt = "(w_monitor w)\<lparr>mon_mutex := mutex_take t (mon_mutex (w_monitor w))\<rparr>"
  let ?w2 = "?w\<lparr>w_monitor := if pending w = [] then pmmpthread_monitor_notify ?mt else ?mt\<rparr>"
  have "pmmpthread_worker_add_task t a v w =
    Ret (int (length (pending w)) + 1, ?w2\<lparr>w_monitor := (w_monitor ?w2)\<lparr>mon_mutex := mon_mutex (w_monitor w)\<rparr>\<rparr>)"
    unfolding pmmpthread_worker_add_task_def
    by (rule locked_runs [OF assms(3)]) (simp_all add: p(1) sizes pmmpthread_monitor_notify_def)
  then show ?thesis
    using view worker_rep_wf [OF p(2)] by (auto simp: pmmpthread_monitor_notify_def)
qed

lemma add_garbage_refines:
  assumes "worker_wf w" "current w = Some v" "mutex_avail 1 t (mon_mutex (w_monitor w))"
  shows "\<exists>w'. add_garbage_locked t w = Ret (True, w') \<and>
    worker_wf w' \<and> worker_view w' = (pending w, None, finished w @ [v], w_tasks_collected w) \<and>
    w_running w' = None \<and> w_store w' = w_store w \<and>
    w_monitor w' = pmmpthread_monitor_notify (w_monitor w)"
proof -
  obtain qs gs where rep: "worker_rep w qs gs" using assms(1) by (rule worker_wfE)
  obtain a where a: "w_running w = Some a" "value_at (w_mem w) a = Some v"
    using assms(2) by (auto simp: current_def Option.bind_eq_Some_conv)
  obtain q m where p: "pmmpthread_queue_push (w_gc w) a (w_mem w) = Some (q, m)"
    "worker_rep (w\<lparr>w_gc := q, w_mem := m, w_running := None\<rparr>) qs (gs @ [a])" "value_at m = value_at (w_mem w)"
    using push_garbage_rep [OF rep a(1)] by blast
  let ?w = "w\<lparr>w_gc := q, w_mem := m, w_running := None\<rparr>"
  have "pending ?w = pending w" "finished ?w = finished w @ [v]"
    using p(3) a by (simp_all add: worker_rep_pending [OF p(2)] worker_rep_pending [OF rep]
        worker_rep_finished [OF p(2)] worker_rep_finished [OF rep])
  then have view: "worker_view ?w = (pending w, None, finished w @ [v], w_tasks_collected w)"
    by (simp add: worker_view_def current_def)
  let ?mt = "(w_monitor w)\<lparr>mon_mutex := mutex_take t (mon_mutex (w_monitor w))\<rparr>"
  let ?w2 = "?w\<lparr>w_monitor := pmmpthread_monitor_notify ?mt\<rparr>"
  have "add_garbage_locked t w =
    Ret (True, ?w2\<lparr>w_monitor := (w_monitor ?w2)\<lparr>mon_mutex := mon_mutex (w_monitor w)\<rparr>\<rparr>)"
    unfolding add_garbage_locked_def
    by (rule locked_runs [OF assms(3)]) (simp_all add: p(1) a(1) pmmpthread_monitor_notify_def)
  then show ?thesis
    using view worker_rep_wf [OF p(2)] by (auto simp: pmmpthread_monitor_notify_def)
qed

lemma take_task_view:
  assumes "worker_rep w qs gs" "pending w = v # vs"
  shows "\<exists>a as q m. qs = a # as \<and> q_head (w_queue w) = Some a \<and>
    pmmpthread_queue_shift (w_queue w) True g (w_mem w) = Some (int (length vs), Some v, q, m) \<and>
    worker_rep (w\<lparr>w_queue := q, w_mem := m\<rparr>) as gs \<and>
    worker_view (w\<lparr>w_queue := q, w_mem := m\<rparr>) = (vs, current w, finished w, w_tasks_collected w) \<and>
    (g = PMMPTHREAD_STACK_NOTHING \<longrightarrow> value_at m a = Some v \<and> a \<notin> set as \<and> a \<notin> set gs)"
proof -
  obtain a as where qs: "qs = a # as" using assms by (cases qs) (auto simp: worker_rep_pending)
  then obtain v' where v': "value_at (w_mem w) a = Some v'"
    using assms(1) queue_rep_alloc by (fastforce simp: worker_rep_def)
  then have v: "v' = v" "vs = map (\<lambda>a. the (value_at (w_mem w) a)) as"
    using assms qs by (auto simp: worker_rep_pending)
  obtain q m where p: "pmmpthread_queue_shift (w_queue w) True g (w_mem w) = Some (int (length as), Some v, q, m)"
    "worker_rep (w\<lparr>w_queue := q, w_mem := m\<rparr>) as gs"
    "value_at m = (if g = PMMPTHREAD_STACK_FREE then (value_at (w_mem w))(a := None) else value_at (w_mem w))"
    using shift_task_rep [OF assms(1) [unfolded qs] v' [unfolded v], of g] by auto
  have away: "a \<notin> set as" "a \<notin> set gs" "w_running w \<noteq> Some a"
    using assms(1) qs by (auto simp: worker_rep_def queue_rep_def)
  let ?w = "w\<lparr>w_queue := q, w_mem := m\<rparr>"
  have "pending ?w = vs"
    using p(3) away v by (auto simp: worker_rep_pending [OF p(2)] split: if_splits)
  moreover have "finished ?w = finished w"
    using p(3) away by (auto simp: worker_rep_finished [OF p(2)] worker_rep_finished [OF assms(1)] split: if_splits)
  moreover have "current ?w = current w"
    using p(3) away by (cases "w_running w") (auto simp: current_def)
  ultimately show ?thesis
    using p v v' qs away worker_rep_head [OF assms(1)] by (auto simp: worker_view_def)
qed

lemma dequeue_refines:
  assumes "worker_wf w" "mutex_avail 1 t (mon_mutex (w_monitor w))"
  shows "\<exists>w'. pmmpthread_worker_dequeue_task t w =
      Ret ((int (length (tl (pending w))), case pending w of [] \<Rightarrow> None | v # _ \<Rightarrow> Some v), w') \<and>
    worker_wf w' \<and> worker_view w' = (tl (pending w), current w, finished w, w_tasks_collected w) \<and>
    w_running w' = w_running w \<and> w_store w' = w_store w \<and> w_monitor w' = w_monitor w"
proof -
  obtain qs gs where rep: "worker_rep w qs gs" using assms(1) by (rule worker_wfE)
  let ?mt = "(w_monitor w)\<lparr>mon_mutex := mutex_take t (mon_mutex (w_monitor w))\<rparr>"
  show ?thesis
  proof (cases "pending w")
    case Nil
    then have "qs = []" using rep by (simp add: worker_rep_pending)
    then have sh: "pmmpthread_queue_shift (w_queue w) True PMMPTHREAD_STACK_FREE (w_mem w) = Some (0, None, w_queue w, w_mem w)"
      using rep by (intro shift_rep_nil) (simp add: worker_rep_def)
    have "pmmpthread_worker_dequeue_task t w =
      Ret ((0, None), (w\<lparr>w_monitor := ?mt\<rparr>)\<lparr>w_monitor := (w_monitor (w\<lparr>w_monitor := ?mt\<rparr>))\<lparr>mon_mutex := mon_mutex (w_monitor w)\<rparr>\<rparr>)"
      unfolding pmmpthread_worker_dequeue_task_def
      by (rule locked_runs [OF assms(2)]) (simp_all add: sh)
    then show ?thesis using Nil assms(1) by (auto simp: worker_view_def)
  next
    case (Cons v vs)
    from take_task_view [OF rep Cons, of PMMPTHREAD_STACK_FREE] obtain as q m where
      p: "pmmpthread_queue_shift (w_queue w) True PMMPTHREAD_STACK_FREE (w_mem w) = Some (int (length vs), Some v, q, m)"
        "worker_rep (w\<lparr>w_queue := q, w_mem := m\<rparr>) as gs"
        "worker_view (w\<lparr>w_queue := q, w_mem := m\<rparr>) = (vs, current w, finished w, w_tasks_collected w)" by auto
    let ?w2 = "w\<lparr>w_queue := q, w_mem := m, w_monitor := ?mt\<rparr>"
    have "pmmpthread_worker_dequeue_task t w =
      Ret ((int (length vs), Some v), ?w2\<lparr>w_monitor := (w_monitor ?w2)\<lparr>mon_mutex := mon_mutex (w_monitor w)\<rparr>\<rparr>)"
      unfolding pmmpthread_worker_dequeue_task_def
      by (rule locked_runs [OF assms(2)]) (simp_all add: p(1))
    then show ?thesis using Cons p(3) worker_rep_wf [OF p(2)] by auto
  qed
qed

lemma collect_refines:
  assumes "worker_wf w" "mutex_avail 2 t (mon_mutex (w_monitor w))"
    and "collect_spec sync collect (finished w) (w_store w) = (k, st')"
  shows "\<exists>w'. pmmpthread_worker_collect_tasks sync collect t w =
      Ret (int (length (pending w)) + int (length (finished w) - k) + (if w_running w \<noteq> None then 1 else 0), w') \<and>
    worker_wf w' \<and>
    worker_view w' = (pending w, current w, drop k (finished w), w_tasks_collected w + k) \<and>
    w_running w' = w_running w \<and> w_store w' = st' \<and>
    w_monitor w' = (if 0 < k then (w_monitor w)\<lparr>mon_state := mon_state (w_monitor w) OR PMMPTHREAD_MONITOR_COLLECT_GARBAGE,
                                               mon_cond := {}\<rparr> else w_monitor w)"
proof -
  obtain qs gs where rep: "worker_rep w qs gs" using assms(1) by (rule worker_wfE)
  from collect_rep [OF rep assms(3)] obtain gc m where
    p: "collect_loop sync collect (q_head (w_gc w)) (w_gc w) (w_mem w) (w_store w) 0 = Some (gc, m, st', k)"
      "worker_rep (w\<lparr>w_gc := gc, w_mem := m\<rparr>) qs (drop k gs)"
      "\<And>b. b \<notin> set gs \<Longrightarrow> value_at m b = value_at (w_mem w) b"
      "\<And>b. b \<in> set (drop k gs) \<Longrightarrow> value_at m b = value_at (w_mem w) b" by blast
  let ?w = "w\<lparr>w_gc := gc, w_mem := m\<rparr>"
  have dis: "\<And>b. b \<in> set qs \<Longrightarrow> b \<notin> set gs" "\<And>a. w_running w = Some a \<Longrightarrow> a \<notin> set gs"
    using rep by (auto simp: worker_rep_def)
  have abs: "pending ?w = pending w" "finished ?w = drop k (finished w)" "current ?w = current w"
    using p(3,4) dis by (auto simp: worker_rep_pending [OF p(2)] worker_rep_pending [OF rep] drop_map
        worker_rep_finished [OF p(2)] worker_rep_finished [OF rep] current_def)
      (cases "w_running w", auto)
  have sizes: "q_size (w_queue w) = int (length (pending w))" "q_size gc = int (length (finished w) - k)"
    using worker_rep_size [OF rep] worker_rep_gc_size [OF p(2)] abs(2) by simp_all
  let ?mt = "(w_monitor w)\<lparr>mon_mutex := mutex_take t (mon_mutex (w_monitor w))\<rparr>"
  let ?ma = "?mt\<lparr>mon_state := mon_state (w_monitor w) OR PMMPTHREAD_MONITOR_COLLECT_GARBAGE, mon_cond := {}\<rparr>"
  let ?w1 = "?w\<lparr>w_store := st', w_tasks_collected := w_tasks_collected w + k\<rparr>"
  let ?w2 = "?w1\<lparr>w_monitor := if 0 < k then ?ma else ?mt\<rparr>"
  have av: "mutex_avail (Suc 0) t (mutex_take t (mon_mutex (w_monitor w)))"
    using assms(2) by (intro avail_take) (simp add: numeral_2_eq_2)
  have "pmmpthread_worker_collect_tasks sync collect t w =
    Ret (int (length (pending w)) + int (length (finished w) - k) + (if w_running w \<noteq> None then 1 else 0),
      ?w2\<lparr>w_monitor := (w_monitor ?w2)\<lparr>mon_mutex := mon_mutex (w_monitor w)\<rparr>\<rparr>)"
    unfolding pmmpthread_worker_collect_tasks_def
    by (rule locked_runs [OF avail_mono [OF assms(2)]])
      (simp_all add: p(1) sizes add_avail [of 0] av)
  moreover have "worker_wf ?w1" "worker_view ?w1 = (pending w, current w, drop k (finished w), w_tasks_collected w + k)"
    using worker_rep_wf [OF p(2)] abs
    by (simp_all add: worker_view_def worker_wf_def worker_rep_def pending_def finished_def current_def split: option.splits)
  ultimately show ?thesis by auto
qed

text \<open>
  One pass of the worker thread. \<open>collect_done\<close>: the references the pass drops when the creator has
  collected tasks.
\<close>

definition flag_set :: "('v, 'o) worker_data \<Rightarrow> pmmpthread_monitor_state_t \<Rightarrow> bool" where
  "flag_set w k \<longleftrightarrow> mon_state (w_monitor w) AND k \<noteq> 0"

lemma next_task_collect_eq:
  assumes "mutex_avail (Suc 0) t (mon_mutex (w_monitor w))" "queue_rep (snd d) (fst d) ds"
    and "flag_set w PMMPTHREAD_MONITOR_COLLECT_GARBAGE \<Longrightarrow> w_tasks_collected w \<le> length ds"
  shows "\<exists>d'. next_task_collect t w d =
      Ret (if flag_set w PMMPTHREAD_MONITOR_COLLECT_GARBAGE
           then w\<lparr>w_monitor := (w_monitor w)\<lparr>mon_state := mon_state (w_monitor w) AND NOT PMMPTHREAD_MONITOR_COLLECT_GARBAGE,
                                             mon_cond := {}\<rparr>, w_tasks_collected := 0\<rparr>
           else w, d') \<and>
    queue_rep (snd d') (fst d')
      (if flag_set w PMMPTHREAD_MONITOR_COLLECT_GARBAGE then drop (w_tasks_collected w) ds else ds)"
proof (cases "flag_set w PMMPTHREAD_MONITOR_COLLECT_GARBAGE")
  case True
  with shift_n_rep [OF assms(2), of "w_tasks_collected w"] assms(3) obtain q m where
    "shift_n (w_tasks_collected w) d = Some (q, m)" "queue_rep m q (drop (w_tasks_collected w) ds)" by auto
  with True assms(1) show ?thesis
    by (auto simp: next_task_collect_def flag_set_def check_avail remove_avail)
next
  case False
  with assms(1,2) show ?thesis by (auto simp: next_task_collect_def flag_set_def check_avail)
qed

lemma next_task_take_eq:
  assumes "worker_wf w" "mutex_avail (Suc 0) t (mon_mutex (w_monitor w))"
  shows "\<exists>w'. next_task_take t w =
      Ret (case pending w of
             [] \<Rightarrow> if flag_set w PMMPTHREAD_MONITOR_JOINED then JoinedResult else WaitForWork
           | v # _ \<Rightarrow> TaskResult v, w') \<and>
    w_monitor w' = w_monitor w \<and> w_store w' = w_store w \<and> (w_running w = None \<longrightarrow> worker_wf w' \<and>
    worker_view w' = (case pending w of [] \<Rightarrow> worker_view w
                      | v # vs \<Rightarrow> (vs, Some v, finished w, w_tasks_collected w)))"
proof -
  obtain qs gs where rep: "worker_rep w qs gs" using assms(1) by (rule worker_wfE)
  show ?thesis
  proof (cases "pending w")
    case Nil
    then have "q_head (w_queue w) = None" using rep by (simp add: worker_rep_head worker_rep_pending)
    with Nil assms show ?thesis by (auto simp: next_task_take_def check_avail flag_set_def)
  next
    case (Cons v vs)
    from take_task_view [OF rep Cons, of PMMPTHREAD_STACK_NOTHING] obtain a as q m where
      p: "q_head (w_queue w) = Some a"
        "pmmpthread_queue_shift (w_queue w) True PMMPTHREAD_STACK_NOTHING (w_mem w) = Some (int (length vs), Some v, q, m)"
        "worker_rep (w\<lparr>w_queue := q, w_mem := m\<rparr>) as gs"
        "worker_view (w\<lparr>w_queue := q, w_mem := m\<rparr>) = (vs, current w, finished w, w_tasks_collected w)"
        "value_at m a = Some v" "a \<notin> set as" "a \<notin> set gs" by auto
    let ?w = "w\<lparr>w_running := Some a, w_queue := q, w_mem := m\<rparr>"
    have "next_task_take t w = Ret (TaskResult v, ?w)" using p(1,2) by (simp add: next_task_take_def)
    moreover have "worker_rep ?w as gs" using p(3,5,6,7) by (simp add: worker_rep_def)
    then have "worker_wf ?w" by (rule worker_rep_wf)
    moreover have "worker_view ?w = (vs, Some v, finished w, w_tasks_collected w)"
      using p(4,5) by (simp add: worker_view_def pending_def finished_def current_def)
    ultimately show ?thesis using Cons by simp
  qed
qed

lemma joined_after_collect:
  "(st AND NOT PMMPTHREAD_MONITOR_COLLECT_GARBAGE) AND PMMPTHREAD_MONITOR_JOINED = st AND PMMPTHREAD_MONITOR_JOINED"
  by (simp add: monitor_flag_defs and.assoc)

lemma collect_cleared: "(st AND NOT PMMPTHREAD_MONITOR_COLLECT_GARBAGE) AND PMMPTHREAD_MONITOR_COLLECT_GARBAGE = 0"
  by (simp add: monitor_flag_defs and.assoc)

definition next_flags :: "pmmpthread_monitor_state_t \<Rightarrow> pmmpthread_monitor_state_t" where
  "next_flags st = st AND NOT PMMPTHREAD_MONITOR_COLLECT_GARBAGE"

lemma next_flags_same: "st AND PMMPTHREAD_MONITOR_COLLECT_GARBAGE = 0 \<Longrightarrow> next_flags st = st"
  by (simp add: next_flags_def and_not_disjoint)

text \<open>The result of a pass, computed from the abstract state.\<close>

definition next_spec :: "('v, 'o) worker_data \<Rightarrow> 'v next_result" where
  "next_spec w =
     (case pending w of
        [] \<Rightarrow> if flag_set w PMMPTHREAD_MONITOR_JOINED then JoinedResult else WaitForWork
      | v # _ \<Rightarrow> TaskResult v)"

lemma next_task_refines:
  assumes "worker_wf w" "w_running w = None" "mutex_avail 2 t (mon_mutex (w_monitor w))"
    and "queue_rep (snd d) (fst d) ds" "w_tasks_collected w \<le> length ds"
  shows "\<exists>w' d' k. pmmpthread_worker_next_task t w d = Ret (next_spec w, w', d') \<and> worker_wf w' \<and>
    k \<le> w_tasks_collected w \<and> queue_rep (snd d') (fst d') (drop k ds) \<and> w_store w' = w_store w \<and>
    worker_view w' = (case pending w of
        [] \<Rightarrow> ([], None, finished w, w_tasks_collected w - k)
      | v # vs \<Rightarrow> (vs, Some v, finished w, w_tasks_collected w - k)) \<and>
    mon_mutex (w_monitor w') = mon_mutex (w_monitor w) \<and>
    mon_state (w_monitor w') = next_flags (mon_state (w_monitor w)) \<and>
    (next_spec w = WaitForWork \<longrightarrow> t \<in> mon_cond (w_monitor w')) \<and>
    mon_cond (w_monitor w') \<subseteq> insert t (mon_cond (w_monitor w))"
proof -
  let ?mx = "mon_mutex (w_monitor w)"
  let ?w0 = "w\<lparr>w_monitor := (w_monitor w)\<lparr>mon_mutex := mutex_take t ?mx\<rparr>\<rparr>"
  have av2: "mutex_avail (Suc 1) t ?mx" using assms(3) by (simp add: numeral_2_eq_2)
  have av1: "mutex_avail (Suc 0) t (mutex_take t ?mx)" using avail_take [OF av2] by simp
  define k where "k = (if flag_set w PMMPTHREAD_MONITOR_COLLECT_GARBAGE then w_tasks_collected w else 0)"
  from next_task_collect_eq [of t ?w0, OF _ assms(4)] av1 assms(5) obtain w1 d1 where
    c: "next_task_collect t ?w0 d = Ret (w1, d1)" "queue_rep (snd d1) (fst d1) (drop k ds)"
    and w1: "w1 = (if flag_set w PMMPTHREAD_MONITOR_COLLECT_GARBAGE
       then ?w0\<lparr>w_monitor := (w_monitor ?w0)\<lparr>mon_state := mon_state (w_monitor w) AND NOT PMMPTHREAD_MONITOR_COLLECT_GARBAGE,
                                             mon_cond := {}\<rparr>, w_tasks_collected := 0\<rparr> else ?w0)"
    by (auto simp: k_def flag_set_def split: if_splits)
  have m1: "mon_mutex (w_monitor w1) = mutex_take t ?mx" "mon_state (w_monitor w1) = next_flags (mon_state (w_monitor w))"
    "mon_cond (w_monitor w1) \<subseteq> mon_cond (w_monitor w)"
    unfolding w1 by (auto simp: next_flags_same flag_set_def) (simp_all add: next_flags_def)
  have v1: "pending w1 = pending w" "finished w1 = finished w" "current w1 = current w" "w_running w1 = None"
    "w_tasks_collected w1 = w_tasks_collected w - k" "worker_wf w1" "w_store w1 = w_store w"
    using assms(1,2) unfolding w1 k_def
    by (auto simp: pending_def finished_def current_def worker_wf_def worker_rep_def)
  have j: "flag_set w1 PMMPTHREAD_MONITOR_JOINED = flag_set w PMMPTHREAD_MONITOR_JOINED"
    by (simp add: flag_set_def m1 next_flags_def joined_after_collect)
  from next_task_take_eq [OF v1(6), of t] av1 m1(1) v1 j obtain w2 where
    t: "next_task_take t w1 = Ret (next_spec w, w2)" "w_monitor w2 = w_monitor w1" "worker_wf w2"
      "w_store w2 = w_store w"
    and v2: "worker_view w2 = (case pending w of
        [] \<Rightarrow> ([], None, finished w, w_tasks_collected w - k)
      | v # vs \<Rightarrow> (vs, Some v, finished w, w_tasks_collected w - k))"
    by (auto simp: next_spec_def worker_view_def current_def split: list.splits)
  have ul: "pmmpthread_monitor_unlock t (w_monitor w2) = (True, (w_monitor w2)\<lparr>mon_mutex := ?mx\<rparr>)"
    by (rule unlock_taken_eq [OF av2]) (simp add: t(2) m1)
  then have cw: "pthread_cond_wait t (w_monitor w2) =
      (0, (w_monitor w2)\<lparr>mon_mutex := ?mx, mon_cond := insert t (mon_cond (w_monitor w2))\<rparr>)"
    by (auto simp: pthread_cond_wait_def pmmpthread_monitor_unlock_def split: prod.splits)
  let ?w3 = "w2\<lparr>w_monitor := if next_spec w = WaitForWork
      then (w_monitor w2)\<lparr>mon_mutex := ?mx, mon_cond := insert t (mon_cond (w_monitor w2))\<rparr>
      else (w_monitor w2)\<lparr>mon_mutex := ?mx\<rparr>\<rparr>"
  have "pmmpthread_worker_next_task t w d = Ret (next_spec w, ?w3, d1)"
    unfolding pmmpthread_worker_next_task_def lock_avail_eq [OF av2]
    by (cases "next_spec w") (simp_all add: c t(1) ul cw)
  moreover have "k \<le> w_tasks_collected w" by (simp add: k_def)
  ultimately show ?thesis using c(2) t v2 m1 by (intro exI [of _ ?w3] exI [of _ d1] exI [of _ k]) auto
qed

section \<open>Properties\<close>

definition demo_task_monitor :: pmmpthread_monitor_t where
  "demo_task_monitor = \<lparr>mon_state = 0, mon_mutex = \<lparr>mx_owner = None, mx_count = 0, mx_max = 5\<rparr>, mon_cond = {}\<rparr>"

text \<open>A worker with the tasks 10, 20, 30 in the given queue, for the witnesses.\<close>

definition demo_pending :: "(nat, unit) worker_data" where
  "demo_pending = (pmmpthread_worker_data_alloc demo_task_monitor (snd demo_queue) (\<lambda>_. demo_task_monitor) ())
     \<lparr>w_queue := fst demo_queue\<rparr>"

definition demo_finished :: "(nat, unit) worker_data" where
  "demo_finished = (pmmpthread_worker_data_alloc demo_task_monitor (snd demo_queue) (\<lambda>_. demo_task_monitor) ())
     \<lparr>w_gc := fst demo_queue\<rparr>"

lemma empty_queue_rep: "queue_rep m empty_queue []"
  by (simp add: queue_rep_def empty_queue_def)

lemma demo_pending_rep: "worker_rep demo_pending [1, 2, 3] []"
  using demo_queue_rep empty_queue_rep
  by (simp add: worker_rep_def demo_pending_def pmmpthread_worker_data_alloc_def)

lemma demo_finished_rep: "worker_rep demo_finished [] [1, 2, 3]"
  using demo_queue_rep empty_queue_rep
  by (simp add: worker_rep_def demo_finished_def pmmpthread_worker_data_alloc_def)

lemma demo_worker_lists: "pending demo_pending = [10, 20, 30]" "finished demo_finished = [10, 20, 30]"
  using demo_queue_list
  by (simp_all add: pending_def finished_def demo_pending_def demo_finished_def pmmpthread_worker_data_alloc_def)

lemma demo_worker_avail:
  "mutex_avail 1 1 (mon_mutex (w_monitor demo_pending))" "mutex_avail 2 1 (mon_mutex (w_monitor demo_finished))"
  by (simp_all add: demo_pending_def demo_finished_def pmmpthread_worker_data_alloc_def demo_task_monitor_def mutex_avail_def)

text \<open>
  C32: \<open>Worker::stack\<close>, with every branch. Another thread than the creator is refused; a worker that
  failed, awaits its join or is joined is refused; otherwise the task becomes the last pending one, the
  returned number is the new length of the queue, the worker is well-formed, nothing else changes
  but that a waiting worker thread is notified when the queue was empty.
\<close>

theorem worker_stack_correct:
  assumes "worker_wf w" "cells (w_mem w) a = None" "mutex_avail 1 t (mon_mutex (w_monitor w))"
  shows "if creator \<noteq> t then Worker_stack creator t a v w = Ret (Inl (OnlyCreator ''stack''), w)
    else if flag_set w stack_refused then Worker_stack creator t a v w = Ret (Inl NoLongerRunning, w)
    else \<exists>w'. Worker_stack creator t a v w = Ret (Inr (int (length (pending w)) + 1), w') \<and> worker_wf w' \<and>
      worker_view w' = (pending w @ [v], current w, finished w, w_tasks_collected w) \<and>
      w_monitor w' = (if pending w = [] then pmmpthread_monitor_notify (w_monitor w) else w_monitor w)"
  using add_task_refines [OF assms, of v] check_avail [of 0 t "w_monitor w" stack_refused] assms(3)
  by (auto simp: Worker_stack_def IN_CREATOR_def flag_set_def)

theorem worker_stack_correct_witness:
  "\<exists>w'. Worker_stack 1 1 9 40 demo_pending = Ret (Inr 4, w') \<and> fst (worker_view w') = [10, 20, 30, 40]"
proof -
  have "cells (w_mem demo_pending) 9 = None"
    by (simp add: demo_pending_def pmmpthread_worker_data_alloc_def demo_queue_eval)
  moreover have "\<not> flag_set demo_pending stack_refused"
    by (simp add: flag_set_def demo_pending_def pmmpthread_worker_data_alloc_def demo_task_monitor_def)
  ultimately show ?thesis
    using worker_stack_correct [OF worker_rep_wf [OF demo_pending_rep] _ demo_worker_avail(1), of 9 1 40]
    by (auto simp: demo_worker_lists)
qed

text \<open>
  \<open>Worker::collect\<close> removes exactly the longest prefix of the finished tasks that the collector
  accepts, asking it once per task in order and stopping at the first refusal, adds their number to
  what the worker thread is to forget, and returns the number of tasks the worker still has.
\<close>

theorem worker_collect_correct:
  assumes "worker_wf w" "mutex_avail 2 t (mon_mutex (w_monitor w))"
    and "collect_spec sync coll (finished w) (w_store w) = (k, st')"
  shows "\<exists>w'. Worker_collect sync coll t t w =
      Ret (Inr (int (length (pending w)) + int (length (finished w) - k) + (if w_running w \<noteq> None then 1 else 0)), w') \<and>
    worker_wf w' \<and> worker_view w' = (pending w, current w, drop k (finished w), w_tasks_collected w + k) \<and>
    w_store w' = st' \<and> (0 < k \<longrightarrow> flag_set w' PMMPTHREAD_MONITOR_COLLECT_GARBAGE)"
  using collect_refines [OF assms] 
  by (auto simp: Worker_collect_def IN_CREATOR_def flag_set_def bit.conj_disj_distrib2 or_eq_0_iff)
    (auto simp: monitor_flag_defs)

theorem worker_collect_correct_witness:
  "\<exists>w'. Worker_collect (\<lambda>v st. st) (\<lambda>v st. (v < 25, st)) 1 1 demo_finished = Ret (Inr 1, w') \<and>
     worker_view w' = ([], None, [30], 2)"
proof -
  have sp: "collect_spec (\<lambda>v st. st) (\<lambda>v st. (v < 25, st)) (finished demo_finished) (w_store demo_finished) = (2, ())"
    by (simp add: demo_worker_lists)
  have "pending demo_finished = []" "current demo_finished = None" "w_running demo_finished = None"
    "w_tasks_collected demo_finished = 0"
    using worker_rep_pending [OF demo_finished_rep]
    by (simp_all add: current_def demo_finished_def pmmpthread_worker_data_alloc_def)
  with worker_collect_correct [OF worker_rep_wf [OF demo_finished_rep] demo_worker_avail(2) sp] show ?thesis
    by (auto simp: demo_worker_lists)
qed

text \<open>
  The cycle collector sees every task the worker holds, once each: the pending ones, the running
  one, the finished ones, in this order; asking for them changes nothing.
\<close>

theorem worker_gc_extra_complete:
  assumes "worker_wf w" "mutex_avail 1 t (mon_mutex (w_monitor w))"
  shows "pmmpthread_worker_get_gc_extra t w =
    Ret (pending w @ (case current w of None \<Rightarrow> [] | Some v \<Rightarrow> [v]) @ finished w, w)"
proof -
  obtain qs gs where rep: "worker_rep w qs gs" using assms(1) by (rule worker_wfE)
  then have q: "queue_rep (w_mem w) (w_queue w) qs" and g: "queue_rep (w_mem w) (w_gc w) gs"
    and r: "\<And>a. w_running w = Some a \<Longrightarrow> \<exists>it. cells (w_mem w) a = Some it"
    by (auto simp: worker_rep_def value_at_def)
  let ?mt = "(w_monitor w)\<lparr>mon_mutex := mutex_take t (mon_mutex (w_monitor w))\<rparr>"
  let ?w = "w\<lparr>w_monitor := ?mt\<rparr>"
  have "pmmpthread_worker_get_gc_extra t w =
    Ret (pending w @ (case current w of None \<Rightarrow> [] | Some v \<Rightarrow> [v]) @ finished w,
      ?w\<lparr>w_monitor := (w_monitor ?w)\<lparr>mon_mutex := mon_mutex (w_monitor w)\<rparr>\<rparr>)"
    unfolding pmmpthread_worker_get_gc_extra_def using r
    by (intro locked_runs [OF assms(2)])
      (auto simp: items_from_rep [OF q] items_from_rep [OF g] pending_def finished_def current_def value_at_def
        split: option.splits)
  then show ?thesis by simp
qed

theorem worker_gc_extra_complete_witness:
  "\<exists>buf. pmmpthread_worker_get_gc_extra 1 demo_pending = Ret (buf, demo_pending) \<and> take 3 buf = [10, 20, 30]"
  using worker_gc_extra_complete [OF worker_rep_wf [OF demo_pending_rep] demo_worker_avail(1)]
  by (simp add: demo_worker_lists)

end
