(* ===== verification/Worker_Threads.thy ===== *)
theory Worker_Threads
  imports Worker
begin

text \<open>
  The creator and the worker thread of one worker as an interleaving of critical sections (src/worker.c, classes/worker.c, the worker's loop in
  src/routine.c): no task is lost, doubled or reordered, and the worker does not sleep while there is work.
\<close>

section \<open>Creator and worker thread\<close>

text \<open>
  The creator \<open>c\<close> and the worker thread \<open>t\<close> on one worker. Each step is one critical section of the
  worker's monitor (the monitor theory shows that they exclude each other), or the work between two
  of them. \<open>Worker::stack\<close> has two: the test of the flags and the insertion. The worker thread is
  before \<open>pmmpthread_worker_next_task\<close>, asleep in it, in a task, behind a task that failed with the error
  flag set and the task not handed back yet, between the two halves of
  \<open>pmmpthread_worker_add_garbage\<close>, or out of its loop; the flag tells that a task failed. The lists
  starting with \<open>h_\<close> record the history: the tasks stacked, those that left the queue (with whether the
  worker took them), the tasks collected.
\<close>

datatype 'v worker_pc = AtNext | Sleeping | InTask 'v | Failing 'v | Handing bool | LeftLoop bool

datatype 'v creator_pc = CIdle | CStack 'v

record ('v, 'c, 'o) worker_sys =
  s_data :: "('v, 'o) worker_data"
  s_done :: "'c done_cache"
  s_pc :: "'v worker_pc"
  s_cpc :: "'v creator_pc"
  h_stacked :: "'v list"
  h_taken :: "('v \<times> bool) list"
  h_collected :: "'v list"

definition after_next :: "'v next_result \<Rightarrow> 'v worker_pc" where
  "after_next r = (case r of JoinedResult \<Rightarrow> LeftLoop False | TaskResult v \<Rightarrow> InTask v | WaitForWork \<Rightarrow> Sleeping)"

definition taken_next :: "'v next_result \<Rightarrow> ('v \<times> bool) list" where
  "taken_next r = (case r of TaskResult v \<Rightarrow> [(v, True)] | _ \<Rightarrow> [])"

definition taken_unstack :: "'v option \<Rightarrow> ('v \<times> bool) list" where
  "taken_unstack r = (case r of Some v \<Rightarrow> [(v, False)] | None \<Rightarrow> [])"

inductive worker_step ::
  "tid \<Rightarrow> tid \<Rightarrow> ('v, 'c, 'o) worker_sys \<Rightarrow> ('v, 'c, 'o) worker_sys \<Rightarrow> bool" for c t
where
  stack_check: "s_cpc s = CIdle \<Longrightarrow>
    pmmpthread_monitor_check c (w_monitor (s_data s)) stack_refused = Ret (0, m) \<Longrightarrow>
    worker_step c t s (s\<lparr>s_data := (s_data s)\<lparr>w_monitor := m\<rparr>, s_cpc := CStack v\<rparr>)"
| stack_add: "s_cpc s = CStack v \<Longrightarrow> cells (w_mem (s_data s)) a = None \<Longrightarrow>
    pmmpthread_worker_add_task c a v (s_data s) = Ret (n, w) \<Longrightarrow>
    worker_step c t s (s\<lparr>s_data := w, s_cpc := CIdle, h_stacked := h_stacked s @ [v]\<rparr>)"
| unstack: "s_cpc s = CIdle \<Longrightarrow> Worker_unstack c c (s_data s) = Ret (Inr r, w) \<Longrightarrow>
    worker_step c t s (s\<lparr>s_data := w, h_taken := h_taken s @ taken_unstack r\<rparr>)"
| collect: "s_cpc s = CIdle \<Longrightarrow> Worker_collect sync coll c c (s_data s) = Ret (Inr n, w) \<Longrightarrow>
    worker_step c t s (s\<lparr>s_data := w, h_collected := h_collected s @
      take (length (finished (s_data s)) - length (finished w)) (finished (s_data s))\<rparr>)"
| shutdown: "s_cpc s = CIdle \<Longrightarrow>
    pmmpthread_monitor_add c (w_monitor (s_data s)) PMMPTHREAD_MONITOR_JOINED = Ret m \<Longrightarrow>
    worker_step c t s (s\<lparr>s_data := (s_data s)\<lparr>w_monitor := m\<rparr>\<rparr>)"
| next_task: "s_pc s = AtNext \<or> s_pc s = Sleeping \<and> t \<notin> mon_cond (w_monitor (s_data s)) \<Longrightarrow>
    pmmpthread_worker_next_task t (s_data s) (s_done s) = Ret (r, w, d) \<Longrightarrow>
    worker_step c t s (s\<lparr>s_data := w, s_done := d, s_pc := after_next r, h_taken := h_taken s @ taken_next r\<rparr>)"
| spurious: "s_pc s = Sleeping \<Longrightarrow>
    worker_step c t s (s\<lparr>s_data := (s_data s)\<lparr>w_monitor := pmmpthread_monitor_notify_one t (w_monitor (s_data s))\<rparr>\<rparr>)"
| task_done: "s_pc s = InTask v \<Longrightarrow> add_garbage_locked t (s_data s) = Ret (True, w) \<Longrightarrow>
    worker_step c t s (s\<lparr>s_data := w, s_pc := Handing False\<rparr>)"
| task_failed: "s_pc s = InTask v \<Longrightarrow>
    pmmpthread_monitor_add t (w_monitor (s_data s)) PMMPTHREAD_MONITOR_ERROR = Ret m \<Longrightarrow>
    worker_step c t s (s\<lparr>s_data := (s_data s)\<lparr>w_monitor := m\<rparr>, s_pc := Failing v\<rparr>)"
| failed_back: "s_pc s = Failing v \<Longrightarrow> add_garbage_locked t (s_data s) = Ret (True, w) \<Longrightarrow>
    worker_step c t s (s\<lparr>s_data := w, s_pc := Handing True\<rparr>)"
| cache_task: "s_pc s = Handing f \<Longrightarrow> cells (snd (s_done s)) a = None \<Longrightarrow>
    add_garbage_cache a x (s_done s) = Ret d \<Longrightarrow>
    worker_step c t s (s\<lparr>s_done := d, s_pc := (if f then LeftLoop True else AtNext)\<rparr>)"
| await_join: "s_pc s = LeftLoop f \<Longrightarrow>
    pmmpthread_monitor_add t (w_monitor (s_data s)) PMMPTHREAD_MONITOR_AWAIT_JOIN = Ret m \<Longrightarrow>
    worker_step c t s (s\<lparr>s_data := (s_data s)\<lparr>w_monitor := m\<rparr>\<rparr>)"

definition worker_init :: "pmmpthread_monitor_t \<Rightarrow> 'o \<Rightarrow> ('v, 'c, 'o) worker_sys" where
  "worker_init mo st =
     \<lparr>s_data = pmmpthread_worker_data_alloc mo \<lparr>cells = (\<lambda>_. None), refs = (\<lambda>_. 0)\<rparr> (\<lambda>_. mo) st,
      s_done = (empty_queue, \<lparr>cells = (\<lambda>_. None), refs = (\<lambda>_. 0)\<rparr>), s_pc = AtNext, s_cpc = CIdle,
      h_stacked = [], h_taken = [], h_collected = []\<rparr>"

inductive worker_reach ::
  "tid \<Rightarrow> tid \<Rightarrow> pmmpthread_monitor_t \<Rightarrow> ('v, 'c, 'o) worker_sys \<Rightarrow> bool" for c t mo
where
  init: "worker_reach c t mo (worker_init mo st)"
| step: "worker_reach c t mo s \<Longrightarrow> worker_step c t s s' \<Longrightarrow> worker_reach c t mo s'"

text \<open>The invariant, in four parts.\<close>

definition mutex_free :: "pthread_mutex \<Rightarrow> bool" where
  "mutex_free mx \<longleftrightarrow> mx_owner mx = None \<and> mx_count mx = 0 \<and> 2 \<le> mx_max mx"

definition inv_data :: "('v, 'c, 'o) worker_sys \<Rightarrow> bool" where
  "inv_data s \<longleftrightarrow> worker_wf (s_data s) \<and> mutex_free (mon_mutex (w_monitor (s_data s))) \<and>
     (case s_pc s of InTask v \<Rightarrow> current (s_data s) = Some v | Failing v \<Rightarrow> current (s_data s) = Some v | _ \<Rightarrow> w_running (s_data s) = None)"

definition inv_cache :: "('v, 'c, 'o) worker_sys \<Rightarrow> bool" where
  "inv_cache s \<longleftrightarrow> (\<exists>ds. queue_rep (snd (s_done s)) (fst (s_done s)) ds \<and>
     length ds + (case s_pc s of Handing f \<Rightarrow> 1 | _ \<Rightarrow> 0) =
     length (finished (s_data s)) + w_tasks_collected (s_data s))"

definition inv_history :: "('v, 'c, 'o) worker_sys \<Rightarrow> bool" where
  "inv_history s \<longleftrightarrow> h_stacked s = map fst (h_taken s) @ pending (s_data s) \<and>
     map fst (filter snd (h_taken s)) =
       h_collected s @ finished (s_data s) @ (case current (s_data s) of None \<Rightarrow> [] | Some v \<Rightarrow> [v])"

definition inv_wakeup :: "tid \<Rightarrow> ('v, 'c, 'o) worker_sys \<Rightarrow> bool" where
  "inv_wakeup t s \<longleftrightarrow>
     (s_pc s = Sleeping \<and> t \<in> mon_cond (w_monitor (s_data s)) \<longrightarrow>
        pending (s_data s) = [] \<and> \<not> flag_set (s_data s) PMMPTHREAD_MONITOR_JOINED) \<and>
     (flag_set (s_data s) PMMPTHREAD_MONITOR_JOINED \<longrightarrow> s_cpc s = CIdle) \<and>
     (s_pc s = LeftLoop False \<longrightarrow> pending (s_data s) = [] \<and> flag_set (s_data s) PMMPTHREAD_MONITOR_JOINED)"

definition worker_inv :: "tid \<Rightarrow> ('v, 'c, 'o) worker_sys \<Rightarrow> bool" where
  "worker_inv t s \<longleftrightarrow> inv_data s \<and> inv_cache s \<and> inv_history s \<and> inv_wakeup t s"

lemmas worker_inv_defs = worker_inv_def inv_data_def inv_cache_def inv_history_def inv_wakeup_def

lemma mutex_free_avail: "mutex_free mx \<Longrightarrow> mutex_avail 2 t mx"
  by (simp add: mutex_free_def mutex_avail_def)

lemma mutex_free_avail1: "mutex_free mx \<Longrightarrow> mutex_avail (Suc 0) t mx"
  by (simp add: mutex_free_def mutex_avail_def)

lemma flags_or_joined: "st AND PMMPTHREAD_MONITOR_JOINED \<noteq> 0 \<Longrightarrow> (st OR k) AND PMMPTHREAD_MONITOR_JOINED \<noteq> 0"
  by (simp add: bit.conj_disj_distrib2 or_eq_0_iff)

lemma refused_joined: "st AND stack_refused = 0 \<Longrightarrow> st AND PMMPTHREAD_MONITOR_JOINED = 0"
  by (simp add: stack_refused_def bit.conj_disj_distrib or_eq_0_iff)

lemma worker_inv_init:
  assumes "mutex_free (mon_mutex mo)" "mon_state mo AND PMMPTHREAD_MONITOR_JOINED = 0"
  shows "worker_inv t (worker_init mo st)"
  using assms
  by (auto simp: worker_inv_defs worker_init_def pmmpthread_worker_data_alloc_def worker_wf_def worker_rep_def
      queue_rep_def empty_queue_def queue_addrs_def pending_def finished_def current_def queue_list_def flag_set_def)

lemma inv_stack_check:
  assumes "worker_inv t s" "s_cpc s = CIdle"
    and "pmmpthread_monitor_check c (w_monitor (s_data s)) stack_refused = Ret (0, m)"
  shows "worker_inv t (s\<lparr>s_data := (s_data s)\<lparr>w_monitor := m\<rparr>, s_cpc := CStack v\<rparr>)"
proof -
  have "mutex_avail (Suc 0) c (mon_mutex (w_monitor (s_data s)))"
    using assms(1) by (simp add: worker_inv_defs mutex_free_avail1)
  from check_avail [OF this, of stack_refused] assms(3)
  have m: "m = w_monitor (s_data s)" "mon_state (w_monitor (s_data s)) AND stack_refused = 0" by auto
  then have "\<not> flag_set (s_data s) PMMPTHREAD_MONITOR_JOINED" by (simp add: flag_set_def refused_joined)
  then show ?thesis using assms(1) m(1) by (auto simp: worker_inv_defs split: worker_pc.splits)
qed

lemma inv_stack_add:
  assumes "worker_inv t s" "s_cpc s = CStack v" "cells (w_mem (s_data s)) a = None"
    and "pmmpthread_worker_add_task c a v (s_data s) = Ret (n, w)"
  shows "worker_inv t (s\<lparr>s_data := w, s_cpc := CIdle, h_stacked := h_stacked s @ [v]\<rparr>)"
proof -
  have "worker_wf (s_data s)" "mutex_avail 1 c (mon_mutex (w_monitor (s_data s)))"
    using assms(1) by (simp_all add: worker_inv_defs mutex_free_avail1)
  from add_task_refines [OF this(1) assms(3) this(2), of v] assms(4) have
    w: "worker_wf w" "worker_view w = (pending (s_data s) @ [v], current (s_data s), finished (s_data s), w_tasks_collected (s_data s))"
      "w_running w = w_running (s_data s)"
      "w_monitor w = (if pending (s_data s) = [] then pmmpthread_monitor_notify (w_monitor (s_data s)) else w_monitor (s_data s))"
    by auto
  then have "mon_mutex (w_monitor w) = mon_mutex (w_monitor (s_data s))"
    "mon_state (w_monitor w) = mon_state (w_monitor (s_data s))"
    "pending (s_data s) = [] \<Longrightarrow> mon_cond (w_monitor w) = {}"
    "pending (s_data s) \<noteq> [] \<Longrightarrow> mon_cond (w_monitor w) = mon_cond (w_monitor (s_data s))"
    by (auto simp: pmmpthread_monitor_notify_def)
  moreover have "\<not> flag_set (s_data s) PMMPTHREAD_MONITOR_JOINED" "s_pc s \<noteq> LeftLoop False"
    using assms(1,2) by (auto simp: worker_inv_defs)
  ultimately show ?thesis
    using assms(1) w by (auto simp: worker_inv_defs worker_view_def flag_set_def split: worker_pc.splits)
qed

lemma inv_unstack:
  assumes "worker_inv t s" "Worker_unstack c c (s_data s) = Ret (Inr r, w)"
  shows "worker_inv t (s\<lparr>s_data := w, h_taken := h_taken s @ taken_unstack r\<rparr>)"
proof -
  have "worker_wf (s_data s)" "mutex_avail 1 c (mon_mutex (w_monitor (s_data s)))"
    using assms(1) by (simp_all add: worker_inv_defs mutex_free_avail1)
  from dequeue_refines [OF this] assms(2) have
    w: "worker_wf w" "worker_view w = (tl (pending (s_data s)), current (s_data s), finished (s_data s), w_tasks_collected (s_data s))"
      "w_running w = w_running (s_data s)" "w_monitor w = w_monitor (s_data s)"
      "r = (case pending (s_data s) of [] \<Rightarrow> None | v # _ \<Rightarrow> Some v)"
    by (auto simp: Worker_unstack_def IN_CREATOR_def)
  then show ?thesis
    using assms(1) by (auto simp: worker_inv_defs worker_view_def flag_set_def taken_unstack_def split: list.splits worker_pc.splits)
qed

lemma inv_collect:
  assumes "worker_inv t s" "Worker_collect sync coll c c (s_data s) = Ret (Inr n, w)"
  shows "worker_inv t (s\<lparr>s_data := w, h_collected := h_collected s @
      take (length (finished (s_data s)) - length (finished w)) (finished (s_data s))\<rparr>)"
proof -
  have p: "worker_wf (s_data s)" "mutex_avail 2 c (mon_mutex (w_monitor (s_data s)))"
    using assms(1) by (simp_all add: worker_inv_defs mutex_free_avail)
  obtain k st' where sp: "collect_spec sync coll (finished (s_data s)) (w_store (s_data s)) = (k, st')" by fastforce
  have k: "k \<le> length (finished (s_data s))" using sp by (rule collect_spec_le)
  from collect_refines [OF p sp] assms(2) have
    w: "worker_wf w" "worker_view w = (pending (s_data s), current (s_data s), drop k (finished (s_data s)), w_tasks_collected (s_data s) + k)"
      "w_running w = w_running (s_data s)"
      "w_monitor w = (if 0 < k then (w_monitor (s_data s))\<lparr>mon_state := mon_state (w_monitor (s_data s)) OR PMMPTHREAD_MONITOR_COLLECT_GARBAGE,
          mon_cond := {}\<rparr> else w_monitor (s_data s))"
    by (auto simp: Worker_collect_def IN_CREATOR_def)
  have j: "flag_set w PMMPTHREAD_MONITOR_JOINED = flag_set (s_data s) PMMPTHREAD_MONITOR_JOINED"
    by (auto simp: flag_set_def w(4) bit.conj_disj_distrib2) (simp_all add: monitor_flag_defs)
  have "mon_mutex (w_monitor w) = mon_mutex (w_monitor (s_data s))"
    "mon_cond (w_monitor w) \<subseteq> mon_cond (w_monitor (s_data s))" by (auto simp: w(4))
  then show ?thesis
    using assms(1) w(1-3) k j by (auto simp: worker_inv_defs worker_view_def split: worker_pc.splits)
qed

lemma inv_flags:
  assumes "worker_inv t s" "mutex_avail (Suc 0) u (mon_mutex (w_monitor (s_data s)))"
    and "pmmpthread_monitor_add u (w_monitor (s_data s)) k = Ret m"
    and "k AND PMMPTHREAD_MONITOR_JOINED \<noteq> 0 \<Longrightarrow> s_cpc s = CIdle"
  shows "worker_inv t (s\<lparr>s_data := (s_data s)\<lparr>w_monitor := m\<rparr>\<rparr>)"
  using assms(1,4) assms(3) [unfolded add_avail [OF assms(2)]]
  by (auto simp: worker_inv_defs flag_set_def bit.conj_disj_distrib2 or_eq_0_iff split: worker_pc.splits)

lemma inv_next_task:
  assumes "worker_inv t s" "s_pc s = AtNext \<or> s_pc s = Sleeping"
    and "pmmpthread_worker_next_task t (s_data s) (s_done s) = Ret (r, w, d)"
  shows "worker_inv t (s\<lparr>s_data := w, s_done := d, s_pc := after_next r, h_taken := h_taken s @ taken_next r\<rparr>)"
proof -
  have p: "worker_wf (s_data s)" "w_running (s_data s) = None" "mutex_avail 2 t (mon_mutex (w_monitor (s_data s)))"
    using assms(1,2) by (auto simp: worker_inv_defs mutex_free_avail)
  obtain ds where ds: "queue_rep (snd (s_done s)) (fst (s_done s)) ds"
    "length ds = length (finished (s_data s)) + w_tasks_collected (s_data s)"
    using assms(1,2) unfolding worker_inv_def inv_cache_def by auto
  from next_task_refines [OF p ds(1)] ds(2) assms(3) obtain k where
    w: "r = next_spec (s_data s)" "worker_wf w" "k \<le> w_tasks_collected (s_data s)" "queue_rep (snd d) (fst d) (drop k ds)"
      "worker_view w = (case pending (s_data s) of
          [] \<Rightarrow> ([], None, finished (s_data s), w_tasks_collected (s_data s) - k)
        | v # vs \<Rightarrow> (vs, Some v, finished (s_data s), w_tasks_collected (s_data s) - k))"
      "mon_mutex (w_monitor w) = mon_mutex (w_monitor (s_data s))"
      "mon_state (w_monitor w) = next_flags (mon_state (w_monitor (s_data s)))"
    by auto
  have j: "flag_set w PMMPTHREAD_MONITOR_JOINED = flag_set (s_data s) PMMPTHREAD_MONITOR_JOINED"
    by (simp add: flag_set_def w(7) next_flags_def joined_after_collect)
  have cur: "current (s_data s) = None" using p(2) by (simp add: current_def)
  have "inv_data (s\<lparr>s_data := w, s_pc := after_next r\<rparr>)"
    using assms(1) w(1,2,5,6) by (auto simp: worker_inv_defs after_next_def next_spec_def worker_view_def current_def
      worker_wf_def worker_rep_def Option.bind_eq_None_conv split: list.splits option.splits)
  moreover have "inv_cache (s\<lparr>s_data := w, s_done := d, s_pc := after_next r\<rparr>)"
    using w(1,3,4,5) ds(2) unfolding inv_cache_def
    by (intro exI [of _ "drop k ds"]) (auto simp: after_next_def next_spec_def worker_view_def split: list.splits)
  moreover have "inv_history (s\<lparr>s_data := w, h_taken := h_taken s @ taken_next r\<rparr>)"
    using assms(1) w(1,5) cur by (auto simp: worker_inv_defs taken_next_def next_spec_def worker_view_def split: list.splits)
  moreover have "inv_wakeup t (s\<lparr>s_data := w, s_pc := after_next r\<rparr>)"
    using assms(1) w(1,5) j by (auto simp: worker_inv_defs after_next_def next_spec_def worker_view_def split: list.splits)
  ultimately show ?thesis
    by (cases "after_next r") (simp_all add: worker_inv_defs)
qed

lemma inv_hand:
  assumes "worker_inv t s" "s_pc s = InTask v \<or> s_pc s = Failing v" "add_garbage_locked t (s_data s) = Ret (True, w)"
  shows "worker_inv t (s\<lparr>s_data := w, s_pc := Handing f\<rparr>)"
proof -
  have "worker_wf (s_data s)" "current (s_data s) = Some v" "mutex_avail 1 t (mon_mutex (w_monitor (s_data s)))"
    using assms(1,2) by (auto simp: worker_inv_defs mutex_free_avail1)
  from add_garbage_refines [OF this] assms(3) have
    w: "worker_wf w" "worker_view w = (pending (s_data s), None, finished (s_data s) @ [v], w_tasks_collected (s_data s))"
      "w_running w = None" "w_monitor w = pmmpthread_monitor_notify (w_monitor (s_data s))"
    by auto
  then show ?thesis
    using assms(1,2) by (auto simp: worker_inv_defs worker_view_def flag_set_def pmmpthread_monitor_notify_def)
qed

lemma inv_cache_task:
  assumes "worker_inv t s" "s_pc s = Handing f" "cells (snd (s_done s)) a = None"
    and "add_garbage_cache a x (s_done s) = Ret d"
  shows "worker_inv t (s\<lparr>s_done := d, s_pc := (if f then LeftLoop True else AtNext)\<rparr>)"
proof -
  obtain ds where ds: "queue_rep (snd (s_done s)) (fst (s_done s)) ds"
    "length ds + 1 = length (finished (s_data s)) + w_tasks_collected (s_data s)"
    using assms(1,2) unfolding worker_inv_def inv_cache_def by auto
  from push_new_rep [OF ds(1) assms(3), of None None x] assms(4) have "queue_rep (snd d) (fst d) (ds @ [a])"
    by (auto simp: add_garbage_cache_def outcome_simps)
  then have "inv_cache (s\<lparr>s_done := d, s_pc := (if f then LeftLoop True else AtNext)\<rparr>)"
    using ds(2) unfolding inv_cache_def by (intro exI [of _ "ds @ [a]"]) auto
  then show ?thesis using assms(1,2) by (auto simp: worker_inv_defs)
qed

lemma error_not_joined: "PMMPTHREAD_MONITOR_ERROR AND PMMPTHREAD_MONITOR_JOINED = 0"
  "PMMPTHREAD_MONITOR_AWAIT_JOIN AND PMMPTHREAD_MONITOR_JOINED = 0"
  by (simp_all add: monitor_flag_defs)

lemma worker_inv_step:
  assumes "worker_step c t s s'" "worker_inv t s"
  shows "worker_inv t s'"
proof -
  have av: "mutex_avail (Suc 0) u (mon_mutex (w_monitor (s_data s)))" for u
    using assms(2) by (simp add: worker_inv_defs mutex_free_avail1)
  from assms(1) show ?thesis
  proof (cases rule: worker_step.cases)
    case (stack_check m v)
    then show ?thesis using inv_stack_check [OF assms(2)] by simp
  next
    case (stack_add v a n w)
    then show ?thesis using inv_stack_add [OF assms(2)] by simp
  next
    case (unstack r w)
    then show ?thesis using inv_unstack [OF assms(2)] by simp
  next
    case (collect sync coll n w)
    then show ?thesis using inv_collect [OF assms(2)] by simp
  next
    case (shutdown m)
    then show ?thesis using inv_flags [OF assms(2) av] by simp
  next
    case (next_task r w d)
    then show ?thesis using inv_next_task [OF assms(2)] by blast
  next
    case spurious
    then show ?thesis
      using assms(2) by (auto simp: worker_inv_defs flag_set_def pmmpthread_monitor_notify_one_def)
  next
    case (task_done v w)
    then show ?thesis using inv_hand [OF assms(2)] by simp
  next
    case (task_failed v m)
    then have "worker_inv t (s\<lparr>s_data := (s_data s)\<lparr>w_monitor := m\<rparr>\<rparr>)"
      using inv_flags [OF assms(2) av task_failed(3)] by (simp add: error_not_joined)
    then show ?thesis using task_failed(1,2) by (simp add: worker_inv_defs)
  next
    case (failed_back v w)
    then show ?thesis using inv_hand [OF assms(2)] by simp
  next
    case (cache_task f a x d)
    then show ?thesis using inv_cache_task [OF assms(2)] by simp
  next
    case (await_join f m)
    then show ?thesis using inv_flags [OF assms(2) av await_join(3)] by (simp add: error_not_joined)
  qed
qed

lemma worker_reach_inv:
  assumes "worker_reach c t mo s" "mutex_free (mon_mutex mo)" "mon_state mo AND PMMPTHREAD_MONITOR_JOINED = 0"
  shows "worker_inv t s"
  using assms by (induction rule: worker_reach.induct) (auto intro: worker_inv_init worker_inv_step)

text \<open>The steps as a function of the chosen move, to run concrete schedules.\<close>

datatype ('v, 'c, 'o) worker_move =
  MCheck 'v | MAdd addr | MUnstack | MCollect "'v \<Rightarrow> 'o \<Rightarrow> 'o" "'v \<Rightarrow> 'o \<Rightarrow> bool \<times> 'o" | MShutdown |
  MNext | MSpurious | MDone | MFail | MFailed | MCache addr 'c | MAwait

definition worker_exec ::
  "tid \<Rightarrow> tid \<Rightarrow> ('v, 'c, 'o) worker_move \<Rightarrow> ('v, 'c, 'o) worker_sys \<Rightarrow> ('v, 'c, 'o) worker_sys option"
where
  "worker_exec c t mv s =
     (let w = s_data s; m = w_monitor w in
      case mv of
        MCheck v \<Rightarrow>
          (case (s_cpc s, pmmpthread_monitor_check c m stack_refused) of
             (CIdle, Ret (r, m1)) \<Rightarrow>
               if r = 0 then Some (s\<lparr>s_data := w\<lparr>w_monitor := m1\<rparr>, s_cpc := CStack v\<rparr>) else None
           | _ \<Rightarrow> None)
      | MAdd a \<Rightarrow>
          (case s_cpc s of
             CStack v \<Rightarrow>
               (case (cells (w_mem w) a, pmmpthread_worker_add_task c a v w) of
                  (None, Ret (n, w1)) \<Rightarrow> Some (s\<lparr>s_data := w1, s_cpc := CIdle, h_stacked := h_stacked s @ [v]\<rparr>)
                | _ \<Rightarrow> None)
           | CIdle \<Rightarrow> None)
      | MUnstack \<Rightarrow>
          (case (s_cpc s, Worker_unstack c c w) of
             (CIdle, Ret (Inr r, w1)) \<Rightarrow> Some (s\<lparr>s_data := w1, h_taken := h_taken s @ taken_unstack r\<rparr>)
           | _ \<Rightarrow> None)
      | MCollect sync coll \<Rightarrow>
          (case (s_cpc s, Worker_collect sync coll c c w) of
             (CIdle, Ret (Inr n, w1)) \<Rightarrow>
               Some (s\<lparr>s_data := w1, h_collected := h_collected s @
                 take (length (finished w) - length (finished w1)) (finished w)\<rparr>)
           | _ \<Rightarrow> None)
      | MShutdown \<Rightarrow>
          (case (s_cpc s, pmmpthread_monitor_add c m PMMPTHREAD_MONITOR_JOINED) of
             (CIdle, Ret m1) \<Rightarrow> Some (s\<lparr>s_data := w\<lparr>w_monitor := m1\<rparr>\<rparr>)
           | _ \<Rightarrow> None)
      | MNext \<Rightarrow>
          (if s_pc s = AtNext \<or> s_pc s = Sleeping \<and> t \<notin> mon_cond m then
             (case pmmpthread_worker_next_task t w (s_done s) of
                Ret (r, w1, d) \<Rightarrow>
                  Some (s\<lparr>s_data := w1, s_done := d, s_pc := after_next r, h_taken := h_taken s @ taken_next r\<rparr>)
              | _ \<Rightarrow> None)
           else None)
      | MSpurious \<Rightarrow>
          (if s_pc s = Sleeping then Some (s\<lparr>s_data := w\<lparr>w_monitor := pmmpthread_monitor_notify_one t m\<rparr>\<rparr>) else None)
      | MDone \<Rightarrow>
          (case (s_pc s, add_garbage_locked t w) of
             (InTask v, Ret (True, w1)) \<Rightarrow> Some (s\<lparr>s_data := w1, s_pc := Handing False\<rparr>)
           | _ \<Rightarrow> None)
      | MFail \<Rightarrow>
          (case (s_pc s, pmmpthread_monitor_add t m PMMPTHREAD_MONITOR_ERROR) of
             (InTask v, Ret m1) \<Rightarrow> Some (s\<lparr>s_data := w\<lparr>w_monitor := m1\<rparr>, s_pc := Failing v\<rparr>)
           | _ \<Rightarrow> None)
      | MFailed \<Rightarrow>
          (case (s_pc s, add_garbage_locked t w) of
             (Failing v, Ret (True, w1)) \<Rightarrow> Some (s\<lparr>s_data := w1, s_pc := Handing True\<rparr>)
           | _ \<Rightarrow> None)
      | MCache a x \<Rightarrow>
          (case (s_pc s, cells (snd (s_done s)) a, add_garbage_cache a x (s_done s)) of
             (Handing f, None, Ret d) \<Rightarrow> Some (s\<lparr>s_done := d, s_pc := (if f then LeftLoop True else AtNext)\<rparr>)
           | _ \<Rightarrow> None)
      | MAwait \<Rightarrow>
          (case (s_pc s, pmmpthread_monitor_add t m PMMPTHREAD_MONITOR_AWAIT_JOIN) of
             (LeftLoop f, Ret m1) \<Rightarrow> Some (s\<lparr>s_data := w\<lparr>w_monitor := m1\<rparr>\<rparr>)
           | _ \<Rightarrow> None))"

fun worker_run ::
  "tid \<Rightarrow> tid \<Rightarrow> ('v, 'c, 'o) worker_move list \<Rightarrow> ('v, 'c, 'o) worker_sys \<Rightarrow> ('v, 'c, 'o) worker_sys option"
where
  "worker_run c t [] s = Some s"
| "worker_run c t (mv # mvs) s = Option.bind (worker_exec c t mv s) (worker_run c t mvs)"

lemma worker_exec_step: "worker_exec c t mv s = Some s' \<Longrightarrow> worker_step c t s s'"
  by (cases mv)
    (auto simp: worker_exec_def Let_def
      intro: worker_step.intros worker_step.cache_task [where f = True, simplified]
        worker_step.cache_task [where f = False, simplified]
      split: creator_pc.splits outcome.splits prod.splits option.splits sum.splits worker_pc.splits bool.splits if_splits)

text \<open>Every step is a move.\<close>

lemma worker_step_exec: "worker_step c t s s' \<Longrightarrow> \<exists>mv. worker_exec c t mv s = Some s'"
proof (induction rule: worker_step.induct)
  case (stack_check s m v)
  then show ?case by (intro exI [of _ "MCheck v"]) (simp add: worker_exec_def)
next
  case (stack_add s v a n w)
  then show ?case by (intro exI [of _ "MAdd a"]) (simp add: worker_exec_def)
next
  case (unstack s r w)
  then show ?case by (intro exI [of _ MUnstack]) (simp add: worker_exec_def)
next
  case (collect s sync coll n w)
  then show ?case by (intro exI [of _ "MCollect sync coll"]) (simp add: worker_exec_def Let_def)
next
  case (shutdown s m)
  then show ?case by (intro exI [of _ MShutdown]) (simp add: worker_exec_def)
next
  case (next_task s r w d)
  then show ?case by (intro exI [of _ MNext]) (auto simp: worker_exec_def)
next
  case (spurious s)
  then show ?case by (intro exI [of _ MSpurious]) (simp add: worker_exec_def Let_def)
next
  case (task_done s v w)
  then show ?case by (intro exI [of _ MDone]) (simp add: worker_exec_def)
next
  case (task_failed s v m)
  then show ?case by (intro exI [of _ MFail]) (simp add: worker_exec_def)
next
  case (failed_back s v w)
  then show ?case by (intro exI [of _ MFailed]) (simp add: worker_exec_def)
next
  case (cache_task s f a x d)
  then show ?case by (intro exI [of _ "MCache a x"]) (simp add: worker_exec_def)
next
  case (await_join s f m)
  then show ?case by (intro exI [of _ MAwait]) (simp add: worker_exec_def)
qed

lemma worker_run_reach: "worker_run c t mvs s = Some s' \<Longrightarrow> worker_reach c t mo s \<Longrightarrow> worker_reach c t mo s'"
  by (induction mvs arbitrary: s)
    (auto simp: Option.bind_eq_Some_conv, metis worker_exec_step worker_reach.step)

lemmas worker_run_init = worker_run_reach [OF _ worker_reach.init]

definition demo_monitor :: pmmpthread_monitor_t where
  "demo_monitor = \<lparr>mon_state = 1, mon_mutex = \<lparr>mx_owner = None, mx_count = 0, mx_max = 5\<rparr>, mon_cond = {}\<rparr>"

definition demo_worker :: "(nat, nat, unit) worker_sys" where
  "demo_worker = worker_init demo_monitor ()"

lemmas worker_eval =
  worker_exec_def demo_worker_def worker_init_def demo_monitor_def pmmpthread_worker_data_alloc_def
  pmmpthread_worker_add_task_def locked_def guarded_def monitor_defs stack_refused_def monitor_flag_defs
  pmmpthread_worker_next_task_def next_task_collect_def next_task_take_def pthread_cond_wait_def
  add_garbage_locked_def add_garbage_cache_def pmmpthread_queue_push_new_def pmmpthread_queue_item_new_def
  zval_addref_def queue_op_defs mem_simps pmmpthread_queue_shift_def empty_queue_def
  after_next_def taken_next_def zval_ptr_dtor_def Let_def

lemma demo_start: "mutex_free (mon_mutex demo_monitor)" "mon_state demo_monitor AND PMMPTHREAD_MONITOR_JOINED = 0"
  by (simp_all add: demo_monitor_def mutex_free_def monitor_flag_defs)

section \<open>Properties\<close>

text \<open>
  C1: Tasks run in the order in which they were stacked, each at most once, and none is lost. In
  every reachable state of creator and worker thread the tasks stacked so far are the tasks that have
  left the queue, in this order, followed by the pending ones; and the tasks the worker has taken are
  the collected ones, the finished ones and the running one, in this order.
\<close>

theorem worker_fifo_conservation:
  assumes "worker_reach c t mo s" "mutex_free (mon_mutex mo)" "mon_state mo AND PMMPTHREAD_MONITOR_JOINED = 0"
  shows "h_stacked s = map fst (h_taken s) @ pending (s_data s) \<and>
    map fst (filter snd (h_taken s)) =
      h_collected s @ finished (s_data s) @ (case current (s_data s) of None \<Rightarrow> [] | Some v \<Rightarrow> [v])"
  using worker_reach_inv [OF assms] by (simp add: worker_inv_defs)

theorem worker_fifo_conservation_witness:
  "\<exists>s. worker_run 1 2 [MCheck 70, MAdd 1, MCheck 80, MAdd 2, MNext] demo_worker = Some s \<and>
     s_pc s = InTask 70 \<and> h_stacked s = [70, 80] \<and> h_stacked s = map fst (h_taken s) @ pending (s_data s)"
proof -
  obtain s where run: "worker_run 1 2 [MCheck 70, MAdd 1, MCheck 80, MAdd 2, MNext] demo_worker = Some s"
    and pc: "s_pc s = InTask 70" "h_stacked s = [70, 80]"
    by (simp add: worker_eval)
  from worker_fifo_conservation [OF worker_run_init [OF run [unfolded demo_worker_def]] demo_start] run pc
  show ?thesis by auto
qed

text \<open>
  C2: The worker never sleeps on work. A worker thread that waits in the condition variable of its
  monitor has no pending task and has not been told to shut down; so when a task is stacked or the
  worker is joined, it has been woken.
\<close>

theorem worker_never_sleeps_on_work:
  assumes "worker_reach c t mo s" "mutex_free (mon_mutex mo)" "mon_state mo AND PMMPTHREAD_MONITOR_JOINED = 0"
    and "s_pc s = Sleeping" "t \<in> mon_cond (w_monitor (s_data s))"
  shows "pending (s_data s) = [] \<and> \<not> flag_set (s_data s) PMMPTHREAD_MONITOR_JOINED"
  using worker_reach_inv [OF assms(1-3)] assms(4,5) by (simp add: worker_inv_defs)

theorem worker_never_sleeps_on_work_witness:
  "\<exists>s. worker_run 1 2 [MCheck 70, MAdd 1, MNext, MDone, MCache 1 71, MNext] demo_worker = Some s \<and>
     s_pc s = Sleeping \<and> 2 \<in> mon_cond (w_monitor (s_data s)) \<and> pending (s_data s) = []"
proof -
  obtain s where run: "worker_run 1 2 [MCheck 70, MAdd 1, MNext, MDone, MCache 1 71, MNext] demo_worker = Some s"
    and pc: "s_pc s = Sleeping" "2 \<in> mon_cond (w_monitor (s_data s))"
    by (simp add: worker_eval)
  from worker_never_sleeps_on_work [OF worker_run_init [OF run [unfolded demo_worker_def]] demo_start pc] run pc
  show ?thesis by auto
qed

text \<open>
  C3: A clean shutdown drains the queue: a worker that leaves its loop without a failed task has been
  joined and has no pending task, and every task stacked and not unstacked has been run.
\<close>

theorem worker_shutdown_drains:
  assumes "worker_reach c t mo s" "mutex_free (mon_mutex mo)" "mon_state mo AND PMMPTHREAD_MONITOR_JOINED = 0"
    and "s_pc s = LeftLoop False"
  shows "flag_set (s_data s) PMMPTHREAD_MONITOR_JOINED \<and> h_stacked s = map fst (h_taken s) \<and>
    map fst (filter snd (h_taken s)) = h_collected s @ finished (s_data s)"
  using worker_reach_inv [OF assms(1-3)] assms(4) by (simp add: worker_inv_defs current_def)

theorem worker_shutdown_drains_witness:
  "\<exists>s. worker_run 1 2 [MCheck 70, MAdd 1, MShutdown, MNext, MDone, MCache 1 71, MNext] demo_worker = Some s \<and>
     s_pc s = LeftLoop False \<and> h_stacked s = [70] \<and> h_stacked s = map fst (h_taken s)"
proof -
  obtain s where run: "worker_run 1 2 [MCheck 70, MAdd 1, MShutdown, MNext, MDone, MCache 1 71, MNext] demo_worker = Some s"
    and pc: "s_pc s = LeftLoop False" "h_stacked s = [70]"
    by (simp add: worker_eval)
  from worker_shutdown_drains [OF worker_run_init [OF run [unfolded demo_worker_def]] demo_start pc(1)] run pc
  show ?thesis by auto
qed

text \<open>
  The worker thread's own references never run out. In every reachable state its cache holds one
  connection for every finished task and every collected task it has not heard of, so the loop in
  \<open>pmmpthread_worker_next_task\<close> that drops a connection per collected task removes exactly that many.
\<close>

theorem worker_cache_in_step:
  assumes "worker_reach c t mo s" "mutex_free (mon_mutex mo)" "mon_state mo AND PMMPTHREAD_MONITOR_JOINED = 0"
  shows "q_size (fst (s_done s)) + (case s_pc s of Handing f \<Rightarrow> 1 | _ \<Rightarrow> 0) =
      int (length (finished (s_data s))) + int (w_tasks_collected (s_data s)) \<and>
    (s_pc s = AtNext \<longrightarrow> (\<exists>q m. shift_n (w_tasks_collected (s_data s)) (s_done s) = Some (q, m) \<and>
       q_size q = int (length (finished (s_data s)))))"
proof -
  obtain ds where ds: "queue_rep (snd (s_done s)) (fst (s_done s)) ds"
    "length ds + (case s_pc s of Handing f \<Rightarrow> 1 | _ \<Rightarrow> 0) = length (finished (s_data s)) + w_tasks_collected (s_data s)"
    using worker_reach_inv [OF assms] unfolding worker_inv_def inv_cache_def by auto
  have "q_size (fst (s_done s)) = int (length ds)" using ds(1) by (simp add: queue_rep_def)
  moreover have "\<exists>q m. shift_n (w_tasks_collected (s_data s)) (s_done s) = Some (q, m) \<and>
      q_size q = int (length (finished (s_data s)))" if "s_pc s = AtNext"
    using shift_n_rep [OF ds(1), of "w_tasks_collected (s_data s)"] ds(2) that
    by (auto simp: queue_rep_def)
  ultimately show ?thesis using ds(2) by (auto split: worker_pc.splits)
qed

theorem worker_cache_in_step_witness:
  "\<exists>s. worker_run 1 2 [MCheck 70, MAdd 1, MNext, MDone, MCache 1 71] demo_worker = Some s \<and>
     s_pc s = AtNext \<and> q_size (fst (s_done s)) = int (length (finished (s_data s))) + int (w_tasks_collected (s_data s))"
proof -
  obtain s where run: "worker_run 1 2 [MCheck 70, MAdd 1, MNext, MDone, MCache 1 71] demo_worker = Some s"
    and pc: "s_pc s = AtNext"
    by (simp add: worker_eval)
  from worker_cache_in_step [OF worker_run_init [OF run [unfolded demo_worker_def]] demo_start] run pc
  show ?thesis by auto
qed

end
