(* ===== verification/Routine.thy ===== *)
theory Routine
  imports Worker_Threads
begin

text \<open>
  The life of a thread: src/routine.c (\<open>pmmpthread_start\<close>, \<open>pmmpthread_routine\<close>,
  \<open>pmmpthread_routine_run_function\<close>, \<open>pmmpthread_join\<close>), the part of \<open>pmmpthread_prepared_startup\<close> and
  \<open>pmmpthread_prepared_shutdown\<close> (src/prepare.c) that the two sides see, and the queries of classes/thread.c and
  classes/runnable.c. First the critical sections as functions on the monitors involved, then a step
  relation in which the creator and the thread interleave, a step per critical section.
\<close>

section \<open>Waiting for a flag, one critical section at a time\<close>

text \<open>
  One turn of the loop of \<open>pmmpthread_monitor_wait_until\<close>: take the lock, test, and either leave (\<open>True\<close>) or
  fall asleep on the condition variable (\<open>False\<close>). A sleeper that is woken does the same turn again.
\<close>

definition wait_until_turn ::
  "tid \<Rightarrow> pmmpthread_monitor_t \<Rightarrow> pmmpthread_monitor_state_t \<Rightarrow> (bool \<times> pmmpthread_monitor_t) outcome"
where
  "wait_until_turn t m state =
     obind (pmmpthread_monitor_lock t m) (\<lambda>(ok, m1).
       if \<not> ok then Ret (True, m1)
       else
         obind (pmmpthread_monitor_check t m1 state) (\<lambda>(r, m2).
           if r = 0 then Ret (False, snd (pthread_cond_wait t m2))
           else Ret (True, snd (pmmpthread_monitor_unlock t m2))))"

lemma wait_until_turn_avail:
  assumes "mutex_avail (Suc (Suc 0)) t (mon_mutex m)" "mx_owner (mon_mutex m) = None"
  shows "wait_until_turn t m k =
    (if mon_state m AND k = 0 then Ret (False, m\<lparr>mon_cond := insert t (mon_cond m)\<rparr>) else Ret (True, m))"
proof -
  let ?m = "m\<lparr>mon_mutex := mutex_take t (mon_mutex m)\<rparr>"
  have a: "mutex_avail (Suc 0) t (mon_mutex ?m)" using avail_take [OF assms(1)] by simp
  have c: "mon_mutex m = \<lparr>mx_owner = None, mx_count = 0, mx_max = mx_max (mon_mutex m)\<rparr>"
    using assms by (cases "mon_mutex m") (simp add: mutex_avail_def)
  have w: "pthread_cond_wait t ?m = (0, m\<lparr>mon_cond := insert t (mon_cond m)\<rparr>)"
    using assms c by (cases m) (auto simp: pthread_cond_wait_def pthread_mutex_unlock_def mutex_take_def mutex_avail_def)
  have u: "pmmpthread_monitor_unlock t ?m = (True, m)"
    using unlock_taken_eq [OF assms(1), of ?m] by simp
  show ?thesis
    by (simp add: wait_until_turn_def lock_avail_eq [OF assms(1)] check_avail [OF a] w u)
qed

section \<open>Starting (src/routine.c)\<close>

record pmmpthread_routine_arg_t =
  ra_thread :: addr
  ra_ready :: pmmpthread_monitor_t
  ra_options :: "64 word"

datatype routine_error =
    OnlyCreatorMayStart
  | AlreadyStarted
  | OutOfThreads
  | CannotStart int
  | OnlyCreatorMayJoin
  | AlreadyJoined
  | NotStarted

text \<open>
  \<open>ready0\<close> is what \<open>pmmpthread_monitor_init\<close> leaves in the caller's stack frame; \<open>m\<close> is the monitor of the
  thread object.
\<close>

definition pmmpthread_routine_init ::
  "tid \<Rightarrow> addr \<Rightarrow> 64 word \<Rightarrow> pmmpthread_monitor_t \<Rightarrow> pmmpthread_monitor_t \<Rightarrow>
     (pmmpthread_routine_arg_t \<times> pmmpthread_monitor_t) outcome"
where
  "pmmpthread_routine_init c thread thread_options ready0 m =
     obind (pmmpthread_monitor_add c m PMMPTHREAD_MONITOR_STARTED) (\<lambda>m1.
       Ret (\<lparr>ra_thread = thread, ra_ready = ready0, ra_options = thread_options\<rparr>, m1))"

definition pmmpthread_routine_wait ::
  "tid \<Rightarrow> pmmpthread_monitor_t \<Rightarrow> pmmpthread_monitor_t option outcome"
where
  "pmmpthread_routine_wait c ready =
     obind (wait_until_turn c ready PMMPTHREAD_MONITOR_READY) (\<lambda>(done, ready1).
       if done then obind (pmmpthread_monitor_destroy ready1) (\<lambda>_. Ret None) else Ret (Some ready1))"

definition pmmpthread_routine_free ::
  "tid \<Rightarrow> pmmpthread_monitor_t \<Rightarrow> pmmpthread_monitor_t \<Rightarrow> pmmpthread_monitor_t outcome"
where
  "pmmpthread_routine_free c ready m =
     obind (pmmpthread_monitor_remove c m PMMPTHREAD_MONITOR_STARTED) (\<lambda>m1.
     obind (pmmpthread_monitor_destroy ready) (\<lambda>_. Ret m1))"

text \<open>The tests before a start and before a join, in the order of the source: the first error, if any.\<close>

definition start_guard ::
  "tid \<Rightarrow> tid \<Rightarrow> pmmpthread_monitor_t \<Rightarrow> (routine_error option \<times> pmmpthread_monitor_t) outcome"
where
  "start_guard creator t m =
     (if creator \<noteq> t then Ret (Some OnlyCreatorMayStart, m)
      else
        obind (pmmpthread_monitor_check t m PMMPTHREAD_MONITOR_STARTED) (\<lambda>(r, m1).
          Ret (if r \<noteq> 0 then Some AlreadyStarted else None, m1)))"

definition join_guard ::
  "tid \<Rightarrow> tid \<Rightarrow> pmmpthread_monitor_t \<Rightarrow> (routine_error option \<times> pmmpthread_monitor_t) outcome"
where
  "join_guard creator t m =
     (if creator \<noteq> t then Ret (Some OnlyCreatorMayJoin, m)
      else
        obind (pmmpthread_monitor_check t m PMMPTHREAD_MONITOR_JOINED) (\<lambda>(r, m1).
          if r \<noteq> 0 then Ret (Some AlreadyJoined, m1)
          else
            obind (pmmpthread_monitor_check t m1 PMMPTHREAD_MONITOR_STARTED) (\<lambda>(r2, m2).
              Ret (if r2 = 0 then Some NotStarted else None, m2))))"

text \<open>The outcome of \<open>pthread_create\<close>: its return value, and the error thrown for it.\<close>

definition create_error :: "int \<Rightarrow> routine_error option" where
  "create_error create_result =
     (if create_result = 0 then None
      else if create_result = EAGAIN then Some OutOfThreads
      else Some (CannotStart create_result))"

text \<open>
  The two calls as a whole, for their results. What happens while the caller is blocked is an argument: \<open>ready_wait\<close> is the
  wait for the ready signal, \<open>parked_wait\<close> the wait for the thread to be done, \<open>sync\<close> the synchronisation of the
  objects and \<open>exits\<close> the wait in \<open>pthread_join\<close>, each with what others do to the object's monitor meanwhile.
\<close>

definition pmmpthread_start ::
  "tid \<Rightarrow> tid \<Rightarrow> addr \<Rightarrow> 64 word \<Rightarrow> pmmpthread_monitor_t \<Rightarrow> int \<Rightarrow>
     (pmmpthread_monitor_t \<Rightarrow> pmmpthread_monitor_t \<Rightarrow> pmmpthread_monitor_t outcome) \<Rightarrow> pmmpthread_monitor_t \<Rightarrow>
     ((routine_error + bool) \<times> pmmpthread_monitor_t) outcome"
where
  "pmmpthread_start creator t thread thread_options ready0 create_result ready_wait m =
     obind (start_guard creator t m) (\<lambda>(err, m1).
       case err of
         Some e \<Rightarrow> Ret (Inl e, m1)
       | None \<Rightarrow>
           obind (pmmpthread_routine_init t thread thread_options ready0 m1) (\<lambda>(routine, m2).
             case create_error create_result of
               None \<Rightarrow> obind (ready_wait (ra_ready routine) m2) (\<lambda>m3. Ret (Inr True, m3))
             | Some e \<Rightarrow> obind (pmmpthread_routine_free t (ra_ready routine) m2) (\<lambda>m3. Ret (Inl e, m3))))"

definition pmmpthread_join ::
  "tid \<Rightarrow> tid \<Rightarrow> (pmmpthread_monitor_t \<Rightarrow> pmmpthread_monitor_t outcome) \<Rightarrow>
     (pmmpthread_monitor_t \<Rightarrow> pmmpthread_monitor_t outcome) \<Rightarrow> (pmmpthread_monitor_t \<Rightarrow> (int \<times> pmmpthread_monitor_t) outcome) \<Rightarrow>
     pmmpthread_monitor_t \<Rightarrow> ((routine_error + bool) \<times> pmmpthread_monitor_t) outcome"
where
  "pmmpthread_join creator t parked_wait sync exits m =
     obind (join_guard creator t m) (\<lambda>(err, m1).
       case err of
         Some e \<Rightarrow> Ret (Inl e, m1)
       | None \<Rightarrow>
           obind (pmmpthread_monitor_add t m1 PMMPTHREAD_MONITOR_JOINED) (\<lambda>m2.
           obind (parked_wait m2) (\<lambda>m3.
           obind (sync m3) (\<lambda>m4.
           obind (pmmpthread_monitor_add t m4 PMMPTHREAD_MONITOR_EXIT) (\<lambda>m5.
           obind (exits m5) (\<lambda>(r, m6). Ret (Inr (r = 0), m6)))))))"

section \<open>Running a task (src/routine.c)\<close>

text \<open>
  What the class has for \<open>run\<close>, and how the call of a user function ends: it returns, it leaves an
  exception, or it bails out. \<open>call\<close> is the call itself: whatever it does to the monitor is its result.
\<close>

datatype run_entry = RunMissing | RunUser | RunInternal

datatype call_end = CallReturns | CallThrows | CallBailsOut

definition run_leave ::
  "tid \<Rightarrow> call_end \<Rightarrow> pmmpthread_monitor_t \<Rightarrow> (bool \<times> pmmpthread_monitor_t) outcome"
where
  "run_leave t r m =
     (case r of
        CallReturns \<Rightarrow> Ret (True, m)
      | _ \<Rightarrow> obind (pmmpthread_monitor_add t m PMMPTHREAD_MONITOR_ERROR) (\<lambda>m1. Ret (False, m1)))"

definition pmmpthread_routine_run_function ::
  "tid \<Rightarrow> run_entry \<Rightarrow> (pmmpthread_monitor_t \<Rightarrow> (call_end \<times> pmmpthread_monitor_t) outcome) \<Rightarrow>
     pmmpthread_monitor_t \<Rightarrow> (bool \<times> pmmpthread_monitor_t) outcome"
where
  "pmmpthread_routine_run_function t run call m =
     obind (pmmpthread_monitor_check t m PMMPTHREAD_MONITOR_ERROR) (\<lambda>(e, m1).
       if e \<noteq> 0 then Ret (False, m1)
       else
         obind (pmmpthread_monitor_add t m1 PMMPTHREAD_MONITOR_RUNNING) (\<lambda>m2.
         obind
           (case run of
              RunMissing \<Rightarrow> Ret (False, m2)
            | RunInternal \<Rightarrow> Ret (True, m2)
            | RunUser \<Rightarrow> obind (call m2) (\<lambda>(r, m3). run_leave t r m3)) (\<lambda>(result, m4).
         obind (pmmpthread_monitor_remove t m4 PMMPTHREAD_MONITOR_RUNNING) (\<lambda>m5.
         Ret (result, m5)))))"

section \<open>Queries (classes/thread.c, classes/runnable.c)\<close>

definition Thread_isStarted :: "tid \<Rightarrow> pmmpthread_monitor_t \<Rightarrow> (bool \<times> pmmpthread_monitor_t) outcome" where
  "Thread_isStarted t m = obind (pmmpthread_monitor_check t m PMMPTHREAD_MONITOR_STARTED) (\<lambda>(r, m1). Ret (r \<noteq> 0, m1))"

definition Thread_isJoined :: "tid \<Rightarrow> pmmpthread_monitor_t \<Rightarrow> (bool \<times> pmmpthread_monitor_t) outcome" where
  "Thread_isJoined t m = obind (pmmpthread_monitor_check t m PMMPTHREAD_MONITOR_JOINED) (\<lambda>(r, m1). Ret (r \<noteq> 0, m1))"

definition Runnable_isRunning :: "tid \<Rightarrow> pmmpthread_monitor_t \<Rightarrow> (bool \<times> pmmpthread_monitor_t) outcome" where
  "Runnable_isRunning t m = obind (pmmpthread_monitor_check t m PMMPTHREAD_MONITOR_RUNNING) (\<lambda>(r, m1). Ret (r \<noteq> 0, m1))"

definition Runnable_isTerminated :: "tid \<Rightarrow> pmmpthread_monitor_t \<Rightarrow> (bool \<times> pmmpthread_monitor_t) outcome" where
  "Runnable_isTerminated t m = obind (pmmpthread_monitor_check t m PMMPTHREAD_MONITOR_ERROR) (\<lambda>(r, m1). Ret (r \<noteq> 0, m1))"

section \<open>Creator and thread\<close>

text \<open>
  The creator is outside \<open>start\<close> and \<open>join\<close>, before the initialisation of the routine argument, before
  \<open>pthread_create\<close>, before or asleep in the wait for the ready signal, before the clean-up of a failed start;
  in \<open>join\<close>: before the flag, before or asleep in the wait for the thread to be done with its code,
  before the synchronisation, before the exit signal, in \<open>pthread_join\<close>.
\<close>

datatype caller_pc =
    K_idle | K_init | K_create | K_wait_ready | K_asleep_ready | K_free
  | K_joining | K_await | K_asleep_await | K_sync | K_exit | K_pthread_join

text \<open>
  The thread does not exist, prepares its context, counts itself, runs its \<open>run\<close> method (before the
  test, before the flag, in the call, before the flag is cleared), is in the task loop
  of a worker, runs shutdown functions, waits or sleeps until it may exit, drops its objects, shuts its
  context down, has exited.
\<close>

datatype thread_pc =
    T_none | T_startup | T_counting | T_run_check | T_run_add | T_run_call | T_run_remove bool
  | T_loop | T_shutdown_functions | T_exit_wait | T_exit_asleep | T_cleanup | T_prepared_shutdown | T_exited

text \<open>
  \<open>r_ready\<close> is the monitor in the stack frame of \<open>pmmpthread_start\<close>, \<open>None\<close> outside it. \<open>r_data\<close> stands for the
  objects the thread's code leaves behind, \<open>r_written\<close> for the last state PHP code left them in, \<open>r_seen\<close>
  for what the creator has taken over in \<open>join\<close>. \<open>r_created\<close> counts the operating system threads made for
  the object, \<open>r_count\<close> is the process-wide \<open>thread_count\<close> as far as this object contributes to it.
\<close>

record 'd routine_sys =
  r_mon :: pmmpthread_monitor_t
  r_ready :: "pmmpthread_monitor_t option"
  r_worker :: bool
  r_cpc :: caller_pc
  r_tpc :: thread_pc
  r_created :: nat
  r_count :: nat
  r_data :: 'd
  r_written :: 'd
  r_seen :: "'d option"

definition after_run :: "run_entry \<Rightarrow> thread_pc" where
  "after_run run = (case run of RunMissing \<Rightarrow> T_run_remove False | RunInternal \<Rightarrow> T_run_remove True | RunUser \<Rightarrow> T_run_call)"

text \<open>
  The steps. The task loop of a worker is the subject of the theory of workers; here it is its effect on the flags:
  it ends when the worker is joined or when a task fails. The last rules but one are calls on the same object that do
  not change the life of the thread: refused calls, a collection, \<open>notify\<close> and \<open>notifyOne\<close>, and \<open>wait\<close> by others. A \<open>synchronized\<close>
  block on the object is not a step: it delays the others like a critical section as long as the creator does not call \<open>join\<close>
  inside it. The three synchronisations in \<open>join\<close> are one step, for the thread does not touch its objects between
  the two signals.
\<close>

inductive routine_step :: "tid \<Rightarrow> tid \<Rightarrow> run_entry \<Rightarrow> 'd routine_sys \<Rightarrow> 'd routine_sys \<Rightarrow> bool" for c t run where
  start: "r_cpc s = K_idle \<Longrightarrow> start_guard c c (r_mon s) = Ret (None, m) \<Longrightarrow>
    routine_step c t run s (s\<lparr>r_mon := m, r_cpc := K_init\<rparr>)"
| init: "r_cpc s = K_init \<Longrightarrow> pmmpthread_monitor_init lim 0 0 = (True, Some ready) \<Longrightarrow> 2 \<le> lim \<Longrightarrow>
    pmmpthread_routine_init c a options ready (r_mon s) = Ret (arg, m) \<Longrightarrow>
    routine_step c t run s (s\<lparr>r_mon := m, r_ready := Some (ra_ready arg), r_cpc := K_create\<rparr>)"
| create: "r_cpc s = K_create \<Longrightarrow> create_error create_result = None \<Longrightarrow>
    routine_step c t run s (s\<lparr>r_cpc := K_wait_ready, r_tpc := T_startup, r_created := r_created s + 1\<rparr>)"
| create_fails: "r_cpc s = K_create \<Longrightarrow> create_error create_result = Some e \<Longrightarrow>
    routine_step c t run s (s\<lparr>r_cpc := K_free\<rparr>)"
| free: "r_cpc s = K_free \<Longrightarrow> r_ready s = Some ready \<Longrightarrow> pmmpthread_routine_free c ready (r_mon s) = Ret m \<Longrightarrow>
    routine_step c t run s (s\<lparr>r_mon := m, r_ready := None, r_cpc := K_idle\<rparr>)"
| wait_ready: "r_cpc s = K_wait_ready \<Longrightarrow> r_ready s = Some ready \<Longrightarrow>
    pmmpthread_routine_wait c ready = Ret ready' \<Longrightarrow>
    routine_step c t run s (s\<lparr>r_ready := ready', r_cpc := (if ready' = None then K_idle else K_asleep_ready)\<rparr>)"
| wake_ready: "r_cpc s = K_asleep_ready \<Longrightarrow> r_ready s = Some ready \<Longrightarrow> c \<notin> mon_cond ready \<Longrightarrow>
    pmmpthread_routine_wait c ready = Ret ready' \<Longrightarrow>
    routine_step c t run s (s\<lparr>r_ready := ready', r_cpc := (if ready' = None then K_idle else K_asleep_ready)\<rparr>)"
| startup: "r_tpc s = T_startup \<Longrightarrow> r_ready s = Some ready \<Longrightarrow>
    pmmpthread_monitor_add t ready PMMPTHREAD_MONITOR_READY = Ret ready' \<Longrightarrow>
    routine_step c t run s (s\<lparr>r_ready := Some ready', r_tpc := T_counting\<rparr>)"
| counting: "r_tpc s = T_counting \<Longrightarrow>
    routine_step c t run s (s\<lparr>r_count := r_count s + 1, r_tpc := T_run_check\<rparr>)"
| run_check: "r_tpc s = T_run_check \<Longrightarrow> pmmpthread_monitor_check t (r_mon s) PMMPTHREAD_MONITOR_ERROR = Ret (e, m) \<Longrightarrow>
    routine_step c t run s (s\<lparr>r_mon := m, r_tpc := (if e \<noteq> 0 then T_shutdown_functions else T_run_add)\<rparr>)"
| run_add: "r_tpc s = T_run_add \<Longrightarrow> pmmpthread_monitor_add t (r_mon s) PMMPTHREAD_MONITOR_RUNNING = Ret m \<Longrightarrow>
    routine_step c t run s (s\<lparr>r_mon := m, r_tpc := after_run run\<rparr>)"
| run_write: "r_tpc s = T_run_call \<Longrightarrow> routine_step c t run s (s\<lparr>r_data := d, r_written := d\<rparr>)"
| loop_write: "r_tpc s = T_loop \<Longrightarrow> routine_step c t run s (s\<lparr>r_data := d, r_written := d\<rparr>)"
| shutdown_write: "r_tpc s = T_shutdown_functions \<Longrightarrow> routine_step c t run s (s\<lparr>r_data := d, r_written := d\<rparr>)"
| run_ends: "r_tpc s = T_run_call \<Longrightarrow> run_leave t r (r_mon s) = Ret (b, m) \<Longrightarrow>
    routine_step c t run s (s\<lparr>r_mon := m, r_tpc := T_run_remove b\<rparr>)"
| run_remove: "r_tpc s = T_run_remove b \<Longrightarrow>
    pmmpthread_monitor_remove t (r_mon s) PMMPTHREAD_MONITOR_RUNNING = Ret m \<Longrightarrow>
    routine_step c t run s
      (s\<lparr>r_mon := m, r_tpc := (if b \<and> r_worker s then T_loop else T_shutdown_functions)\<rparr>)"
| loop_collect: "r_tpc s = T_loop \<Longrightarrow>
    pmmpthread_monitor_remove t (r_mon s) PMMPTHREAD_MONITOR_COLLECT_GARBAGE = Ret m \<Longrightarrow>
    routine_step c t run s (s\<lparr>r_mon := m\<rparr>)"
| loop_failed: "r_tpc s = T_loop \<Longrightarrow> pmmpthread_monitor_add t (r_mon s) PMMPTHREAD_MONITOR_ERROR = Ret m \<Longrightarrow>
    routine_step c t run s (s\<lparr>r_mon := m, r_tpc := T_shutdown_functions\<rparr>)"
| loop_joined: "r_tpc s = T_loop \<Longrightarrow>
    pmmpthread_monitor_check t (r_mon s) PMMPTHREAD_MONITOR_JOINED = Ret (j, m) \<Longrightarrow> j \<noteq> 0 \<Longrightarrow>
    routine_step c t run s (s\<lparr>r_mon := m, r_tpc := T_shutdown_functions\<rparr>)"
| await: "r_tpc s = T_shutdown_functions \<Longrightarrow>
    pmmpthread_monitor_add t (r_mon s) PMMPTHREAD_MONITOR_AWAIT_JOIN = Ret m \<Longrightarrow>
    routine_step c t run s (s\<lparr>r_mon := m, r_tpc := T_exit_wait\<rparr>)"
| exit_wait: "r_tpc s = T_exit_wait \<Longrightarrow> wait_until_turn t (r_mon s) PMMPTHREAD_MONITOR_EXIT = Ret (b, m) \<Longrightarrow>
    routine_step c t run s (s\<lparr>r_mon := m, r_tpc := (if b then T_cleanup else T_exit_asleep)\<rparr>)"
| exit_wake: "r_tpc s = T_exit_asleep \<Longrightarrow> t \<notin> mon_cond (r_mon s) \<Longrightarrow>
    wait_until_turn t (r_mon s) PMMPTHREAD_MONITOR_EXIT = Ret (b, m) \<Longrightarrow>
    routine_step c t run s (s\<lparr>r_mon := m, r_tpc := (if b then T_cleanup else T_exit_asleep)\<rparr>)"
| cleanup: "r_tpc s = T_cleanup \<Longrightarrow> routine_step c t run s (s\<lparr>r_data := d, r_tpc := T_prepared_shutdown\<rparr>)"
| prepared_shutdown: "r_tpc s = T_prepared_shutdown \<Longrightarrow>
    routine_step c t run s (s\<lparr>r_data := d, r_count := r_count s - 1, r_tpc := T_exited\<rparr>)"
| join: "r_cpc s = K_idle \<Longrightarrow> join_guard c c (r_mon s) = Ret (None, m) \<Longrightarrow>
    routine_step c t run s (s\<lparr>r_mon := m, r_cpc := K_joining\<rparr>)"
| joining: "r_cpc s = K_joining \<Longrightarrow> pmmpthread_monitor_add c (r_mon s) PMMPTHREAD_MONITOR_JOINED = Ret m \<Longrightarrow>
    routine_step c t run s (s\<lparr>r_mon := m, r_cpc := K_await\<rparr>)"
| await_join: "r_cpc s = K_await \<Longrightarrow> wait_until_turn c (r_mon s) PMMPTHREAD_MONITOR_AWAIT_JOIN = Ret (b, m) \<Longrightarrow>
    routine_step c t run s (s\<lparr>r_mon := m, r_cpc := (if b then K_sync else K_asleep_await)\<rparr>)"
| await_wake: "r_cpc s = K_asleep_await \<Longrightarrow> c \<notin> mon_cond (r_mon s) \<Longrightarrow>
    wait_until_turn c (r_mon s) PMMPTHREAD_MONITOR_AWAIT_JOIN = Ret (b, m) \<Longrightarrow>
    routine_step c t run s (s\<lparr>r_mon := m, r_cpc := (if b then K_sync else K_asleep_await)\<rparr>)"
| sync: "r_cpc s = K_sync \<Longrightarrow> routine_step c t run s (s\<lparr>r_seen := Some (r_data s), r_cpc := K_exit\<rparr>)"
| exit: "r_cpc s = K_exit \<Longrightarrow> pmmpthread_monitor_add c (r_mon s) PMMPTHREAD_MONITOR_EXIT = Ret m \<Longrightarrow>
    routine_step c t run s (s\<lparr>r_mon := m, r_cpc := K_pthread_join\<rparr>)"
| pthread_join: "r_cpc s = K_pthread_join \<Longrightarrow> r_tpc s = T_exited \<Longrightarrow> routine_step c t run s (s\<lparr>r_cpc := K_idle\<rparr>)"
| start_refused: "start_guard c u (r_mon s) = Ret (Some e, m) \<Longrightarrow> routine_step c t run s (s\<lparr>r_mon := m\<rparr>)"
| join_refused: "join_guard c u (r_mon s) = Ret (Some e, m) \<Longrightarrow> routine_step c t run s (s\<lparr>r_mon := m\<rparr>)"
| collect: "r_cpc s = K_idle \<Longrightarrow>
    pmmpthread_monitor_add c (r_mon s) PMMPTHREAD_MONITOR_COLLECT_GARBAGE = Ret m \<Longrightarrow>
    routine_step c t run s (s\<lparr>r_mon := m\<rparr>)"
| notify: "routine_step c t run s (s\<lparr>r_mon := pmmpthread_monitor_notify (r_mon s)\<rparr>)"
| notify_one: "routine_step c t run s (s\<lparr>r_mon := pmmpthread_monitor_notify_one u (r_mon s)\<rparr>)"
| other_waits: "u \<notin> {c, t} \<Longrightarrow>
    routine_step c t run s (s\<lparr>r_mon := (r_mon s)\<lparr>mon_cond := insert u (mon_cond (r_mon s))\<rparr>\<rparr>)"
| spurious_ready: "r_ready s = Some ready \<Longrightarrow>
    routine_step c t run s (s\<lparr>r_ready := Some (pmmpthread_monitor_notify_one u ready)\<rparr>)"

definition routine_fresh :: "pmmpthread_monitor_t \<Rightarrow> bool \<Rightarrow> 'd \<Rightarrow> 'd routine_sys" where
  "routine_fresh m worker d =
     \<lparr>r_mon = m, r_ready = None, r_worker = worker, r_cpc = K_idle, r_tpc = T_none, r_created = 0, r_count = 0,
      r_data = d, r_written = d, r_seen = None\<rparr>"

inductive routine_reach :: "tid \<Rightarrow> tid \<Rightarrow> run_entry \<Rightarrow> pmmpthread_monitor_t \<Rightarrow> 'd routine_sys \<Rightarrow> bool" for c t run mo where
  fresh: "routine_reach c t run mo (routine_fresh mo worker d)"
| step: "routine_reach c t run mo s \<Longrightarrow> routine_step c t run s s' \<Longrightarrow> routine_reach c t run mo s'"

section \<open>Flags as bits\<close>

definition flag_bit :: "nat \<Rightarrow> 64 word" where
  "flag_bit i = push_bit i 1"

lemma bit_flag_iff: "bit (flag_bit i) n \<longleftrightarrow> n = i \<and> i < 64"
  unfolding flag_bit_def bit_push_bit_iff bit_1_iff by auto

lemma flag_test_bit: "i < 64 \<Longrightarrow> st AND flag_bit i = 0 \<longleftrightarrow> \<not> bit st i"
  by (auto simp: bit_eq_iff [of "st AND flag_bit i" 0] bit_and_iff bit_flag_iff)

lemma flag_or_bit: "i < 64 \<Longrightarrow> bit (st OR flag_bit i) n \<longleftrightarrow> bit st n \<or> n = i"
  by (auto simp: bit_or_iff bit_flag_iff)

lemma flag_clear_bit: "i < 64 \<Longrightarrow> bit (st AND NOT (flag_bit i)) n \<longleftrightarrow> bit st n \<and> n \<noteq> i"
  by (auto simp: bit_and_iff bit_not_iff bit_flag_iff dest: bit_imp_le_length)

lemma flags_are_bits:
  "PMMPTHREAD_MONITOR_STARTED = flag_bit 0" "PMMPTHREAD_MONITOR_RUNNING = flag_bit 1"
  "PMMPTHREAD_MONITOR_JOINED = flag_bit 2" "PMMPTHREAD_MONITOR_ERROR = flag_bit 3"
  "PMMPTHREAD_MONITOR_READY = flag_bit 4" "PMMPTHREAD_MONITOR_COLLECT_GARBAGE = flag_bit 5"
  "PMMPTHREAD_MONITOR_EXIT = flag_bit 6" "PMMPTHREAD_MONITOR_AWAIT_JOIN = flag_bit 7"
  by (simp_all add: monitor_flag_defs flag_bit_def)

text \<open>The flags of the life cycle, as bits of the state word.\<close>

definition f_started :: "pmmpthread_monitor_t \<Rightarrow> bool" where "f_started m \<longleftrightarrow> bit (mon_state m) 0"
definition f_running :: "pmmpthread_monitor_t \<Rightarrow> bool" where "f_running m \<longleftrightarrow> bit (mon_state m) 1"
definition f_joined :: "pmmpthread_monitor_t \<Rightarrow> bool" where "f_joined m \<longleftrightarrow> bit (mon_state m) 2"
definition f_error :: "pmmpthread_monitor_t \<Rightarrow> bool" where "f_error m \<longleftrightarrow> bit (mon_state m) 3"
definition f_ready :: "pmmpthread_monitor_t \<Rightarrow> bool" where "f_ready m \<longleftrightarrow> bit (mon_state m) 4"
definition f_exit :: "pmmpthread_monitor_t \<Rightarrow> bool" where "f_exit m \<longleftrightarrow> bit (mon_state m) 6"
definition f_await :: "pmmpthread_monitor_t \<Rightarrow> bool" where "f_await m \<longleftrightarrow> bit (mon_state m) 7"

lemmas f_defs = f_started_def f_running_def f_joined_def f_error_def f_ready_def f_exit_def f_await_def

named_theorems flag_rules

lemma flag_tests [flag_rules]:
  "mon_state m AND PMMPTHREAD_MONITOR_STARTED = 0 \<longleftrightarrow> \<not> f_started m"
  "mon_state m AND PMMPTHREAD_MONITOR_RUNNING = 0 \<longleftrightarrow> \<not> f_running m"
  "mon_state m AND PMMPTHREAD_MONITOR_JOINED = 0 \<longleftrightarrow> \<not> f_joined m"
  "mon_state m AND PMMPTHREAD_MONITOR_ERROR = 0 \<longleftrightarrow> \<not> f_error m"
  "mon_state m AND PMMPTHREAD_MONITOR_READY = 0 \<longleftrightarrow> \<not> f_ready m"
  "mon_state m AND PMMPTHREAD_MONITOR_EXIT = 0 \<longleftrightarrow> \<not> f_exit m"
  "mon_state m AND PMMPTHREAD_MONITOR_AWAIT_JOIN = 0 \<longleftrightarrow> \<not> f_await m"
  by (simp_all add: flags_are_bits f_defs flag_test_bit)

text \<open>What adding or removing a flag leaves: the monitor with bit \<open>i\<close> set or cleared and no waiters.\<close>

definition with_bit :: "nat \<Rightarrow> bool \<Rightarrow> pmmpthread_monitor_t \<Rightarrow> pmmpthread_monitor_t" where
  "with_bit i b m = m\<lparr>mon_state := (if b then mon_state m OR flag_bit i else mon_state m AND NOT (flag_bit i)), mon_cond := {}\<rparr>"

lemma with_bit_mutex [simp]: "mon_mutex (with_bit i b m) = mon_mutex m" "mon_cond (with_bit i b m) = {}"
  by (simp_all add: with_bit_def)

lemma bit_with_bit: "i < 64 \<Longrightarrow> bit (mon_state (with_bit i b m)) n \<longleftrightarrow> (if n = i then b else bit (mon_state m) n)"
  by (auto simp: with_bit_def flag_or_bit flag_clear_bit)

lemma f_with_bit [flag_rules]:
  assumes "i < 64"
  shows "f_started (with_bit i b m) \<longleftrightarrow> (if i = 0 then b else f_started m)"
    "f_running (with_bit i b m) \<longleftrightarrow> (if i = 1 then b else f_running m)"
    "f_joined (with_bit i b m) \<longleftrightarrow> (if i = 2 then b else f_joined m)"
    "f_error (with_bit i b m) \<longleftrightarrow> (if i = 3 then b else f_error m)"
    "f_ready (with_bit i b m) \<longleftrightarrow> (if i = 4 then b else f_ready m)"
    "f_exit (with_bit i b m) \<longleftrightarrow> (if i = 6 then b else f_exit m)"
    "f_await (with_bit i b m) \<longleftrightarrow> (if i = 7 then b else f_await m)"
  using assms by (auto simp: f_defs bit_with_bit)

lemma f_cond [flag_rules]:
  "f_started (m\<lparr>mon_cond := W\<rparr>) = f_started m" "f_running (m\<lparr>mon_cond := W\<rparr>) = f_running m"
  "f_joined (m\<lparr>mon_cond := W\<rparr>) = f_joined m" "f_error (m\<lparr>mon_cond := W\<rparr>) = f_error m"
  "f_ready (m\<lparr>mon_cond := W\<rparr>) = f_ready m" "f_exit (m\<lparr>mon_cond := W\<rparr>) = f_exit m"
  "f_await (m\<lparr>mon_cond := W\<rparr>) = f_await m"
  by (simp_all add: f_defs)

text \<open>The critical sections on a free monitor.\<close>

lemma section_eqs [flag_rules]:
  assumes "mutex_free (mon_mutex m)"
  shows "pmmpthread_monitor_check u m k = Ret (mon_state m AND k, m)"
    "pmmpthread_monitor_add u m PMMPTHREAD_MONITOR_STARTED = Ret (with_bit 0 True m)"
    "pmmpthread_monitor_add u m PMMPTHREAD_MONITOR_RUNNING = Ret (with_bit 1 True m)"
    "pmmpthread_monitor_add u m PMMPTHREAD_MONITOR_JOINED = Ret (with_bit 2 True m)"
    "pmmpthread_monitor_add u m PMMPTHREAD_MONITOR_ERROR = Ret (with_bit 3 True m)"
    "pmmpthread_monitor_add u m PMMPTHREAD_MONITOR_READY = Ret (with_bit 4 True m)"
    "pmmpthread_monitor_add u m PMMPTHREAD_MONITOR_COLLECT_GARBAGE = Ret (with_bit 5 True m)"
    "pmmpthread_monitor_add u m PMMPTHREAD_MONITOR_EXIT = Ret (with_bit 6 True m)"
    "pmmpthread_monitor_add u m PMMPTHREAD_MONITOR_AWAIT_JOIN = Ret (with_bit 7 True m)"
    "pmmpthread_monitor_remove u m PMMPTHREAD_MONITOR_STARTED = Ret (with_bit 0 False m)"
    "pmmpthread_monitor_remove u m PMMPTHREAD_MONITOR_RUNNING = Ret (with_bit 1 False m)"
    "pmmpthread_monitor_remove u m PMMPTHREAD_MONITOR_COLLECT_GARBAGE = Ret (with_bit 5 False m)"
    "wait_until_turn u m k =
      (if mon_state m AND k = 0 then Ret (False, m\<lparr>mon_cond := insert u (mon_cond m)\<rparr>) else Ret (True, m))"
proof -
  note av = mutex_free_avail1 [OF assms, of u]
  show "wait_until_turn u m k =
      (if mon_state m AND k = 0 then Ret (False, m\<lparr>mon_cond := insert u (mon_cond m)\<rparr>) else Ret (True, m))"
    using mutex_free_avail [OF assms, of u] assms by (intro wait_until_turn_avail) (simp_all add: mutex_free_def numeral_2_eq_2)
qed (simp_all add: check_avail [OF mutex_free_avail1 [OF assms]] add_avail [OF mutex_free_avail1 [OF assms]]
  remove_avail [OF mutex_free_avail1 [OF assms]] with_bit_def flags_are_bits)

lemma destroy_eq: "mutex_free (mon_mutex m) \<Longrightarrow> pmmpthread_monitor_destroy m = (if mon_cond m = {} then Ret () else Fault)"
  by (simp add: pmmpthread_monitor_destroy_def mutex_free_def)

section \<open>The invariant of the life cycle\<close>

text \<open>The creator is in \<open>pmmpthread_start\<close>, with the ready monitor in its frame.\<close>

primrec k_start :: "caller_pc \<Rightarrow> bool" where
  "k_start K_idle \<longleftrightarrow> False" | "k_start K_init \<longleftrightarrow> False"
| "k_start K_create \<longleftrightarrow> True" | "k_start K_wait_ready \<longleftrightarrow> True"
| "k_start K_asleep_ready \<longleftrightarrow> True" | "k_start K_free \<longleftrightarrow> True"
| "k_start K_joining \<longleftrightarrow> False" | "k_start K_await \<longleftrightarrow> False"
| "k_start K_asleep_await \<longleftrightarrow> False" | "k_start K_sync \<longleftrightarrow> False"
| "k_start K_exit \<longleftrightarrow> False" | "k_start K_pthread_join \<longleftrightarrow> False"

text \<open>The creator is in \<open>pmmpthread_join\<close>, after the flag.\<close>

primrec k_join :: "caller_pc \<Rightarrow> bool" where
  "k_join K_idle \<longleftrightarrow> False" | "k_join K_init \<longleftrightarrow> False"
| "k_join K_create \<longleftrightarrow> False" | "k_join K_wait_ready \<longleftrightarrow> False"
| "k_join K_asleep_ready \<longleftrightarrow> False" | "k_join K_free \<longleftrightarrow> False"
| "k_join K_joining \<longleftrightarrow> False" | "k_join K_await \<longleftrightarrow> True"
| "k_join K_asleep_await \<longleftrightarrow> True" | "k_join K_sync \<longleftrightarrow> True"
| "k_join K_exit \<longleftrightarrow> True" | "k_join K_pthread_join \<longleftrightarrow> True"

text \<open>The thread exists and has given the ready signal.\<close>

primrec t_prepared :: "thread_pc \<Rightarrow> bool" where
  "t_prepared T_none \<longleftrightarrow> False" | "t_prepared T_startup \<longleftrightarrow> False"
| "t_prepared T_counting \<longleftrightarrow> True" | "t_prepared T_run_check \<longleftrightarrow> True"
| "t_prepared T_run_add \<longleftrightarrow> True" | "t_prepared T_run_call \<longleftrightarrow> True"
| "t_prepared (T_run_remove b) \<longleftrightarrow> True" | "t_prepared T_loop \<longleftrightarrow> True"
| "t_prepared T_shutdown_functions \<longleftrightarrow> True" | "t_prepared T_exit_wait \<longleftrightarrow> True"
| "t_prepared T_exit_asleep \<longleftrightarrow> True" | "t_prepared T_cleanup \<longleftrightarrow> True"
| "t_prepared T_prepared_shutdown \<longleftrightarrow> True" | "t_prepared T_exited \<longleftrightarrow> True"

text \<open>The thread is one of those counted.\<close>

primrec t_counted :: "thread_pc \<Rightarrow> bool" where
  "t_counted T_none \<longleftrightarrow> False" | "t_counted T_startup \<longleftrightarrow> False"
| "t_counted T_counting \<longleftrightarrow> False" | "t_counted T_run_check \<longleftrightarrow> True"
| "t_counted T_run_add \<longleftrightarrow> True" | "t_counted T_run_call \<longleftrightarrow> True"
| "t_counted (T_run_remove b) \<longleftrightarrow> True" | "t_counted T_loop \<longleftrightarrow> True"
| "t_counted T_shutdown_functions \<longleftrightarrow> True" | "t_counted T_exit_wait \<longleftrightarrow> True"
| "t_counted T_exit_asleep \<longleftrightarrow> True" | "t_counted T_cleanup \<longleftrightarrow> True"
| "t_counted T_prepared_shutdown \<longleftrightarrow> True" | "t_counted T_exited \<longleftrightarrow> False"

text \<open>The thread is in its \<open>run\<close> method.\<close>

primrec t_running :: "thread_pc \<Rightarrow> bool" where
  "t_running T_none \<longleftrightarrow> False" | "t_running T_startup \<longleftrightarrow> False"
| "t_running T_counting \<longleftrightarrow> False" | "t_running T_run_check \<longleftrightarrow> False"
| "t_running T_run_add \<longleftrightarrow> False" | "t_running T_run_call \<longleftrightarrow> True"
| "t_running (T_run_remove b) \<longleftrightarrow> True" | "t_running T_loop \<longleftrightarrow> False"
| "t_running T_shutdown_functions \<longleftrightarrow> False" | "t_running T_exit_wait \<longleftrightarrow> False"
| "t_running T_exit_asleep \<longleftrightarrow> False" | "t_running T_cleanup \<longleftrightarrow> False"
| "t_running T_prepared_shutdown \<longleftrightarrow> False" | "t_running T_exited \<longleftrightarrow> False"

text \<open>The thread cannot have failed yet.\<close>

primrec t_sound :: "thread_pc \<Rightarrow> bool" where
  "t_sound T_none \<longleftrightarrow> True" | "t_sound T_startup \<longleftrightarrow> True"
| "t_sound T_counting \<longleftrightarrow> True" | "t_sound T_run_check \<longleftrightarrow> True"
| "t_sound T_run_add \<longleftrightarrow> True" | "t_sound T_run_call \<longleftrightarrow> True"
| "t_sound (T_run_remove b) \<longleftrightarrow> b" | "t_sound T_loop \<longleftrightarrow> True"
| "t_sound T_shutdown_functions \<longleftrightarrow> False" | "t_sound T_exit_wait \<longleftrightarrow> False"
| "t_sound T_exit_asleep \<longleftrightarrow> False" | "t_sound T_cleanup \<longleftrightarrow> False"
| "t_sound T_prepared_shutdown \<longleftrightarrow> False" | "t_sound T_exited \<longleftrightarrow> False"

text \<open>The thread is done with PHP code and waits until it may exit.\<close>

primrec t_parked :: "thread_pc \<Rightarrow> bool" where
  "t_parked T_none \<longleftrightarrow> False" | "t_parked T_startup \<longleftrightarrow> False"
| "t_parked T_counting \<longleftrightarrow> False" | "t_parked T_run_check \<longleftrightarrow> False"
| "t_parked T_run_add \<longleftrightarrow> False" | "t_parked T_run_call \<longleftrightarrow> False"
| "t_parked (T_run_remove b) \<longleftrightarrow> False" | "t_parked T_loop \<longleftrightarrow> False"
| "t_parked T_shutdown_functions \<longleftrightarrow> False" | "t_parked T_exit_wait \<longleftrightarrow> True"
| "t_parked T_exit_asleep \<longleftrightarrow> True" | "t_parked T_cleanup \<longleftrightarrow> False"
| "t_parked T_prepared_shutdown \<longleftrightarrow> False" | "t_parked T_exited \<longleftrightarrow> False"

text \<open>The thread destroys its objects.\<close>

primrec t_leaving :: "thread_pc \<Rightarrow> bool" where
  "t_leaving T_none \<longleftrightarrow> False" | "t_leaving T_startup \<longleftrightarrow> False"
| "t_leaving T_counting \<longleftrightarrow> False" | "t_leaving T_run_check \<longleftrightarrow> False"
| "t_leaving T_run_add \<longleftrightarrow> False" | "t_leaving T_run_call \<longleftrightarrow> False"
| "t_leaving (T_run_remove b) \<longleftrightarrow> False" | "t_leaving T_loop \<longleftrightarrow> False"
| "t_leaving T_shutdown_functions \<longleftrightarrow> False" | "t_leaving T_exit_wait \<longleftrightarrow> False"
| "t_leaving T_exit_asleep \<longleftrightarrow> False" | "t_leaving T_cleanup \<longleftrightarrow> True"
| "t_leaving T_prepared_shutdown \<longleftrightarrow> True" | "t_leaving T_exited \<longleftrightarrow> True"

lemma parked_not_leaving [simp]: "t_parked p \<Longrightarrow> \<not> t_leaving p"
  by (cases p) simp_all

text \<open>
  Where the thread can be, by where the creator is: this is the hand-over. While the creator takes over
  the results (\<open>K_sync\<close>, \<open>K_exit\<close>) the thread is parked; it leaves only after the exit signal.
\<close>

primrec together :: "caller_pc \<Rightarrow> thread_pc \<Rightarrow> bool" where
  "together K_idle p \<longleftrightarrow> p \<noteq> T_startup \<and> (t_leaving p \<longrightarrow> p = T_exited)"
| "together K_init p \<longleftrightarrow> p = T_none"
| "together K_create p \<longleftrightarrow> p = T_none"
| "together K_wait_ready p \<longleftrightarrow> p \<noteq> T_none \<and> \<not> t_leaving p"
| "together K_asleep_ready p \<longleftrightarrow> p \<noteq> T_none \<and> \<not> t_leaving p"
| "together K_free p \<longleftrightarrow> p = T_none"
| "together K_joining p \<longleftrightarrow> t_prepared p \<and> \<not> t_leaving p"
| "together K_await p \<longleftrightarrow> t_prepared p \<and> \<not> t_leaving p"
| "together K_asleep_await p \<longleftrightarrow> t_prepared p \<and> \<not> t_leaving p"
| "together K_sync p \<longleftrightarrow> t_parked p"
| "together K_exit p \<longleftrightarrow> t_parked p"
| "together K_pthread_join p \<longleftrightarrow> t_parked p \<or> t_leaving p"

definition inv_pcs :: "'d routine_sys \<Rightarrow> bool" where
  "inv_pcs s \<longleftrightarrow> together (r_cpc s) (r_tpc s) \<and> r_created s = of_bool (r_tpc s \<noteq> T_none) \<and>
     r_count s = of_bool (t_counted (r_tpc s)) \<and> (r_ready s = None \<longleftrightarrow> \<not> k_start (r_cpc s))"

text \<open>The flags tell where the two are.\<close>

definition inv_signals :: "'d routine_sys \<Rightarrow> bool" where
  "inv_signals s \<longleftrightarrow>
     mutex_free (mon_mutex (r_mon s)) \<and>
     (f_started (r_mon s) \<longleftrightarrow> k_start (r_cpc s) \<or> r_tpc s \<noteq> T_none) \<and>
     (f_running (r_mon s) \<longleftrightarrow> t_running (r_tpc s)) \<and>
     (f_await (r_mon s) \<longleftrightarrow> t_parked (r_tpc s) \<or> t_leaving (r_tpc s)) \<and>
     (f_joined (r_mon s) \<longleftrightarrow> k_join (r_cpc s) \<or> r_tpc s = T_exited) \<and>
     (f_exit (r_mon s) \<longleftrightarrow> r_cpc s = K_pthread_join \<or> r_tpc s = T_exited) \<and>
     (f_error (r_mon s) \<longrightarrow> \<not> t_sound (r_tpc s))"

text \<open>The ready monitor lives as long as the thread may touch it, and the creator is woken by it.\<close>

definition inv_ready :: "tid \<Rightarrow> 'd routine_sys \<Rightarrow> bool" where
  "inv_ready c s \<longleftrightarrow>
     (\<forall>ready. r_ready s = Some ready \<longrightarrow>
        mutex_free (mon_mutex ready) \<and> (f_ready ready \<longleftrightarrow> t_prepared (r_tpc s)) \<and>
        (\<forall>x \<in> mon_cond ready. x = c \<and> r_cpc s = K_asleep_ready \<and> r_tpc s = T_startup))"

text \<open>What the thread wrote is what the creator has taken over.\<close>

definition inv_result :: "'d routine_sys \<Rightarrow> bool" where
  "inv_result s \<longleftrightarrow> (t_leaving (r_tpc s) \<or> r_data s = r_written s) \<and>
     (r_cpc s = K_exit \<or> r_cpc s = K_pthread_join \<or> r_tpc s = T_exited \<longrightarrow> r_seen s = Some (r_written s))"

text \<open>Waking: nobody sleeps on a flag that is set.\<close>

definition inv_awake :: "tid \<Rightarrow> tid \<Rightarrow> 'd routine_sys \<Rightarrow> bool" where
  "inv_awake c t s \<longleftrightarrow>
     (r_tpc s = T_exit_asleep \<and> t \<in> mon_cond (r_mon s) \<longrightarrow> \<not> f_exit (r_mon s)) \<and>
     (r_cpc s = K_asleep_await \<and> c \<in> mon_cond (r_mon s) \<longrightarrow> \<not> f_await (r_mon s))"

definition routine_inv :: "tid \<Rightarrow> tid \<Rightarrow> 'd routine_sys \<Rightarrow> bool" where
  "routine_inv c t s \<longleftrightarrow> inv_pcs s \<and> inv_signals s \<and> inv_ready c s \<and> inv_result s \<and> inv_awake c t s"

lemmas routine_inv_defs = routine_inv_def inv_pcs_def inv_signals_def inv_ready_def inv_result_def inv_awake_def

inductive_cases routine_stepE: "routine_step c t run s s'"

text \<open>A monitor no thread has used yet.\<close>

definition unused :: "pmmpthread_monitor_t \<Rightarrow> bool" where
  "unused m \<longleftrightarrow> mon_state m = 0 \<and> mutex_free (mon_mutex m) \<and> mon_cond m = {}"

lemma routine_inv_fresh: "unused m \<Longrightarrow> routine_inv c t (routine_fresh m worker d)"
  by (simp add: routine_inv_defs routine_fresh_def unused_def f_defs)

lemma routine_step_worker: "routine_step c t run s s' \<Longrightarrow> r_worker s' = r_worker s"
  by (erule routine_stepE) auto

lemmas routine_function_defs = pmmpthread_routine_init_def pmmpthread_routine_wait_def
  pmmpthread_routine_free_def pmmpthread_monitor_init_def run_leave_def create_error_def
  pmmpthread_monitor_notify_def pmmpthread_monitor_notify_one_def

lemma guard_same:
  assumes "mutex_free (mon_mutex m)"
  shows "start_guard c u m = Ret (r, m') \<Longrightarrow> m' = m \<and> (c = u \<longrightarrow> f_started m = (r \<noteq> None))"
    "join_guard c u m = Ret (r, m') \<Longrightarrow> m' = m \<and> (r = None \<longrightarrow> \<not> f_joined m \<and> f_started m)"
  using assms by (auto simp: start_guard_def join_guard_def flag_rules split: if_splits)

lemma after_run_simps [simp]:
  "t_running (after_run run)" "t_prepared (after_run run)" "t_counted (after_run run)" "\<not> t_parked (after_run run)"
  "\<not> t_leaving (after_run run)" "after_run run \<noteq> T_none" "after_run run \<noteq> T_startup" "after_run run \<noteq> T_exited"
  "after_run run \<noteq> T_exit_asleep"
  by (simp_all add: after_run_def split: run_entry.splits)

lemma mutex_free_init: "2 \<le> lim \<Longrightarrow> mutex_free \<lparr>mx_owner = None, mx_count = 0, mx_max = lim\<rparr>"
  by (simp add: mutex_free_def)

lemma f_ready_zero: "\<not> f_ready \<lparr>mon_state = 0, mon_mutex = x, mon_cond = W\<rparr>"
  by (simp add: f_defs)

lemma routine_inv_facts:
  assumes "routine_inv c t s"
  shows "mutex_free (mon_mutex (r_mon s))" "\<And>ready. r_ready s = Some ready \<Longrightarrow> mutex_free (mon_mutex ready)"
    "inv_pcs s" "inv_signals s" "inv_ready c s" "inv_result s" "inv_awake c t s"
  using assms unfolding routine_inv_def by (simp_all, simp_all add: inv_signals_def inv_ready_def)

lemma t_prepared_iff: "t_prepared p \<longleftrightarrow> p \<noteq> T_none \<and> p \<noteq> T_startup"
  by (cases p) simp_all

lemmas step_rules = section_eqs flag_tests routine_function_defs obind_Ret_iff destroy_eq f_ready_zero mutex_free_init

lemmas state_rules = t_prepared_iff f_with_bit f_cond f_ready_zero mutex_free_init

text \<open>What a wait for the ready signal leads to.\<close>

lemma routine_wait_ready:
  assumes "inv_ready c s" "r_ready s = Some ready" "pmmpthread_routine_wait c ready = Ret ready'"
  shows "if ready' = None then t_prepared (r_tpc s)
    else ready' = Some (ready\<lparr>mon_cond := insert c (mon_cond ready)\<rparr>) \<and> \<not> t_prepared (r_tpc s)"
proof -
  have "mutex_free (mon_mutex ready)" "f_ready ready = t_prepared (r_tpc s)" using assms(1,2) by (simp_all add: inv_ready_def)
  then show ?thesis
    using assms(3) by (auto simp: pmmpthread_routine_wait_def section_eqs flag_tests destroy_eq obind_Ret_iff split: if_splits)
qed

lemma inv_pcs_step:
  assumes "routine_inv c t s" "routine_step c t run s s'"
  shows "inv_pcs s'"
proof -
  note f = routine_inv_facts [OF assms(1)]
  show ?thesis using assms(2)
  proof cases
    case (wait_ready ready ready')
    then show ?thesis using f(3) routine_wait_ready [OF f(5) wait_ready(3,4)]
      by (auto simp: inv_pcs_def inv_signals_def state_rules split: if_splits)
  next
    case (wake_ready ready ready')
    then show ?thesis using f(3) routine_wait_ready [OF f(5) wake_ready(3,5)]
      by (auto simp: inv_pcs_def inv_signals_def state_rules split: if_splits)
  qed (use f(1,3,4) in \<open>clarsimp dest!: guard_same [OF f(1)] simp: step_rules split: if_splits call_end.splits;
      clarsimp simp: inv_pcs_def inv_signals_def state_rules; cases "r_cpc s"; clarsimp\<close>)+
qed

lemma inv_signals_step:
  assumes "routine_inv c t s" "routine_step c t run s s'"
  shows "inv_signals s'"
proof -
  note f = routine_inv_facts [OF assms(1)]
  show ?thesis using assms(2)
  proof cases
    case (wait_ready ready ready')
    then show ?thesis using f(3,4) routine_wait_ready [OF f(5) wait_ready(3,4)]
      by (auto simp: inv_pcs_def inv_signals_def state_rules split: if_splits)
  next
    case (wake_ready ready ready')
    then show ?thesis using f(3,4) routine_wait_ready [OF f(5) wake_ready(3,5)]
      by (auto simp: inv_pcs_def inv_signals_def state_rules split: if_splits)
  qed (use f(1,3,4) in \<open>clarsimp dest!: guard_same [OF f(1)] simp: step_rules split: if_splits call_end.splits;
      clarsimp simp: inv_pcs_def inv_signals_def state_rules; cases "r_cpc s"; clarsimp\<close>)+
qed

lemma inv_ready_step:
  assumes "routine_inv c t s" "routine_step c t run s s'"
  shows "inv_ready c s'"
proof -
  note f = routine_inv_facts [OF assms(1)]
  show ?thesis using assms(2)
  proof cases
    case (wait_ready ready ready')
    then show ?thesis using f(3,5) routine_wait_ready [OF f(5) wait_ready(3,4)]
      by (auto simp: inv_pcs_def inv_ready_def state_rules split: if_splits)
  next
    case (wake_ready ready ready')
    then show ?thesis using f(3,5) routine_wait_ready [OF f(5) wake_ready(3,5)]
      by (auto simp: inv_pcs_def inv_ready_def state_rules split: if_splits)
  qed (use f(1,2,3,5) in \<open>clarsimp dest!: guard_same [OF f(1)] simp: step_rules split: if_splits call_end.splits;
      clarsimp simp: inv_pcs_def inv_ready_def state_rules; cases "r_cpc s"; clarsimp\<close>)+
qed

lemma inv_result_step:
  assumes "routine_inv c t s" "routine_step c t run s s'"
  shows "inv_result s'"
proof -
  note f = routine_inv_facts [OF assms(1)]
  show ?thesis using assms(2)
  proof cases
    case (wait_ready ready ready')
    then show ?thesis using f(3,6) routine_wait_ready [OF f(5) wait_ready(3,4)]
      by (auto simp: inv_pcs_def inv_signals_def inv_result_def state_rules split: if_splits)
  next
    case (wake_ready ready ready')
    then show ?thesis using f(3,6) routine_wait_ready [OF f(5) wake_ready(3,5)]
      by (auto simp: inv_pcs_def inv_signals_def inv_result_def state_rules split: if_splits)
  qed (use f(1,3,4,6) in \<open>clarsimp dest!: guard_same [OF f(1)] simp: step_rules split: if_splits call_end.splits;
      clarsimp simp: inv_pcs_def inv_signals_def inv_result_def state_rules; cases "r_cpc s"; clarsimp\<close>)+
qed

lemma inv_awake_step:
  assumes "routine_inv c t s" "routine_step c t run s s'"
  shows "c \<noteq> t \<longrightarrow> inv_awake c t s'"
proof -
  note f = routine_inv_facts [OF assms(1)]
  show ?thesis using assms(2)
  proof cases
    case (wait_ready ready ready')
    then show ?thesis using f(7) routine_wait_ready [OF f(5) wait_ready(3,4)]
      by (auto simp: inv_signals_def inv_awake_def state_rules split: if_splits)
  next
    case (wake_ready ready ready')
    then show ?thesis using f(7) routine_wait_ready [OF f(5) wake_ready(3,5)]
      by (auto simp: inv_signals_def inv_awake_def state_rules split: if_splits)
  qed (use f(1,4,7) in \<open>clarsimp dest!: guard_same [OF f(1)] simp: step_rules split: if_splits call_end.splits;
      clarsimp simp: inv_signals_def inv_awake_def state_rules; cases "r_cpc s"; clarsimp\<close>)+
qed

lemma routine_inv_step:
  assumes "routine_inv c t s" "routine_step c t run s s'" "c \<noteq> t"
  shows "routine_inv c t s'"
  unfolding routine_inv_def
  using inv_pcs_step [OF assms(1,2)] inv_signals_step [OF assms(1,2)] inv_ready_step [OF assms(1,2)]
    inv_result_step [OF assms(1,2)] inv_awake_step [OF assms(1,2)] assms(3) by simp

lemma routine_reach_inv: "routine_reach c t run mo s \<Longrightarrow> c \<noteq> t \<Longrightarrow> unused mo \<Longrightarrow> routine_inv c t s"
  by (induction rule: routine_reach.induct) (auto intro: routine_inv_fresh routine_inv_step)

section \<open>Progress\<close>

primrec k_rank :: "caller_pc \<Rightarrow> nat" where
  "k_rank K_idle = 0" | "k_rank K_init = 40" | "k_rank K_create = 39" | "k_rank K_wait_ready = 20"
| "k_rank K_asleep_ready = 20" | "k_rank K_free = 1" | "k_rank K_joining = 10" | "k_rank K_await = 5"
| "k_rank K_asleep_await = 5" | "k_rank K_sync = 4" | "k_rank K_exit = 3" | "k_rank K_pthread_join = 2"

primrec t_rank :: "thread_pc \<Rightarrow> nat" where
  "t_rank T_none = 0" | "t_rank T_startup = 15" | "t_rank T_counting = 14" | "t_rank T_run_check = 13"
| "t_rank T_run_add = 12" | "t_rank T_run_call = 11" | "t_rank (T_run_remove b) = 10" | "t_rank T_loop = 9"
| "t_rank T_shutdown_functions = 8" | "t_rank T_exit_wait = 7" | "t_rank T_exit_asleep = 7" | "t_rank T_cleanup = 6"
| "t_rank T_prepared_shutdown = 5" | "t_rank T_exited = 4"

definition rank :: "'d routine_sys \<Rightarrow> nat" where
  "rank s = k_rank (r_cpc s) + t_rank (r_tpc s)"

lemma after_run_rank: "t_rank (after_run run) \<le> 11"
  by (simp add: after_run_def split: run_entry.splits)

text \<open>A prepared thread that is not parked yet can always move on; a worker only leaves its loop when it is joined.\<close>

lemma thread_moveI:
  "routine_step c t run s s' \<Longrightarrow> r_cpc s' = r_cpc s \<Longrightarrow> t_rank (r_tpc s') < t_rank (r_tpc s) \<Longrightarrow>
   \<exists>s'. routine_step c t run s s' \<and> r_cpc s' = r_cpc s \<and> t_rank (r_tpc s') < t_rank (r_tpc s)"
  by blast

lemma thread_moves:
  assumes "routine_inv c t s" "t_prepared (r_tpc s)" "\<not> t_parked (r_tpc s)" "\<not> t_leaving (r_tpc s)"
    and "f_joined (r_mon s)"
  shows "\<exists>s'. routine_step c t run s s' \<and> r_cpc s' = r_cpc s \<and> t_rank (r_tpc s') < t_rank (r_tpc s)"
proof -
  note f = routine_inv_facts [OF assms(1)]
  note sec = section_eqs [OF f(1), of t]
  show ?thesis
  proof (cases "r_tpc s")
    case T_counting
    then show ?thesis by (intro thread_moveI [OF routine_step.counting [OF T_counting]]) simp_all
  next
    case T_run_check
    then show ?thesis by (intro thread_moveI [OF routine_step.run_check [OF T_run_check sec(1)]]) simp_all
  next
    case T_run_add
    then show ?thesis
      using after_run_rank [of run] by (intro thread_moveI [OF routine_step.run_add [OF T_run_add sec(3)]]) simp_all
  next
    case T_run_call
    have "run_leave t CallReturns (r_mon s) = Ret (True, r_mon s)" by (simp add: run_leave_def)
    then show ?thesis using T_run_call by (intro thread_moveI [OF routine_step.run_ends [OF T_run_call]]) simp_all
  next
    case (T_run_remove b)
    then show ?thesis by (intro thread_moveI [OF routine_step.run_remove [OF T_run_remove sec(11)]]) simp_all
  next
    case T_loop
    then show ?thesis
      using assms(5) by (intro thread_moveI [OF routine_step.loop_joined [OF T_loop sec(1)]]) (simp_all add: flag_tests)
  next
    case T_shutdown_functions
    then show ?thesis by (intro thread_moveI [OF routine_step.await [OF T_shutdown_functions sec(9)]]) simp_all
  qed (use assms(2-4) in simp_all)
qed

text \<open>The creator in \<open>start\<close>: it gets back to its caller.\<close>

definition in_join :: "'d routine_sys \<Rightarrow> bool" where
  "in_join s \<longleftrightarrow> r_cpc s = K_joining \<or> k_join (r_cpc s)"

definition moves_on :: "tid \<Rightarrow> tid \<Rightarrow> run_entry \<Rightarrow> 'd routine_sys \<Rightarrow> bool" where
  "moves_on c t run s \<longleftrightarrow> (\<exists>s'. routine_step c t run s s' \<and> rank s' < rank s \<and>
     (in_join s \<longrightarrow> in_join s' \<or> r_cpc s' = K_idle \<and> r_tpc s' = T_exited))"

lemma moves_onI:
  "routine_step c t run s s' \<Longrightarrow> rank s' < rank s \<Longrightarrow>
   (in_join s \<Longrightarrow> in_join s' \<or> r_cpc s' = K_idle \<and> r_tpc s' = T_exited) \<Longrightarrow> moves_on c t run s"
  by (auto simp: moves_on_def)

text \<open>The thread gives the ready signal, and after it the creator returns.\<close>

lemma ready_moves_on:
  assumes "routine_inv c t s" "r_cpc s = K_wait_ready \<or> r_cpc s = K_asleep_ready"
  shows "moves_on c t run s"
proof -
  note f = routine_inv_facts [OF assms(1)]
  have nj: "\<not> in_join s" using assms(2) by (auto simp: in_join_def)
  have "r_ready s \<noteq> None" using f(3) assms(2) by (auto simp: inv_pcs_def)
  then obtain ready where r: "r_ready s = Some ready" by auto
  note mf = f(2) [OF r]
  show ?thesis
  proof (cases "r_tpc s = T_startup")
    case True
    from routine_step.startup [OF True r section_eqs(6) [OF mf]] show ?thesis
      using nj True by (intro moves_onI) (auto simp: rank_def)
  next
    case False
    then have "t_prepared (r_tpc s)" using f(3) assms(2) by (auto simp: inv_pcs_def t_prepared_iff)
    then have "f_ready ready" "mon_cond ready = {}" using f(5) r False by (auto simp: inv_ready_def)
    then have "pmmpthread_routine_wait c ready = Ret None"
      using mf by (simp add: pmmpthread_routine_wait_def section_eqs flag_tests destroy_eq)
    moreover have "c \<notin> mon_cond ready" using \<open>mon_cond ready = {}\<close> by simp
    ultimately have "routine_step c t run s (s\<lparr>r_ready := None, r_cpc := K_idle\<rparr>)"
      using assms(2) routine_step.wait_ready [OF _ r, of c None] routine_step.wake_ready [OF _ r, of c None] by auto
    then show ?thesis using nj assms(2) by (intro moves_onI) (auto simp: rank_def)
  qed
qed

lemma start_moves_on:
  assumes "routine_inv c t s" "r_cpc s = K_init \<or> k_start (r_cpc s)"
  shows "moves_on c t run s"
proof -
  note f = routine_inv_facts [OF assms(1)]
  note sec = section_eqs [OF f(1), of c]
  have nj: "\<not> in_join s" using assms(2) by (auto simp: in_join_def) (cases "r_cpc s"; simp)+
  have rdy: "\<exists>ready. r_ready s = Some ready" if "k_start (r_cpc s)" using f(3) that by (simp add: inv_pcs_def)
  show ?thesis
  proof (cases "r_cpc s")
    case K_init
    let ?ready = "\<lparr>mon_state = 0, mon_mutex = \<lparr>mx_owner = None, mx_count = 0, mx_max = 2\<rparr>, mon_cond = {}\<rparr>"
    have "pmmpthread_monitor_init 2 0 0 = (True, Some ?ready)"
      "pmmpthread_routine_init c 0 0 ?ready (r_mon s) = Ret (\<lparr>ra_thread = 0, ra_ready = ?ready, ra_options = 0\<rparr>, with_bit 0 True (r_mon s))"
      by (simp_all add: pmmpthread_monitor_init_def pmmpthread_routine_init_def sec)
    from routine_step.init [OF K_init this(1) order_refl this(2)] show ?thesis
      using nj K_init by (intro moves_onI) (auto simp: rank_def)
  next
    case K_create
    have "create_error 0 = None" by (simp add: create_error_def)
    then show ?thesis
      using nj K_create by (intro moves_onI [OF routine_step.create [OF K_create]]) (simp_all add: rank_def)
  next
    case K_free
    then obtain ready where r: "r_ready s = Some ready" using rdy by auto
    have "mutex_free (mon_mutex ready)" "mon_cond ready = {}" using f(5) r K_free by (auto simp: inv_ready_def)
    then have "pmmpthread_routine_free c ready (r_mon s) = Ret (with_bit 0 False (r_mon s))"
      by (simp add: pmmpthread_routine_free_def sec destroy_eq)
    then show ?thesis
      using nj K_free r by (intro moves_onI [OF routine_step.free [OF K_free r]]) (simp_all add: rank_def)
  qed (use assms(2) ready_moves_on [OF assms(1)] in simp_all)
qed

text \<open>The creator in \<open>join\<close>.\<close>

lemma await_moves_on:
  assumes "routine_inv c t s" "r_cpc s = K_await \<or> r_cpc s = K_asleep_await"
  shows "moves_on c t run s"
proof -
  note f = routine_inv_facts [OF assms(1)]
  have p: "t_prepared (r_tpc s)" "\<not> t_leaving (r_tpc s)" using f(3) assms(2) by (auto simp: inv_pcs_def)
  have j: "f_joined (r_mon s)" using f(4) assms(2) by (auto simp: inv_signals_def)
  show ?thesis
  proof (cases "t_parked (r_tpc s)")
    case True
    then have a: "f_await (r_mon s)" using f(4) by (simp add: inv_signals_def)
    then have turn: "wait_until_turn c (r_mon s) PMMPTHREAD_MONITOR_AWAIT_JOIN = Ret (True, r_mon s)"
      by (simp add: section_eqs [OF f(1)] flag_tests)
    have "c \<notin> mon_cond (r_mon s)" if "r_cpc s = K_asleep_await" using f(7) a that by (auto simp: inv_awake_def)
    then have "routine_step c t run s (s\<lparr>r_mon := r_mon s, r_cpc := K_sync\<rparr>)"
      using assms(2) routine_step.await_join [OF _ turn] routine_step.await_wake [OF _ _ turn] by auto
    then show ?thesis using assms(2) by (intro moves_onI) (auto simp: rank_def in_join_def)
  next
    case False
    from thread_moves [OF assms(1) p(1) False p(2) j, of run] show ?thesis
      using assms(2) by (auto simp: rank_def in_join_def intro: moves_onI)
  qed
qed

lemma exit_moves_on:
  assumes "routine_inv c t s" "r_cpc s = K_pthread_join"
  shows "moves_on c t run s"
proof -
  note f = routine_inv_facts [OF assms(1)]
  have j: "in_join s" using assms(2) by (simp add: in_join_def)
  have e: "f_exit (r_mon s)" using f(4) assms(2) by (simp add: inv_signals_def)
  then have turn: "wait_until_turn t (r_mon s) PMMPTHREAD_MONITOR_EXIT = Ret (True, r_mon s)"
    by (simp add: section_eqs [OF f(1)] flag_tests)
  have w: "t \<notin> mon_cond (r_mon s)" if "r_tpc s = T_exit_asleep" using f(7) e that by (auto simp: inv_awake_def)
  have "t_parked (r_tpc s) \<or> t_leaving (r_tpc s)" using f(3) assms(2) by (simp add: inv_pcs_def)
  then consider "r_tpc s = T_exit_wait" | "r_tpc s = T_exit_asleep" | "r_tpc s = T_cleanup"
    | "r_tpc s = T_prepared_shutdown" | "r_tpc s = T_exited"
    by (cases "r_tpc s") simp_all
  then show ?thesis
  proof cases
    case 1
    from routine_step.exit_wait [OF this turn] show ?thesis
      using 1 assms(2) by (intro moves_onI) (auto simp: rank_def in_join_def)
  next
    case 2
    from routine_step.exit_wake [OF this w [OF this] turn] show ?thesis
      using 2 assms(2) by (intro moves_onI) (auto simp: rank_def in_join_def)
  next
    case 3
    from routine_step.cleanup [OF this] show ?thesis
      using 3 assms(2) by (intro moves_onI) (auto simp: rank_def in_join_def)
  next
    case 4
    from routine_step.prepared_shutdown [OF this] show ?thesis
      using 4 assms(2) by (intro moves_onI) (auto simp: rank_def in_join_def)
  next
    case 5
    from routine_step.pthread_join [OF assms(2) this] show ?thesis
      using 5 assms(2) by (intro moves_onI) (auto simp: rank_def in_join_def)
  qed
qed

lemma caller_moves_on:
  assumes "routine_inv c t s" "r_cpc s \<noteq> K_idle"
  shows "moves_on c t run s"
proof -
  note f = routine_inv_facts [OF assms(1)]
  note sec = section_eqs [OF f(1), of c]
  show ?thesis
  proof (cases "r_cpc s")
    case K_joining
    from routine_step.joining [OF this sec(4)] show ?thesis
      using K_joining by (intro moves_onI) (auto simp: rank_def in_join_def)
  next
    case K_sync
    from routine_step.sync [OF this] show ?thesis
      using K_sync by (intro moves_onI) (auto simp: rank_def in_join_def)
  next
    case K_exit
    from routine_step.exit [OF this sec(8)] show ?thesis
      using K_exit by (intro moves_onI) (auto simp: rank_def in_join_def)
  qed (use assms(2) start_moves_on [OF assms(1)] await_moves_on [OF assms(1)] exit_moves_on [OF assms(1)] in simp_all)
qed

lemma caller_returns:
  assumes "routine_inv c t s" "c \<noteq> t"
  shows "\<exists>s'. (routine_step c t run)\<^sup>*\<^sup>* s s' \<and> r_cpc s' = K_idle \<and> (in_join s \<longrightarrow> r_tpc s' = T_exited)"
  using assms(1)
proof (induction "rank s" arbitrary: s rule: less_induct)
  case less
  show ?case
  proof (cases "r_cpc s = K_idle")
    case True
    then show ?thesis by (auto simp: in_join_def)
  next
    case False
    from caller_moves_on [OF less.prems this, of run] obtain s1 where s1: "routine_step c t run s s1" "rank s1 < rank s"
      "in_join s \<longrightarrow> in_join s1 \<or> r_cpc s1 = K_idle \<and> r_tpc s1 = T_exited" unfolding moves_on_def by blast
    show ?thesis
    proof (cases "r_cpc s1 = K_idle \<and> r_tpc s1 = T_exited")
      case True
      then show ?thesis using s1(1) by blast
    next
      case False
      from less.hyps [OF s1(2) routine_inv_step [OF less.prems s1(1) assms(2)]] False s1 show ?thesis
        by (meson converse_rtranclp_into_rtranclp)
    qed
  qed
qed

section \<open>Properties\<close>

text \<open>
  C33: The hand-over of a join: while the creator takes over the results the thread is parked outside PHP code and
  what it takes over is what PHP code last wrote; the thread destroys its objects only after that; and when
  the thread has exited the creator has exactly what PHP code last wrote.
\<close>

theorem routine_join_hands_over:
  assumes "routine_reach c t run mo s" "c \<noteq> t" "unused mo"
  shows "(r_cpc s = K_sync \<longrightarrow> t_parked (r_tpc s) \<and> r_data s = r_written s) \<and>
    (t_leaving (r_tpc s) \<longrightarrow> r_seen s = Some (r_written s) \<and> (r_cpc s = K_pthread_join \<or> r_cpc s = K_idle \<and> r_tpc s = T_exited))"
proof -
  note f = routine_inv_facts [OF routine_reach_inv [OF assms]]
  have "r_cpc s = K_sync \<Longrightarrow> t_parked (r_tpc s) \<and> r_data s = r_written s" using f(3,6) by (auto simp: inv_pcs_def inv_result_def)
  moreover have "r_cpc s = K_pthread_join \<or> r_cpc s = K_idle \<and> r_tpc s = T_exited" if "t_leaving (r_tpc s)"
    using f(3) that unfolding inv_pcs_def by (cases "r_cpc s") auto
  ultimately show ?thesis using f(6) by (auto simp: inv_result_def)
qed

text \<open>A path for the witnesses: a thread is started, writes a value, ends, and is joined.\<close>

definition idle_mon :: pmmpthread_monitor_t where
  "idle_mon = \<lparr>mon_state = 0, mon_mutex = \<lparr>mx_owner = None, mx_count = 0, mx_max = 5\<rparr>, mon_cond = {}\<rparr>"

definition demo_sys :: "pmmpthread_monitor_t \<Rightarrow> pmmpthread_monitor_t option \<Rightarrow> caller_pc \<Rightarrow> thread_pc \<Rightarrow> nat \<Rightarrow> nat \<Rightarrow> nat \<Rightarrow> nat routine_sys" where
  "demo_sys m ready k p created n d =
     \<lparr>r_mon = m, r_ready = ready, r_worker = False, r_cpc = k, r_tpc = p, r_created = created, r_count = n,
      r_data = d, r_written = d, r_seen = None\<rparr>"

lemma idle_mon_facts: "unused idle_mon" "mutex_free (mon_mutex idle_mon)" "\<not> f_started idle_mon" "\<not> f_joined idle_mon"
  "\<not> f_error idle_mon" "\<not> f_ready idle_mon" "\<not> f_await idle_mon" "mon_cond idle_mon = {}"
  by (simp_all add: unused_def idle_mon_def mutex_free_def f_defs)

text \<open>The monitor along the path: started, running, no longer running, joined, parked.\<close>

fun demo_flags :: "nat \<Rightarrow> pmmpthread_monitor_t" where
  "demo_flags 0 = idle_mon"
| "demo_flags (Suc n) = with_bit ([0, 1, 1, 2, 7] ! n) (n \<noteq> 2) (demo_flags n)"

lemma demo_flags_simps:
  "demo_flags 1 = with_bit 0 True idle_mon" "demo_flags 2 = with_bit 1 True (demo_flags 1)"
  "demo_flags 3 = with_bit 1 False (demo_flags 2)" "demo_flags 4 = with_bit 2 True (demo_flags 3)"
  "demo_flags 5 = with_bit 7 True (demo_flags 4)"
  by (simp_all add: numeral_eq_Suc)

lemma idle_mon_init: "pmmpthread_monitor_init 5 0 0 = (True, Some idle_mon)"
  by (simp add: pmmpthread_monitor_init_def idle_mon_def)

lemmas demo_path = demo_sys_def idle_mon_facts section_eqs flag_tests f_with_bit with_bit_mutex demo_flags_simps

lemma demo_started: "routine_reach 1 2 RunUser idle_mon (demo_sys (demo_flags 1) (Some idle_mon) K_wait_ready T_startup 1 0 0)"
proof -
  have "routine_reach 1 2 RunUser idle_mon (demo_sys idle_mon None K_idle T_none 0 0 0)"
    using routine_reach.fresh [of 1 2 RunUser idle_mon False 0] by (simp add: demo_sys_def routine_fresh_def)
  then have "routine_reach 1 2 RunUser idle_mon (demo_sys idle_mon None K_init T_none 0 0 0)"
    by (rule routine_reach.step) (use routine_step.start [of "demo_sys idle_mon None K_idle T_none 0 0 0" 1 idle_mon] in \<open>simp add: demo_path start_guard_def\<close>)
  then have "routine_reach 1 2 RunUser idle_mon (demo_sys (demo_flags 1) (Some idle_mon) K_create T_none 0 0 0)"
    by (rule routine_reach.step) (use routine_step.init [of "demo_sys idle_mon None K_init T_none 0 0 0" 5 idle_mon 1 0 0 "\<lparr>ra_thread = 0, ra_ready = idle_mon, ra_options = 0\<rparr>" "demo_flags 1"] in \<open>simp add: demo_path pmmpthread_routine_init_def idle_mon_init\<close>)
  then have "routine_reach 1 2 RunUser idle_mon (demo_sys (demo_flags 1) (Some idle_mon) K_wait_ready T_startup 1 0 0)"
    by (rule routine_reach.step) (use routine_step.create [of "demo_sys (demo_flags 1) (Some idle_mon) K_create T_none 0 0 0" 0] in \<open>simp add: demo_path create_error_def\<close>)
  then show ?thesis .
qed


lemma demo_run_call: "routine_reach 1 2 RunUser idle_mon (demo_sys (demo_flags 2) None K_idle T_run_call 1 1 7)"
proof -
  have "routine_reach 1 2 RunUser idle_mon (demo_sys (demo_flags 1) (Some idle_mon) K_wait_ready T_startup 1 0 0)" by (rule demo_started)
  then have "routine_reach 1 2 RunUser idle_mon (demo_sys (demo_flags 1) (Some (with_bit 4 True idle_mon)) K_wait_ready T_counting 1 0 0)"
    by (rule routine_reach.step) (use routine_step.startup [of "demo_sys (demo_flags 1) (Some idle_mon) K_wait_ready T_startup 1 0 0" idle_mon 2 "with_bit 4 True idle_mon"] in \<open>simp add: demo_path \<close>)
  then have "routine_reach 1 2 RunUser idle_mon (demo_sys (demo_flags 1) None K_idle T_counting 1 0 0)"
    by (rule routine_reach.step) (use routine_step.wait_ready [of "demo_sys (demo_flags 1) (Some (with_bit 4 True idle_mon)) K_wait_ready T_counting 1 0 0" "with_bit 4 True idle_mon" 1 None] in \<open>simp add: demo_path pmmpthread_routine_wait_def destroy_eq\<close>)
  then have "routine_reach 1 2 RunUser idle_mon (demo_sys (demo_flags 1) None K_idle T_run_check 1 1 0)"
    by (rule routine_reach.step) (use routine_step.counting [of "demo_sys (demo_flags 1) None K_idle T_counting 1 0 0"] in \<open>simp add: demo_path \<close>)
  then have "routine_reach 1 2 RunUser idle_mon (demo_sys (demo_flags 1) None K_idle T_run_add 1 1 0)"
    by (rule routine_reach.step) (use routine_step.run_check [of "demo_sys (demo_flags 1) None K_idle T_run_check 1 1 0" 2 0 "demo_flags 1"] in \<open>simp add: demo_path \<close>)
  then have "routine_reach 1 2 RunUser idle_mon (demo_sys (demo_flags 2) None K_idle T_run_call 1 1 0)"
    by (rule routine_reach.step) (use routine_step.run_add [of "demo_sys (demo_flags 1) None K_idle T_run_add 1 1 0" 2 "demo_flags 2" 1 RunUser] in \<open>simp add: demo_path after_run_def\<close>)
  then have "routine_reach 1 2 RunUser idle_mon (demo_sys (demo_flags 2) None K_idle T_run_call 1 1 7)"
    by (rule routine_reach.step) (use routine_step.run_write [of "demo_sys (demo_flags 2) None K_idle T_run_call 1 1 0" _ _ _ 7] in \<open>simp add: demo_path \<close>)
  then show ?thesis .
qed

lemma demo_joining: "routine_reach 1 2 RunUser idle_mon (demo_sys (demo_flags 5) None K_sync T_exit_wait 1 1 7)"
proof -
  have "routine_reach 1 2 RunUser idle_mon (demo_sys (demo_flags 2) None K_idle T_run_call 1 1 7)" by (rule demo_run_call)
  then have "routine_reach 1 2 RunUser idle_mon (demo_sys (demo_flags 2) None K_idle (T_run_remove True) 1 1 7)"
    by (rule routine_reach.step) (use routine_step.run_ends [of "demo_sys (demo_flags 2) None K_idle T_run_call 1 1 7" 2 CallReturns True "demo_flags 2"] in \<open>simp add: demo_path run_leave_def\<close>)
  then have "routine_reach 1 2 RunUser idle_mon (demo_sys (demo_flags 3) None K_idle T_shutdown_functions 1 1 7)"
    by (rule routine_reach.step) (use routine_step.run_remove [of "demo_sys (demo_flags 2) None K_idle (T_run_remove True) 1 1 7" True 2 "demo_flags 3"] in \<open>simp add: demo_path \<close>)
  then have "routine_reach 1 2 RunUser idle_mon (demo_sys (demo_flags 3) None K_joining T_shutdown_functions 1 1 7)"
    by (rule routine_reach.step) (use routine_step.join [of "demo_sys (demo_flags 3) None K_idle T_shutdown_functions 1 1 7" 1 "demo_flags 3"] in \<open>simp add: demo_path join_guard_def\<close>)
  then have "routine_reach 1 2 RunUser idle_mon (demo_sys (demo_flags 4) None K_await T_shutdown_functions 1 1 7)"
    by (rule routine_reach.step) (use routine_step.joining [of "demo_sys (demo_flags 3) None K_joining T_shutdown_functions 1 1 7" 1 "demo_flags 4"] in \<open>simp add: demo_path \<close>)
  then have "routine_reach 1 2 RunUser idle_mon (demo_sys (demo_flags 5) None K_await T_exit_wait 1 1 7)"
    by (rule routine_reach.step) (use routine_step.await [of "demo_sys (demo_flags 4) None K_await T_shutdown_functions 1 1 7" 2 "demo_flags 5"] in \<open>simp add: demo_path \<close>)
  then have "routine_reach 1 2 RunUser idle_mon (demo_sys (demo_flags 5) None K_sync T_exit_wait 1 1 7)"
    by (rule routine_reach.step) (use routine_step.await_join [of "demo_sys (demo_flags 5) None K_await T_exit_wait 1 1 7" 1 True "demo_flags 5"] in \<open>simp add: demo_path \<close>)
  then show ?thesis .
qed


theorem routine_join_hands_over_witness:
  "let s = demo_sys (demo_flags 5) None K_sync T_exit_wait 1 1 7 in
     routine_reach 1 2 RunUser idle_mon s \<and> t_parked (r_tpc s) \<and> r_data s = 7 \<and> r_written s = 7"
  using demo_joining routine_join_hands_over [OF demo_joining _ idle_mon_facts(1)] by (simp add: demo_sys_def Let_def)

text \<open>
  C34: However the creator, the thread and other callers have interleaved, the creator can always get back to its caller
  out of \<open>start\<close> and \<open>join\<close>, and out of a \<open>join\<close> only with the thread gone: no deadlock and no lost wake-up. This is for a creator that
  calls them outside \<open>synchronized\<close> blocks on the thread object, and for blocks of others on it that end; joining inside such
  a block is the subject of the next section.
\<close>

theorem routine_caller_returns:
  assumes "routine_reach c t run mo s" "c \<noteq> t" "unused mo"
  shows "\<exists>s'. (routine_step c t run)\<^sup>*\<^sup>* s s' \<and> r_cpc s' = K_idle \<and>
    (r_cpc s = K_joining \<or> k_join (r_cpc s) \<longrightarrow> r_tpc s' = T_exited)"
  using caller_returns [OF routine_reach_inv [OF assms] assms(2), of run] by (simp add: in_join_def)

theorem routine_caller_returns_witness:
  "\<exists>s'. (routine_step 1 2 RunUser)\<^sup>*\<^sup>* (demo_sys (demo_flags 5) None K_sync T_exit_wait 1 1 7) s' \<and>
     r_cpc s' = K_idle \<and> r_tpc s' = T_exited"
  using routine_caller_returns [OF demo_joining _ idle_mon_facts(1)] by (simp add: demo_sys_def)

section \<open>Joining inside a synchronized block\<close>

text \<open>
  The steps do not let the creator hold the object's monitor across a call, so this is the state it would be in: in the first half of
  \<open>join\<close>, owning the mutex from a \<open>synchronized\<close> block around the call, with the thread still in its code.
\<close>

definition join_pcs :: "caller_pc set" where
  "join_pcs = {K_joining, K_await, K_asleep_await}"

definition joins_holding :: "tid \<Rightarrow> 'd routine_sys \<Rightarrow> bool" where
  "joins_holding c s \<longleftrightarrow> r_cpc s \<in> join_pcs \<and> mx_owner (mon_mutex (r_mon s)) = Some c \<and> 0 < mx_count (mon_mutex (r_mon s)) \<and>
     mutex_avail 2 c (mon_mutex (r_mon s)) \<and> mon_state (r_mon s) AND PMMPTHREAD_MONITOR_AWAIT_JOIN = 0"

lemma wait_turn_nested:
  assumes "mx_owner (mon_mutex m) = Some c" "0 < mx_count (mon_mutex m)" "mutex_avail 2 c (mon_mutex m)" "mon_state m AND k = 0"
  shows "wait_until_turn c m k = Ret (False, m\<lparr>mon_cond := insert c (mon_cond m)\<rparr>)"
proof -
  note av = assms(3) [unfolded numeral_2_eq_2]
  let ?m = "m\<lparr>mon_mutex := mutex_take c (mon_mutex m)\<rparr>"
  have a: "mutex_avail (Suc 0) c (mon_mutex ?m)" using avail_take [OF av] by simp
  have "(mon_mutex m)\<lparr>mx_owner := Some c\<rparr> = mon_mutex m" using assms(1) by (cases "mon_mutex m") simp
  then have "pthread_cond_wait c ?m = (0, m\<lparr>mon_cond := insert c (mon_cond m)\<rparr>)"
    using assms(1,2) by (cases m) (auto simp: pthread_cond_wait_def pthread_mutex_unlock_def mutex_take_def)
  then show ?thesis using assms(4) by (simp add: wait_until_turn_def lock_avail_eq [OF av] check_avail [OF a])
qed

lemma owned_blocks:
  assumes "mx_owner (mon_mutex m) = Some c" "u \<noteq> c"
  shows "pmmpthread_monitor_check u m k = Block" "pmmpthread_monitor_add u m k = Block" "pmmpthread_monitor_remove u m k = Block"
    "wait_until_turn u m k = Block" "run_leave u r m = Ret (b, m') \<Longrightarrow> m' = m"
  using assms by (auto simp: monitor_defs wait_until_turn_def run_leave_def split: call_end.splits)

lemma joins_holding_step:
  assumes "routine_step c t run s s'" "c \<noteq> t" "joins_holding c s"
  shows "joins_holding c s'"
proof -
  have o: "mx_owner (mon_mutex (r_mon s)) = Some c" "r_cpc s \<in> join_pcs" using assms(3) by (simp_all add: joins_holding_def)
  have av: "mutex_avail (Suc 0) c (mon_mutex (r_mon s))"
    using assms(3) avail_mono [of 2 c _ "Suc 0"] by (simp add: joins_holding_def)
  note bl = owned_blocks [OF o(1) assms(2) [symmetric]]
  have turn: "wait_until_turn c (r_mon s) PMMPTHREAD_MONITOR_AWAIT_JOIN = Ret (False, (r_mon s)\<lparr>mon_cond := insert c (mon_cond (r_mon s))\<rparr>)"
    using assms(3) by (intro wait_turn_nested) (simp_all add: joins_holding_def)
  have gd: "m = r_mon s" if "start_guard c u (r_mon s) = Ret (e, m)" for u e m
    using that check_avail [OF av] by (auto simp: start_guard_def outcome_simps split: if_splits)
  have gj: "m = r_mon s" if "join_guard c u (r_mon s) = Ret (e, m)" for u e m
    using that check_avail [OF av] by (auto simp: join_guard_def outcome_simps split: if_splits)
  have jn: "joins_holding c (s\<lparr>r_mon := (r_mon s)\<lparr>mon_state := mon_state (r_mon s) OR PMMPTHREAD_MONITOR_JOINED, mon_cond := {}\<rparr>, r_cpc := K_await\<rparr>)"
    using assms(3) by (simp add: joins_holding_def join_pcs_def bit.conj_disj_distrib2) (simp add: monitor_flag_defs)
  from assms(1) show ?thesis
    by (rule routine_stepE)
      (use assms(3) o(2) jn in \<open>auto simp: bl turn add_avail [OF av] joins_holding_def join_pcs_def pmmpthread_monitor_notify_def
        pmmpthread_monitor_notify_one_def dest!: gd gj bl(5)\<close>)
qed

text \<open>
  C35: Joining inside \<open>synchronized\<close> hangs. If the creator calls \<open>join\<close> while it holds the monitor of the thread object, as in a
  \<open>synchronized\<close> block on it, before the thread is done with its code, then no sequence of steps brings it out of the wait in \<open>join\<close>:
  it sleeps with one level of the recursive mutex still taken, and the thread blocks at its next critical section.
\<close>

theorem routine_join_in_synchronized_hangs:
  assumes "routine_reach c t run mo s" "c \<noteq> t" "unused mo" "r_cpc s = K_idle" "3 \<le> mx_max (mon_mutex (r_mon s))"
    and "pmmpthread_monitor_lock c (r_mon s) = Ret (True, m)" "join_guard c c m = Ret (None, m1)"
    and "mon_state m1 AND PMMPTHREAD_MONITOR_AWAIT_JOIN = 0"
    and "(routine_step c t run)\<^sup>*\<^sup>* (s\<lparr>r_mon := m1, r_cpc := K_joining\<rparr>) s'"
  shows "r_cpc s' \<in> {K_joining, K_await, K_asleep_await} \<and> mx_owner (mon_mutex (r_mon s')) = Some c"
proof -
  have free: "mutex_free (mon_mutex (r_mon s))" using routine_inv_facts(1) [OF routine_reach_inv [OF assms(1-3)]] .
  then have m: "m = (r_mon s)\<lparr>mon_mutex := mutex_take c (mon_mutex (r_mon s))\<rparr>"
    using lock_avail_eq [OF mutex_free_avail1] assms(6) by simp
  have av: "mutex_avail 2 c (mon_mutex m)" using free assms(5) by (simp add: m mutex_avail_def mutex_take_def mutex_free_def)
  then have "mutex_avail (Suc 0) c (mon_mutex m)" using avail_mono by fastforce
  then have "m1 = m" using assms(7) check_avail by (auto simp: join_guard_def outcome_simps split: if_splits)
  then have "joins_holding c (s\<lparr>r_mon := m1, r_cpc := K_joining\<rparr>)"
    using av assms(8) by (simp add: joins_holding_def join_pcs_def m mutex_take_def)
  with assms(9) have "joins_holding c s'"
    by (induction rule: rtranclp_induct) (auto intro: joins_holding_step [OF _ assms(2)])
  then show ?thesis by (simp add: joins_holding_def join_pcs_def)
qed

theorem routine_join_in_synchronized_hangs_witness:
  "\<exists>m. pmmpthread_monitor_lock 1 (demo_flags 2) = Ret (True, m) \<and> join_guard 1 1 m = Ret (None, m) \<and>
     (\<nexists>s'. (routine_step 1 2 RunUser)\<^sup>*\<^sup>* (demo_sys m None K_joining T_run_call 1 1 7) s' \<and> r_cpc s' = K_idle)"
proof -
  define s where "s = demo_sys (demo_flags 2) None K_idle T_run_call 1 1 7"
  define m where "m = (demo_flags 2)\<lparr>mon_mutex := mutex_take 1 (mon_mutex (demo_flags 2))\<rparr>"
  have f: "mon_mutex (demo_flags 2) = \<lparr>mx_owner = None, mx_count = 0, mx_max = 5\<rparr>"
    by (simp add: demo_flags_simps with_bit_mutex idle_mon_def)
  have l: "pmmpthread_monitor_lock 1 (demo_flags 2) = Ret (True, m)"
    using f by (simp add: m_def monitor_defs mutex_take_def)
  have av: "mutex_avail (Suc 0) 1 (mon_mutex m)" using f by (simp add: m_def mutex_take_def mutex_avail_def)
  have st: "mon_state m = 3" by (simp add: m_def demo_flags_simps with_bit_def idle_mon_def flag_bit_def)
  have g: "join_guard 1 1 m = Ret (None, m)"
    by (simp add: join_guard_def check_avail [OF av, simplified] st monitor_flag_defs)
  have aw: "mon_state m AND PMMPTHREAD_MONITOR_AWAIT_JOIN = 0" by (simp add: st monitor_flag_defs)
  have "r_cpc s' \<noteq> K_idle" if "(routine_step 1 2 RunUser)\<^sup>*\<^sup>* (s\<lparr>r_mon := m, r_cpc := K_joining\<rparr>) s'" for s'
    using routine_join_in_synchronized_hangs [OF demo_run_call [folded s_def] _ idle_mon_facts(1) _ _ _ g aw that] l f
    by (auto simp: s_def demo_sys_def)
  then show ?thesis using l g by (auto simp: s_def demo_sys_def)
qed

section \<open>The ready signal, the flags and the outcomes\<close>

text \<open>
  The monitor for the ready signal, which lives in the stack frame of \<open>pmmpthread_start\<close>, is there when the thread
  signals it and is never destroyed under a waiter; and no operation on it touches invalid memory.
\<close>

theorem routine_ready_monitor_safe:
  assumes "routine_reach c t run mo s" "c \<noteq> t" "unused mo"
  shows "(r_tpc s = T_startup \<longrightarrow> (\<exists>ready. r_ready s = Some ready \<and> pmmpthread_monitor_add t ready PMMPTHREAD_MONITOR_READY \<noteq> Fault)) \<and>
    (\<forall>ready. r_ready s = Some ready \<longrightarrow>
       (r_cpc s = K_free \<longrightarrow> pmmpthread_routine_free c ready (r_mon s) \<noteq> Fault) \<and>
       (r_cpc s = K_wait_ready \<or> r_cpc s = K_asleep_ready \<and> c \<notin> mon_cond ready \<longrightarrow> pmmpthread_routine_wait c ready \<noteq> Fault))"
proof -
  note f = routine_inv_facts [OF routine_reach_inv [OF assms]]
  have "\<exists>ready. r_ready s = Some ready" if "r_tpc s = T_startup"
    using f(3) that unfolding inv_pcs_def by (cases "r_cpc s") auto
  moreover have "pmmpthread_routine_free c ready (r_mon s) \<noteq> Fault" if "r_ready s = Some ready" "r_cpc s = K_free" for ready
    using f(1,5) that by (auto simp: inv_ready_def pmmpthread_routine_free_def section_eqs destroy_eq)
  moreover have "pmmpthread_routine_wait c ready \<noteq> Fault"
    if "r_ready s = Some ready" "r_cpc s = K_wait_ready \<or> r_cpc s = K_asleep_ready \<and> c \<notin> mon_cond ready" for ready
    using f(5) that by (auto simp: inv_ready_def pmmpthread_routine_wait_def section_eqs destroy_eq)
  ultimately show ?thesis using f(2) by (auto simp: section_eqs)
qed

theorem routine_ready_monitor_safe_witness:
  "let s = demo_sys (demo_flags 1) (Some idle_mon) K_wait_ready T_startup 1 0 0 in
     routine_reach 1 2 RunUser idle_mon s \<and> pmmpthread_monitor_add 2 idle_mon PMMPTHREAD_MONITOR_READY \<noteq> Fault \<and>
     pmmpthread_routine_wait 1 idle_mon \<noteq> Fault"
  using demo_started routine_ready_monitor_safe [OF demo_started _ idle_mon_facts(1)] by (simp add: demo_sys_def Let_def)

text \<open>
  C36: The queries tell the truth in every reachable state, and a thread is started and joined at most once: at most one operating
  system thread is ever made; \<open>isRunning\<close> holds exactly in the \<open>run\<close> method; a second \<open>start\<close> is refused once
  a thread exists, while one after a failed start is not; a second \<open>join\<close> is refused; the thread is
  counted exactly from its start-up to its exit.
\<close>

theorem routine_flags_tell:
  assumes "routine_reach c t run mo s" "c \<noteq> t" "unused mo"
  shows "r_created s \<le> 1 \<and> r_count s = of_bool (t_counted (r_tpc s)) \<and>
    Runnable_isRunning u (r_mon s) = Ret (t_running (r_tpc s), r_mon s) \<and>
    (r_cpc s = K_idle \<longrightarrow>
       start_guard c c (r_mon s) = Ret (if r_created s = 1 then Some AlreadyStarted else None, r_mon s) \<and>
       join_guard c c (r_mon s) =
         Ret (if r_tpc s = T_exited then Some AlreadyJoined else if r_created s = 0 then Some NotStarted else None, r_mon s))"
proof -
  note f = routine_inv_facts [OF routine_reach_inv [OF assms]]
  show ?thesis
    using f(1,3,4)
    by (auto simp: inv_pcs_def inv_signals_def Runnable_isRunning_def start_guard_def join_guard_def section_eqs flag_tests)
qed

theorem routine_flags_tell_witness:
  "let s = demo_sys (demo_flags 5) None K_sync T_exit_wait 1 1 7 in
     routine_reach 1 2 RunUser idle_mon s \<and> r_count s = 1 \<and> Runnable_isRunning 3 (r_mon s) = Ret (False, r_mon s)"
  using demo_joining routine_flags_tell [OF demo_joining _ idle_mon_facts(1), of 3] by (simp add: demo_sys_def Let_def)

text \<open>
  C37: Running a task: a task that has failed before is not run again; otherwise its method is called with the running flag set, the
  flag is cleared afterwards, and the result is success exactly when the method returned; a method that threw or
  bailed out leaves the error flag set.
\<close>

theorem routine_run_function_correct:
  assumes "mutex_free (mon_mutex m)" "\<not> f_error m"
    and "call (with_bit 1 True m) = Ret (r, m')" "mutex_free (mon_mutex m')"
  shows "pmmpthread_routine_run_function t RunUser call m =
      Ret (r = CallReturns, with_bit 1 False (if r = CallReturns then m' else with_bit 3 True m')) \<and>
    (r \<noteq> CallReturns \<longrightarrow> (\<forall>run2 call2 m2. pmmpthread_routine_run_function t RunUser call m = Ret (False, m2) \<longrightarrow>
       pmmpthread_routine_run_function t run2 call2 m2 = Ret (False, m2)))"
  using assms by (cases r) (auto simp: pmmpthread_routine_run_function_def run_leave_def section_eqs flag_tests f_with_bit)

theorem routine_run_function_correct_witness:
  "pmmpthread_routine_run_function 2 RunUser (\<lambda>m. Ret (CallThrows, m)) idle_mon =
     Ret (False, with_bit 1 False (with_bit 3 True (with_bit 1 True idle_mon)))"
  using routine_run_function_correct [of idle_mon "\<lambda>m. Ret (CallThrows, m)" CallThrows "with_bit 1 True idle_mon" 2]
  by (simp add: idle_mon_facts)

text \<open>
  C38: A start that is refused changes nothing; one for which the operating system has no thread reports the right error and
  leaves the object startable; one that succeeds hands the object over with the started flag set.
\<close>

theorem routine_start_outcomes:
  assumes "mutex_free (mon_mutex m)" "mutex_free (mon_mutex ready0)" "mon_cond ready0 = {}"
  shows "pmmpthread_start creator t thread opts ready0 rc ready_wait m =
    (if creator \<noteq> t then Ret (Inl OnlyCreatorMayStart, m)
     else if f_started m then Ret (Inl AlreadyStarted, m)
     else if rc = 0 then obind (ready_wait ready0 (with_bit 0 True m)) (\<lambda>m3. Ret (Inr True, m3))
     else Ret (Inl (if rc = EAGAIN then OutOfThreads else CannotStart rc), with_bit 0 False (with_bit 0 True m))) \<and>
    (creator = t \<and> \<not> f_started m \<and> rc \<noteq> 0 \<longrightarrow>
      (\<exists>e m3. pmmpthread_start creator t thread opts ready0 rc ready_wait m = Ret (Inl e, m3) \<and> start_guard t t m3 = Ret (None, m3)))"
  using assms
  by (auto simp: pmmpthread_start_def start_guard_def pmmpthread_routine_init_def pmmpthread_routine_free_def create_error_def
      section_eqs flag_tests f_with_bit destroy_eq EAGAIN_def)

theorem routine_start_outcomes_witness:
  "\<exists>m. pmmpthread_start 1 1 0 0 idle_mon EAGAIN (\<lambda>_ m. Ret m) idle_mon = Ret (Inl OutOfThreads, m) \<and> start_guard 1 1 m = Ret (None, m)"
  using routine_start_outcomes [of idle_mon idle_mon 1 1 0 0 EAGAIN "\<lambda>_ m. Ret m"] by (auto simp: idle_mon_facts EAGAIN_def)

end
