(* ===== verification/Module.thy ===== *)
theory Module
  imports Startup_Correct Routine
begin

text \<open>
  The module as the engine sees it (php_pmmpthread.c), the methods of Thread that only read a field (classes/thread.c) and the hooks for sockets
  (src/ext_sockets_hacks.c): registration of classes and handlers, start and end of a request on a thread, and the array of globals that all
  threads share. Parsing of parameters and the page of phpinfo are left out.
\<close>

section \<open>Registration\<close>

definition whitelist :: "string list" where
  "whitelist = [''cli'', ''phpdbg'', ''homegear'']"

definition pmmpthread_is_supported_sapi :: "string \<Rightarrow> bool" where
  "pmmpthread_is_supported_sapi name \<longleftrightarrow> list_ex (\<lambda>s. length name = length s \<and> take (length name) s = name) whitelist"

definition pmmpthread_ts_ce_handlers :: handler_table where
  "pmmpthread_ts_ce_handlers = Std_handler(
     ''free_obj'' := Own_handler ''pmmpthread_base_free'', ''dtor_obj'' := Own_handler ''pmmpthread_base_dtor'',
     ''get_debug_info'' := Own_handler ''pmmpthread_read_debug'', ''get_properties'' := Own_handler ''pmmpthread_read_properties'',
     ''read_property'' := Own_handler ''pmmpthread_read_property'', ''write_property'' := Own_handler ''pmmpthread_write_property'',
     ''has_property'' := Own_handler ''pmmpthread_has_property'', ''unset_property'' := Own_handler ''pmmpthread_unset_property'',
     ''get_property_ptr_ptr'' := Own_handler ''pmmpthread_get_property_ptr_ptr_stub'', ''get_gc'' := Own_handler ''pmmpthread_base_gc'',
     ''clone_obj'' := Null_handler, ''compare'' := Own_handler ''pmmpthread_compare_objects'')"

definition pmmpthread_array_ce_handlers :: handler_table where
  "pmmpthread_array_ce_handlers = pmmpthread_ts_ce_handlers(
     ''count_elements'' := Own_handler ''pmmpthread_count_properties'', ''read_dimension'' := Own_handler ''pmmpthread_read_dimension'',
     ''write_dimension'' := Own_handler ''pmmpthread_write_dimension'', ''has_dimension'' := Own_handler ''pmmpthread_has_dimension'',
     ''unset_dimension'' := Own_handler ''pmmpthread_unset_dimension'', ''read_property'' := Own_handler ''pmmpthread_read_property_deny'',
     ''write_property'' := Own_handler ''pmmpthread_write_property_deny'', ''has_property'' := Own_handler ''pmmpthread_has_property_deny'',
     ''unset_property'' := Own_handler ''pmmpthread_unset_property_deny'')"

text \<open>A class as it is registered: its parent and interfaces, and the fields that are set afterwards.\<close>

record module_class =
  mc_name :: string
  mc_parent :: "string option"
  mc_interfaces :: "string list"
  mc_create_object :: "string option"
  mc_get_iterator :: "string option"
  mc_not_serializable :: bool

definition module_class_of :: "string \<Rightarrow> string option \<Rightarrow> string list \<Rightarrow> string option \<Rightarrow> module_class" where
  "module_class_of name parent ifaces create =
     \<lparr>mc_name = name, mc_parent = parent, mc_interfaces = ifaces, mc_create_object = create, mc_get_iterator = None, mc_not_serializable = False\<rparr>"

definition module_classes :: "module_class list" where
  "module_classes =
     [(module_class_of ''ThreadSafe'' None [''IteratorAggregate''] (Some ''pmmpthread_threaded_base_ctor''))
        \<lparr>mc_get_iterator := Some ''pmmpthread_object_iterator_create'', mc_not_serializable := True\<rparr>,
      module_class_of ''ThreadSafeArray'' (Some ''ThreadSafe'') [''Countable'', ''ArrayAccess''] (Some ''pmmpthread_threaded_array_ctor''),
      module_class_of ''ConnectionException'' (Some ''RuntimeException'') [] None,
      module_class_of ''NonThreadSafeValueError'' (Some ''ValueError'') [] None,
      module_class_of ''Runnable'' (Some ''ThreadSafe'') [] None,
      module_class_of ''Thread'' (Some ''Runnable'') [] (Some ''pmmpthread_thread_ctor''),
      module_class_of ''Worker'' (Some ''Thread'') [] (Some ''pmmpthread_worker_ctor''),
      module_class_of ''Pool'' None [] None]"

text \<open>
  The state of the module. \<open>mo_instance\<close> is the thread that initialised the globals, \<open>mo_deactivate\<close> the callback of the SAPI,
  \<open>mo_socket_create\<close> and \<open>mo_socket_original\<close> the constructor function of the class of sockets and the one it replaces.
\<close>

record pmmpthread_module =
  mo_sapi :: string
  mo_deactivate :: handler
  mo_classes :: "module_class list"
  mo_handlers :: "(handler_table \<times> handler_table) option"
  mo_instance :: "tid option"
  mo_socket_create :: handler
  mo_socket_original :: handler
  mo_errors :: "string list"

definition pmmpthread_ext_sockets_hacks_init :: "pmmpthread_module \<Rightarrow> pmmpthread_module" where
  "pmmpthread_ext_sockets_hacks_init mo =
     mo\<lparr>mo_socket_original := mo_socket_create mo, mo_socket_create := Own_handler ''pmmpthread_socket_create_object_hook''\<rparr>"

text \<open>
  Start of the module on thread \<open>t\<close>; \<open>sockets\<close> says whether it is built with support for them, the other arguments are those of
  \<open>pmmpthread_globals_init\<close>. A failure of that function is not reported.
\<close>

definition PHP_MINIT_pmmpthread ::
  "bool \<Rightarrow> nat \<Rightarrow> int \<Rightarrow> int \<Rightarrow> tid \<Rightarrow> pmmpthread_module \<times> 'h world \<Rightarrow> bool \<times> pmmpthread_module \<times> 'h world"
where
  "PHP_MINIT_pmmpthread sockets lim mutex_ret cond_ret t s =
     (case s of
        (mo, w) \<Rightarrow>
          if \<not> pmmpthread_is_supported_sapi (mo_sapi mo) then (False, mo\<lparr>mo_errors := mo_errors mo @ [mo_sapi mo]\<rparr>, w)
          else
            let mo1 = mo\<lparr>mo_classes := module_classes, mo_handlers := Some (pmmpthread_ts_ce_handlers, pmmpthread_array_ce_handlers)\<rparr>;
                mo2 = (if sockets then pmmpthread_ext_sockets_hacks_init mo1 else mo1)
            in
            (case pmmpthread_globals_init lim mutex_ret cond_ret w of
               (ok, w1) \<Rightarrow> (True, if ok then mo2\<lparr>mo_instance := Some t\<rparr> else mo2, w1)))"

text \<open>\<open>memcmp(sapi_module.name, "cli", 3)\<close> compares three bytes.\<close>

definition is_cli :: "string \<Rightarrow> bool" where
  "is_cli name \<longleftrightarrow> take 3 name = ''cli''"

definition PHP_MSHUTDOWN_pmmpthread :: "tid \<Rightarrow> pmmpthread_module \<times> 'h world \<Rightarrow> (pmmpthread_module \<times> 'h world) outcome" where
  "PHP_MSHUTDOWN_pmmpthread t s =
     (case s of
        (mo, w) \<Rightarrow>
          if mo_instance mo = Some t then
            obind (pmmpthread_globals_shutdown w) (\<lambda>w1.
            Ret (if is_cli (mo_sapi mo) then mo\<lparr>mo_deactivate := Own_handler ''sapi_cli_deactivate''\<rparr> else mo, w1))
          else Ret (mo, w))"

section \<open>Requests\<close>

text \<open>
  The shared globals: the first thread makes the array, every other one connects to it. \<open>E\<close> gives the hash table, the name of
  the thread and the monitor of a new object.
\<close>

definition pmmpthread_init_thread_shared_globals :: "'h store_env \<Rightarrow> tid \<Rightarrow> 'h world \<Rightarrow> (bool \<times> 'h world) outcome" where
  "pmmpthread_init_thread_shared_globals E t w =
     obind
       (globals_locked t
         (\<lambda>w. case g_shared_globals w of
            Some a \<Rightarrow> pmmpthread_object_connect t (e_self E t) (Some a) w
          | None \<Rightarrow>
              obind (pmmpthread_threaded_array_new (e_hash E) t (e_self E t) (e_monitor E) w) (\<lambda>(base, w1).
              Ret (Some base, w1\<lparr>g_shared_globals := Some base\<rparr>))) None w)
       (\<lambda>(r, w1). case r of
          None \<Rightarrow> Ret (False, w1)
        | Some c \<Rightarrow> Ret (True, w1\<lparr>z_shared_globals := (z_shared_globals w1)(t := Some c)\<rparr>))"

text \<open>The table \<open>resolve\<close> of a thread serves objects, functions and properties; in the model each kind has its own map.\<close>

definition PHP_RINIT_pmmpthread ::
  "'h store_env \<Rightarrow> tid \<Rightarrow> pmmpthread_module \<Rightarrow> 'h php_thread \<Rightarrow> (bool \<times> pmmpthread_module \<times> 'h php_thread) outcome"
where
  "PHP_RINIT_pmmpthread E t mo th =
     (let st = th_code th;
          w = cs_world st;
          w1 = w\<lparr>z_resolve := (z_resolve w)(t := Map.empty), z_connecting := (z_connecting w)(t := None)\<rparr>;
          st1 = st\<lparr>cs_resolve := Map.empty, cs_filenames := Map.empty, cs_closures := Map.empty\<rparr>;
          mo1 = (if mo_instance mo \<noteq> Some t \<and> is_cli (mo_sapi mo) then mo\<lparr>mo_deactivate := Null_handler\<rparr> else mo)
      in
      obind (pmmpthread_init_thread_shared_globals E t w1) (\<lambda>(ok, w2).
      Ret (ok, mo1, th\<lparr>th_code := st1\<lparr>cs_world := w2\<rparr>, th_options := PMMPTHREAD_INHERIT_ALL,
        th_sockets := (th_sockets th)\<lparr>sg_original := None\<rparr>\<rparr>)))"

text \<open>
  The end of a request releases the reference the thread holds on the shared array; \<open>last\<close> says that it is the last one of this
  connection. The class has no destructor.
\<close>

definition PHP_RSHUTDOWN_pmmpthread :: "'h store_env \<Rightarrow> tid \<Rightarrow> bool \<Rightarrow> 'h copy_state \<Rightarrow> 'h copy_state outcome" where
  "PHP_RSHUTDOWN_pmmpthread E t last_ref st =
     (let st1 = st\<lparr>cs_filenames := Map.empty, cs_closures := Map.empty\<rparr> in
      case z_shared_globals (cs_world st) t of
        None \<Rightarrow> Ret st1
      | Some a \<Rightarrow>
          if last_ref then obind (pmmpthread_base_free E t a (cs_world st)) (\<lambda>w. Ret (st1\<lparr>cs_world := w\<rparr>)) else Ret st1)"

definition ZEND_MODULE_POST_ZEND_DEACTIVATE_pmmpthread :: "tid \<Rightarrow> 'h copy_state \<Rightarrow> 'h copy_state" where
  "ZEND_MODULE_POST_ZEND_DEACTIVATE_pmmpthread t st =
     st\<lparr>cs_resolve := Map.empty, cs_world := (cs_world st)\<lparr>z_resolve := (z_resolve (cs_world st))(t := Map.empty)\<rparr>\<rparr>"

section \<open>Methods of Thread\<close>

definition Thread_start ::
  "tid \<Rightarrow> tid \<Rightarrow> addr \<Rightarrow> int \<Rightarrow> pmmpthread_monitor_t \<Rightarrow> int \<Rightarrow>
     (pmmpthread_monitor_t \<Rightarrow> pmmpthread_monitor_t \<Rightarrow> pmmpthread_monitor_t outcome) \<Rightarrow> pmmpthread_monitor_t \<Rightarrow>
     ((routine_error + bool) \<times> pmmpthread_monitor_t) outcome"
where
  "Thread_start creator t thread options ready0 create_result ready_wait m =
     pmmpthread_start creator t thread (word_of_int options) ready0 create_result ready_wait m"

definition Thread_join ::
  "tid \<Rightarrow> tid \<Rightarrow> (pmmpthread_monitor_t \<Rightarrow> pmmpthread_monitor_t outcome) \<Rightarrow>
     (pmmpthread_monitor_t \<Rightarrow> pmmpthread_monitor_t outcome) \<Rightarrow> (pmmpthread_monitor_t \<Rightarrow> (int \<times> pmmpthread_monitor_t) outcome) \<Rightarrow>
     pmmpthread_monitor_t \<Rightarrow> ((routine_error + bool) \<times> pmmpthread_monitor_t) outcome"
where
  "Thread_join creator t parked_wait sync exits m = pmmpthread_join creator t parked_wait sync exits m"

definition Thread_getThreadId :: "addr \<Rightarrow> 'h world \<Rightarrow> nat outcome" where
  "Thread_getThreadId this w =
     obind (fetch_object this w) (\<lambda>z. obind (fetch_ts (zo_ts z) w) (\<lambda>ob. Ret (ident_id (o_local ob))))"

definition Thread_getCreatorId :: "addr \<Rightarrow> 'h world \<Rightarrow> nat outcome" where
  "Thread_getCreatorId this w =
     obind (fetch_object this w) (\<lambda>z. obind (fetch_ts (zo_ts z) w) (\<lambda>ob. Ret (ident_id (o_creator ob))))"

text \<open>Before the request has its shared array the pointer is null and is used all the same.\<close>

definition Thread_getSharedGlobals :: "tid \<Rightarrow> 'h world \<Rightarrow> addr outcome" where
  "Thread_getSharedGlobals t w = of_mem (z_shared_globals w t)"

definition Thread_getRunningCount :: "tid \<Rightarrow> 'h world \<Rightarrow> (nat \<times> 'h world) outcome" where
  "Thread_getRunningCount t w = globals_locked t (\<lambda>w. Ret (g_thread_count w, w)) 0 w"

section \<open>Sockets\<close>

text \<open>
  Releasing a socket object: what the original function is called with. A descriptor that is shared with other threads is
  replaced by -1, which that function does not close.
\<close>

definition pmmpthread_socket_free_obj_hook :: "tid \<Rightarrow> php_socket \<Rightarrow> 'h world \<Rightarrow> (php_socket \<times> 'h world) outcome" where
  "pmmpthread_socket_free_obj_hook t socket w =
     (if bsd_socket socket < 0 then Ret (socket, w)
      else obind (pmmpthread_globals_socket_shared t (bsd_socket socket) w) (\<lambda>(shared, w1). Ret (if shared then socket\<lparr>bsd_socket := -1\<rparr> else socket, w1)))"

text \<open>The handlers of a new socket; \<open>g\<close> is the field \<open>th_sockets\<close> of the thread.\<close>

definition pmmpthread_socket_create_object_hook :: "handler_table \<Rightarrow> socket_globals \<Rightarrow> handler_table \<times> socket_globals" where
  "pmmpthread_socket_create_object_hook handlers g =
     (let g1 = (if sg_original g = None then
                  g\<lparr>sg_original := Some handlers, sg_custom := handlers(''free_obj'' := Own_handler ''pmmpthread_socket_free_obj_hook'')\<rparr>
                else g)
      in (sg_custom g1, g1))"

section \<open>Lemmas\<close>

definition new_array :: "tid \<Rightarrow> nat \<Rightarrow> addr \<Rightarrow> pmmpthread_zend_object_t" where
  "new_array t oid ts = zero_object\<lparr>zo_ts := ts, zo_owner := \<lparr>ident_id = oid, ident_ls = t\<rparr>, zo_worker := False, zo_array := True, zo_local_modcount := -1\<rparr>"

definition new_shared :: "('h, zval) zend_hash_api \<Rightarrow> tid \<Rightarrow> nat \<Rightarrow> 'h pmmpthread_object_t" where
  "new_shared H t oid = \<lparr>o_refcount = 1, o_scope = 0, o_props = pmmpthread_store_init H, o_creator = \<lparr>ident_id = oid, ident_ls = t\<rparr>, o_local = zero_ident\<rparr>"

definition array_world :: "('h, zval) zend_hash_api \<Rightarrow> tid \<Rightarrow> nat \<Rightarrow> pmmpthread_monitor_t \<Rightarrow> 'h world \<Rightarrow> 'h world" where
  "array_world H t oid m w =
     w\<lparr>addrs := (\<lambda>n. addrs w (Suc (Suc n))), g_objects := insert (addrs w 0) (g_objects w), zobjs := (zobjs w)(addrs w 0 \<mapsto> new_array t oid (addrs w 1)),
       ts_objs := (ts_objs w)(addrs w 1 \<mapsto> new_shared H t oid), monitors := (monitors w)(addrs w 1 := m),
       z_resolve := (z_resolve w)(t := (z_resolve w t)(addrs w 1 \<mapsto> addrs w 0))\<rparr>"

lemma array_new_eq:
  assumes "mutex_avail (Suc 0) t (mon_mutex (g_monitor w))" "z_resolve w t (addrs w 1) = None"
  shows "pmmpthread_threaded_array_new H t oid m w = Ret (addrs w 0, array_world H t oid m w)"
  using assms
  by (simp add: pmmpthread_threaded_array_new_def object_alloc_eq pmmpthread_ts_object_ctor_def new_addr_def upd_zobj_def cell_upd_def base_ctor_link_def
      array_world_def new_array_def new_shared_def pmmpthread_store_init_def Let_def)

text \<open>The first thread of a process makes the shared array.\<close>

lemma shared_globals_first:
  assumes "mutex_avail (Suc 0) t (mon_mutex (g_monitor w))" "z_resolve w t = Map.empty" "g_shared_globals w = None"
  shows "pmmpthread_init_thread_shared_globals E t w =
    Ret (True, (array_world (e_hash E) t (e_self E t) (e_monitor E) w)
      \<lparr>g_shared_globals := Some (addrs w 0), z_shared_globals := (z_shared_globals w)(t := Some (addrs w 0))\<rparr>)"
proof -
  let ?w = "array_world (e_hash E) t (e_self E t) (e_monitor E) w"
  have "pmmpthread_threaded_array_new (e_hash E) t (e_self E t) (e_monitor E) w = Ret (addrs w 0, ?w)"
    using assms by (intro array_new_eq) simp_all
  then have "globals_locked t
     (\<lambda>w. case g_shared_globals w of
        Some a \<Rightarrow> pmmpthread_object_connect t (e_self E t) (Some a) w
      | None \<Rightarrow> obind (pmmpthread_threaded_array_new (e_hash E) t (e_self E t) (e_monitor E) w) (\<lambda>(base, w1). Ret (Some base, w1\<lparr>g_shared_globals := Some base\<rparr>)))
     None w = Ret (Some (addrs w 0), ?w\<lparr>g_shared_globals := Some (addrs w 0)\<rparr>)"
    using assms by (intro globals_locked_eq) (simp_all add: array_world_def)
  then show ?thesis by (simp add: pmmpthread_init_thread_shared_globals_def) (simp add: array_world_def)
qed

lemma shared_globals_next:
  assumes "mutex_avail (Suc 0) u (mon_mutex (g_monitor w))" "z_resolve w u = Map.empty" "g_shared_globals w = Some a" "a \<in> g_objects w"
    and "zobjs w a = Some z" "ts_objs w (zo_ts z) = Some ob" "zobjs w (addrs w 0) = None" "ident_ls (zo_owner z) \<noteq> u"
  shows "pmmpthread_init_thread_shared_globals E u w =
    Ret (True, (connected_world u (e_self E u) z ob w)\<lparr>z_shared_globals := (z_shared_globals w)(u := Some (addrs w 0))\<rparr>)"
proof -
  let ?w = "connected_world u (e_self E u) z ob w"
  have "pmmpthread_object_connect u (e_self E u) (Some a) w = Ret (Some (addrs w 0), ?w)"
    using object_connect_eq [OF assms(1,4-7), of "e_self E u"] assms(2,8) by simp
  then have "globals_locked u
     (\<lambda>w. case g_shared_globals w of
        Some a \<Rightarrow> pmmpthread_object_connect u (e_self E u) (Some a) w
      | None \<Rightarrow> obind (pmmpthread_threaded_array_new (e_hash E) u (e_self E u) (e_monitor E) w) (\<lambda>(base, w1). Ret (Some base, w1\<lparr>g_shared_globals := Some base\<rparr>)))
     None w = Ret (Some (addrs w 0), ?w)"
    using assms by (intro globals_locked_eq) (simp_all add: connected_world_def)
  then show ?thesis by (simp add: pmmpthread_init_thread_shared_globals_def) (simp add: connected_world_def)
qed

section \<open>Properties\<close>

text \<open>
  C28: All threads share one array of globals: the request on the first thread makes it, the request on another thread succeeds and gets a connection of its own to the
  same shared part, which both then count as references; both threads start with all options of inheritance.
\<close>

theorem shared_globals_agree:
  assumes "world_ok (cs_world (th_code th))" "g_shared_globals (cs_world (th_code th)) = None" "t \<noteq> u"
    and "mutex_avail 1 t (mon_mutex (g_monitor (cs_world (th_code th))))" "mutex_avail 1 u (mon_mutex (g_monitor (cs_world (th_code th))))"
  shows "\<exists>mo1 th1 mo2 th2 a b za zb ob. PHP_RINIT_pmmpthread E t mo th = Ret (True, mo1, th1) \<and>
    PHP_RINIT_pmmpthread E u mo1 (th'\<lparr>th_code := (th_code th')\<lparr>cs_world := cs_world (th_code th1)\<rparr>\<rparr>) = Ret (True, mo2, th2) \<and>
    Thread_getSharedGlobals t (cs_world (th_code th2)) = Ret a \<and> Thread_getSharedGlobals u (cs_world (th_code th2)) = Ret b \<and>
    zobjs (cs_world (th_code th2)) a = Some za \<and> zobjs (cs_world (th_code th2)) b = Some zb \<and>
    ident_ls (zo_owner za) = t \<and> ident_ls (zo_owner zb) = u \<and> zo_ts za = zo_ts zb \<and>
    ts_objs (cs_world (th_code th2)) (zo_ts za) = Some ob \<and> o_refcount ob = 2 \<and>
    th_options th1 = PMMPTHREAD_INHERIT_ALL \<and> th_options th2 = PMMPTHREAD_INHERIT_ALL"
proof -
  define w0 where "w0 = cs_world (th_code th)"
  define w where "w = w0\<lparr>z_resolve := (z_resolve w0)(t := Map.empty), z_connecting := (z_connecting w0)(t := None)\<rparr>"
  note d = w_def w0_def
  have i: "inj (addrs w)" "\<And>n. zobjs w (addrs w n) = None" using assms(1) by (simp_all add: d world_ok_def)
  have ne: "addrs w 2 \<noteq> addrs w 0" using i(1) by (simp add: inj_eq)
  define w1 where "w1 = (array_world (e_hash E) t (e_self E t) (e_monitor E) w)
    \<lparr>g_shared_globals := Some (addrs w 0), z_shared_globals := (z_shared_globals w)(t := Some (addrs w 0))\<rparr>"
  have 1: "pmmpthread_init_thread_shared_globals E t w = Ret (True, w1)"
    unfolding w1_def using assms by (intro shared_globals_first) (simp_all add: d)
  define v where "v = w1\<lparr>z_resolve := (z_resolve w1)(u := Map.empty), z_connecting := (z_connecting w1)(u := None)\<rparr>"
  let ?z = "new_array t (e_self E t) (addrs w 1)" and ?ob = "new_shared (e_hash E) t (e_self E t)"
  have 2: "pmmpthread_init_thread_shared_globals E u v =
    Ret (True, (connected_world u (e_self E u) ?z ?ob v)\<lparr>z_shared_globals := (z_shared_globals v)(u := Some (addrs v 0))\<rparr>)"
    using assms i ne by (intro shared_globals_next [where a = "addrs w 0"]) (simp_all add: v_def w1_def array_world_def new_array_def d numeral_2_eq_2)
  have 3: "addrs v 0 \<noteq> addrs w 0" using ne by (simp add: v_def w1_def array_world_def numeral_2_eq_2)
  obtain mo1 th1 where r1: "PHP_RINIT_pmmpthread E t mo th = Ret (True, mo1, th1)" "cs_world (th_code th1) = w1" "th_options th1 = PMMPTHREAD_INHERIT_ALL"
    using 1 by (simp add: PHP_RINIT_pmmpthread_def Let_def d)
  define v2 where "v2 = (connected_world u (e_self E u) ?z ?ob v)\<lparr>z_shared_globals := (z_shared_globals v)(u := Some (addrs v 0))\<rparr>"
  obtain mo2 th2 where r2: "PHP_RINIT_pmmpthread E u mo1 (th'\<lparr>th_code := (th_code th')\<lparr>cs_world := cs_world (th_code th1)\<rparr>\<rparr>) = Ret (True, mo2, th2)"
    "cs_world (th_code th2) = v2" "th_options th2 = PMMPTHREAD_INHERIT_ALL"
    using 2 r1(2) by (simp add: PHP_RINIT_pmmpthread_def Let_def v_def v2_def)
  have "zobjs v (addrs w 0) = Some ?z" "z_shared_globals v t = Some (addrs w 0)" by (simp_all add: v_def w1_def array_world_def)
  then have "Thread_getSharedGlobals t v2 = Ret (addrs w 0)" "Thread_getSharedGlobals u v2 = Ret (addrs v 0)" "zobjs v2 (addrs w 0) = Some ?z"
    "zobjs v2 (addrs v 0) = Some (new_connection u (e_self E u) ?z ?ob)" "ts_objs v2 (zo_ts ?z) = Some (?ob\<lparr>o_refcount := o_refcount ?ob + 1\<rparr>)"
    using assms(3) 3 by (simp_all add: v2_def Thread_getSharedGlobals_def connected_world_def)
  moreover have "ident_ls (zo_owner ?z) = t" "o_refcount ?ob = 1" by (simp_all add: new_array_def new_shared_def)
  ultimately show ?thesis
    using r1 r2 by (intro exI [of _ mo1] exI [of _ th1] exI [of _ mo2] exI [of _ th2] exI [of _ "addrs w 0"] exI [of _ "addrs v 0"] exI [of _ ?z]
        exI [of _ "new_connection u (e_self E u) ?z ?ob"] exI [of _ "?ob\<lparr>o_refcount := o_refcount ?ob + 1\<rparr>"]) (simp add: new_connection_def)
qed

text \<open>
  A socket that is shared with other threads survives the release of a socket object: the original function is called with the descriptor -1;
  every other socket is released as before, and the tables stay as they are.
\<close>

lemma socket_release:
  assumes "mutex_avail 1 t (mon_mutex (g_monitor w))"
  shows "pmmpthread_socket_free_obj_hook t socket w =
    Ret (if bsd_socket socket \<ge> 0 \<and> bsd_socket socket \<in> g_shared_sockets w then socket\<lparr>bsd_socket := -1\<rparr> else socket, w)"
  using assms
  by (auto simp: pmmpthread_socket_free_obj_hook_def pmmpthread_globals_socket_shared_def globals_locked_eq [OF _ refl])

section \<open>Witnesses\<close>

definition demo_module :: pmmpthread_module where
  "demo_module = \<lparr>mo_sapi = ''cli'', mo_deactivate = Std_handler ''deactivate'', mo_classes = module_classes, mo_handlers = None, mo_instance = Some 3,
     mo_socket_create = Std_handler ''create_object'', mo_socket_original = Null_handler, mo_errors = []\<rparr>"

theorem shared_globals_agree_witness:
  "\<exists>mo1 th1 mo2 th2 a b. PHP_RINIT_pmmpthread demo_env 3 demo_module demo_thread = Ret (True, mo1, th1) \<and>
     PHP_RINIT_pmmpthread demo_env 4 mo1 (demo_thread\<lparr>th_code := (th_code demo_thread)\<lparr>cs_world := cs_world (th_code th1)\<rparr>\<rparr>) = Ret (True, mo2, th2) \<and>
     Thread_getSharedGlobals 3 (cs_world (th_code th2)) = Ret a \<and> Thread_getSharedGlobals 4 (cs_world (th_code th2)) = Ret b"
proof -
  have w: "cs_world (th_code demo_thread) = demo_kv" by (simp add: demo_thread_def demo_copy_state_def)
  have "world_ok (cs_world (th_code demo_thread))" "g_shared_globals (cs_world (th_code demo_thread)) = None" "(3 :: tid) \<noteq> 4"
    "mutex_avail 1 3 (mon_mutex (g_monitor (cs_world (th_code demo_thread))))" "mutex_avail 1 4 (mon_mutex (g_monitor (cs_world (th_code demo_thread))))"
    unfolding w using demo_world_ok by (simp_all add: demo_world_def)
  from shared_globals_agree [OF this, of demo_env demo_module demo_thread] show ?thesis by blast
qed

end
