(* ===== verification/Worker_Moves.thy ===== *)
theory Worker_Moves
  imports Worker_Threads
begin

text \<open>
  What a client that stacks tasks on a running worker may rely on whatever the worker does meanwhile: the moves of the worker between two
  critical sections of the client stack nothing, take back no refusal and use no free memory. Pools rest on it.
\<close>

section \<open>Memory of the queue\<close>

text \<open>Memory: an address that holds no item stays free through every operation except the insertion at it.\<close>

lemma item_upd_none: "item_upd a f m = Some m' \<Longrightarrow> cells m b = None \<Longrightarrow> cells m' b = None"
  by (auto simp: item_upd_def cell_upd_def split: option.splits)

lemma push_none: "pmmpthread_queue_push q a m = Some (q', m') \<Longrightarrow> cells m b = None \<Longrightarrow> cells m' b = None"
  by (auto simp: pmmpthread_queue_push_def set_prev_and_next_def bind_eq_Some_conv split: option.splits dest: item_upd_none)

lemma push_new_none:
  assumes "pmmpthread_queue_push_new q a j1 j2 v m = Some (q', m')" "cells m b = None" "b \<noteq> a"
  shows "cells m' b = None"
  using assms push_none [of q a "pmmpthread_queue_item_new a j1 j2 v m"]
  by (simp add: pmmpthread_queue_push_new_def pmmpthread_queue_item_new_def zval_addref_def)

lemma unlink_none: "queue_unlink q a it m = Some (q', m') \<Longrightarrow> cells m b = None \<Longrightarrow> cells m' b = None"
  by (auto simp: queue_unlink_def bind_eq_Some_conv split: option.splits if_splits dest: item_upd_none)

lemma efree_none: "efree a m = Some m' \<Longrightarrow> cells m b = None \<Longrightarrow> cells m' b = None"
  by (auto simp: efree_def split: option.splits)

lemma dtor_cells [simp]: "cells (zval_ptr_dtor v m) = cells m"
  by (simp add: zval_ptr_dtor_def)

lemma shift_none: "pmmpthread_queue_shift q want g m = Some (n, v, q', m') \<Longrightarrow> cells m b = None \<Longrightarrow> cells m' b = None"
  by (auto simp: pmmpthread_queue_shift_def pmmpthread_queue_remove_def bind_eq_Some_conv Let_def
      split: option.splits if_splits garbage.splits prod.splits dest!: unlink_none [where b = b] efree_none [where b = b])

lemma collect_loop_none:
  assumes "collect_loop sync coll p q m st n = Some (q', m', st', n')" "cells m b = None"
  shows "cells m' b = None"
proof -
  have "cells m b = None \<longrightarrow> cells (fst (snd (q', m', st', n'))) b = None"
    by (rule collect_loop.raw_induct [OF _ assms(1), where P = "\<lambda>sync coll p q m st n r. cells m b = None \<longrightarrow> cells (fst (snd r)) b = None"])
      (auto split: option.splits prod.splits if_splits dest: shift_none)
  then show ?thesis using assms(2) by simp
qed

lemma locked_none:
  assumes "locked t w body z = Ret (r, w')" "cells (w_mem w) b = None"
    and "\<And>m r w'. body (w\<lparr>w_monitor := m\<rparr>) = Ret (r, w') \<Longrightarrow> cells (w_mem w') b = None"
  shows "cells (w_mem w') b = None"
  using assms(1,2) by (auto simp: locked_def guarded_def outcome_simps split: if_splits dest: assms(3))

lemma add_task_none:
  assumes "pmmpthread_worker_add_task t a v w = Ret (n, w')" "cells (w_mem w) b = None" "b \<noteq> a"
  shows "cells (w_mem w') b = None"
  using assms(1) unfolding pmmpthread_worker_add_task_def
  by (rule locked_none) (use assms(2,3) in \<open>auto simp: Let_def outcome_simps push_new_none split: if_splits\<close>)

text \<open>A step that is not an insertion of the creator takes no memory of the worker.\<close>

lemma dequeue_none:
  assumes "pmmpthread_worker_dequeue_task t w = Ret (r, w')" "cells (w_mem w) b = None"
  shows "cells (w_mem w') b = None"
  using assms(1) unfolding pmmpthread_worker_dequeue_task_def
  by (rule locked_none) (use assms(2) in \<open>auto simp: outcome_simps shift_none\<close>)

lemma add_garbage_none:
  assumes "add_garbage_locked t w = Ret (r, w')" "cells (w_mem w) b = None"
  shows "cells (w_mem w') b = None"
  using assms(1) unfolding add_garbage_locked_def
  by (rule locked_none) (use assms(2) in \<open>auto simp: outcome_simps push_none split: option.splits\<close>)

lemma collect_none:
  assumes "pmmpthread_worker_collect_tasks sync coll t w = Ret (r, w')" "cells (w_mem w) b = None"
  shows "cells (w_mem w') b = None"
  using assms(1) unfolding pmmpthread_worker_collect_tasks_def
  by (rule locked_none) (use assms(2) in \<open>auto simp: outcome_simps Let_def collect_loop_none split: if_splits\<close>)

lemma next_task_collect_mem: "next_task_collect t w d = Ret (w', d') \<Longrightarrow> w_mem w' = w_mem w"
  by (auto simp: next_task_collect_def outcome_simps split: if_splits)

lemma next_task_take_none:
  assumes "next_task_take t w = Ret (r, w')" "cells (w_mem w) b = None"
  shows "cells (w_mem w') b = None"
  using assms by (auto simp: next_task_take_def outcome_simps shift_none split: if_splits option.splits)

lemma next_task_none:
  assumes "pmmpthread_worker_next_task t w d = Ret (r, w', d')" "cells (w_mem w) b = None"
  shows "cells (w_mem w') b = None"
proof -
  from assms(1) obtain m1 w1 d1 r1 w2 where c: "next_task_collect t (w\<lparr>w_monitor := m1\<rparr>) d = Ret (w1, d1)"
      "next_task_take t w1 = Ret (r1, w2)"
      "(case r1 of WaitForWork \<Rightarrow> Ret (r1, w2\<lparr>w_monitor := snd (pthread_cond_wait t (w_monitor w2))\<rparr>, d1)
         | _ \<Rightarrow> Ret (r1, w2\<lparr>w_monitor := snd (pmmpthread_monitor_unlock t (w_monitor w2))\<rparr>, d1)) = Ret (r, w', d')"
    unfolding pmmpthread_worker_next_task_def by (auto simp: outcome_simps simp del: next_result.case split: if_splits)
  have "w_mem w' = w_mem w2" using c(3) by (cases r1) auto
  then show ?thesis using next_task_collect_mem [OF c(1)] next_task_take_none [OF c(2)] assms(2) by simp
qed

section \<open>Moves between two calls of the creator\<close>

text \<open>
  A move of a worker beside a call of its creator to \<open>stack\<close>: any step of the worker thread or of its creator except the two halves of
  \<open>stack\<close>. It stacks nothing, a worker that refuses tasks goes on doing so, and no memory is taken.
\<close>

definition refuses :: "('v, 'c, 'o) worker_sys \<Rightarrow> bool" where
  "refuses s \<longleftrightarrow> mon_state (w_monitor (s_data s)) AND stack_refused \<noteq> 0"

definition worker_moves :: "tid \<Rightarrow> tid \<Rightarrow> ('v, 'c, 'o) worker_sys \<Rightarrow> ('v, 'c, 'o) worker_sys \<Rightarrow> bool" where
  "worker_moves c t s s' \<longleftrightarrow> worker_step c t s s' \<and> s_cpc s' = s_cpc s"

definition kept :: "('v, 'c, 'o) worker_sys \<Rightarrow> ('v, 'c, 'o) worker_sys \<Rightarrow> bool" where
  "kept s s' \<longleftrightarrow> h_stacked s' = h_stacked s \<and> s_cpc s' = s_cpc s \<and> (refuses s \<longrightarrow> refuses s') \<and>
     (\<forall>b. cells (w_mem (s_data s)) b = None \<longrightarrow> cells (w_mem (s_data s')) b = None)"

lemma kept_refl: "kept s s"
  by (simp add: kept_def)

lemma kept_trans: "kept s1 s2 \<Longrightarrow> kept s2 s3 \<Longrightarrow> kept s1 s3"
  by (auto simp: kept_def)

lemma or_refused: "st AND stack_refused \<noteq> 0 \<Longrightarrow> (st OR k) AND stack_refused \<noteq> 0"
  by (simp add: bit.conj_disj_distrib2 or_eq_0_iff)

lemma next_flags_refused: "next_flags st AND stack_refused = st AND stack_refused"
proof -
  have "NOT PMMPTHREAD_MONITOR_COLLECT_GARBAGE AND stack_refused = stack_refused"
    by (simp add: monitor_flag_defs stack_refused_def)
  then show ?thesis by (simp add: next_flags_def and.assoc)
qed

lemma kept_flags:
  assumes "mutex_avail (Suc 0) u (mon_mutex (w_monitor (s_data s)))" "pmmpthread_monitor_add u (w_monitor (s_data s)) k = Ret m"
  shows "kept s (s\<lparr>s_data := (s_data s)\<lparr>w_monitor := m\<rparr>\<rparr>)"
  using assms(2) [unfolded add_avail [OF assms(1)]] by (auto simp: kept_def refuses_def or_refused)

lemma kept_unstack:
  assumes "worker_inv t s" "Worker_unstack c c (s_data s) = Ret (Inr r, w)"
  shows "kept s (s\<lparr>s_data := w, h_taken := h\<rparr>)"
proof -
  have p: "worker_wf (s_data s)" "mutex_avail 1 c (mon_mutex (w_monitor (s_data s)))"
    using assms(1) by (simp_all add: worker_inv_defs mutex_free_avail1)
  obtain x where x: "pmmpthread_worker_dequeue_task c (s_data s) = Ret (x, w)"
    using assms(2) by (auto simp: Worker_unstack_def IN_CREATOR_def outcome_simps)
  from dequeue_refines [OF p] x have "w_monitor w = w_monitor (s_data s)" by auto
  then show ?thesis using dequeue_none [OF x] by (simp add: kept_def refuses_def)
qed

lemma kept_collect:
  assumes "worker_inv t s" "Worker_collect sync coll c c (s_data s) = Ret (Inr n, w)"
  shows "kept s (s\<lparr>s_data := w, h_collected := h\<rparr>)"
proof -
  have p: "worker_wf (s_data s)" "mutex_avail 2 c (mon_mutex (w_monitor (s_data s)))"
    using assms(1) by (simp_all add: worker_inv_defs mutex_free_avail)
  obtain k st' where sp: "collect_spec sync coll (finished (s_data s)) (w_store (s_data s)) = (k, st')" by fastforce
  obtain x where x: "pmmpthread_worker_collect_tasks sync coll c (s_data s) = Ret (x, w)"
    using assms(2) by (auto simp: Worker_collect_def IN_CREATOR_def outcome_simps)
  from collect_refines [OF p sp] x have "refuses s \<Longrightarrow> refuses (s\<lparr>s_data := w, h_collected := h\<rparr>)"
    by (auto simp: refuses_def or_refused)
  then show ?thesis using collect_none [OF x] by (simp add: kept_def)
qed

lemma kept_next_task:
  assumes "worker_inv t s" "s_pc s = AtNext \<or> s_pc s = Sleeping"
    and "pmmpthread_worker_next_task t (s_data s) (s_done s) = Ret (r, w, d)"
  shows "kept s (s\<lparr>s_data := w, s_done := d, s_pc := pc, h_taken := h\<rparr>)"
proof -
  have p: "worker_wf (s_data s)" "w_running (s_data s) = None" "mutex_avail 2 t (mon_mutex (w_monitor (s_data s)))"
    using assms(1,2) by (auto simp: worker_inv_defs mutex_free_avail)
  obtain ds where ds: "queue_rep (snd (s_done s)) (fst (s_done s)) ds"
    "length ds = length (finished (s_data s)) + w_tasks_collected (s_data s)"
    using assms(1,2) unfolding worker_inv_def inv_cache_def by auto
  from next_task_refines [OF p ds(1)] ds(2) assms(3)
  have "mon_state (w_monitor w) = next_flags (mon_state (w_monitor (s_data s)))" by auto
  then show ?thesis using next_task_none [OF assms(3)] by (simp add: kept_def refuses_def next_flags_refused)
qed

lemma kept_hand:
  assumes "worker_inv t s" "s_pc s = InTask v \<or> s_pc s = Failing v" "add_garbage_locked t (s_data s) = Ret (True, w)"
  shows "kept s (s\<lparr>s_data := w, s_pc := pc\<rparr>)"
proof -
  have "worker_wf (s_data s)" "current (s_data s) = Some v" "mutex_avail 1 t (mon_mutex (w_monitor (s_data s)))"
    using assms(1,2) by (auto simp: worker_inv_defs mutex_free_avail1)
  from add_garbage_refines [OF this] assms(3) have "w_monitor w = pmmpthread_monitor_notify (w_monitor (s_data s))" by auto
  then show ?thesis using add_garbage_none [OF assms(3)] by (simp add: kept_def refuses_def pmmpthread_monitor_notify_def)
qed

lemma worker_moves_kept:
  assumes "worker_moves c t s s'" "worker_inv t s"
  shows "worker_inv t s' \<and> kept s s'"
proof -
  have av: "mutex_avail (Suc 0) u (mon_mutex (w_monitor (s_data s)))" for u
    using assms(2) by (simp add: worker_inv_defs mutex_free_avail1)
  have st: "worker_step c t s s'" "s_cpc s' = s_cpc s" using assms(1) by (simp_all add: worker_moves_def)
  from st(1) have "kept s s'"
  proof (cases rule: worker_step.cases)
    case (stack_check m v)
    then show ?thesis using st(2) by simp
  next
    case (stack_add v a n w)
    then show ?thesis using st(2) by simp
  next
    case (unstack r w)
    then show ?thesis using kept_unstack [OF assms(2)] by blast
  next
    case (collect sync coll n w)
    then show ?thesis using kept_collect [OF assms(2)] by blast
  next
    case (shutdown m)
    then show ?thesis using kept_flags [OF av] by simp
  next
    case (next_task r w d)
    then show ?thesis using kept_next_task [OF assms(2)] by blast
  next
    case spurious
    then show ?thesis by (simp add: kept_def refuses_def pmmpthread_monitor_notify_one_def)
  next
    case (task_done v w)
    then show ?thesis using kept_hand [OF assms(2)] by blast
  next
    case (task_failed v m)
    then show ?thesis using kept_flags [OF av task_failed(3)] by (simp add: kept_def refuses_def)
  next
    case (failed_back v w)
    then show ?thesis using kept_hand [OF assms(2)] by blast
  next
    case (cache_task f a x d)
    then show ?thesis by (simp add: kept_def refuses_def)
  next
    case (await_join f m)
    then show ?thesis using kept_flags [OF av] by simp
  qed
  then show ?thesis using worker_inv_step [OF st(1) assms(2)] by simp
qed

lemma worker_moves_many:
  assumes "(worker_moves c t)\<^sup>*\<^sup>* s s'" "worker_inv t s"
  shows "worker_inv t s' \<and> kept s s'"
  using assms
proof (induction rule: rtranclp_induct)
  case base
  then show ?case by (simp add: kept_refl)
next
  case (step s1 s2)
  then show ?case using worker_moves_kept [OF step.hyps(2)] kept_trans by blast
qed

end
