(* ===== verification/Pool.thy ===== *)
theory Pool
  imports Worker_Moves "HOL-Library.AList"
begin

text \<open>
  The worker pool of classes/pool.c. A pool reaches its workers through method calls that user classes may override
  (\<open>start\<close>, \<open>stack\<close>, \<open>shutdown\<close>), so these calls are a parameter of the operations; what the
  pool needs of them is the locale \<open>pool_workers\<close>, which is interpreted on the running
  workers of src/worker.c, as the theories of the worker threads have them.
\<close>

section \<open>Data\<close>

text \<open>
  The properties of a pool. \<open>p_workers\<close> is \<open>None\<close> while the property is not an array; an array with integer keys is an association
  list in iteration order. \<open>p_class\<close> is \<open>None\<close> while it is not a string.
\<close>

record ('w, 'a) pool =
  p_size :: int
  p_class :: "string option"
  p_workers :: "(int \<times> 'w) list option"
  p_ctor :: "'a option"
  p_last :: int

datatype pool_error =
    NotAWorkerClass string
  | WorkerClassInvalid
  | WorkerClassNotFound string
  | SelectedWorkerMissing int

text \<open>
  The calls on workers, over the state of the process \<open>'g\<close>: making one (\<open>object_init_ex\<close>, the constructor with the
  given arguments, \<open>start\<close>), \<open>stack\<close>, \<open>shutdown\<close>, and \<open>pmmpthread_worker_collect_tasks\<close>. A call that throws
  leaves its exception in the state; the pool does not look at it.
\<close>

record ('w, 'a, 'v, 'g) worker_calls =
  wc_spawn :: "string \<Rightarrow> 'a option \<Rightarrow> 'g \<Rightarrow> 'w \<times> 'g"
  wc_stack :: "'w \<Rightarrow> 'v \<Rightarrow> 'g \<Rightarrow> 'g"
  wc_shutdown :: "'w \<Rightarrow> 'g \<Rightarrow> 'g"
  wc_collect :: "'w \<Rightarrow> 'g \<Rightarrow> int \<times> 'g"

section \<open>Operations\<close>

text \<open>The class name is stored even when it is refused. \<open>worker_class\<close> is the name of the class \<open>Worker\<close>.\<close>

definition Pool_construct ::
  "string \<Rightarrow> (string \<Rightarrow> bool) \<Rightarrow> int \<Rightarrow> string option \<Rightarrow> 'a option \<Rightarrow> ('w, 'a) pool \<Rightarrow> pool_error option \<times> ('w, 'a) pool"
where
  "Pool_construct worker_class is_worker new_size clazz ctor p =
     (let c = (case clazz of None \<Rightarrow> worker_class | Some c \<Rightarrow> c) in
      (if is_worker c then None else Some (NotAWorkerClass c),
       p\<lparr>p_size := new_size, p_class := Some c, p_ctor := (case ctor of None \<Rightarrow> p_ctor p | Some a \<Rightarrow> Some a)\<rparr>))"

text \<open>The loop of \<open>resize\<close>. It runs until the number of workers is the new size; not returning is \<open>None\<close>.\<close>

partial_function (option) resize_loop ::
  "('w \<Rightarrow> 'g \<Rightarrow> 'g) \<Rightarrow> int \<Rightarrow> (int \<times> 'w) list \<Rightarrow> 'g \<Rightarrow> ((int \<times> 'w) list \<times> 'g) option"
where
  [code]: "resize_loop shutdown newsize ws g =
     (let top = int (length ws);
          g1 = (case map_of ws (top - 1) of Some w \<Rightarrow> shutdown w g | None \<Rightarrow> g);
          ws1 = AList.delete (top - 1) ws
      in if int (length ws1) \<noteq> newsize then resize_loop shutdown newsize ws1 g1 else Some (ws1, g1))"

definition Pool_resize ::
  "('w, 'a, 'v, 'g) worker_calls \<Rightarrow> int \<Rightarrow> ('w, 'a) pool \<Rightarrow> 'g \<Rightarrow> (('w, 'a) pool \<times> 'g) option"
where
  "Pool_resize W newsize p g =
     (case p_workers p of
        None \<Rightarrow> Some (p\<lparr>p_size := newsize\<rparr>, g)
      | Some ws \<Rightarrow>
          if newsize < int (length ws) then
            (case resize_loop (wc_shutdown W) newsize ws g of
               None \<Rightarrow> None
             | Some (ws1, g1) \<Rightarrow> Some (p\<lparr>p_workers := Some ws1, p_size := newsize\<rparr>, g1))
          else Some (p\<lparr>p_size := newsize\<rparr>, g))"

text \<open>
  \<open>class_exists\<close> is the engine's class lookup. The worker chosen is the one after the last used; it is made when it does not exist.
\<close>

definition Pool_submit ::
  "(string \<Rightarrow> bool) \<Rightarrow> ('w, 'a, 'v, 'g) worker_calls \<Rightarrow> 'v \<Rightarrow> ('w, 'a) pool \<Rightarrow> 'g \<Rightarrow> (pool_error + int) \<times> ('w, 'a) pool \<times> 'g"
where
  "Pool_submit class_exists W task p g =
     (let ws = (case p_workers p of None \<Rightarrow> [] | Some ws \<Rightarrow> ws);
          idx = (if p_last p \<ge> p_size p then 0 else p_last p);
          p1 = p\<lparr>p_workers := Some ws, p_last := idx\<rparr>
      in case map_of ws idx of
           Some w \<Rightarrow> (Inr idx, p1\<lparr>p_last := idx + 1\<rparr>, wc_stack W w task g)
         | None \<Rightarrow>
             (case p_class p of
                None \<Rightarrow> (Inl WorkerClassInvalid, p1, g)
              | Some c \<Rightarrow>
                  if \<not> class_exists c then (Inl (WorkerClassNotFound c), p1, g)
                  else
                    (case wc_spawn W c (p_ctor p) g of
                       (w, g1) \<Rightarrow>
                         (Inr idx, p1\<lparr>p_workers := Some (AList.update idx w ws), p_last := idx + 1\<rparr>,
                          wc_stack W w task g1))))"

definition Pool_submitTo ::
  "('w, 'a, 'v, 'g) worker_calls \<Rightarrow> int \<Rightarrow> 'v \<Rightarrow> ('w, 'a) pool \<Rightarrow> 'g \<Rightarrow> (pool_error + int) \<times> ('w, 'a) pool \<times> 'g"
where
  "Pool_submitTo W worker task p g =
     (let ws = (case p_workers p of None \<Rightarrow> [] | Some ws \<Rightarrow> ws);
          p1 = p\<lparr>p_workers := Some ws\<rparr>
      in case map_of ws worker of
           Some w \<Rightarrow> (Inr worker, p1, wc_stack W w task g)
         | None \<Rightarrow> (Inl (SelectedWorkerMissing worker), p1, g))"

primrec collect_workers :: "('w \<Rightarrow> 'g \<Rightarrow> int \<times> 'g) \<Rightarrow> (int \<times> 'w) list \<Rightarrow> int \<Rightarrow> 'g \<Rightarrow> int \<times> 'g" where
  "collect_workers collect [] collectable g = (collectable, g)"
| "collect_workers collect (kw # ws) collectable g =
     (case collect (snd kw) g of (n, g1) \<Rightarrow> collect_workers collect ws (collectable + n) g1)"

definition Pool_collect :: "('w, 'a, 'v, 'g) worker_calls \<Rightarrow> ('w, 'a) pool \<Rightarrow> 'g \<Rightarrow> int \<times> 'g" where
  "Pool_collect W p g =
     (case p_workers p of None \<Rightarrow> (0, g) | Some ws \<Rightarrow> collect_workers (wc_collect W) ws 0 g)"

text \<open>\<open>zend_hash_apply\<close> with a function that always asks for removal, from the first worker to the last.\<close>

definition pmmpthread_pool_shutdown_worker :: "('w, 'a, 'v, 'g) worker_calls \<Rightarrow> 'w \<Rightarrow> 'g \<Rightarrow> bool \<times> 'g" where
  "pmmpthread_pool_shutdown_worker W w g = (True, wc_shutdown W w g)"

primrec hash_apply :: "('w \<Rightarrow> 'g \<Rightarrow> bool \<times> 'g) \<Rightarrow> (int \<times> 'w) list \<Rightarrow> 'g \<Rightarrow> (int \<times> 'w) list \<times> 'g" where
  "hash_apply f [] g = ([], g)"
| "hash_apply f (kw # ws) g =
     (case f (snd kw) g of
        (remove, g1) \<Rightarrow> (case hash_apply f ws g1 of (ws1, g2) \<Rightarrow> (if remove then ws1 else kw # ws1, g2)))"

definition pmmpthread_pool_shutdown :: "('w, 'a, 'v, 'g) worker_calls \<Rightarrow> ('w, 'a) pool \<Rightarrow> 'g \<Rightarrow> ('w, 'a) pool \<times> 'g" where
  "pmmpthread_pool_shutdown W p g =
     (case p_workers p of
        None \<Rightarrow> (p, g)
      | Some ws \<Rightarrow>
          (case (if ws \<noteq> [] then hash_apply (pmmpthread_pool_shutdown_worker W) ws g else (ws, g)) of
             (ws1, g1) \<Rightarrow> (p\<lparr>p_workers := Some []\<rparr>, g1)))"

definition Pool_shutdown :: "('w, 'a, 'v, 'g) worker_calls \<Rightarrow> ('w, 'a) pool \<Rightarrow> 'g \<Rightarrow> ('w, 'a) pool \<times> 'g" where
  "Pool_shutdown W p g = pmmpthread_pool_shutdown W p g"

section \<open>Resizing\<close>

text \<open>A shrinking pool whose keys are the numbers below its size: the workers from the top down are shut down and removed.\<close>

definition dense :: "(int \<times> 'w) list \<Rightarrow> bool" where
  "dense ws \<longleftrightarrow> distinct (map fst ws) \<and> set (map fst ws) = {0 ..< int (length ws)}"

primrec shut_down :: "('w \<Rightarrow> 'g \<Rightarrow> 'g) \<Rightarrow> (int \<times> 'w) list \<Rightarrow> nat \<Rightarrow> nat \<Rightarrow> 'g \<Rightarrow> 'g" where
  "shut_down shutdown ws k 0 g = g"
| "shut_down shutdown ws k (Suc n) g =
     shut_down shutdown ws k n (shutdown (the (map_of ws (int (k + n)))) g)"

lemma delete_length:
  assumes "distinct (map fst ws)" "k \<in> set (map fst ws)"
  shows "Suc (length (AList.delete k ws)) = length ws"
proof -
  have "length (AList.delete k ws) = length (removeAll k (map fst ws))" by (metis delete_keys length_map)
  also have "\<dots> = length ws - 1" using assms by (metis distinct_remove1_removeAll length_map length_remove1)
  finally show ?thesis using assms(2) by (cases ws) auto
qed

lemma dense_top:
  assumes "dense ws" "length ws = Suc n"
  shows "\<exists>w. map_of ws (int n) = Some w" "dense (AList.delete (int n) ws)" "length (AList.delete (int n) ws) = n"
proof -
  have k: "int n \<in> set (map fst ws)" using assms by (auto simp: dense_def)
  then show "\<exists>w. map_of ws (int n) = Some w" by (cases "map_of ws (int n)") (auto simp: map_of_eq_None_iff)
  have d: "distinct (map fst ws)" "set (map fst ws) = {0 ..< int (Suc n)}" using assms by (simp_all add: dense_def)
  show l: "length (AList.delete (int n) ws) = n" using delete_length [OF d(1) k] assms(2) by simp
  have "set (map fst (AList.delete (int n) ws)) = {0 ..< int n}"
    unfolding delete_keys set_removeAll d(2) by auto
  then show "dense (AList.delete (int n) ws)"
    using d(1) l by (simp add: dense_def distinct_delete del: set_map)
qed

lemma resize_loop_dense:
  assumes "dense ws" "length ws = k + Suc n"
  shows "\<exists>ws1. resize_loop shutdown (int k) ws g = Some (ws1, shut_down shutdown ws k (Suc n) g) \<and> dense ws1 \<and>
    length ws1 = k \<and> (\<forall>i. 0 \<le> i \<and> i < int k \<longrightarrow> map_of ws1 i = map_of ws i)"
  using assms
proof (induction n arbitrary: ws g)
  case 0
  then obtain w where w: "map_of ws (int k) = Some w" "dense (AList.delete (int k) ws)" "length (AList.delete (int k) ws) = k"
    using dense_top [OF 0(1), of k] by auto
  then show ?case using 0
    by (subst resize_loop.simps) (auto simp: Let_def delete_conv')
next
  case (Suc n)
  have l: "length ws = Suc (k + Suc n)" using Suc.prems(2) by simp
  obtain w where w: "map_of ws (int (k + Suc n)) = Some w" using dense_top(1) [OF Suc.prems(1) l] by auto
  let ?ws = "AList.delete (int (k + Suc n)) ws"
  have d: "dense ?ws" "length ?ws = k + Suc n" using dense_top(2,3) [OF Suc.prems(1) l] by auto
  from Suc.IH [OF d, of "shutdown w g"] obtain ws1 where
    ws1: "resize_loop shutdown (int k) ?ws (shutdown w g) = Some (ws1, shut_down shutdown ?ws k (Suc n) (shutdown w g))"
      "dense ws1" "length ws1 = k" "\<forall>i. 0 \<le> i \<and> i < int k \<longrightarrow> map_of ws1 i = map_of ?ws i" by auto
  have same: "shut_down shutdown ?ws k j h = shut_down shutdown ws k j h" if "j \<le> Suc n" for j h
    using that by (induction j arbitrary: h) (auto simp: delete_conv')
  have "resize_loop shutdown (int k) ws g = resize_loop shutdown (int k) ?ws (shutdown w g)"
    using w l d(2) by (subst resize_loop.simps) (simp add: Let_def algebra_simps)
  then show ?case
    using ws1 w same by (auto simp: delete_conv' algebra_simps)
qed

text \<open>A negative size is never reached.\<close>

lemma resize_loop_negative: "resize_loop shutdown newsize ws g = Some r \<Longrightarrow> 0 \<le> newsize"
  by (rule resize_loop.raw_induct [of "\<lambda>shutdown newsize ws g r. 0 \<le> newsize"])
    (auto simp: Let_def split: if_splits)

section \<open>What a pool needs of its workers\<close>

text \<open>
  A new worker is none of the old ones and has been given no task; \<open>stack\<close> gives a task to that worker and to no other, or the worker
  refuses it, and a worker that refuses does so from then on. The workers run meanwhile, so what is counted is what was given to each.
\<close>

locale pool_workers =
  fixes W :: "('w, 'a, 'v, 'g) worker_calls"
    and ok :: "'g \<Rightarrow> bool"
    and alive :: "'g \<Rightarrow> 'w set"
    and stacked :: "'g \<Rightarrow> 'w \<Rightarrow> 'v list"
    and refusing :: "'g \<Rightarrow> 'w \<Rightarrow> bool"
  assumes spawn: "ok g \<Longrightarrow> wc_spawn W c a g = (w, g') \<Longrightarrow>
      ok g' \<and> w \<notin> alive g \<and> alive g' = insert w (alive g) \<and> stacked g' w = [] \<and>
      (\<forall>u \<in> alive g. stacked g' u = stacked g u \<and> (refusing g u \<longrightarrow> refusing g' u))"
    and stack: "ok g \<Longrightarrow> w \<in> alive g \<Longrightarrow>
      ok (wc_stack W w v g) \<and> alive (wc_stack W w v g) = alive g \<and>
      (stacked (wc_stack W w v g) w = stacked g w @ [v] \<and> \<not> refusing g w \<or>
       stacked (wc_stack W w v g) w = stacked g w \<and> refusing (wc_stack W w v g) w) \<and>
      (\<forall>u \<in> alive g. (refusing g u \<longrightarrow> refusing (wc_stack W w v g) u) \<and>
         (u \<noteq> w \<longrightarrow> stacked (wc_stack W w v g) u = stacked g u))"

text \<open>The tasks \<open>ys\<close> given to a worker out of its share \<open>zs\<close>: all of them, or those before its refusal.\<close>

definition given :: "bool \<Rightarrow> 'v list \<Rightarrow> 'v list \<Rightarrow> bool" where
  "given refused ys zs \<longleftrightarrow> (\<exists>rest. zs = ys @ rest \<and> (\<not> refused \<longrightarrow> rest = []))"

lemma given_same: "given r ys ys"
  by (simp add: given_def)

lemma given_mono: "given r ys zs \<Longrightarrow> (r \<longrightarrow> r') \<Longrightarrow> given r' ys zs"
  by (auto simp: given_def)

lemma given_more: "given r ys zs \<Longrightarrow> \<not> r \<Longrightarrow> given r' (ys @ [x]) (zs @ [x])"
  by (auto simp: given_def)

lemma given_refused: "given r ys zs \<Longrightarrow> given True ys (zs @ [x])"
  by (auto simp: given_def)

text \<open>The tasks of worker \<open>i\<close> when the tasks \<open>xs\<close> go round \<open>k\<close> workers.\<close>

definition share :: "nat \<Rightarrow> nat \<Rightarrow> 'v list \<Rightarrow> 'v list" where
  "share k i xs = map ((!) xs) (filter (\<lambda>j. j mod k = i) [0 ..< length xs])"

lemma share_Nil [simp]: "share k i [] = []"
  by (simp add: share_def)

lemma share_snoc: "share k i (xs @ [x]) = share k i xs @ (if length xs mod k = i then [x] else [])"
  by (auto simp: share_def nth_append)

primrec Pool_submits ::
  "(string \<Rightarrow> bool) \<Rightarrow> ('w, 'a, 'v, 'g) worker_calls \<Rightarrow> 'v list \<Rightarrow> ('w, 'a) pool \<Rightarrow> 'g \<Rightarrow>
     (pool_error + int) list \<times> ('w, 'a) pool \<times> 'g"
where
  "Pool_submits class_exists W [] p g = ([], p, g)"
| "Pool_submits class_exists W (x # xs) p g =
     (case Pool_submit class_exists W x p g of
        (r, p1, g1) \<Rightarrow> (case Pool_submits class_exists W xs p1 g1 of (rs, p2, g2) \<Rightarrow> (r # rs, p2, g2)))"

text \<open>A pool of size zero or less still makes one worker.\<close>

definition pool_width :: "int \<Rightarrow> nat" where
  "pool_width n = max 1 (nat n)"

definition pool_index :: "('w, 'a) pool \<Rightarrow> int" where
  "pool_index p = (if p_last p \<ge> p_size p then 0 else p_last p)"

definition pool_list :: "('w, 'a) pool \<Rightarrow> (int \<times> 'w) list" where
  "pool_list p = (case p_workers p of None \<Rightarrow> [] | Some ws \<Rightarrow> ws)"

lemma pool_index_Suc:
  assumes "pool_width sz = k"
  shows "(if int (n mod k) + 1 \<ge> sz then 0 else int (n mod k) + 1) = int (Suc n mod k)"
proof -
  define r where "r = n mod k"
  have k: "0 < k" "r < k" "int r + 1 \<ge> sz \<longleftrightarrow> Suc r = k"
    using assms mod_less_divisor [of k n] unfolding r_def [symmetric] pool_width_def by linarith+
  then show ?thesis by (simp add: r_def [symmetric] mod_Suc)
qed

lemma pool_index_next:
  assumes "v = int (n mod pool_width (p_size p))"
  shows "pool_index (p\<lparr>p_workers := x, p_last := v + 1\<rparr>) = int (Suc n mod pool_width (p_size p))"
proof -
  have "pool_index (p\<lparr>p_workers := x, p_last := v + 1\<rparr>) = (if v + 1 \<ge> p_size p then 0 else v + 1)"
    by (simp add: pool_index_def)
  also have "\<dots> = int (Suc n mod pool_width (p_size p))" unfolding assms by (rule pool_index_Suc [OF refl])
  finally show ?thesis .
qed

context pool_workers
begin

text \<open>The pool after the tasks \<open>xs\<close> have been submitted: the workers exist as far as they were needed, each given its share.\<close>

definition fed :: "(string \<Rightarrow> bool) \<Rightarrow> 'v list \<Rightarrow> ('w, 'a) pool \<Rightarrow> 'g \<Rightarrow> bool" where
  "fed class_exists xs p g \<longleftrightarrow>
     ok g \<and> (\<exists>c. p_class p = Some c \<and> class_exists c) \<and>
     pool_index p = int (length xs mod pool_width (p_size p)) \<and>
     (\<forall>i. (map_of (pool_list p) (int i) \<noteq> None) = (i < min (pool_width (p_size p)) (length xs))) \<and>
     (\<forall>i w. map_of (pool_list p) (int i) = Some w \<longrightarrow>
        w \<in> alive g \<and> given (refusing g w) (stacked g w) (share (pool_width (p_size p)) i xs)) \<and>
     (\<forall>i j w. map_of (pool_list p) (int i) = Some w \<longrightarrow> map_of (pool_list p) (int j) = Some w \<longrightarrow> i = j)"

lemma fed_fresh:
  "ok g \<Longrightarrow> p_class p = Some c \<Longrightarrow> class_exists c \<Longrightarrow> p_workers p = None \<Longrightarrow> p_last p = 0 \<Longrightarrow> fed class_exists [] p g"
  by (auto simp: fed_def pool_index_def pool_list_def)

lemma fed_spawn:
  assumes "fed class_exists xs p g" "map_of (pool_list p) (pool_index p) = None" "wc_spawn W c a g = (w, g')"
  shows "ok g'" "w \<in> alive g'" "stacked g' w = []" "length xs < pool_width (p_size p)" "length xs mod pool_width (p_size p) = length xs"
    "\<And>i u. map_of (pool_list p) (int i) = Some u \<Longrightarrow> u \<noteq> w \<and> u \<in> alive g' \<and> given (refusing g' u) (stacked g' u) (share (pool_width (p_size p)) i xs)"
proof -
  note f = assms(1) [unfolded fed_def]
  note sp = spawn [OF _ assms(3)]
  show "ok g'" "w \<in> alive g'" "stacked g' w = []" using f sp by auto
  have "0 < pool_width (p_size p)" by (simp add: pool_width_def)
  then have "length xs mod pool_width (p_size p) < pool_width (p_size p)" by simp
  moreover have "\<not> length xs mod pool_width (p_size p) < min (pool_width (p_size p)) (length xs)"
    using f assms(2) by metis
  ultimately show "length xs < pool_width (p_size p)"
    by (metis linorder_not_less min_less_iff_conj mod_if mod_less_eq_dividend nat_less_le)
  then show "length xs mod pool_width (p_size p) = length xs" by simp
  show "\<And>i u. map_of (pool_list p) (int i) = Some u \<Longrightarrow> u \<noteq> w \<and> u \<in> alive g' \<and> given (refusing g' u) (stacked g' u) (share (pool_width (p_size p)) i xs)"
    using f sp by (metis given_mono insert_iff)
qed

text \<open>One submission, when the worker exists and when it has to be made.\<close>

lemma fed_submit_old:
  assumes "fed class_exists xs p g" "map_of (pool_list p) (pool_index p) = Some w"
  shows "Pool_submit class_exists W x p g =
      (Inr (pool_index p), p\<lparr>p_workers := Some (pool_list p), p_last := pool_index p + 1\<rparr>, wc_stack W w x g)"
    and "fed class_exists (xs @ [x]) (p\<lparr>p_workers := Some (pool_list p), p_last := pool_index p + 1\<rparr>) (wc_stack W w x g)"
proof -
  let ?k = "pool_width (p_size p)" and ?p = "p\<lparr>p_workers := Some (pool_list p), p_last := pool_index p + 1\<rparr>"
  note f = assms(1) [unfolded fed_def]
  have i: "pool_index p = int (length xs mod ?k)" using f by simp
  show "Pool_submit class_exists W x p g = (Inr (pool_index p), ?p, wc_stack W w x g)"
    using assms(2) by (simp add: Pool_submit_def pool_list_def [symmetric] pool_index_def [symmetric] Let_def)
  note w = f [THEN conjunct2, THEN conjunct2, THEN conjunct2, THEN conjunct2, THEN conjunct1, rule_format, OF assms(2) [unfolded i]]
  note st = stack [of g w x, OF f [THEN conjunct1] w [THEN conjunct1]]
  have l: "pool_list ?p = pool_list p" by (simp add: pool_list_def)
  have idx: "pool_index ?p = int (length (xs @ [x]) mod ?k)"
    using pool_index_next [OF i] by simp
  have "length xs mod ?k < min ?k (length xs)" using f assms(2) i by (metis option.simps(3))
  then have "?k \<le> length xs" by (metis min_less_iff_conj mod_less nat_neq_iff not_le)
  then have dom: "(map_of (pool_list p) (int j) \<noteq> None) = (j < min ?k (length (xs @ [x])))" for j using f by auto
  have "u \<in> alive (wc_stack W w x g) \<and> given (refusing (wc_stack W w x g) u) (stacked (wc_stack W w x g) u) (share ?k j (xs @ [x]))"
    if u: "map_of (pool_list p) (int j) = Some u" for j u
  proof (cases "j = length xs mod ?k")
    case True
    then have "u = w" using u assms(2) i by simp
    then show ?thesis using w st True by (auto simp: share_snoc intro: given_more given_refused)
  next
    case False
    then have "u \<noteq> w" using f u assms(2) i by metis
    moreover have old: "u \<in> alive g" "given (refusing g u) (stacked g u) (share ?k j xs)" using f u by simp_all
    ultimately have "stacked (wc_stack W w x g) u = stacked g u" "refusing g u \<longrightarrow> refusing (wc_stack W w x g) u" using st by simp_all
    then show ?thesis using given_mono [OF old(2)] old(1) st False by (simp add: share_snoc)
  qed
  then show "fed class_exists (xs @ [x]) ?p (wc_stack W w x g)"
    using f st idx dom unfolding fed_def l by simp
qed

lemma fed_submit_new:
  assumes "fed class_exists xs p g" "map_of (pool_list p) (pool_index p) = None" "p_class p = Some c"
    and "wc_spawn W c (p_ctor p) g = (w, g')"
  defines "p' \<equiv> p\<lparr>p_workers := Some (AList.update (pool_index p) w (pool_list p)), p_last := pool_index p + 1\<rparr>"
  shows "Pool_submit class_exists W x p g = (Inr (pool_index p), p', wc_stack W w x g')"
    and "fed class_exists (xs @ [x]) p' (wc_stack W w x g')"
proof -
  let ?k = "pool_width (p_size p)"
  note f = assms(1) [unfolded fed_def] and sp = fed_spawn [OF assms(1,2,4)]
  have i: "pool_index p = int (length xs mod ?k)" "pool_index p = int (length xs)" using f sp(5) by simp_all
  show "Pool_submit class_exists W x p g = (Inr (pool_index p), p', wc_stack W w x g')"
    using assms(2-4) f
    by (auto simp: Pool_submit_def pool_list_def [symmetric] pool_index_def [symmetric] Let_def p'_def)
  note st = stack [OF sp(1,2), of x]
  have l: "map_of (pool_list p') = (map_of (pool_list p))(int (length xs) \<mapsto> w)"
    using i(2) by (auto simp: p'_def pool_list_def update_conv')
  have p': "p_size p' = p_size p" "p_class p' = p_class p" "pool_index p' = int (length (xs @ [x]) mod ?k)"
    using pool_index_next [OF i(1)] by (simp_all add: p'_def)
  have dom: "(map_of (pool_list p') (int j) \<noteq> None) = (j < min ?k (length (xs @ [x])))" for j
    using f sp(4) unfolding l by auto
  have none: "share ?k (length xs) xs = []"
    using sp(4) by (auto simp: share_def filter_empty_conv)
  have own: "u \<in> alive (wc_stack W w x g') \<and> given (refusing (wc_stack W w x g') u) (stacked (wc_stack W w x g') u) (share ?k j (xs @ [x]))"
    if u: "map_of (pool_list p') (int j) = Some u" for j u
  proof (cases "j = length xs")
    case True
    then have "u = w" using u unfolding l by simp
    then show ?thesis
      using True st sp(2,3,5) none given_same [of _ "[x]"] given_refused [OF given_same [of True "[]"], of x]
      by (auto simp: share_snoc)
  next
    case False
    then have old: "map_of (pool_list p) (int j) = Some u" using u unfolding l by simp
    note o = sp(6) [OF old]
    then have "stacked (wc_stack W w x g') u = stacked g' u" "refusing g' u \<longrightarrow> refusing (wc_stack W w x g') u" using st by simp_all
    then show ?thesis using given_mono [OF o [THEN conjunct2, THEN conjunct2]] o st False sp(5) by (simp add: share_snoc)
  qed
  have inj: "j = j'" if "map_of (pool_list p') (int j) = Some u" "map_of (pool_list p') (int j') = Some u" for j j' u
    using that f sp(6) unfolding l by (auto split: if_splits)
  show "fed class_exists (xs @ [x]) p' (wc_stack W w x g')"
    unfolding fed_def p'(1,2) using f st p'(3) dom own inj by (metis (full_types))
qed

lemma fed_submit:
  assumes "fed class_exists xs p g"
  shows "\<exists>p' g'. Pool_submit class_exists W x p g = (Inr (int (length xs mod pool_width (p_size p))), p', g') \<and>
    p_size p' = p_size p \<and> fed class_exists (xs @ [x]) p' g'"
proof -
  have i: "pool_index p = int (length xs mod pool_width (p_size p))" using assms by (simp add: fed_def)
  show ?thesis
  proof (cases "map_of (pool_list p) (pool_index p)")
    case None
    obtain c where c: "p_class p = Some c" using assms by (auto simp: fed_def)
    obtain w g' where w: "wc_spawn W c (p_ctor p) g = (w, g')" by fastforce
    show ?thesis using fed_submit_new [OF assms None c w, of x] i by auto
  next
    case (Some w)
    show ?thesis using fed_submit_old [OF assms Some, of x] i by auto
  qed
qed

lemma fed_submits:
  assumes "fed class_exists xs p g"
  shows "\<exists>p' g'. Pool_submits class_exists W ys p g =
      (map (\<lambda>j. Inr (int (j mod pool_width (p_size p)))) [length xs ..< length xs + length ys], p', g') \<and>
    p_size p' = p_size p \<and> fed class_exists (xs @ ys) p' g'"
  using assms
proof (induction ys arbitrary: xs p g)
  case (Cons y ys)
  obtain p1 g1 where 1: "Pool_submit class_exists W y p g = (Inr (int (length xs mod pool_width (p_size p))), p1, g1)"
    "p_size p1 = p_size p" "fed class_exists (xs @ [y]) p1 g1" using fed_submit [OF Cons.prems, of y] by auto
  have u: "[length xs ..< length xs + length (y # ys)] = length xs # [length (xs @ [y]) ..< length (xs @ [y]) + length ys]"
    by (simp add: upt_conv_Cons del: upt_Suc)
  from Cons.IH [OF 1(3)] obtain p2 g2 where "Pool_submits class_exists W ys p1 g1 =
      (map (\<lambda>j. Inr (int (j mod pool_width (p_size p)))) [length (xs @ [y]) ..< length (xs @ [y]) + length ys], p2, g2)"
    "p_size p2 = p_size p" "fed class_exists (xs @ y # ys) p2 g2" using 1(2) by auto
  then show ?case unfolding u using 1(1) by simp
qed simp

end

section \<open>Pools of the workers of src/worker.c\<close>

text \<open>
  The workers of a pool with their running threads, by number; the addresses not used yet for queue items; and how often the owner
  of the pool has been interrupted.
\<close>

record ('v, 'c, 'o) crew =
  crew_workers :: "('v, 'c, 'o) worker_sys list"
  crew_next :: addr
  crew_clock :: nat

text \<open>
  A schedule says which moves worker \<open>i\<close> makes at the \<open>k\<close>-th interruption of the owner \<open>c\<close> of the pool. Moves that are not possible
  there are skipped, as are the two halves of \<open>stack\<close>, which are the owner's. \<open>t i\<close> is the thread of worker \<open>i\<close>. Since every step
  is a move, every interleaving of the workers with their owner is the one of some schedule.
\<close>

type_synonym ('v, 'c, 'o) schedule = "nat \<Rightarrow> nat \<Rightarrow> ('v, 'c, 'o) worker_move list"

fun run_moves ::
  "tid \<Rightarrow> tid \<Rightarrow> ('v, 'c, 'o) worker_move list \<Rightarrow> ('v, 'c, 'o) worker_sys \<Rightarrow> ('v, 'c, 'o) worker_sys"
where
  "run_moves c t [] s = s"
| "run_moves c t (mv # mvs) s =
     run_moves c t mvs
       (case worker_exec c t mv s of None \<Rightarrow> s | Some s' \<Rightarrow> if s_cpc s' = s_cpc s then s' else s)"

definition crew_run ::
  "tid \<Rightarrow> (nat \<Rightarrow> tid) \<Rightarrow> ('v, 'c, 'o) schedule \<Rightarrow> nat \<Rightarrow> ('v, 'c, 'o) worker_sys list \<Rightarrow> ('v, 'c, 'o) worker_sys list"
where
  "crew_run c t sched k ss = map (\<lambda>(i, s). run_moves c (t i) (sched k i) s) (enumerate 0 ss)"

text \<open>
  Calling \<open>stack\<close> of a worker: the workers run, the flags are tested, the workers run, the task is inserted. When the test refuses
  the task, the call throws, and the workers are as they were.
\<close>

definition crew_stack ::
  "tid \<Rightarrow> (nat \<Rightarrow> tid) \<Rightarrow> ('v, 'c, 'o) schedule \<Rightarrow> nat \<Rightarrow> 'v \<Rightarrow> ('v, 'c, 'o) crew \<Rightarrow> ('v, 'c, 'o) crew"
where
  "crew_stack c t sched w v g =
     (let k = crew_clock g; ss = crew_run c t sched k (crew_workers g); g1 = g\<lparr>crew_workers := ss, crew_clock := k + 1\<rparr>
      in case worker_exec c (t w) (MCheck v) (ss ! w) of
           None \<Rightarrow> g1
         | Some s \<Rightarrow>
             (let ss1 = crew_run c t sched (k + 1) (ss[w := s]); g2 = g\<lparr>crew_workers := ss1, crew_clock := k + 2\<rparr>
              in case worker_exec c (t w) (MAdd (crew_next g)) (ss1 ! w) of
                   None \<Rightarrow> g2
                 | Some s1 \<Rightarrow> g2\<lparr>crew_workers := ss1[w := s1], crew_next := crew_next g + 1\<rparr>))"

text \<open>
  The calls of a pool on such workers. A new worker is started, its thread is at the top of its loop; a start that fails is not
  among the cases. \<open>mo\<close> is the monitor of a new object and \<open>st\<close> the state of the stores. Submitting neither shuts down nor
  collects, so these two calls are arbitrary.
\<close>

definition started_monitor :: "tid \<Rightarrow> pmmpthread_monitor_t \<Rightarrow> pmmpthread_monitor_t" where
  "started_monitor c mo = (case pmmpthread_monitor_add c mo PMMPTHREAD_MONITOR_STARTED of Ret m \<Rightarrow> m | _ \<Rightarrow> mo)"

definition crew_calls ::
  "tid \<Rightarrow> (nat \<Rightarrow> tid) \<Rightarrow> pmmpthread_monitor_t \<Rightarrow> 'o \<Rightarrow>
     ('v, 'c, 'o) schedule \<Rightarrow> (nat \<Rightarrow> ('v, 'c, 'o) crew \<Rightarrow> ('v, 'c, 'o) crew) \<Rightarrow> (nat \<Rightarrow> ('v, 'c, 'o) crew \<Rightarrow> int \<times> ('v, 'c, 'o) crew) \<Rightarrow>
     (nat, 'a, 'v, ('v, 'c, 'o) crew) worker_calls"
where
  "crew_calls c t mo st sched shutdown collect =
     \<lparr>wc_spawn = (\<lambda>_ _ g.
        (length (crew_workers g), g\<lparr>crew_workers := crew_workers g @ [worker_init (started_monitor c mo) st]\<rparr>)),
      wc_stack = crew_stack c t sched,
      wc_shutdown = shutdown,
      wc_collect = collect\<rparr>"

definition crew_ok :: "(nat \<Rightarrow> tid) \<Rightarrow> ('v, 'c, 'o) crew \<Rightarrow> bool" where
  "crew_ok t g \<longleftrightarrow> (\<forall>i < length (crew_workers g). worker_inv (t i) (crew_workers g ! i) \<and> s_cpc (crew_workers g ! i) = CIdle \<and>
     (\<forall>a \<ge> crew_next g. cells (w_mem (s_data (crew_workers g ! i))) a = None))"

definition crew_alive :: "('v, 'c, 'o) crew \<Rightarrow> nat set" where
  "crew_alive g = {..< length (crew_workers g)}"

definition crew_stacked :: "('v, 'c, 'o) crew \<Rightarrow> nat \<Rightarrow> 'v list" where
  "crew_stacked g w = h_stacked (crew_workers g ! w)"

definition crew_refusing :: "('v, 'c, 'o) crew \<Rightarrow> nat \<Rightarrow> bool" where
  "crew_refusing g w = refuses (crew_workers g ! w)"

text \<open>What the moves of the workers keep.\<close>

definition crew_fine :: "(nat \<Rightarrow> tid) \<Rightarrow> addr \<Rightarrow> ('v, 'c, 'o) worker_sys list \<Rightarrow> bool" where
  "crew_fine t n ss \<longleftrightarrow> (\<forall>i < length ss. worker_inv (t i) (ss ! i) \<and> (\<forall>a \<ge> n. cells (w_mem (s_data (ss ! i))) a = None))"

lemma run_moves_steps: "(worker_moves c t)\<^sup>*\<^sup>* s (run_moves c t mvs s)"
proof (induction mvs arbitrary: s)
  case (Cons mv mvs)
  let ?s = "case worker_exec c t mv s of None \<Rightarrow> s | Some s' \<Rightarrow> if s_cpc s' = s_cpc s then s' else s"
  have "(worker_moves c t)\<^sup>*\<^sup>* s ?s"
  proof (cases "worker_exec c t mv s")
    case (Some s')
    note st = worker_exec_step [OF Some]
    show ?thesis
    proof (cases "s_cpc s' = s_cpc s")
      case True
      then have "worker_moves c t s s'" using st unfolding worker_moves_def by (rule conjI [rotated])
      then show ?thesis unfolding Some option.case if_P [OF True] by (rule r_into_rtranclp)
    next
      case False
      show ?thesis unfolding Some option.case if_not_P [OF False] by (rule rtranclp.rtrancl_refl)
    qed
  next
    case None
    show ?thesis unfolding None option.case by (rule rtranclp.rtrancl_refl)
  qed
  then show ?case unfolding run_moves.simps by (rule rtranclp_trans) (rule Cons.IH)
qed simp

lemma crew_run_nth: "length (crew_run c t sched k ss) = length ss"
  "i < length ss \<Longrightarrow> crew_run c t sched k ss ! i = run_moves c (t i) (sched k i) (ss ! i)"
  by (simp_all add: crew_run_def nth_enumerate_eq)

lemma crew_run_kept:
  assumes "crew_fine t n ss"
  shows "crew_fine t n (crew_run c t sched k ss) \<and> length (crew_run c t sched k ss) = length ss \<and>
    (\<forall>i < length ss. kept (ss ! i) (crew_run c t sched k ss ! i))"
proof -
  have "worker_inv (t i) (run_moves c (t i) (sched k i) (ss ! i)) \<and> kept (ss ! i) (run_moves c (t i) (sched k i) (ss ! i))"
    if "i < length ss" for i
    using worker_moves_many [OF run_moves_steps, of "t i" "ss ! i" c "sched k i"] assms that by (simp add: crew_fine_def)
  then show ?thesis using assms by (simp add: crew_fine_def kept_def crew_run_nth)
qed

lemma crew_fine_update:
  assumes "crew_fine t n ss" "worker_inv (t w) s" "\<And>a. a \<ge> n \<Longrightarrow> cells (w_mem (s_data s)) a = None"
  shows "crew_fine t n (ss[w := s])"
  using assms unfolding crew_fine_def by (metis length_list_update nth_list_update_eq nth_list_update_neq)

text \<open>The two halves of \<open>stack\<close> on an idle worker.\<close>

lemma exec_check:
  assumes "worker_inv t s" "s_cpc s = CIdle"
  shows "worker_exec c t (MCheck v) s = (if refuses s then None else Some (s\<lparr>s_cpc := CStack v\<rparr>))"
proof -
  have "mutex_avail (Suc 0) c (mon_mutex (w_monitor (s_data s)))" using assms(1) by (simp add: worker_inv_defs mutex_free_avail1)
  from check_avail [OF this, of stack_refused] assms(2) show ?thesis by (simp add: worker_exec_def refuses_def)
qed

lemma exec_add:
  assumes "worker_inv t s" "s_cpc s = CStack v" "cells (w_mem (s_data s)) a = None"
  shows "\<exists>s'. worker_exec c t (MAdd a) s = Some s' \<and> worker_inv t s' \<and> s_cpc s' = CIdle \<and> h_stacked s' = h_stacked s @ [v] \<and>
    refuses s' = refuses s \<and> (\<forall>b. b \<noteq> a \<longrightarrow> cells (w_mem (s_data s)) b = None \<longrightarrow> cells (w_mem (s_data s')) b = None)"
proof -
  have p: "worker_wf (s_data s)" "mutex_avail 1 c (mon_mutex (w_monitor (s_data s)))"
    using assms(1) by (simp_all add: worker_inv_defs mutex_free_avail1)
  from add_task_refines [OF p(1) assms(3) p(2), of v] obtain w where
    w: "pmmpthread_worker_add_task c a v (s_data s) = Ret (int (length (pending (s_data s))) + 1, w)"
      "w_monitor w = (if pending (s_data s) = [] then pmmpthread_monitor_notify (w_monitor (s_data s)) else w_monitor (s_data s))"
    by blast
  let ?s = "s\<lparr>s_data := w, s_cpc := CIdle, h_stacked := h_stacked s @ [v]\<rparr>"
  have "worker_exec c t (MAdd a) s = Some ?s" using assms(2,3) w(1) by (simp add: worker_exec_def)
  moreover have "refuses ?s = refuses s" using w(2) by (simp add: refuses_def pmmpthread_monitor_notify_def)
  ultimately show ?thesis using inv_stack_add [OF assms w(1)] add_task_none [OF w(1)] by simp
qed

lemma crew_stack_correct:
  fixes g :: "('v, 'c, 'o) crew" and v :: 'v and c :: tid and sched :: "('v, 'c, 'o) schedule"
  assumes "crew_ok t g" "w < length (crew_workers g)"
  defines "g' \<equiv> crew_stack c t sched w v g"
  shows "crew_ok t g' \<and> length (crew_workers g') = length (crew_workers g) \<and>
    (crew_stacked g' w = crew_stacked g w @ [v] \<and> \<not> crew_refusing g w \<or> crew_stacked g' w = crew_stacked g w \<and> crew_refusing g' w) \<and>
    (\<forall>u < length (crew_workers g). (crew_refusing g u \<longrightarrow> crew_refusing g' u) \<and> (u \<noteq> w \<longrightarrow> crew_stacked g' u = crew_stacked g u))"
proof -
  let ?k = "crew_clock g" and ?ss = "crew_workers g" and ?n = "crew_next g"
  define ss where "ss = crew_run c t sched ?k ?ss"
  have fine: "crew_fine t ?n ?ss" and idle: "\<And>i. i < length ?ss \<Longrightarrow> s_cpc (?ss ! i) = CIdle"
    using assms(1) by (auto simp: crew_ok_def crew_fine_def)
  note k1 = crew_run_kept [OF fine, of c sched ?k, folded ss_def]
  have w: "worker_inv (t w) (ss ! w)" "s_cpc (ss ! w) = CIdle" "w < length ss"
    using k1 idle assms(2) by (auto simp: crew_fine_def kept_def)
  note ck = exec_check [OF w(1,2), of c v]
  show ?thesis
  proof (cases "refuses (ss ! w)")
    case True
    then have "g' = g\<lparr>crew_workers := ss, crew_clock := ?k + 1\<rparr>" by (simp add: g'_def crew_stack_def Let_def ss_def [symmetric] ck)
    then show ?thesis using True k1 idle assms(2)
      by (auto simp: crew_ok_def crew_fine_def kept_def crew_stacked_def crew_refusing_def)
  next
    case False
    define s where "s = (ss ! w)\<lparr>s_cpc := CStack v\<rparr>"
    define ss1 where "ss1 = crew_run c t sched (?k + 1) (ss[w := s])"
    have ch: "worker_exec c (t w) (MCheck v) (ss ! w) = Some s" using ck False by (simp add: s_def)
    have "worker_inv (t w) s" using worker_inv_step [OF worker_exec_step [OF ch] w(1)] .
    then have "crew_fine t ?n (ss[w := s])"
      using crew_fine_update [of t ?n ss w s] k1 w(3) by (auto simp: crew_fine_def s_def)
    note k2 = crew_run_kept [OF this, of c sched "?k + 1", folded ss1_def]
    have w1: "worker_inv (t w) (ss1 ! w)" "s_cpc (ss1 ! w) = CStack v" "cells (w_mem (s_data (ss1 ! w))) ?n = None" "w < length ss1"
      using k2 w(3) by (auto simp: crew_fine_def kept_def s_def)
    from exec_add [OF w1(1-3), of c] obtain s1 where
      s1: "worker_exec c (t w) (MAdd ?n) (ss1 ! w) = Some s1" "worker_inv (t w) s1" "s_cpc s1 = CIdle"
        "h_stacked s1 = h_stacked (ss1 ! w) @ [v]" "refuses s1 = refuses (ss1 ! w)"
        "\<And>b. b \<noteq> ?n \<Longrightarrow> cells (w_mem (s_data (ss1 ! w))) b = None \<Longrightarrow> cells (w_mem (s_data s1)) b = None" by auto
    have g': "g' = g\<lparr>crew_workers := ss1[w := s1], crew_clock := ?k + 2, crew_next := ?n + 1\<rparr>"
      by (simp add: g'_def crew_stack_def Let_def ss_def [symmetric] ch ss1_def [symmetric, simplified] s1(1))
    have oth: "kept (?ss ! u) (ss1 ! u)" if "u < length ?ss" "u \<noteq> w" for u
      using that k1 k2 kept_trans by (metis length_list_update nth_list_update_neq)
    have own: "h_stacked (ss1 ! w) = h_stacked (?ss ! w)" "\<not> refuses (?ss ! w)"
      using k1 k2 w(3) False assms(2) by (auto simp: kept_def s_def)
    have "worker_inv (t i) (ss1[w := s1] ! i) \<and> s_cpc (ss1[w := s1] ! i) = CIdle \<and>
        (\<forall>a \<ge> ?n + 1. cells (w_mem (s_data (ss1[w := s1] ! i))) a = None)" if "i < length ss1" for i
    proof (cases "i = w")
      case True
      then show ?thesis using s1(2,3,6) k2 w1(4) by (auto simp: crew_fine_def)
    next
      case False
      then have "kept (?ss ! i) (ss1 ! i)" "i < length ?ss" using oth [of i] that k1 k2 by simp_all
      then show ?thesis using False that k2 idle [of i] by (auto simp: crew_fine_def kept_def)
    qed
    then have "crew_ok t g'" by (simp add: crew_ok_def g')
    then show ?thesis
      using s1(4) own oth k1 k2 w1(4) by (auto simp: g' crew_stacked_def crew_refusing_def kept_def nth_list_update)
  qed
qed

text \<open>The monitor of a new object, as \<open>pmmpthread_monitor_init\<close> leaves it.\<close>

definition fresh_monitor :: "nat \<Rightarrow> pmmpthread_monitor_t" where
  "fresh_monitor lim = the (snd (pmmpthread_monitor_init (lim + 2) 0 0))"

lemma fresh_monitor_facts: "mutex_free (mon_mutex (fresh_monitor lim))" "mon_state (fresh_monitor lim) = 0"
  by (simp_all add: fresh_monitor_def pmmpthread_monitor_init_def mutex_free_def)

lemma started_fresh:
  "mutex_free (mon_mutex (started_monitor c (fresh_monitor lim)))"
  "mon_state (started_monitor c (fresh_monitor lim)) AND PMMPTHREAD_MONITOR_JOINED = 0"
  using fresh_monitor_facts [of lim]
  by (simp_all add: started_monitor_def add_avail [OF mutex_free_avail1 [OF fresh_monitor_facts(1)]] monitor_flag_defs)

lemma worker_init_facts:
  "s_cpc (worker_init mo st) = CIdle" "h_stacked (worker_init mo st) = []" "cells (w_mem (s_data (worker_init mo st))) a = None"
  by (simp_all add: worker_init_def pmmpthread_worker_data_alloc_def)

interpretation crew: pool_workers
  "crew_calls c t (fresh_monitor lim) st sched shutdown collect :: (nat, 'a, 'v, ('v, 'c, 'o) crew) worker_calls"
  "crew_ok t" crew_alive crew_stacked crew_refusing
  for c t lim and st :: 'o and sched :: "('v, 'c, 'o) schedule" and shutdown collect
proof unfold_locales
  let ?W = "crew_calls c t (fresh_monitor lim) st sched shutdown collect :: (nat, 'a, 'v, ('v, 'c, 'o) crew) worker_calls"
  let ?s = "worker_init (started_monitor c (fresh_monitor lim)) st :: ('v, 'c, 'o) worker_sys"
  fix g :: "('v, 'c, 'o) crew" and cl a w g'
  assume "crew_ok t g" "wc_spawn ?W cl a g = (w, g')"
  moreover have "worker_inv u ?s" for u by (rule worker_inv_init [OF started_fresh])
  ultimately show "crew_ok t g' \<and> w \<notin> crew_alive g \<and> crew_alive g' = insert w (crew_alive g) \<and> crew_stacked g' w = [] \<and>
      (\<forall>u \<in> crew_alive g. crew_stacked g' u = crew_stacked g u \<and> (crew_refusing g u \<longrightarrow> crew_refusing g' u))"
    by (auto simp: crew_calls_def crew_ok_def crew_alive_def crew_stacked_def crew_refusing_def nth_append worker_init_facts less_Suc_eq)
next
  fix g :: "('v, 'c, 'o) crew" and w v
  let ?W = "crew_calls c t (fresh_monitor lim) st sched shutdown collect :: (nat, 'a, 'v, ('v, 'c, 'o) crew) worker_calls"
  let ?g = "wc_stack ?W w v g"
  assume "crew_ok t g" "w \<in> crew_alive g"
  then show "crew_ok t ?g \<and> crew_alive ?g = crew_alive g \<and>
      (crew_stacked ?g w = crew_stacked g w @ [v] \<and> \<not> crew_refusing g w \<or> crew_stacked ?g w = crew_stacked g w \<and> crew_refusing ?g w) \<and>
      (\<forall>u \<in> crew_alive g. (crew_refusing g u \<longrightarrow> crew_refusing ?g u) \<and> (u \<noteq> w \<longrightarrow> crew_stacked ?g u = crew_stacked g u))"
    using crew_stack_correct [of t g w c sched v] by (simp add: crew_calls_def crew_alive_def)
qed

section \<open>Properties\<close>

text \<open>
  C39: Submitting to a pool of positive size is round robin, whatever the workers do meanwhile. On a new pool the tasks go to the
  workers \<open>0, 1, ..., k - 1, 0, 1, ...\<close> in turn, where \<open>k\<close> is the size of the pool, and exactly as many workers are made as are needed.
  The tasks that have left the queue of worker \<open>i\<close>, followed by those still in it, are the tasks whose position is \<open>i\<close> modulo \<open>k\<close>, in
  this order; only a worker that has come to refuse tasks (a task of it failed, or it was told to stop) may miss the last of them.
\<close>

theorem pool_round_robin:
  assumes "p_class p = Some cls" "class_exists cls" "p_workers p = None" "p_last p = 0" "0 < p_size p" "crew_workers g = []"
    and "Pool_submits class_exists (crew_calls c t (fresh_monitor lim) st sched shutdown collect) xs p g = (rs, p', g')"
  shows "rs = map (\<lambda>j. Inr (int (j mod nat (p_size p)))) [0 ..< length xs] \<and>
    (\<forall>i. (map_of (pool_list p') (int i) \<noteq> None) = (i < min (nat (p_size p)) (length xs))) \<and>
    (\<forall>i w. map_of (pool_list p') (int i) = Some w \<longrightarrow>
       (let s = crew_workers g' ! w in
        \<exists>missed. map ((!) xs) (filter (\<lambda>j. j mod nat (p_size p) = i) [0 ..< length xs]) =
            map fst (h_taken s) @ pending (s_data s) @ missed \<and>
          (mon_state (w_monitor (s_data s)) AND stack_refused = 0 \<longrightarrow> missed = [])))"
proof -
  have k: "pool_width (p_size p) = nat (p_size p)" using assms(5) by (simp add: pool_width_def)
  have "crew.fed t class_exists [] p g" using crew.fed_fresh [of t g p cls class_exists] assms(1-6) by (simp add: crew_ok_def)
  from crew.fed_submits [OF this, of c lim st sched shutdown collect xs] assms(7)
  have f: "crew.fed t class_exists xs p' g'" "p_size p' = p_size p"
    "rs = map (\<lambda>j. Inr (int (j mod nat (p_size p)))) [0 ..< length xs]" by (simp_all add: k)
  have "h_stacked (crew_workers g' ! w) = map fst (h_taken (crew_workers g' ! w)) @ pending (s_data (crew_workers g' ! w))"
    if "map_of (pool_list p') (int i) = Some w" for i w
    using f(1) that by (auto simp: crew.fed_def crew_alive_def crew_ok_def worker_inv_def inv_history_def)
  then show ?thesis
    using f by (fastforce simp: crew.fed_def k given_def share_def crew_stacked_def crew_refusing_def refuses_def Let_def)
qed

definition demo_pool :: "int \<Rightarrow> (nat, unit) pool" where
  "demo_pool n = \<lparr>p_size = n, p_class = Some ''Worker'', p_workers = None, p_ctor = None, p_last = 0\<rparr>"

definition demo_crew :: "(nat, nat, unit) crew" where
  "demo_crew = \<lparr>crew_workers = [], crew_next = 0, crew_clock = 0\<rparr>"

text \<open>A schedule where the first worker makes the given moves before the second task is submitted.\<close>

definition demo_schedule :: "(nat, nat, unit) worker_move list \<Rightarrow> (nat, nat, unit) schedule" where
  "demo_schedule mvs k i = (if k = 2 \<and> i = 0 then mvs else [])"

definition demo_calls :: "(nat, nat, unit) worker_move list \<Rightarrow> (nat, unit, nat, (nat, nat, unit) crew) worker_calls" where
  "demo_calls mvs = crew_calls 1 (\<lambda>i. i + 2) (fresh_monitor 3) () (demo_schedule mvs) (\<lambda>_ g. g) (\<lambda>_ g. (0, g))"

lemmas pool_eval =
  demo_calls_def demo_pool_def demo_crew_def demo_schedule_def crew_calls_def crew_stack_def crew_run_def fresh_monitor_def
  started_monitor_def pmmpthread_monitor_init_def Pool_submit_def pool_list_def worker_eval

lemma demo_running:
  "\<exists>p g s0 s1. Pool_submits (\<lambda>_. True) (demo_calls [MNext]) [10, 20, 30] (demo_pool 2) demo_crew = ([Inr 0, Inr 1, Inr 0], p, g) \<and>
     pool_list p = [(0, 0), (1, 1)] \<and> crew_workers g = [s0, s1] \<and>
     s_pc s0 = InTask 10 \<and> map fst (h_taken s0) = [10] \<and> mon_state (w_monitor (s_data s0)) AND stack_refused = 0"
  by (simp add: pool_eval)

lemma demo_failing:
  "\<exists>p g s0. Pool_submits (\<lambda>_. True) (demo_calls [MNext, MFail]) [10, 20] (demo_pool 1) demo_crew = ([Inr 0, Inr 0], p, g) \<and>
     pool_list p = [(0, 0)] \<and> crew_workers g = [s0] \<and> s_pc s0 = Failing 10 \<and> map fst (h_taken s0) = [10] \<and> h_stacked s0 = [10]"
  by (simp add: pool_eval)

theorem pool_round_robin_witness:
  "(\<exists>p g. Pool_submits (\<lambda>_. True) (demo_calls [MNext]) [10, 20, 30] (demo_pool 2) demo_crew = ([Inr 0, Inr 1, Inr 0], p, g) \<and>
     s_pc (crew_workers g ! 0) = InTask 10 \<and> pending (s_data (crew_workers g ! 0)) = [30]) \<and>
   (\<exists>p g missed. Pool_submits (\<lambda>_. True) (demo_calls [MNext, MFail]) [10, 20] (demo_pool 1) demo_crew = ([Inr 0, Inr 0], p, g) \<and>
     s_pc (crew_workers g ! 0) = Failing 10 \<and> pending (s_data (crew_workers g ! 0)) @ missed = [20])"
proof -
  obtain p g s0 s1 where r: "Pool_submits (\<lambda>_. True) (demo_calls [MNext]) [10, 20, 30] (demo_pool 2) demo_crew = ([Inr 0, Inr 1, Inr 0], p, g)"
    "pool_list p = [(0, 0), (1, 1)]" "crew_workers g = [s0, s1]" "s_pc s0 = InTask 10" "map fst (h_taken s0) = [10]"
    "mon_state (w_monitor (s_data s0)) AND stack_refused = 0" using demo_running by (elim exE conjE)
  obtain p1 g1 s2 where f: "Pool_submits (\<lambda>_. True) (demo_calls [MNext, MFail]) [10, 20] (demo_pool 1) demo_crew = ([Inr 0, Inr 0], p1, g1)"
    "pool_list p1 = [(0, 0)]" "crew_workers g1 = [s2]" "s_pc s2 = Failing 10" "map fst (h_taken s2) = [10]" using demo_failing by (elim exE conjE) auto
  have d: "p_class (demo_pool n) = Some ''Worker''" "p_workers (demo_pool n) = None" "p_last (demo_pool n) = 0" "p_size (demo_pool n) = n"
    "crew_workers demo_crew = []" for n by (simp_all add: demo_pool_def demo_crew_def)
  have "pending (s_data s0) = [30]"
    using pool_round_robin [OF d(1) TrueI d(2,3) _ d(5) r(1) [unfolded demo_calls_def], THEN conjunct2, THEN conjunct2, THEN spec, of 0, THEN spec, of 0]
      r(2,3,5,6) by (simp add: d(4) upt_rec Let_def)
  moreover have "\<exists>missed. pending (s_data s2) @ missed = [20]"
    using pool_round_robin [OF d(1) TrueI d(2,3) _ d(5) f(1) [unfolded demo_calls_def], THEN conjunct2, THEN conjunct2, THEN spec, of 0, THEN spec, of 0]
      f(2,3,5) by (auto simp: d(4) upt_rec Let_def)
  ultimately show ?thesis using r f by auto
qed

text \<open>
  C40: Resizing ends and does what it says whenever the keys of the workers are the numbers below their count and the new size is
  not negative: the workers from the new size on are shut down, the last one first, and removed, and the others stay.
\<close>

theorem pool_resize_correct:
  assumes "p_workers p = Some ws" "dense ws" "length ws = k + Suc n"
  shows "\<exists>ws1. Pool_resize W (int k) p g =
      Some (p\<lparr>p_workers := Some ws1, p_size := int k\<rparr>, shut_down (wc_shutdown W) ws k (Suc n) g) \<and>
    dense ws1 \<and> length ws1 = k \<and> (\<forall>i. 0 \<le> i \<and> i < int k \<longrightarrow> map_of ws1 i = map_of ws i)"
  using resize_loop_dense [OF assms(2,3), of "wc_shutdown W" g] assms(1,3) by (auto simp: Pool_resize_def)

definition demo_log :: "(char, unit, nat, char list) worker_calls" where
  "demo_log = \<lparr>wc_spawn = (\<lambda>_ _ g. (CHR ''n'', g)), wc_stack = (\<lambda>_ _ g. g), wc_shutdown = (\<lambda>w g. g @ [w]), wc_collect = (\<lambda>_ g. (0, g))\<rparr>"

theorem pool_resize_correct_witness:
  "\<exists>ws1. Pool_resize demo_log 1 \<lparr>p_size = 3, p_class = None, p_workers = Some [(0, CHR ''a''), (1, CHR ''b''), (2, CHR ''c'')], p_ctor = None, p_last = 0\<rparr> [] =
     Some (\<lparr>p_size = 1, p_class = None, p_workers = Some ws1, p_ctor = None, p_last = 0\<rparr>, ''cb'') \<and> length ws1 = 1"
proof -
  let ?p = "\<lparr>p_size = 3, p_class = None, p_workers = Some [(0, CHR ''a''), (1, CHR ''b''), (2, CHR ''c'')], p_ctor = None, p_last = 0\<rparr> :: (char, unit) pool"
  have "p_workers ?p = Some [(0, CHR ''a''), (1, CHR ''b''), (2, CHR ''c'')]" "dense [(0, CHR ''a''), (1, CHR ''b''), (2, CHR ''c'')]"
    "length [(0 :: int, CHR ''a''), (1, CHR ''b''), (2, CHR ''c'')] = 1 + Suc 1"
    by (auto simp: dense_def)
  from pool_resize_correct [OF this, of demo_log "[]"] show ?thesis by (auto simp: demo_log_def)
qed

text \<open>
  Resizing a pool that has workers to a negative size never returns: the loop passes zero workers and goes on.
\<close>

theorem pool_resize_negative_diverges:
  assumes "p_workers p = Some ws" "newsize < 0"
  shows "Pool_resize W newsize p g = None"
proof (cases "resize_loop (wc_shutdown W) newsize ws g")
  case None
  then show ?thesis using assms by (simp add: Pool_resize_def)
next
  case (Some r)
  then show ?thesis using resize_loop_negative [OF Some] assms(2) by simp
qed

theorem pool_resize_negative_diverges_witness:
  "Pool_resize demo_log (- 1) \<lparr>p_size = 1, p_class = None, p_workers = Some [(0, CHR ''a'')], p_ctor = None, p_last = 0\<rparr> [] = None"
  by (rule pool_resize_negative_diverges [of _ "[(0, CHR ''a'')]"]) simp_all
end
