(* ===== verification/Spec2Isabelle.thy ===== *)
theory Spec2Isabelle
  imports Module Pool
begin

text \<open>
  \<^bold>\<open>A verification of ext-pmmpthread\<close>

  ext-pmmpthread is an extension of PHP that runs PHP code on several threads. Each thread has an interpreter of its own; what threads share are
  thread-safe objects. The extension has these parts, and the theories model them in this order.

  \<^bold>\<open>Parts, theories and sources\<close>

  \<^item> Prelude: outcomes of operations that may block or touch invalid memory (\<open>Ret\<close>, \<open>Block\<close>, \<open>Fault\<close>), pointers and cells, shared lemmas.
  \<^item> Queue (src/queue.c): the doubly linked list of values, as items in a heap. Refined to a list by the locale \<open>fifo_queue\<close>.
  \<^item> Monitor (src/monitor.c): a recursive mutex, a condition variable and a word of flags. Every function on one monitor, and a step relation of any number of
    threads that add, remove and await flags. The locale \<open>monitor_lock\<close> is what clients need of lock and unlock.
  \<^item> Worker, Worker_Threads, Worker_Moves (src/worker.c, classes/worker.c): pending, running and finished tasks; each function is a critical section. \<open>worker_step\<close>
    interleaves the creator and the worker thread; Worker_Moves is what a client that stacks tasks may rely on while the worker runs.
  \<^item> Routine (src/routine.c, classes/runnable.c): start, run and join; \<open>routine_step\<close> interleaves the creator and the thread.
  \<^item> Pool (classes/pool.c): the pool of workers over the method calls on workers (locale \<open>pool_workers\<close>).
  \<^item> Zend_Hash: the hash table of the engine, which is not part of the program: a record of functions, the locale \<open>zend_hash\<close> with its laws, and a concrete
    table that satisfies them.
  \<^item> Objects (src/globals.c, src/thread.h, src/store_types.h, part of src/object.c): the record \<open>world\<close> with shared parts (\<open>pmmpthread_object_t\<close>), connections
    (\<open>pmmpthread_zend_object_t\<close>), the global tables and the tables of each thread; finding and making a connection.
  \<^item> Store, Store_Correct, Store_Cache, Store_Properties (src/store.c): the property store of a shared part and its cache in each connection.
  \<^item> Object_Life (src/object.c): constructors with default values, destructor, release, iterator.
  \<^item> Handlers (src/handlers.c): reading, writing, testing and unsetting properties and elements, with magic methods, guards and hooks.
  \<^item> Thread_Safe (classes/thread_safe.c, classes/thread_safe_array.c): waiting, notifying, synchronized blocks, array methods.
  \<^item> Code_Data, Copy, Copy_Correct (src/copy.c): values, constant expressions, opcodes, functions and closures copied to another thread.
  \<^item> Prepare, Prepare_Frame, Class_Tables, Prepare_Correct (first half of src/prepare.c): classes copied to another thread. The locales \<open>copy_frame\<close> and \<open>class_frame\<close>
    say which relations between states copying and preparing respect.
  \<^item> Startup, Startup_Correct (second half of src/prepare.c): directives, constants, functions, classes and files a new thread inherits; its start and its end.
  \<^item> Module (php_pmmpthread.c, classes/thread.c, src/ext_sockets_hacks.c): registration, requests, shared globals, sockets.

  A method call on a shared object goes from Handlers or Thread_Safe to Store, which works inside the monitor of the shared part and updates the cache of the
  connection. A thread is started through Routine: the new thread runs Startup, which uses Prepare and Copy, signals its creator through a monitor, and runs the task;
  a worker takes its tasks from Worker. Values that cross threads are stored by Store, connected by Objects, or copied by Copy.

  \<^bold>\<open>State and operations\<close>

  A C function is a HOL function on the state it touches that returns the new state; its name is the one of the source. Inner loops and branches that
  are used in several places have definitions of their own. An operation that may wait returns an \<open>outcome\<close>: blocking on a mutex and invalid accesses are values.
  Copying returns \<open>copied\<close>: a result, a fatal error of the source, an access the source does not guard (\<open>Stuck\<close>), or too little fuel. Exceptions are recorded per thread.
  Flag words, options and reference arithmetic that may wrap are words; array keys and PHP integers are integers with the bounds of the source.

  \<^bold>\<open>What is shown\<close>

  \<^item> Concurrency: mutual exclusion, no lost wake-up, no deadlock between start, run and join, hand-over of the results in join, flags that tell the state of a thread;
    tasks are neither lost nor doubled nor reordered, a worker never sleeps on work and drains its queue before it ends; a pool spreads tasks in turn over its running
    workers. A creator that joins inside a \<open>synchronized\<close> block on the thread never returns; the other theorems on threads are about calls outside such blocks.
  \<^item> Data structures: the queue and the ends of a store refine lists; cleaning, chunks and iterations end and visit everything once.
  \<^item> Coherence: what one thread writes every thread reads, directly and through the handlers, except that the writer reads an item of its cache when it overlooked the
    write (\<open>overlooked\<close>); but for that item caches stay in step; deletion is seen; refused values change nothing.
  \<^item> Ownership: reference counts equal the number of connections; the last release frees; strings outlive the thread that wrote them.
  \<^item> Copies: equal content and no shared memory; constant expressions exactly fill their block; operands keep their meaning; functions and classes are copied once;
    a prepared class mirrors its original and shares the static members of its ancestors, its own ones being copies; classes that are complete never change, and entries of
    the class table stay but for immutable anonymous classes that were not linked (\<open>replaceable\<close>), which the linked class may replace. Static members that cannot be copied
    violate an assertion of the source (\<open>Stuck\<close>).
  \<^item> Environment: a thread inherits exactly what its options say; directives and constants in detail, the fatal error for constants that cannot be copied included; all threads share one array of globals.
  \<^item> Deviations from what the code means to do, such as a negative pool size, a stale cache after a write, joining inside \<open>synchronized\<close>, access levels of directives: shown as lemmas or parts of the properties.

  \<^bold>\<open>Loops, recursion and fuel\<close>

  Loops over linked lists that end only if the list is sound are partial functions; that they end is shown for sound lists. \<open>chunk_loop\<close> takes one pass per element, and one
  more than the number of elements is enough. \<open>full_sync\<close> recurses through objects that hold objects; its fuel bounds the depth. \<open>iterate\<close> needs more turns than the table has entries.
  \<open>pmmpthread_copy_function_ex\<close> and \<open>pmmpthread_copy_closure\<close> recurse into nested functions, \<open>pmmpthread_create_entry\<close> into the classes a class leads to,
  \<open>copy_property_info\<close> into prototypes and hooks, \<open>link_statics\<close> into ancestors: the number is the depth, and \<open>No_fuel\<close> is never taken for a result. Copies of data
  and the static members of a class are shown to be made; the other theorems on classes speak about a preparation that ended, since what user classes lead to is unbounded.

  \<^bold>\<open>Parameters\<close>

  Code outside the repository is an argument: the hash table (\<open>zend_hash_api\<close>, with the locale \<open>zend_hash\<close>), conversions and tables of the engine (\<open>store_env\<close>), magic methods,
  hooks and type checks (\<open>handler_class\<close>), method calls of user classes (\<open>worker_calls\<close> and the arguments of \<open>Pool_submit\<close>), memory layout and code of the origin thread (\<open>copy_env\<close>,
  \<open>prep_env\<close>), directives, request start-up and shutdown, the shutdown functions of PHP scripts (\<open>engine\<close>). The moves
  of the workers of a pool between two critical sections of its owner are a schedule, which is arbitrary. Hypotheses about them are named predicates, and each property with hypotheses has a
  theorem that uses it on a concrete instance.

  \<^bold>\<open>Not modelled\<close>

  Parsing of PHP parameters and the tables of argument types generated from the stubs; the page of phpinfo; headers with declarations and macros that only select fields of
  engine globals; giving memory back, apart from shared objects, stored values and queue items; branches for PHP before 8.4; building, packaging, tests and examples. The memory
  model is that of critical sections: a step is one critical section, which Monitor shows to exclude each other.
\<close>

end
